(* ===== verification/Prelude.thy ===== *)
theory Prelude
  imports Main "HOL-Library.Word" "HOL-Library.Monad_Syntax"
begin

text \<open>
  Names and facts shared by every component: the machine integers at their width, strings
  as byte strings (a HOL \<open>char\<close> is exactly one byte, as a C++ \<open>char\<close> is), the result
  type of the fallible operations, and small lemmas on options, sums and lists that carry the
  proofs of the components. \<open>wire_simps\<close> collects the rewrite rules of the codecs.
\<close>

unbundle bit_operations_syntax

named_theorems wire_simps \<open>round-trip and length rules of the wire codecs\<close>

section \<open>Machine integers and bytes\<close>

type_synonym u8 = "8 word"
type_synonym u16 = "16 word"
type_synonym u32 = "32 word"
type_synonym u64 = "64 word"

text \<open>\<open>int16_t\<close> and \<open>int32_t\<close> values are words read with \<open>sint\<close>.\<close>

type_synonym i16 = "16 word"
type_synonym i32 = "32 word"
type_synonym bytes = "u8 list"

definition byte_of_char :: "char \<Rightarrow> u8" where
  "byte_of_char c = word_of_nat (of_char c)"

definition char_of_byte :: "u8 \<Rightarrow> char" where
  "char_of_byte b = char_of (unat b)"

lemma of_char_less_256 [simp]: "(of_char c :: nat) < 256"
proof -
  have "(of_char c :: nat) mod 256 = of_char c" by simp
  then show ?thesis by (metis mod_less_divisor zero_less_numeral)
qed

lemma char_of_byte_of_char [simp]: "char_of_byte (byte_of_char c) = c"
  by (simp add: char_of_byte_def byte_of_char_def unat_of_nat)

lemma byte_of_char_of_byte [simp]: "byte_of_char (char_of_byte b) = b"
proof -
  have "unat b < 256" using unsigned_less [of b] by simp
  then show ?thesis by (simp add: char_of_byte_def byte_of_char_def)
qed

lemma map_char_byte [simp]:
  "map char_of_byte (map byte_of_char s) = s" "map byte_of_char (map char_of_byte bs) = bs"
  by (simp_all add: comp_def)

lemma map_byte_of_char_inject [simp]:
  "map byte_of_char s = map byte_of_char t \<longleftrightarrow> s = t"
  by (metis map_char_byte(1))

section \<open>Errors as values\<close>

text \<open>
  Every fallible operation of the program that reports a text (a \<open>ParseError\<close>, a thrown
  \<open>std::invalid_argument\<close>, a \<open>std::string* error\<close>) returns \<open>Inl\<close> of the text.
\<close>

type_synonym 'a result = "string + 'a"

definition check :: "bool \<Rightarrow> string \<Rightarrow> unit result" where
  "check c msg = (if c then Inr () else Inl msg)"

lemma check_eq_Inr [simp]: "check c msg = Inr u \<longleftrightarrow> c"
  by (simp add: check_def)

lemma check_eq_Inl [simp]: "check c msg = Inl e \<longleftrightarrow> \<not> c \<and> e = msg"
  by (auto simp: check_def)

definition and_then :: "unit result \<Rightarrow> 'a result \<Rightarrow> 'a result" where
  "and_then a b = (case a of Inl e \<Rightarrow> Inl e | Inr _ \<Rightarrow> b)"

lemma and_then_eq_Inr [simp]: "and_then a b = Inr u \<longleftrightarrow> a = Inr () \<and> b = Inr u"
  by (cases a) (auto simp: and_then_def)

lemma and_then_Inr [simp]: "and_then (Inr ()) b = b"
  by (simp add: and_then_def)

text \<open>The layout reads return no value on failure; \<open>require\<close> gives the failure its message.\<close>

definition require :: "string \<Rightarrow> 'a option \<Rightarrow> 'a result" where
  "require msg v = (case v of None \<Rightarrow> Inl msg | Some x \<Rightarrow> Inr x)"

lemma require_eq_Inr [simp]: "require msg v = Inr x \<longleftrightarrow> v = Some x"
  by (cases v) (auto simp: require_def)

lemma require_simps [simp]: "require msg None = Inl msg" "require msg (Some y) = Inr y"
  by (simp_all add: require_def)

definition bind_result :: "'a result \<Rightarrow> ('a \<Rightarrow> 'b result) \<Rightarrow> 'b result" where
  "bind_result r f = (case r of Inl e \<Rightarrow> Inl e | Inr x \<Rightarrow> f x)"

lemma bind_result_eq_Inr [simp]: "bind_result r f = Inr y \<longleftrightarrow> (\<exists>x. r = Inr x \<and> f x = Inr y)"
  by (cases r) (auto simp: bind_result_def)

lemma bind_result_simps [simp]: "bind_result (Inl e) f = Inl e" "bind_result (Inr x) f = f x"
  by (simp_all add: bind_result_def)

definition checks :: "(bool \<times> string) list \<Rightarrow> unit result" where
  "checks cs = foldr (\<lambda>(c, m) r. and_then (check c m) r) cs (Inr ())"

lemma checks_Nil [simp]: "checks [] = Inr ()"
  by (simp add: checks_def)

lemma checks_Cons [simp]: "checks ((c, m) # cs) = and_then (check c m) (checks cs)"
  by (simp add: checks_def)

text \<open>A loop over a list that stops at the first failure.\<close>

fun map_result :: "('a \<Rightarrow> 'b result) \<Rightarrow> 'a list \<Rightarrow> 'b list result" where
  "map_result f [] = Inr []"
| "map_result f (x # xs) = bind_result (f x) (\<lambda>y. bind_result (map_result f xs) (\<lambda>ys. Inr (y # ys)))"

lemma map_result_eq_Inr: "map_result f xs = Inr ys \<longleftrightarrow> list_all2 (\<lambda>x y. f x = Inr y) xs ys"
  by (induction xs arbitrary: ys) (auto simp: list_all2_Cons1)

lemma unit_result_cases: "(r :: unit result) = Inr () \<or> (\<exists>e. r = Inl e)"
  by (cases r) auto

lemma checks_eq_Inr: "checks cs = Inr () \<longleftrightarrow> (\<forall>(c, m) \<in> set cs. c)"
  by (induction cs) auto

section \<open>Lists\<close>

lemma append_eq_take_drop: "xs = ys @ zs \<longleftrightarrow> length ys \<le> length xs \<and> take (length ys) xs = ys \<and> drop (length ys) xs = zs"
  by (metis append_eq_conv_conj append_take_drop_id length_append le_add1)

section \<open>Masks\<close>

lemma unat_and_not_mask:
  fixes c :: "'a::len word"
  shows "unat (c AND NOT (mask n)) = unat c div 2 ^ n * 2 ^ n"
proof -
  have "c AND NOT (mask n) = push_bit n (drop_bit n c)"
    by (rule bit_eqI) (auto simp: bit_simps)
  moreover have "unat (push_bit n (drop_bit n c)) = push_bit n (drop_bit n (unat c))"
    by (rule bit_eqI) (auto simp: bit_simps unsigned_drop_bit_eq, metis bit_imp_le_length)
  ultimately show ?thesis by (simp add: push_bit_eq_mult drop_bit_eq_div)
qed

lemma unat_and_mask:
  fixes c :: "'a::len word"
  shows "unat (c AND mask n) = unat c mod 2 ^ n"
  by (simp only: take_bit_eq_mask [symmetric] unsigned_take_bit_eq) (simp only: take_bit_eq_mod)

lemma unat_u16_le: "unat (v :: u16) \<le> 65535"
proof -
  have "unat v < 2 ^ 16" using unsigned_less [of v, where ?'a = nat] by simp
  then show ?thesis by simp
qed

section \<open>Decimal numbers\<close>

text \<open>\<open>std::to_string\<close> of an integer, and the value of a string of digits.\<close>

definition digit_char :: "nat \<Rightarrow> char" where
  "digit_char d = char_of (48 + d)"

definition is_digit :: "char \<Rightarrow> bool" where
  "is_digit c \<longleftrightarrow> 48 \<le> (of_char c :: nat) \<and> (of_char c :: nat) \<le> 57"

definition digit_value :: "char \<Rightarrow> nat" where
  "digit_value c = of_char c - 48"

lemma digit_chars [simp]:
  "digit_char 0 = CHR ''0''" "digit_char 1 = CHR ''1''" "digit_char (Suc 0) = CHR ''1''" "digit_char 2 = CHR ''2''"
  "digit_char 3 = CHR ''3''" "digit_char 4 = CHR ''4''" "digit_char 5 = CHR ''5''"
  "digit_char 6 = CHR ''6''" "digit_char 7 = CHR ''7''" "digit_char 8 = CHR ''8''" "digit_char 9 = CHR ''9''"
  by (simp_all add: digit_char_def char_of_def bit_Suc_0_iff)

fun decimal :: "nat \<Rightarrow> string" where
  "decimal n = (if n < 10 then [digit_char n] else decimal (n div 10) @ [digit_char (n mod 10)])"

declare decimal.simps [simp del]

definition to_string :: "int \<Rightarrow> string" where
  "to_string i = (if i < 0 then ''-'' @ decimal (nat (- i)) else decimal (nat i))"

definition decimal_value :: "string \<Rightarrow> nat" where
  "decimal_value s = foldl (\<lambda>v c. v * 10 + digit_value c) 0 s"

lemma digit_value_char [simp]: "d < 10 \<Longrightarrow> digit_value (digit_char d) = d"
  by (simp add: digit_value_def digit_char_def)

lemma is_digit_char [simp]: "d < 10 \<Longrightarrow> is_digit (digit_char d)"
  by (simp add: is_digit_def digit_char_def)

lemma decimal_value_append [simp]:
  "decimal_value (s @ [c]) = decimal_value s * 10 + digit_value c"
  by (simp add: decimal_value_def)

lemma decimal_value_decimal [simp]: "decimal_value (decimal n) = n"
proof (induction n rule: decimal.induct)
  case (1 n)
  show ?case
  proof (cases "n < 10")
    case True
    then show ?thesis by (simp add: decimal.simps [of n] decimal_value_def)
  next
    case False
    with 1 show ?thesis by (simp add: decimal.simps [of n])
  qed
qed

lemma decimal_digits [simp]: "list_all is_digit (decimal n)"
proof (induction n rule: decimal.induct)
  case (1 n)
  then show ?case by (cases "n < 10") (simp_all add: decimal.simps [of n])
qed

lemma decimal_not_Nil [simp]: "decimal n \<noteq> []"
  by (simp add: decimal.simps [of n])

lemma decimal_inject [simp]: "decimal m = decimal n \<longleftrightarrow> m = n"
  by (metis decimal_value_decimal)

section \<open>Text\<close>

text \<open>The functions of \<open>cctype\<close> in the C locale.\<close>

definition is_space :: "char \<Rightarrow> bool" where
  "is_space c \<longleftrightarrow> (9 \<le> (of_char c :: nat) \<and> (of_char c :: nat) \<le> 13) \<or> (of_char c :: nat) = 32"

definition is_alnum :: "char \<Rightarrow> bool" where
  "is_alnum c \<longleftrightarrow> (let n = (of_char c :: nat) in 48 \<le> n \<and> n \<le> 57 \<or> 65 \<le> n \<and> n \<le> 90 \<or> 97 \<le> n \<and> n \<le> 122)"

definition to_lower :: "char \<Rightarrow> char" where
  "to_lower c = (if 65 \<le> (of_char c :: nat) \<and> (of_char c :: nat) \<le> 90 then char_of ((of_char c :: nat) + 32) else c)"

definition to_upper :: "char \<Rightarrow> char" where
  "to_upper c = (if 97 \<le> (of_char c :: nat) \<and> (of_char c :: nat) \<le> 122 then char_of ((of_char c :: nat) - 32) else c)"

definition starts_with :: "'a list \<Rightarrow> 'a list \<Rightarrow> bool" where
  "starts_with s p \<longleftrightarrow> take (length p) s = p"

text \<open>\<open>find\<close> of a text in another is not \<open>npos\<close>.\<close>

fun contains :: "'a list \<Rightarrow> 'a list \<Rightarrow> bool" where
  "contains [] p \<longleftrightarrow> p = []"
| "contains (c # s) p \<longleftrightarrow> starts_with (c # s) p \<or> contains s p"

text \<open>The pieces between the occurrences of a character; the lines \<open>std::getline\<close> gives; one \<open>>>\<close> into a
  string.\<close>

fun split_on :: "'a \<Rightarrow> 'a list \<Rightarrow> 'a list list" where
  "split_on c [] = [[]]"
| "split_on c (x # xs) =
     (if x = c then [] # split_on c xs
      else (case split_on c xs of [] \<Rightarrow> [[x]] | p # ps \<Rightarrow> (x # p) # ps))"

definition getlines :: "string \<Rightarrow> string list" where
  "getlines s = (let ps = split_on (CHR 0x0A) s in if last ps = [] then butlast ps else ps)"

definition read_word :: "string \<Rightarrow> (string \<times> string) option" where
  "read_word s =
     (let s = dropWhile is_space s; w = takeWhile (\<lambda>c. \<not> is_space c) s
      in if w = [] then None else Some (w, drop (length w) s))"

definition chop_cr :: "string \<Rightarrow> string" where
  "chop_cr line = (if line \<noteq> [] \<and> last line = CHR 0x0D then butlast line else line)"

lemma contains_start: "starts_with s p \<Longrightarrow> contains s p"
  by (cases s) (simp_all add: starts_with_def)

lemma contains_append: "contains (xs @ p @ ys) p"
  by (induction xs) (simp_all add: contains_start starts_with_def)

lemma read_word_less: "read_word s = Some (w, r) \<Longrightarrow> length r < length s"
proof -
  assume r: "read_word s = Some (w, r)"
  then have w: "w \<noteq> []" "w = takeWhile (\<lambda>c. \<not> is_space c) (dropWhile is_space s)"
    "r = drop (length w) (dropWhile is_space s)"
    by (auto simp: read_word_def Let_def split: if_splits)
  then have "length w \<le> length (dropWhile is_space s)" by (simp add: length_takeWhile_le)
  moreover have "length (dropWhile is_space s) \<le> length s" by (rule length_dropWhile_le)
  moreover have "0 < length w" using w(1) by simp
  moreover have "length r = length (dropWhile is_space s) - length w" using w(3) by simp
  ultimately show ?thesis by linarith
qed

end
