(* ===== verification/Wire.thy ===== *)
theory Wire
  imports Prelude
begin

text \<open>
  The little-endian \<open>Writer\<close> and \<open>Reader\<close> of \<open>protocol/cpp/paddraw_protocol.cpp\<close>. A writer is the
  list of bytes it appends; a reader is the list of bytes between \<open>current_\<close> and
  \<open>end_\<close>, and a read returns the value with the bytes that are left, or \<open>None\<close>
  where the member returns \<open>false\<close>.

  \<open>wire_codec\<close> is the interface the payload layouts rely on: a read undoes a write
  whatever follows, and a successful read has consumed exactly what the write of its value
  produces. Every primitive of the reader and writer is an interpretation of it.
\<close>

section \<open>The writer\<close>

definition put_u8 :: "u8 \<Rightarrow> bytes" where
  "put_u8 v = [v]"

definition put_u16 :: "u16 \<Rightarrow> bytes" where
  "put_u16 v = put_u8 (ucast v) @ put_u8 (ucast (drop_bit 8 v))"

definition put_le :: "nat \<Rightarrow> 'a::len word \<Rightarrow> bytes" where
  "put_le n v = concat (map (\<lambda>i. put_u8 (ucast (drop_bit (8 * i) v))) [0..<n])"

definition put_u32 :: "u32 \<Rightarrow> bytes" where
  "put_u32 v = put_le 4 v"

definition put_u64 :: "u64 \<Rightarrow> bytes" where
  "put_u64 v = put_le 8 v"

definition put_i16 :: "i16 \<Rightarrow> bytes" where
  "put_i16 v = put_u16 v"

definition put_bytes :: "bytes \<Rightarrow> bytes" where
  "put_bytes bs = bs"

definition put_string :: "string \<Rightarrow> bytes" where
  "put_string s = map byte_of_char s"

section \<open>The reader\<close>

fun get_u8 :: "bytes \<Rightarrow> (u8 \<times> bytes) option" where
  "get_u8 [] = None"
| "get_u8 (b # r) = Some (b, r)"

definition get_u16 :: "bytes \<Rightarrow> (u16 \<times> bytes) option" where
  "get_u16 bs = do {
     (a, r) \<leftarrow> get_u8 bs;
     (b, r) \<leftarrow> get_u8 r;
     Some (ucast a OR push_bit 8 (ucast b), r) }"

fun get_le :: "nat \<Rightarrow> nat \<Rightarrow> 'a::len word \<Rightarrow> bytes \<Rightarrow> ('a word \<times> bytes) option" where
  "get_le 0 i v bs = Some (v, bs)"
| "get_le (Suc n) i v bs = do {
     (b, r) \<leftarrow> get_u8 bs;
     get_le n (Suc i) (v OR push_bit (8 * i) (ucast b)) r }"

definition get_u32 :: "bytes \<Rightarrow> (u32 \<times> bytes) option" where
  "get_u32 bs = get_le 4 0 0 bs"

definition get_u64 :: "bytes \<Rightarrow> (u64 \<times> bytes) option" where
  "get_u64 bs = get_le 8 0 0 bs"

definition get_i16 :: "bytes \<Rightarrow> (i16 \<times> bytes) option" where
  "get_i16 bs = do { (raw, r) \<leftarrow> get_u16 bs; Some (raw, r) }"

definition get_bytes :: "nat \<Rightarrow> bytes \<Rightarrow> (bytes \<times> bytes) option" where
  "get_bytes n bs = (if length bs < n then None else Some (take n bs, drop n bs))"

definition get_string :: "nat \<Rightarrow> bytes \<Rightarrow> (string \<times> bytes) option" where
  "get_string n bs =
     (if length bs < n then None else Some (map char_of_byte (take n bs), drop n bs))"

section \<open>The codec interface\<close>

locale wire_codec =
  fixes put :: "'a \<Rightarrow> bytes"
    and get :: "bytes \<Rightarrow> ('a \<times> bytes) option"
  assumes get_put: "get (put x @ r) = Some (x, r)"
    and put_get: "get bs = Some (x, r) \<Longrightarrow> bs = put x @ r"
begin

text \<open>The rule the layouts are decoded with: a read succeeds exactly on the written form.\<close>

lemma get_iff: "get bs = Some (x, r) \<longleftrightarrow> bs = put x @ r"
  using get_put put_get by auto

lemma get_put_only: "get (put x) = Some (x, [])"
  using get_put [of x "[]"] by simp

lemma put_inject: "put x @ r = put y @ s \<longleftrightarrow> x = y \<and> r = s"
proof
  assume "put x @ r = put y @ s"
  then have "Some (x, r) = Some (y, s)" by (metis get_put)
  then show "x = y \<and> r = s" by simp
qed simp

lemma get_None: "get bs = None \<longleftrightarrow> (\<forall>x r. bs \<noteq> put x @ r)"
  by (metis get_iff option.exhaust surj_pair option.distinct(1))

end

text \<open>Reading a fixed number of items, as the sample loop of the input batch does.\<close>

fun get_n :: "(bytes \<Rightarrow> ('a \<times> bytes) option) \<Rightarrow> nat \<Rightarrow> bytes \<Rightarrow> ('a list \<times> bytes) option" where
  "get_n get 0 bs = Some ([], bs)"
| "get_n get (Suc n) bs = do {
     (x, r) \<leftarrow> get bs;
     (xs, r) \<leftarrow> get_n get n r;
     Some (x # xs, r) }"

context wire_codec
begin

lemma get_n_put: "get_n get (length xs) (concat (map put xs) @ r) = Some (xs, r)"
  by (induction xs) (simp_all add: get_put)

lemma get_n_iff:
  "get_n get n bs = Some (xs, r) \<longleftrightarrow> length xs = n \<and> bs = concat (map put xs) @ r"
proof (induction n arbitrary: bs xs)
  case 0
  show ?case by auto
next
  case (Suc n)
  show ?case
    by (cases xs) (auto simp: bind_eq_Some_conv get_iff Suc.IH)
qed

end

section \<open>The primitives satisfy the interface\<close>

lemma get_u8_iff: "get_u8 bs = Some (x, r) \<longleftrightarrow> bs = put_u8 x @ r"
  by (cases bs) (auto simp: put_u8_def)

interpretation u8: wire_codec put_u8 get_u8
  by unfold_locales (auto simp: get_u8_iff)

lemma split_u16:
  "ucast (ucast v :: u8) OR push_bit 8 (ucast (ucast (drop_bit 8 v) :: u8)) = (v :: u16)"
  by (rule bit_eqI) (auto simp: bit_simps)

lemma join_u16:
  "ucast (ucast a OR push_bit 8 (ucast b) :: u16) = (a :: u8)"
  "ucast (drop_bit 8 (ucast a OR push_bit 8 (ucast b) :: u16)) = (b :: u8)"
  by (rule bit_eqI; auto simp: bit_simps dest: bit_imp_le_length)+

lemma get_u16_put [wire_simps]: "get_u16 (put_u16 v @ r) = Some (v, r)"
  by (simp add: get_u16_def put_u16_def u8.get_put split_u16)

lemma put_u16_get: "get_u16 bs = Some (v, r) \<Longrightarrow> bs = put_u16 v @ r"
  by (auto simp: get_u16_def put_u16_def bind_eq_Some_conv u8.get_iff join_u16
      simp del: drop_bit_or)

interpretation u16: wire_codec put_u16 get_u16
  by unfold_locales (auto simp: get_u16_put dest: put_u16_get)

interpretation i16: wire_codec put_i16 get_i16
  by unfold_locales (auto simp: get_i16_def put_i16_def u16.get_put bind_eq_Some_conv u16.get_iff)

subsection \<open>The byte loops of the wider integers\<close>

lemma put_le_Suc: "put_le (Suc n) v = put_u8 (ucast v) @ put_le n (drop_bit 8 v)"
proof -
  have "[0..<Suc n] = 0 # map Suc [0..<n]"
    by (simp add: map_Suc_upt upt_conv_Cons)
  then show ?thesis
    by (simp add: put_le_def comp_def drop_bit_drop_bit add.commute)
qed

lemma put_le_0 [simp]: "put_le 0 v = []"
  by (simp add: put_le_def)

lemma length_put_le [simp]: "length (put_le n v) = n"
  by (induction n arbitrary: v) (simp_all add: put_le_Suc put_u8_def)

lemma take_bit_byte_step:
  "take_bit (8 * i) v OR push_bit (8 * i) (ucast (ucast (drop_bit (8 * i) v) :: u8))
     = take_bit (8 * Suc i) (v :: 'a::len word)"
  by (rule bit_eqI) (auto simp: bit_simps not_less dest: bit_imp_le_length)

lemma get_le_put:
  fixes v :: "'a::len word"
  shows "get_le n i (take_bit (8 * i) v) (put_le n (drop_bit (8 * i) v) @ r)
     = Some (take_bit (8 * (i + n)) v, r)"
proof (induction n arbitrary: i)
  case 0
  show ?case by simp
next
  case (Suc n)
  have "drop_bit 8 (drop_bit (8 * i) v) = drop_bit (8 * Suc i) v"
    by (simp add: drop_bit_drop_bit add.commute)
  then show ?case
    using Suc.IH [of "Suc i"] by (simp add: put_le_Suc u8.get_put take_bit_byte_step)
qed

lemma bit_get_le:
  fixes v w :: "'a::len word"
  assumes "get_le n i v bs = Some (w, r)"
  shows "\<exists>cs. length cs = n \<and> bs = cs @ r \<and>
    (\<forall>m < LENGTH('a). bit w m \<longleftrightarrow> bit v m \<or>
       (8 * i \<le> m \<and> m < 8 * (i + n) \<and> bit (cs ! (m div 8 - i)) (m mod 8)))"
  using assms
proof (induction n arbitrary: i v bs)
  case 0
  then show ?case by auto
next
  case (Suc n)
  then obtain b bs' where bs: "bs = b # bs'"
    and rest: "get_le n (Suc i) (v OR push_bit (8 * i) (ucast b)) bs' = Some (w, r)"
    by (auto simp: bind_eq_Some_conv u8.get_iff put_u8_def)
  from Suc.IH [OF rest] obtain cs where cs: "length cs = n" "bs' = cs @ r"
    and bits: "\<forall>m < LENGTH('a). bit w m \<longleftrightarrow> bit (v OR push_bit (8 * i) (ucast b)) m \<or>
       (8 * Suc i \<le> m \<and> m < 8 * (Suc i + n) \<and> bit (cs ! (m div 8 - Suc i)) (m mod 8))"
    by blast
  have "bit w m \<longleftrightarrow> bit v m \<or>
       (8 * i \<le> m \<and> m < 8 * (i + Suc n) \<and> bit ((b # cs) ! (m div 8 - i)) (m mod 8))"
    if m: "m < LENGTH('a)" for m
  proof (cases "8 * i \<le> m \<and> m < 8 * Suc i")
    case True
    then have "m div 8 = i" by auto
    then have "m mod 8 = m - 8 * i" by (metis minus_mult_div_eq_mod)
    with \<open>m div 8 = i\<close> True m bits show ?thesis by (auto simp: bit_simps)
  next
    case False
    have "bit (push_bit (8 * i) (ucast b :: 'a word)) m \<longleftrightarrow> False"
      using False by (auto simp: bit_simps dest: bit_imp_le_length)
    moreover have "8 * Suc i \<le> m \<Longrightarrow> m div 8 - i = Suc (m div 8 - Suc i)" by auto
    ultimately show ?thesis using False m bits by (auto simp: bit_or_iff nth_Cons')
  qed
  with cs bs show ?case by (intro exI [of _ "b # cs"]) simp
qed

lemma put_le_eqI:
  fixes w :: "'a::len word"
  assumes "length cs = n" and "\<forall>j < n. \<forall>k < 8. bit w (8 * j + k) \<longleftrightarrow> bit (cs ! j) k"
  shows "put_le n w = cs"
  using assms
proof (induction n arbitrary: w cs)
  case 0
  then show ?case by simp
next
  case (Suc n)
  then obtain c cs' where cs: "cs = c # cs'" by (cases cs) auto
  have "ucast w = c"
  proof (rule bit_eqI)
    fix k assume "possible_bit TYPE(u8) k"
    then have "k < 8" by simp
    then have "bit w k \<longleftrightarrow> bit c k" using Suc.prems(2) cs by (metis add_0 mult_0_right nth_Cons_0 zero_less_Suc)
    with \<open>k < 8\<close> show "bit (ucast w :: u8) k \<longleftrightarrow> bit c k" by (simp add: bit_simps)
  qed
  moreover have "put_le n (drop_bit 8 w) = cs'"
  proof (rule Suc.IH)
    show "length cs' = n" using Suc.prems(1) cs by simp
    show "\<forall>j < n. \<forall>k < 8. bit (drop_bit 8 w) (8 * j + k) \<longleftrightarrow> bit (cs' ! j) k"
    proof (intro allI impI)
      fix j k :: nat assume "j < n" "k < 8"
      then have "bit w (8 * Suc j + k) \<longleftrightarrow> bit (cs ! Suc j) k" using Suc.prems(2) by blast
      then show "bit (drop_bit 8 w) (8 * j + k) \<longleftrightarrow> bit (cs' ! j) k"
        using cs by (simp add: bit_drop_bit_eq add.assoc)
    qed
  qed
  ultimately show ?case using cs by (simp add: put_le_Suc put_u8_def)
qed

lemma put_le_get:
  fixes w :: "'a::len word"
  assumes "get_le n 0 0 bs = Some (w, r)" and "8 * n \<le> LENGTH('a)"
  shows "bs = put_le n w @ r"
proof -
  from bit_get_le [OF assms(1)] obtain cs where cs: "length cs = n" "bs = cs @ r"
    and bits: "\<forall>m < LENGTH('a). bit w m \<longleftrightarrow> m < 8 * n \<and> bit (cs ! (m div 8)) (m mod 8)"
    by auto
  have "put_le n w = cs"
  proof (rule put_le_eqI [OF cs(1)], intro allI impI)
    fix j k :: nat assume jk: "j < n" "k < 8"
    then have "8 * j + k < 8 * n" by linarith
    moreover have "(8 * j + k) div 8 = j" "(8 * j + k) mod 8 = k" using jk by auto
    ultimately show "bit w (8 * j + k) \<longleftrightarrow> bit (cs ! j) k" using bits assms(2) by auto
  qed
  with cs show ?thesis by simp
qed

lemma get_le_put_word:
  fixes v :: "'a::len word"
  assumes "LENGTH('a) = 8 * n"
  shows "get_le n 0 0 (put_le n v @ r) = Some (v, r)"
  using get_le_put [of n 0 v r] assms by (simp add: take_bit_word_eq_self)

interpretation u32: wire_codec put_u32 get_u32
  by unfold_locales
    (simp_all add: get_u32_def put_u32_def get_le_put_word put_le_get)

interpretation u64: wire_codec put_u64 get_u64
  by unfold_locales
    (simp_all add: get_u64_def put_u64_def get_le_put_word put_le_get)

section \<open>Counted byte and character fields\<close>

lemma get_bytes_iff:
  "get_bytes n bs = Some (x, r) \<longleftrightarrow> length x = n \<and> bs = put_bytes x @ r"
  by (auto simp: get_bytes_def put_bytes_def min_def)

lemma get_string_iff:
  "get_string n bs = Some (s, r) \<longleftrightarrow> length s = n \<and> bs = put_string s @ r"
proof
  assume "get_string n bs = Some (s, r)"
  then have "n \<le> length bs" "s = map char_of_byte (take n bs)" "r = drop n bs"
    by (auto simp: get_string_def split: if_splits)
  then show "length s = n \<and> bs = put_string s @ r"
    by (simp add: put_string_def comp_def)
qed (auto simp: get_string_def put_string_def comp_def)

lemmas codec_iffs =
  u8.get_iff u16.get_iff i16.get_iff u32.get_iff u64.get_iff get_bytes_iff get_string_iff

lemma length_puts [simp]:
  "length (put_u8 a) = 1" "length (put_u16 b) = 2" "length (put_i16 c) = 2"
  "length (put_u32 d) = 4" "length (put_u64 e) = 8" "length (put_string s) = length s"
  "length (put_bytes bs) = length bs"
  by (simp_all add: put_u8_def put_u16_def put_i16_def put_u32_def put_u64_def
      put_string_def put_bytes_def)

lemmas codec_gets [wire_simps] =
  u8.get_put i16.get_put u32.get_put u64.get_put
  u8.get_put_only u16.get_put_only i16.get_put_only u32.get_put_only u64.get_put_only

lemma get_string_put [wire_simps]:
  "length s = n \<Longrightarrow> get_string n (put_string s @ r) = Some (s, r)"
  "length s = n \<Longrightarrow> get_string n (put_string s) = Some (s, [])"
  by (simp_all add: get_string_iff)

lemma get_bytes_put [wire_simps]:
  "length x = n \<Longrightarrow> get_bytes n (put_bytes x @ r) = Some (x, r)"
  "length x = n \<Longrightarrow> get_bytes n (put_bytes x) = Some (x, [])"
  by (simp_all add: get_bytes_iff)

text \<open>Evaluation of the writers on numerals.\<close>

lemmas put_evals = put_u8_def put_u16_def put_i16_def put_u32_def put_u64_def put_le_def
  put_bytes_def put_string_def upt_rec

end
