(* ===== verification/Utf8.thy ===== *)
theory Utf8
  imports Wire
begin

text \<open>
  \<open>validUtf8\<close> of \<open>protocol/cpp/paddraw_protocol.cpp\<close>: the byte-at-a-time scanner that every
  text on the wire passes, and its abstract meaning. \<open>utf8_text\<close> is the specification:
  a text is the concatenation of the shortest encodings of Unicode scalar values. The scanner
  accepts exactly those byte strings.
\<close>

section \<open>The scanner\<close>

text \<open>
  The lead byte gives the number of continuation bytes and the first bits of the code point;
  \<open>None\<close> is the early \<open>return false\<close>.
\<close>

definition utf8_lead :: "u8 \<Rightarrow> (nat \<times> u32) option" where
  "utf8_lead c =
     (if c AND 0xe0 = 0xc0 then (if ucast (c AND 0x1f) = (0 :: u32) then None else Some (1, ucast (c AND 0x1f)))
      else if c AND 0xf0 = 0xe0 then Some (2, ucast (c AND 0x0f))
      else if c AND 0xf8 = 0xf0 then (if ucast (c AND 0x07) > (4 :: u32) then None else Some (3, ucast (c AND 0x07)))
      else None)"

definition utf8_shift_in :: "u32 \<Rightarrow> u8 \<Rightarrow> u32" where
  "utf8_shift_in codepoint next = push_bit 6 codepoint OR ucast (next AND 0x3f)"

fun utf8_continuation :: "nat \<Rightarrow> u32 \<Rightarrow> bytes \<Rightarrow> (u32 \<times> bytes) option" where
  "utf8_continuation 0 cp r = Some (cp, r)"
| "utf8_continuation (Suc n) cp [] = None"
| "utf8_continuation (Suc n) cp (next # r) =
     (if next AND 0xc0 \<noteq> 0x80 then None
      else utf8_continuation n (utf8_shift_in cp next) r)"

definition utf8_rejected :: "nat \<Rightarrow> u32 \<Rightarrow> bool" where
  "utf8_rejected continuation codepoint \<longleftrightarrow>
     continuation = 1 \<and> codepoint < 0x80 \<or> continuation = 2 \<and> codepoint < 0x800 \<or>
     continuation = 3 \<and> codepoint < 0x10000 \<or> codepoint > 0x10ffff \<or>
     codepoint \<ge> 0xd800 \<and> codepoint \<le> 0xdfff"

lemma utf8_continuation_length:
  "utf8_continuation n cp bs = Some (cp', r) \<Longrightarrow> length bs = n + length r"
  by (induction n cp bs rule: utf8_continuation.induct) (auto split: if_splits)

function valid_utf8_bytes :: "bytes \<Rightarrow> bool" where
  "valid_utf8_bytes [] = True"
| "valid_utf8_bytes (c # r) =
     (if c \<le> 0x7f then valid_utf8_bytes r
      else case utf8_lead c of
        None \<Rightarrow> False
      | Some (continuation, codepoint) \<Rightarrow>
          if length r < continuation then False
          else case utf8_continuation continuation codepoint r of
            None \<Rightarrow> False
          | Some (codepoint', r') \<Rightarrow>
              if utf8_rejected continuation codepoint' then False else valid_utf8_bytes r')"
  by pat_completeness auto
termination
  by (relation "measure length") (auto dest: utf8_continuation_length)

definition validUtf8 :: "string \<Rightarrow> bool" where
  "validUtf8 text = valid_utf8_bytes (map byte_of_char text)"

section \<open>The specification\<close>

definition scalar_value :: "nat \<Rightarrow> bool" where
  "scalar_value n \<longleftrightarrow> n \<le> 0x10ffff \<and> \<not> (0xd800 \<le> n \<and> n \<le> 0xdfff)"

definition utf8_encode :: "nat \<Rightarrow> bytes" where
  "utf8_encode n = map word_of_nat
     (if n < 0x80 then [n]
      else if n < 0x800 then [192 + n div 64, 128 + n mod 64]
      else if n < 0x10000 then [224 + n div 4096, 128 + n div 64 mod 64, 128 + n mod 64]
      else [240 + n div 262144, 128 + n div 4096 mod 64, 128 + n div 64 mod 64, 128 + n mod 64])"

definition utf8_text :: "bytes \<Rightarrow> bool" where
  "utf8_text bs \<longleftrightarrow> (\<exists>cps. list_all scalar_value cps \<and> bs = concat (map utf8_encode cps))"

section \<open>The masks, as arithmetic on the byte\<close>

lemma unat_u8_bound [simp]: "unat (b :: u8) < 256"
  using unsigned_less [of b] by simp

lemma unat_ucast_u32: "unat (ucast (c :: u8) :: u32) = unat c"
proof -
  have "take_bit 32 (unat c) = unat c"
    by (rule take_bit_nat_eq_self, rule less_trans [OF unat_u8_bound]) simp
  then show ?thesis by (simp add: unsigned_ucast_eq)
qed

lemma u8_high_masks:
  "(0xe0::u8) = NOT (mask 5)" "(0xf0::u8) = NOT (mask 4)"
  "(0xf8::u8) = NOT (mask 3)" "(0xc0::u8) = NOT (mask 6)"
  by (simp_all add: mask_eq_exp_minus_1)

lemma u8_low_masks:
 "(0x1f::u8) = mask 5" "(0x0f::u8) = mask 4" "(0x07::u8) = mask 3" "(0x3f::u8) = mask 6"
  by (simp_all add: mask_eq_exp_minus_1)

lemma unat_high_masks:
  "unat (c AND 0xe0) = unat (c :: u8) div 32 * 32" "unat (c AND 0xf0) = unat (c :: u8) div 16 * 16"
  "unat (c AND 0xf8) = unat (c :: u8) div 8 * 8" "unat (c AND 0xc0) = unat (c :: u8) div 64 * 64"
  by (simp_all only: u8_high_masks unat_and_not_mask) simp_all

lemma lead_masks:
  "c AND 0xe0 = 0xc0 \<longleftrightarrow> 192 \<le> unat (c :: u8) \<and> unat c < 224"
  "c AND 0xf0 = 0xe0 \<longleftrightarrow> 224 \<le> unat (c :: u8) \<and> unat c < 240"
  "c AND 0xf8 = 0xf0 \<longleftrightarrow> 240 \<le> unat (c :: u8) \<and> unat c < 248"
  "c AND 0xc0 = 0x80 \<longleftrightarrow> 128 \<le> unat (c :: u8) \<and> unat c < 192"
  by (simp_all only: word_unat_eq_iff unat_high_masks) auto

lemma lead_bits:
  "unat (ucast (c AND 0x1f) :: u32) = unat (c :: u8) mod 32"
  "unat (ucast (c AND 0x0f) :: u32) = unat (c :: u8) mod 16"
  "unat (ucast (c AND 0x07) :: u32) = unat (c :: u8) mod 8"
  "unat (ucast (c AND 0x3f) :: u32) = unat (c :: u8) mod 64"
  unfolding unat_ucast_u32 u8_low_masks unat_and_mask by simp_all

lemma unat_shift_or:
  fixes cp d :: u32
  assumes "unat cp < 2 ^ 26" and "unat d < 64"
  shows "unat (push_bit 6 cp OR d) = 64 * unat cp + unat d"
proof -
  have d: "take_bit 6 d = d"
    using assms(2) by (simp add: word_unat_eq_iff unsigned_take_bit_eq take_bit_nat_eq_self)
  have "push_bit 6 cp AND d = 0"
    by (subst d [symmetric], rule bit_eqI) (auto simp: bit_simps)
  then have "push_bit 6 cp OR d = push_bit 6 cp + d"
    by (simp add: disjunctive_add_eq_or)
  moreover have "unat (push_bit 6 cp) = 64 * unat cp"
    using assms(1) by (simp add: push_bit_eq_mult unat_word_ariths)
  ultimately show ?thesis
    using assms by (simp add: unat_word_ariths take_bit_nat_eq_self)
qed

definition cont_bits :: "u8 \<Rightarrow> nat" where
  "cont_bits b = unat b mod 64"

lemma cont_bits_less: "cont_bits b < 64"
  by (simp add: cont_bits_def)

lemma pos_mod_bound_nat64: "(n :: nat) mod 64 < 64"
  by simp

lemma shift_or_byte:
  assumes "unat cp < 67108864"
  shows "unat (utf8_shift_in cp b) = 64 * unat cp + cont_bits b"
  unfolding utf8_shift_in_def using assms unat_shift_or [of cp "ucast (b AND 0x3f)"]
  by (simp add: lead_bits cont_bits_def)

section \<open>The scanner, as arithmetic\<close>

definition cont_byte :: "u8 \<Rightarrow> bool" where
  "cont_byte b \<longleftrightarrow> 128 \<le> unat b \<and> unat b < 192"

lemma continuation_1:
  "utf8_continuation (Suc n) cp bs = Some (cp', r) \<longleftrightarrow>
     (\<exists>b bs'. bs = b # bs' \<and> cont_byte b \<and>
       utf8_continuation n (utf8_shift_in cp b) bs' = Some (cp', r))"
  by (cases bs) (auto simp: lead_masks cont_byte_def)

lemma unat_u32_compare:
  "x < (numeral k :: u32) \<longleftrightarrow> unat x < unat (numeral k :: u32)"
  "(numeral k :: u32) < x \<longleftrightarrow> unat (numeral k :: u32) < unat x"
  "x \<le> (numeral k :: u32) \<longleftrightarrow> unat x \<le> unat (numeral k :: u32)"
  "(numeral k :: u32) \<le> x \<longleftrightarrow> unat (numeral k :: u32) \<le> unat x"
  by (simp_all add: word_less_nat_alt word_le_nat_alt)

lemma utf8_rejected_nat:
  "utf8_rejected k cp \<longleftrightarrow>
     k = 1 \<and> unat cp < 0x80 \<or> k = 2 \<and> unat cp < 0x800 \<or> k = 3 \<and> unat cp < 0x10000 \<or>
     \<not> scalar_value (unat cp)"
  by (auto simp: utf8_rejected_def scalar_value_def unat_u32_compare not_le)

lemma utf8_lead_nat:
  "utf8_lead c =
     (if 192 \<le> unat c \<and> unat c < 224
      then (if unat c = 192 then None else Some (1, word_of_nat (unat c - 192)))
      else if 224 \<le> unat c \<and> unat c < 240 then Some (2, word_of_nat (unat c - 224))
      else if 240 \<le> unat c \<and> unat c < 245 then Some (3, word_of_nat (unat c - 240))
      else None)"
proof -
  have sub: "unat c mod k = unat c - k * q" if c: "k * q \<le> unat c \<and> unat c < k * q + k" for k q
  proof -
    from c obtain a where "unat c = k * q + a" "a < k" by (auto simp: le_iff_add)
    then show ?thesis by simp
  qed
  have "192 \<le> unat c \<and> unat c < 224 \<Longrightarrow> ucast (c AND 0x1f) = (word_of_nat (unat c - 192) :: u32)"
    "224 \<le> unat c \<and> unat c < 240 \<Longrightarrow> ucast (c AND 0x0f) = (word_of_nat (unat c - 224) :: u32)"
    "240 \<le> unat c \<and> unat c < 248 \<Longrightarrow> ucast (c AND 0x07) = (word_of_nat (unat c - 240) :: u32)"
    using sub [of 32 6] sub [of 16 14] sub [of 8 30]
    by (simp_all add: word_unat_eq_iff lead_bits unat_of_nat del: of_nat_diff)
  note bits = this
  have zero: "ucast (c AND 0x1f) = (0 :: u32) \<longleftrightarrow> unat c = 192" if "192 \<le> unat c \<and> unat c < 224"
    using sub [of 32 6] that by (simp add: word_unat_eq_iff lead_bits) linarith
  have big: "ucast (c AND 0x07) > (4 :: u32) \<longleftrightarrow> \<not> unat c < 245" if "240 \<le> unat c \<and> unat c < 248"
    using sub [of 8 30] that by (simp add: word_less_nat_alt lead_bits) linarith
  consider "192 \<le> unat c \<and> unat c < 224" | "224 \<le> unat c \<and> unat c < 240"
    | "240 \<le> unat c \<and> unat c < 248" | "unat c < 192 \<or> 248 \<le> unat c"
    by linarith
  then show ?thesis
  proof cases
    case 1 then show ?thesis using bits(1) zero by (simp add: utf8_lead_def lead_masks)
  next
    case 2 then show ?thesis using bits(2) by (simp add: utf8_lead_def lead_masks)
  next
    case 3 then show ?thesis using bits(3) big by (simp add: utf8_lead_def lead_masks)
  next
    case 4 then show ?thesis by (auto simp: utf8_lead_def lead_masks)
  qed
qed

lemma ascii_nat: "c \<le> (0x7f :: u8) \<longleftrightarrow> unat c < 128"
  by (auto simp: word_le_nat_alt)

section \<open>One character\<close>

lemma unat_of_nat_u32 [simp]: "n < 4294967296 \<Longrightarrow> unat (word_of_nat n :: u32) = n"
  by (simp add: unat_of_nat)

lemma unat_of_nat_u8 [simp]: "n < 256 \<Longrightarrow> unat (word_of_nat n :: u8) = n"
  by (simp add: unat_of_nat)

text \<open>The value that one, two and three continuation bytes give.\<close>

lemma continuation_value_1:
  assumes "k < 32" "utf8_continuation 1 (word_of_nat k) bs = Some (cp', r)"
  shows "\<exists>b. bs = b # r \<and> cont_byte b \<and> unat cp' = 64 * k + cont_bits b"
  using assms by (auto simp: continuation_1 shift_or_byte)

lemma continuation_value_2:
  assumes "k < 16" "utf8_continuation 2 (word_of_nat k) bs = Some (cp', r)"
  shows "\<exists>b1 b2. bs = b1 # b2 # r \<and> cont_byte b1 \<and> cont_byte b2 \<and>
    unat cp' = 64 * (64 * k + cont_bits b1) + cont_bits b2"
proof -
  have "64 * k + cont_bits b < 67108864" for b :: u8
    using assms(1) cont_bits_less [of b] by linarith
  then show ?thesis
    using assms by (auto simp: continuation_1 numeral_2_eq_2 shift_or_byte)
qed

lemma continuation_value_3:
  assumes "k < 8" "utf8_continuation 3 (word_of_nat k) bs = Some (cp', r)"
  shows "\<exists>b1 b2 b3. bs = b1 # b2 # b3 # r \<and> cont_byte b1 \<and> cont_byte b2 \<and> cont_byte b3 \<and>
    unat cp' = 64 * (64 * (64 * k + cont_bits b1) + cont_bits b2) + cont_bits b3"
proof -
  have s1: "64 * k + cont_bits b < 67108864" for b :: u8
    using assms(1) cont_bits_less [of b] by linarith
  have s2: "64 * (64 * k + cont_bits b) + cont_bits b' < 67108864" for b b' :: u8
    using assms(1) cont_bits_less [of b] cont_bits_less [of b'] unfolding distrib_left by linarith
  show ?thesis
    using assms s1 s2 by (auto simp: continuation_1 numeral_3_eq_3 shift_or_byte)
qed

lemma base64_digits:
  "a < 64 \<Longrightarrow> (64 * q + a) mod 64 = (a :: nat)"
  "a < 64 \<Longrightarrow> (64 * q + a) div 64 = (q :: nat)"
  by auto

lemma cont_byte_value: "cont_byte b \<Longrightarrow> unat b = 128 + cont_bits b"
proof -
  assume "cont_byte b"
  then obtain j where "unat b = 128 + j" "j < 64" by (auto simp: cont_byte_def le_iff_add)
  moreover from this have "(128 + j) mod 64 = j" using base64_digits(1) [of j 2] by simp
  ultimately show "unat b = 128 + cont_bits b" by (simp add: cont_bits_def)
qed

lemma cont_byte_of_nat [simp]: "cont_byte (word_of_nat (128 + n mod 64))"
  unfolding cont_byte_def using pos_mod_bound_nat64 [of n] by (simp del: of_nat_add)

lemma word_of_unat_eq: "unat (b :: u8) = n \<Longrightarrow> word_of_nat n = b"
  by auto

lemma div_base64:
  "(n :: nat) div 4096 = n div 64 div 64" "(n :: nat) div 262144 = n div 64 div 64 div 64"
  by (simp_all add: div_mult2_eq [symmetric])

lemma encode_2:
  assumes "unat c = 192 + k" "k < 32" "cont_byte b" "128 \<le> n" "n = 64 * k + cont_bits b"
  shows "utf8_encode n = [c, b]"
proof -
  have "n < 0x800" using assms(2,5) cont_bits_less [of b] by linarith
  moreover have "n div 64 = k" "n mod 64 = cont_bits b"
    using assms(5) cont_bits_less [of b] by (simp_all only: base64_digits)
  ultimately have "utf8_encode n = map word_of_nat [192 + k, 128 + cont_bits b]"
    using assms(4) by (simp add: utf8_encode_def del: of_nat_add)
  then show ?thesis
    by (simp only: list.map word_of_unat_eq [OF assms(1)] word_of_unat_eq [OF cont_byte_value [OF assms(3)]])
qed

lemma encode_3:
  assumes "unat c = 224 + k" "k < 16" "cont_byte b1" "cont_byte b2" "0x800 \<le> n"
    "n = 64 * (64 * k + cont_bits b1) + cont_bits b2"
  shows "utf8_encode n = [c, b1, b2]"
proof -
  have "n < 0x10000"
    using assms(2,6) cont_bits_less [of b1] cont_bits_less [of b2] unfolding distrib_left by linarith
  moreover have d: "n div 64 = 64 * k + cont_bits b1" "n mod 64 = cont_bits b2"
    using assms(6) cont_bits_less [of b2] by (simp_all only: base64_digits)
  moreover have "n div 4096 = k" "n div 64 mod 64 = cont_bits b1"
    unfolding div_base64 d using cont_bits_less [of b1] by (simp_all only: base64_digits)
  ultimately have "utf8_encode n = map word_of_nat [224 + k, 128 + cont_bits b1, 128 + cont_bits b2]"
    using assms(5) by (simp add: utf8_encode_def del: of_nat_add)
  then show ?thesis
    by (simp only: list.map word_of_unat_eq [OF assms(1)] word_of_unat_eq [OF cont_byte_value [OF assms(3)]]
        word_of_unat_eq [OF cont_byte_value [OF assms(4)]])
qed

lemma encode_4:
  assumes "unat c = 240 + k" "cont_byte b1" "cont_byte b2" "cont_byte b3" "0x10000 \<le> n"
    "n = 64 * (64 * (64 * k + cont_bits b1) + cont_bits b2) + cont_bits b3"
  shows "utf8_encode n = [c, b1, b2, b3]"
proof -
  have d: "n div 64 = 64 * (64 * k + cont_bits b1) + cont_bits b2" "n mod 64 = cont_bits b3"
    using assms(6) cont_bits_less [of b3] by (simp_all only: base64_digits)
  have e: "n div 64 div 64 = 64 * k + cont_bits b1" "n div 64 mod 64 = cont_bits b2"
    unfolding d using cont_bits_less [of b2] by (simp_all only: base64_digits)
  have f: "n div 262144 = k" "n div 4096 mod 64 = cont_bits b1"
    unfolding div_base64 e using cont_bits_less [of b1] by (simp_all only: base64_digits)
  have "utf8_encode n =
      map word_of_nat [240 + k, 128 + cont_bits b1, 128 + cont_bits b2, 128 + cont_bits b3]"
    using assms(5) d(2) e(2) f by (simp add: utf8_encode_def del: of_nat_add)
  then show ?thesis
    by (simp only: list.map word_of_unat_eq [OF assms(1)] word_of_unat_eq [OF cont_byte_value [OF assms(2)]]
        word_of_unat_eq [OF cont_byte_value [OF assms(3)]] word_of_unat_eq [OF cont_byte_value [OF assms(4)]])
qed

section \<open>The scanner accepts exactly the well-formed texts\<close>

lemma continuation_accepts:
  "length bs = k \<Longrightarrow> list_all cont_byte bs \<Longrightarrow>
     \<exists>cp'. utf8_continuation k cp (bs @ r) = Some (cp', r)"
  by (induction bs arbitrary: k cp) (auto simp: lead_masks cont_byte_def)

lemma utf8_continuation_append:
  "utf8_continuation k cp bs = Some (cp', r) \<Longrightarrow> utf8_continuation k cp (bs @ s) = Some (cp', r @ s)"
  by (induction k cp bs rule: utf8_continuation.induct) (auto split: if_splits)

lemma cont_bits_of_nat [simp]: "cont_bits (word_of_nat (128 + n mod 64)) = n mod 64"
  using cont_byte_value [OF cont_byte_of_nat [of n]] pos_mod_bound_nat64 [of n]
  by (simp del: of_nat_add)

text \<open>Reading one multi-byte character, from the two sides.\<close>

lemma read_char_sound:
  assumes lead: "utf8_lead c = Some (k, cp)" and cont: "utf8_continuation k cp r = Some (cp', r')"
    and ok: "\<not> utf8_rejected k cp'"
  shows "scalar_value (unat cp') \<and> c # r = utf8_encode (unat cp') @ r'"
proof -
  have scalar: "scalar_value (unat cp')" using ok by (simp add: utf8_rejected_nat)
  consider (two) j where "k = 1" "cp = word_of_nat j" "unat c = 192 + j" "j < 32"
    | (three) j where "k = 2" "cp = word_of_nat j" "unat c = 224 + j" "j < 16"
    | (four) j where "k = 3" "cp = word_of_nat j" "unat c = 240 + j" "j < 8"
    using lead by (auto simp: utf8_lead_nat le_iff_add split: if_splits)
  then show ?thesis
  proof cases
    case two
    then obtain b where b: "r = b # r'" "cont_byte b" "unat cp' = 64 * j + cont_bits b"
      using continuation_value_1 [of j r cp' r'] cont by auto
    have "128 \<le> unat cp'" using ok two by (simp add: utf8_rejected_nat)
    from encode_2 [OF two(3,4) b(2) this b(3)] b(1) scalar show ?thesis by simp
  next
    case three
    then obtain b1 b2 where b: "r = b1 # b2 # r'" "cont_byte b1" "cont_byte b2"
        "unat cp' = 64 * (64 * j + cont_bits b1) + cont_bits b2"
      using continuation_value_2 [of j r cp' r'] cont by auto
    have "0x800 \<le> unat cp'" using ok three by (simp add: utf8_rejected_nat)
    from encode_3 [OF three(3,4) b(2,3) this b(4)] b(1) scalar show ?thesis by simp
  next
    case four
    then obtain b1 b2 b3 where b: "r = b1 # b2 # b3 # r'" "cont_byte b1" "cont_byte b2" "cont_byte b3"
        "unat cp' = 64 * (64 * (64 * j + cont_bits b1) + cont_bits b2) + cont_bits b3"
      using continuation_value_3 [of j r cp' r'] cont by auto
    have "0x10000 \<le> unat cp'" using ok four by (simp add: utf8_rejected_nat)
    from encode_4 [OF four(3) b(2,3,4) this b(5)] b(1) scalar show ?thesis by simp
  qed
qed

lemma base64_parts:
  "(n :: nat) = 64 * (n div 64) + n mod 64"
  "(n :: nat) = 64 * (64 * (n div 4096) + n div 64 mod 64) + n mod 64"
  "(n :: nat) = 64 * (64 * (64 * (n div 262144) + n div 4096 mod 64) + n div 64 mod 64) + n mod 64"
  unfolding div_base64 by simp_all

lemma read_char_complete:
  assumes "scalar_value n" "128 \<le> n"
  obtains c r k cp cp' where "utf8_encode n = c # r" "\<not> c \<le> 0x7f" "utf8_lead c = Some (k, cp)"
    "\<And>r'. utf8_continuation k cp (r @ r') = Some (cp', r')" "\<not> utf8_rejected k cp'"
proof -
  note obtained = that
  have n: "n \<le> 0x10ffff" using assms(1) by (simp add: scalar_value_def)
  have char: thesis
    if enc: "utf8_encode n = c # bs" and c: "unat c = lead + j" and conts: "list_all cont_byte bs"
      and lead: "utf8_lead c = Some (length bs, word_of_nat j)" and hi: "128 \<le> lead"
      and val: "\<And>cp' r'. utf8_continuation (length bs) (word_of_nat j) bs = Some (cp', []) \<Longrightarrow> unat cp' = n"
      and len: "length bs = 1 \<or> length bs = 2 \<and> 0x800 \<le> n \<or> length bs = 3 \<and> 0x10000 \<le> n"
    for c bs lead j
  proof -
    from continuation_accepts [OF refl conts, of "word_of_nat j" "[]"] obtain cp' where
      cont: "utf8_continuation (length bs) (word_of_nat j) bs = Some (cp', [])" by auto
    have "utf8_continuation (length bs) (word_of_nat j) (bs @ r') = Some (cp', r')" for r'
      using utf8_continuation_append [OF cont, of r'] by simp
    moreover have "\<not> utf8_rejected (length bs) cp'"
      using val [OF cont] assms len by (auto simp: utf8_rejected_nat)
    ultimately show thesis using enc lead c hi by (intro obtained) (auto simp: ascii_nat)
  qed
  consider "n < 0x800" | "0x800 \<le> n" "n < 0x10000" | "0x10000 \<le> n" by linarith
  then show thesis
  proof cases
    case 1
    then have j: "n div 64 < 32" "2 \<le> n div 64" using assms(2) by linarith+
    define b where "b = (word_of_nat (128 + n mod 64) :: u8)"
    show thesis
    proof (rule char)
      show "utf8_encode n = word_of_nat (192 + n div 64) # [b]"
        using 1 assms(2) by (simp add: utf8_encode_def b_def del: of_nat_add)
      show "unat (word_of_nat (192 + n div 64) :: u8) = 192 + n div 64" using j by (simp del: of_nat_add)
      then show "utf8_lead (word_of_nat (192 + n div 64)) = Some (length [b], word_of_nat (n div 64))"
        using j by (simp add: utf8_lead_nat del: of_nat_add)
      show "unat cp' = n" if "utf8_continuation (length [b]) (word_of_nat (n div 64)) [b] = Some (cp', [])" for cp' 
        using continuation_value_1 [OF j(1), of "[b]" cp' "[]"] that base64_parts(1) [of n]
        by (simp add: b_def del: of_nat_add)
    qed (simp_all add: b_def del: of_nat_add)
  next
    case 2
    then have j: "n div 4096 < 16" by linarith
    define b1 where "b1 = (word_of_nat (128 + n div 64 mod 64) :: u8)"
    define b2 where "b2 = (word_of_nat (128 + n mod 64) :: u8)"
    show thesis
    proof (rule char)
      show "utf8_encode n = word_of_nat (224 + n div 4096) # [b1, b2]"
        using 2 by (simp add: utf8_encode_def b1_def b2_def del: of_nat_add)
      show "unat (word_of_nat (224 + n div 4096) :: u8) = 224 + n div 4096" using j by (simp del: of_nat_add)
      then show "utf8_lead (word_of_nat (224 + n div 4096)) = Some (length [b1, b2], word_of_nat (n div 4096))"
        using j by (simp add: utf8_lead_nat del: of_nat_add)
      show "unat cp' = n" if "utf8_continuation (length [b1, b2]) (word_of_nat (n div 4096)) [b1, b2] = Some (cp', [])" for cp' 
        using continuation_value_2 [OF j(1), of "[b1, b2]" cp' "[]"] that base64_parts(2) [of n]
        by (simp add: b1_def b2_def numeral_2_eq_2 del: of_nat_add)
    qed (use 2 in \<open>simp_all add: b1_def b2_def del: of_nat_add\<close>)
  next
    case 3
    then have j: "n div 262144 < 8" "n div 262144 < 5" using n by linarith+
    define b1 where "b1 = (word_of_nat (128 + n div 4096 mod 64) :: u8)"
    define b2 where "b2 = (word_of_nat (128 + n div 64 mod 64) :: u8)"
    define b3 where "b3 = (word_of_nat (128 + n mod 64) :: u8)"
    show thesis
    proof (rule char)
      show "utf8_encode n = word_of_nat (240 + n div 262144) # [b1, b2, b3]"
        using 3 by (simp add: utf8_encode_def b1_def b2_def b3_def del: of_nat_add)
      show "unat (word_of_nat (240 + n div 262144) :: u8) = 240 + n div 262144" using j by (simp del: of_nat_add)
      then show "utf8_lead (word_of_nat (240 + n div 262144)) = Some (length [b1, b2, b3], word_of_nat (n div 262144))"
        using j by (simp add: utf8_lead_nat del: of_nat_add)
      show "unat cp' = n" if "utf8_continuation (length [b1, b2, b3]) (word_of_nat (n div 262144)) [b1, b2, b3] = Some (cp', [])" for cp' 
        using continuation_value_3 [OF j(1), of "[b1, b2, b3]" cp' "[]"] that base64_parts(3) [of n]
        by (simp add: b1_def b2_def b3_def numeral_3_eq_3 del: of_nat_add)
    qed (use 3 in \<open>simp_all add: b1_def b2_def b3_def del: of_nat_add\<close>)
  qed
qed

lemma valid_multibyte:
  assumes "\<not> c \<le> 0x7f"
  shows "valid_utf8_bytes (c # r) \<longleftrightarrow>
    (\<exists>k cp cp' r'. utf8_lead c = Some (k, cp) \<and> utf8_continuation k cp r = Some (cp', r') \<and>
       \<not> utf8_rejected k cp' \<and> valid_utf8_bytes r')"
proof (cases "utf8_lead c")
  case None
  with assms show ?thesis by simp
next
  case (Some a)
  obtain k cp where a: "a = (k, cp)" by force
  show ?thesis
  proof (cases "utf8_continuation k cp r")
    case None
    with assms Some a show ?thesis by simp
  next
    case (Some b)
    obtain cp' r' where "b = (cp', r')" by force
    with assms Some \<open>utf8_lead c = Some a\<close> a utf8_continuation_length [of k cp r cp' r']
    show ?thesis by simp
  qed
qed

lemma utf8_step:
  "valid_utf8_bytes (c # r) \<longleftrightarrow>
     (\<exists>n r'. scalar_value n \<and> c # r = utf8_encode n @ r' \<and> valid_utf8_bytes r')" (is "?L \<longleftrightarrow> ?R")
proof
  assume L: ?L
  show ?R
  proof (cases "c \<le> 0x7f")
    case True
    then have "unat c < 128" by (simp add: ascii_nat)
    then have "scalar_value (unat c)" "utf8_encode (unat c) = [c]"
      by (simp_all add: scalar_value_def utf8_encode_def)
    with L True show ?thesis by (intro exI [of _ "unat c"] exI [of _ r]) simp
  next
    case False
    with L obtain k cp cp' r' where "utf8_lead c = Some (k, cp)" "utf8_continuation k cp r = Some (cp', r')"
      "\<not> utf8_rejected k cp'" "valid_utf8_bytes r'"
      unfolding valid_multibyte [OF False] by blast
    with read_char_sound [of c k cp r cp' r'] show ?thesis by blast
  qed
next
  assume ?R
  then obtain n r' where n: "scalar_value n" "c # r = utf8_encode n @ r'" "valid_utf8_bytes r'" by blast
  show ?L
  proof (cases "n < 128")
    case True
    then have "utf8_encode n = [word_of_nat n]" by (simp add: utf8_encode_def)
    with n True show ?thesis by (auto simp: ascii_nat)
  next
    case False
    then have "128 \<le> n" by simp
    from read_char_complete [OF n(1) this] obtain c' k cp cp' s where
      enc: "utf8_encode n = c' # s" "\<not> c' \<le> 0x7f" "utf8_lead c' = Some (k, cp)"
        "\<And>r'. utf8_continuation k cp (s @ r') = Some (cp', r')" "\<not> utf8_rejected k cp'"
      by blast
    then have "c' = c" "r = s @ r'" using n(2) by simp_all
    then show ?thesis using enc n(3) valid_multibyte [of c r] by blast
  qed
qed

lemma utf8_encode_not_Nil: "utf8_encode n \<noteq> []"
  by (simp add: utf8_encode_def)

lemma utf8_text_Cons:
  "utf8_text bs \<longleftrightarrow> bs = [] \<or> (\<exists>n r'. scalar_value n \<and> bs = utf8_encode n @ r' \<and> utf8_text r')"
proof
  assume "utf8_text bs"
  then obtain cps where "list_all scalar_value cps" "bs = concat (map utf8_encode cps)"
    by (auto simp: utf8_text_def)
  then show "bs = [] \<or> (\<exists>n r'. scalar_value n \<and> bs = utf8_encode n @ r' \<and> utf8_text r')"
    by (cases cps) (auto simp: utf8_text_def)
next
  assume "bs = [] \<or> (\<exists>n r'. scalar_value n \<and> bs = utf8_encode n @ r' \<and> utf8_text r')"
  then consider "bs = []" | n cps where "bs = concat (map utf8_encode (n # cps))" "list_all scalar_value (n # cps)"
    by (auto simp: utf8_text_def)
  then show "utf8_text bs" 
  proof cases
    case 1
    then show ?thesis unfolding utf8_text_def by (intro exI [of _ "[]"]) simp
  next
    case 2
    then show ?thesis unfolding utf8_text_def by blast
  qed
qed

lemma valid_utf8_bytes_iff: "valid_utf8_bytes bs \<longleftrightarrow> utf8_text bs"
proof (induction "length bs" arbitrary: bs rule: less_induct)
  case less
  show ?case
  proof (cases bs)
    case Nil
    have "utf8_text []" by (rule iffD2 [OF utf8_text_Cons]) simp
    with Nil show ?thesis by simp
  next
    case (Cons c r)
    have "valid_utf8_bytes r' \<longleftrightarrow> utf8_text r'" if "c # r = utf8_encode n @ r'" for n r'
    proof (rule less)
      from that have "length (c # r) = length (utf8_encode n) + length r'" by (metis length_append)
      with utf8_encode_not_Nil [of n] show "length r' < length bs" unfolding Cons by (cases "utf8_encode n") auto
    qed
    then have "valid_utf8_bytes (c # r) \<longleftrightarrow> utf8_text (c # r)"
      unfolding utf8_step utf8_text_Cons [of "c # r"] by blast
    then show ?thesis unfolding Cons .
  qed
qed

section \<open>Properties\<close>

text \<open>C18: The scanner \<open>validUtf8\<close> accepts a string exactly when it is the concatenation of the
  shortest UTF-8 encodings of Unicode scalar values: overlong forms, surrogates, values above
  U+10FFFF, stray continuation bytes and truncated characters are all rejected, and nothing
  well formed is.\<close>

theorem validUtf8_correct: "validUtf8 s \<longleftrightarrow> utf8_text (map byte_of_char s)"
  unfolding validUtf8_def by (rule valid_utf8_bytes_iff)

end
