(* ===== verification/Protocol.thy ===== *)
theory Protocol
  imports Utf8
begin

text \<open>
  The message types of \<open>protocol/cpp/paddraw_protocol.hpp\<close> and the payload layouts of
  \<open>paddraw_protocol.cpp\<close>: validation, \<open>encodePayload\<close> and \<open>decodePayload\<close>. A thrown
  \<open>std::invalid_argument\<close> and a returned \<open>ParseError\<close> are both \<open>Inl\<close> of their text.

  The two enumerations a peer can fill with any number (\<open>ToolType\<close> and \<open>MessageType\<close>) stay
  integers of their width, since \<open>static_cast\<close> puts unchecked wire values into them; the variants
  \<open>Control\<close> and \<open>Payload\<close> are datatypes with the alternatives of the source.
\<close>

section \<open>Constants and messages\<close>

definition kMagic :: u32 where "kMagic = 0x31424450"
definition kVersion :: u16 where "kVersion = 1"
definition kFrameHeaderBytes :: nat where "kFrameHeaderBytes = 20"
definition kMaxPayloadBytes :: nat where "kMaxPayloadBytes = 8 * 1024 * 1024"
definition kMaxInputSamples :: nat where "kMaxInputSamples = 64"
definition kKnownCapabilities :: u32 where "kKnownCapabilities = 0xff"
definition kCodecH264 :: u16 where "kCodecH264 = 1"
definition kVideoFlagIdr :: u32 where "kVideoFlagIdr = 1"
definition kConfigFlagSuppressTouchWhilePenInRange :: u32 where
  "kConfigFlagSuppressTouchWhilePenInRange = 1"
definition kDistanceUnavailable :: u16 where "kDistanceUnavailable = 0xffff"
definition kKnownContactFlags :: u8 where "kKnownContactFlags = 0x0f"
definition kKnownButtons :: u16 where "kKnownButtons = 7"

abbreviation TypeClientHello :: u16 where "TypeClientHello \<equiv> 1"
abbreviation TypeServerConfig :: u16 where "TypeServerConfig \<equiv> 2"
abbreviation TypeVideoFrame :: u16 where "TypeVideoFrame \<equiv> 3"
abbreviation TypeInputBatch :: u16 where "TypeInputBatch \<equiv> 4"
abbreviation TypeControl :: u16 where "TypeControl \<equiv> 5"

abbreviation ToolPen :: u8 where "ToolPen \<equiv> 1"
abbreviation ToolTouch :: u8 where "ToolTouch \<equiv> 2"
abbreviation ToolEraser :: u8 where "ToolEraser \<equiv> 3"

abbreviation OpClockSyncRequest :: u16 where "OpClockSyncRequest \<equiv> 1"
abbreviation OpClockSyncResponse :: u16 where "OpClockSyncResponse \<equiv> 2"
abbreviation OpRequestIdr :: u16 where "OpRequestIdr \<equiv> 3"
abbreviation OpOrientationChanged :: u16 where "OpOrientationChanged \<equiv> 4"
abbreviation OpCapabilityChanged :: u16 where "OpCapabilityChanged \<equiv> 5"
abbreviation OpTelemetry :: u16 where "OpTelemetry \<equiv> 6"
abbreviation OpDisconnect :: u16 where "OpDisconnect \<equiv> 7"
abbreviation OpClockSyncComplete :: u16 where "OpClockSyncComplete \<equiv> 8"

record ClientHello =
  helloCapabilities :: u32
  displayWidth :: u16
  displayHeight :: u16
  rotationDegrees :: u16
  maxTouchContacts :: u16
  maxPenPressure :: u16
  videoCodecMask :: u16
  maxVideoWidth :: u32
  maxVideoHeight :: u32
  deviceName :: string
  osName :: string

record ServerConfig =
  sessionId :: u64
  displayId :: u32
  videoWidth :: u16
  videoHeight :: u16
  videoFps :: u16
  videoBitrateMbps :: u16
  contentLeft :: u32
  contentTop :: u32
  contentWidth :: u32
  contentHeight :: u32
  configFlags :: u32

record VideoFrame =
  captureTimestampNs :: u64
  presentationTimestampNs :: u64
  accessUnit :: bytes

record InputSample =
  timestampDeltaUs :: u32
  pointerId :: u16
  tool :: u8
  contactFlags :: u8
  sampleX :: u16
  sampleY :: u16
  pressure :: u16
  tiltX :: i16
  tiltY :: i16
  distance :: u16
  buttons :: u16

record InputBatch =
  batchTimestampNs :: u64
  samples :: "InputSample list"

text \<open>The alternatives of \<open>Control\<close>, with the members of each in the order of the source.\<close>

datatype Control =
    ClockSyncRequest u64
  | ClockSyncResponse u64 u64 u64
  | ClockSyncComplete u64 u64 u64 u64
  | RequestIdr
  | OrientationChanged u16
  | CapabilityChanged u32
  | Telemetry u32 u32 u32
  | Disconnect u16 string

datatype Payload =
    PClientHello ClientHello
  | PServerConfig ServerConfig
  | PVideoFrame VideoFrame
  | PInputBatch InputBatch
  | PControl Control

record FrameHeader =
  frameFlags :: u32
  frameSequence :: u32
  frameType :: u16

record Frame =
  header :: FrameHeader
  payload :: Payload

section \<open>Validation\<close>

definition validRotation :: "u16 \<Rightarrow> bool" where
  "validRotation v \<longleftrightarrow> v = 0 \<or> v = 90 \<or> v = 180 \<or> v = 270"

definition validTool :: "u8 \<Rightarrow> bool" where
  "validTool v \<longleftrightarrow> v = ToolPen \<or> v = ToolTouch \<or> v = ToolEraser"

definition validType :: "u16 \<Rightarrow> bool" where
  "validType v \<longleftrightarrow> v \<ge> TypeClientHello \<and> v \<le> TypeControl"

definition allowedFlags :: "u16 \<Rightarrow> u32 \<Rightarrow> bool" where
  "allowedFlags type flags =
     (if type = TypeVideoFrame then flags AND NOT kVideoFlagIdr = 0 else flags = 0)"

definition validateHello :: "ClientHello \<Rightarrow> unit result" where
  "validateHello p = checks
    [(helloCapabilities p AND NOT kKnownCapabilities = 0, ''unknown capability bit''),
     (displayWidth p > 0 \<and> displayHeight p > 0 \<and> validRotation (rotationDegrees p),
      ''invalid display''),
     (maxTouchContacts p \<le> 10 \<and> maxPenPressure p \<noteq> 0 \<and> videoCodecMask p AND kCodecH264 \<noteq> 0,
      ''invalid hello limits''),
     (maxVideoWidth p > 0 \<and> maxVideoHeight p > 0 \<and> length (deviceName p) \<le> 64 \<and>
        length (osName p) \<le> 32, ''invalid hello size''),
     (validUtf8 (deviceName p) \<and> validUtf8 (osName p), ''invalid UTF-8'')]"

definition validateConfig :: "ServerConfig \<Rightarrow> unit result" where
  "validateConfig p = checks
    [(sessionId p \<noteq> 0 \<and> videoWidth p > 0 \<and> videoHeight p > 0 \<and> videoFps p \<ge> 1 \<and> videoFps p \<le> 60,
      ''invalid server config''),
     (videoBitrateMbps p \<ge> 20 \<and> videoBitrateMbps p \<le> 120 \<and> contentWidth p \<noteq> 0 \<and>
        contentHeight p \<noteq> 0, ''invalid server config limits''),
     (configFlags p AND NOT kConfigFlagSuppressTouchWhilePenInRange = 0, ''unknown config flag'')]"

definition validateVideo :: "VideoFrame \<Rightarrow> unit result" where
  "validateVideo p =
     check (accessUnit p \<noteq> [] \<and> length (accessUnit p) \<le> kMaxPayloadBytes - 20)
       ''invalid video access unit''"

definition validateSample :: "bool \<Rightarrow> u32 \<Rightarrow> InputSample \<Rightarrow> unit result" where
  "validateSample first previous s = checks
    [(pointerId s \<noteq> 0 \<and> validTool (tool s) \<and> contactFlags s AND NOT kKnownContactFlags = 0 \<and>
        buttons s AND NOT kKnownButtons = 0, ''invalid input sample''),
     (sint (tiltX s) \<ge> -9000 \<and> sint (tiltX s) \<le> 9000 \<and> sint (tiltY s) \<ge> -9000 \<and>
        sint (tiltY s) \<le> 9000, ''invalid tilt''),
     (first \<or> timestampDeltaUs s \<ge> previous, ''non-monotonic input delta'')]"

text \<open>The loop over the samples: \<open>first\<close> is \<open>i == 0\<close>, \<open>previous\<close> the delta of the last sample.\<close>

fun validateSamples :: "bool \<Rightarrow> u32 \<Rightarrow> InputSample list \<Rightarrow> unit result" where
  "validateSamples first previous [] = Inr ()"
| "validateSamples first previous (s # ss) =
     and_then (validateSample first previous s) (validateSamples False (timestampDeltaUs s) ss)"

definition validateInput :: "InputBatch \<Rightarrow> unit result" where
  "validateInput p =
     and_then (check (samples p \<noteq> [] \<and> length (samples p) \<le> kMaxInputSamples)
         ''invalid input sample count'')
       (validateSamples True 0 (samples p))"

fun validateControl :: "Control \<Rightarrow> unit result" where
  "validateControl (OrientationChanged rotation) =
     check (validRotation rotation) ''invalid orientation''"
| "validateControl (CapabilityChanged caps) =
     check (caps AND NOT kKnownCapabilities = 0) ''unknown capability bit''"
| "validateControl (Disconnect reason message) =
     check (length message \<le> 128 \<and> validUtf8 message) ''invalid disconnect message''"
| "validateControl _ = Inr ()"

end
