(* ===== verification/Payloads.thy ===== *)
theory Payloads
  imports Protocol
begin

text \<open>
  \<open>encodePayload\<close> and \<open>decodePayload\<close> of \<open>protocol/cpp/paddraw_protocol.cpp\<close>, one pair of layout
  functions per message. Each fixed layout is an interpretation of \<open>wire_codec\<close>; the variable
  ones satisfy the same two laws on the values the validation lets through. The main fact is
  \<open>decodePayload_iff\<close>: the decoder accepts a payload exactly when it is what the encoder
  writes for the value it returns.
\<close>

section \<open>The encoder\<close>

definition put_hello :: "ClientHello \<Rightarrow> bytes" where
  "put_hello p =
     put_u32 (helloCapabilities p) @ put_u16 (displayWidth p) @ put_u16 (displayHeight p) @
     put_u16 (rotationDegrees p) @ put_u16 (maxTouchContacts p) @ put_u16 (maxPenPressure p) @
     put_u16 (videoCodecMask p) @ put_u32 (maxVideoWidth p) @ put_u32 (maxVideoHeight p) @
     put_u16 (word_of_nat (length (deviceName p))) @ put_u16 (word_of_nat (length (osName p))) @
     put_string (deviceName p) @ put_string (osName p)"

definition put_config :: "ServerConfig \<Rightarrow> bytes" where
  "put_config p =
     put_u64 (sessionId p) @ put_u32 (displayId p) @ put_u16 (videoWidth p) @
     put_u16 (videoHeight p) @ put_u16 (videoFps p) @ put_u16 (videoBitrateMbps p) @
     put_u32 (contentLeft p) @ put_u32 (contentTop p) @ put_u32 (contentWidth p) @
     put_u32 (contentHeight p) @ put_u32 (configFlags p)"

definition put_video :: "VideoFrame \<Rightarrow> bytes" where
  "put_video p =
     put_u64 (captureTimestampNs p) @ put_u64 (presentationTimestampNs p) @
     put_u32 (word_of_nat (length (accessUnit p))) @ put_bytes (accessUnit p)"

definition put_sample :: "InputSample \<Rightarrow> bytes" where
  "put_sample s =
     put_u32 (timestampDeltaUs s) @ put_u16 (pointerId s) @ put_u8 (tool s) @
     put_u8 (contactFlags s) @ put_u16 (sampleX s) @ put_u16 (sampleY s) @ put_u16 (pressure s) @
     put_i16 (tiltX s) @ put_i16 (tiltY s) @ put_u16 (distance s) @ put_u16 (buttons s)"

definition put_input :: "InputBatch \<Rightarrow> bytes" where
  "put_input p =
     put_u64 (batchTimestampNs p) @ put_u16 (word_of_nat (length (samples p))) @ put_u16 0 @
     concat (map put_sample (samples p))"

fun control_body :: "Control \<Rightarrow> u16 \<times> bytes" where
  "control_body (ClockSyncRequest a) = (OpClockSyncRequest, put_u64 a)"
| "control_body (ClockSyncResponse a b c) =
     (OpClockSyncResponse, put_u64 a @ put_u64 b @ put_u64 c)"
| "control_body (ClockSyncComplete a b c d) =
     (OpClockSyncComplete, put_u64 a @ put_u64 b @ put_u64 c @ put_u64 d)"
| "control_body RequestIdr = (OpRequestIdr, [])"
| "control_body (OrientationChanged rotation) =
     (OpOrientationChanged, put_u16 rotation @ put_u16 0)"
| "control_body (CapabilityChanged caps) = (OpCapabilityChanged, put_u32 caps)"
| "control_body (Telemetry rtt latency dropped) =
     (OpTelemetry, put_u32 rtt @ put_u32 latency @ put_u32 dropped)"
| "control_body (Disconnect reason message) =
     (OpDisconnect,
      put_u16 reason @ put_u16 (word_of_nat (length message)) @ put_string message)"

definition put_control :: "Control \<Rightarrow> bytes" where
  "put_control control = (case control_body control of (opcode, body) \<Rightarrow>
     put_u16 opcode @ put_u16 (word_of_nat (length body)) @ put_bytes body)"

definition encodeControl :: "Control \<Rightarrow> bytes result" where
  "encodeControl control = and_then (validateControl control) (Inr (put_control control))"

fun encodePayload :: "Payload \<Rightarrow> (u16 \<times> bytes) result" where
  "encodePayload (PClientHello p) = and_then (validateHello p) (Inr (TypeClientHello, put_hello p))"
| "encodePayload (PServerConfig p) =
     and_then (validateConfig p) (Inr (TypeServerConfig, put_config p))"
| "encodePayload (PVideoFrame p) = and_then (validateVideo p) (Inr (TypeVideoFrame, put_video p))"
| "encodePayload (PInputBatch p) = and_then (validateInput p) (Inr (TypeInputBatch, put_input p))"
| "encodePayload (PControl c) =
     bind_result (encodeControl c) (\<lambda>bs. Inr (TypeControl, put_bytes bs))"

section \<open>The decoder\<close>

definition get_hello :: "bytes \<Rightarrow> ClientHello option" where
  "get_hello bs = do {
     (capabilities, r) \<leftarrow> get_u32 bs;
     (width, r) \<leftarrow> get_u16 r;
     (height, r) \<leftarrow> get_u16 r;
     (rotation, r) \<leftarrow> get_u16 r;
     (touches, r) \<leftarrow> get_u16 r;
     (pen, r) \<leftarrow> get_u16 r;
     (codecs, r) \<leftarrow> get_u16 r;
     (max_width, r) \<leftarrow> get_u32 r;
     (max_height, r) \<leftarrow> get_u32 r;
     (deviceBytes, r) \<leftarrow> get_u16 r;
     (osBytes, r) \<leftarrow> get_u16 r;
     if deviceBytes > 64 \<or> osBytes > 32 then None else do {
       (device, r) \<leftarrow> get_string (unat deviceBytes) r;
       (os, r) \<leftarrow> get_string (unat osBytes) r;
       if r \<noteq> [] then None
       else Some \<lparr>helloCapabilities = capabilities, displayWidth = width, displayHeight = height,
         rotationDegrees = rotation, maxTouchContacts = touches, maxPenPressure = pen,
         videoCodecMask = codecs, maxVideoWidth = max_width, maxVideoHeight = max_height,
         deviceName = device, osName = os\<rparr> } }"

definition get_config :: "bytes \<Rightarrow> ServerConfig option" where
  "get_config bs = (if length bs \<noteq> 40 then None else do {
     (session, r) \<leftarrow> get_u64 bs;
     (display, r) \<leftarrow> get_u32 r;
     (width, r) \<leftarrow> get_u16 r;
     (height, r) \<leftarrow> get_u16 r;
     (fps, r) \<leftarrow> get_u16 r;
     (bitrate, r) \<leftarrow> get_u16 r;
     (left, r) \<leftarrow> get_u32 r;
     (top, r) \<leftarrow> get_u32 r;
     (cwidth, r) \<leftarrow> get_u32 r;
     (cheight, r) \<leftarrow> get_u32 r;
     (flags, r) \<leftarrow> get_u32 r;
     Some \<lparr>sessionId = session, displayId = display, videoWidth = width, videoHeight = height,
       videoFps = fps, videoBitrateMbps = bitrate, contentLeft = left, contentTop = top,
       contentWidth = cwidth, contentHeight = cheight, configFlags = flags\<rparr> })"

definition get_video :: "bytes \<Rightarrow> VideoFrame option" where
  "get_video bs = (if length bs < 20 then None else do {
     (capture, r) \<leftarrow> get_u64 bs;
     (presentation, r) \<leftarrow> get_u64 r;
     (len, r) \<leftarrow> get_u32 r;
     if unat len \<noteq> length r then None else do {
       (unit, r) \<leftarrow> get_bytes (unat len) r;
       Some \<lparr>captureTimestampNs = capture, presentationTimestampNs = presentation,
         accessUnit = unit\<rparr> } })"

definition get_sample :: "bytes \<Rightarrow> (InputSample \<times> bytes) option" where
  "get_sample bs = do {
     (delta, r) \<leftarrow> get_u32 bs;
     (pointer, r) \<leftarrow> get_u16 r;
     (t, r) \<leftarrow> get_u8 r;
     (flags, r) \<leftarrow> get_u8 r;
     (x, r) \<leftarrow> get_u16 r;
     (y, r) \<leftarrow> get_u16 r;
     (p, r) \<leftarrow> get_u16 r;
     (tx, r) \<leftarrow> get_i16 r;
     (ty, r) \<leftarrow> get_i16 r;
     (d, r) \<leftarrow> get_u16 r;
     (bt, r) \<leftarrow> get_u16 r;
     Some (\<lparr>timestampDeltaUs = delta, pointerId = pointer, tool = t, contactFlags = flags,
       sampleX = x, sampleY = y, pressure = p, tiltX = tx, tiltY = ty, distance = d,
       buttons = bt\<rparr>, r) }"

definition decode_input :: "bytes \<Rightarrow> InputBatch result" where
  "decode_input bs = bind_result
     (require ''invalid InputBatch layout'' (do {
        (timestamp, r) \<leftarrow> get_u64 bs;
        (count, r) \<leftarrow> get_u16 r;
        (reserved, r) \<leftarrow> get_u16 r;
        if reserved \<noteq> 0 \<or> count = 0 \<or> unat count > kMaxInputSamples \<or>
           length r \<noteq> unat count * 22 then None else Some (timestamp, count, r) }))
     (\<lambda>(timestamp, count, r). bind_result
       (require ''truncated InputSample'' (get_n get_sample (unat count) r))
       (\<lambda>(ss, r). Inr \<lparr>batchTimestampNs = timestamp, samples = ss\<rparr>))"

definition decode_control_body :: "u16 \<Rightarrow> bytes \<Rightarrow> Control result" where
  "decode_control_body opcode r =
     (if opcode = OpClockSyncRequest then require ''invalid ClockSyncRequest''
        (if length r \<noteq> 8 then None else do { (a, r) \<leftarrow> get_u64 r; Some (ClockSyncRequest a) })
      else if opcode = OpClockSyncResponse then require ''invalid ClockSyncResponse''
        (if length r \<noteq> 24 then None else do {
           (a, r) \<leftarrow> get_u64 r; (b, r) \<leftarrow> get_u64 r; (c, r) \<leftarrow> get_u64 r;
           Some (ClockSyncResponse a b c) })
      else if opcode = OpClockSyncComplete then require ''invalid ClockSyncComplete''
        (if length r \<noteq> 32 then None else do {
           (a, r) \<leftarrow> get_u64 r; (b, r) \<leftarrow> get_u64 r; (c, r) \<leftarrow> get_u64 r; (d, r) \<leftarrow> get_u64 r;
           Some (ClockSyncComplete a b c d) })
      else if opcode = OpRequestIdr then require ''invalid RequestIdr''
        (if length r \<noteq> 0 then None else Some RequestIdr)
      else if opcode = OpOrientationChanged then require ''invalid OrientationChanged''
        (if length r \<noteq> 4 then None else do {
           (rotation, r) \<leftarrow> get_u16 r; (reserved, r) \<leftarrow> get_u16 r;
           if reserved \<noteq> 0 then None else Some (OrientationChanged rotation) })
      else if opcode = OpCapabilityChanged then require ''invalid CapabilityChanged''
        (if length r \<noteq> 4 then None else do { (a, r) \<leftarrow> get_u32 r; Some (CapabilityChanged a) })
      else if opcode = OpTelemetry then require ''invalid Telemetry''
        (if length r \<noteq> 12 then None else do {
           (a, r) \<leftarrow> get_u32 r; (b, r) \<leftarrow> get_u32 r; (c, r) \<leftarrow> get_u32 r;
           Some (Telemetry a b c) })
      else if opcode = OpDisconnect then require ''invalid Disconnect''
        (if length r < 4 then None else do {
           (reason, r) \<leftarrow> get_u16 r; (textBytes, r) \<leftarrow> get_u16 r;
           if textBytes > 128 \<or> unat textBytes \<noteq> length r then None else do {
             (message, r) \<leftarrow> get_string (unat textBytes) r;
             Some (Disconnect reason message) } })
      else Inl ''unknown Control opcode'')"

definition decode_control :: "bytes \<Rightarrow> Control result" where
  "decode_control bs = bind_result
     (require ''invalid Control envelope'' (do {
        (rawOpcode, r) \<leftarrow> get_u16 bs;
        (bodyLength, r) \<leftarrow> get_u16 r;
        if unat bodyLength \<noteq> length r then None else Some (rawOpcode, r) }))
     (\<lambda>(opcode, r). decode_control_body opcode r)"

definition decodePayload :: "u16 \<Rightarrow> bytes \<Rightarrow> Payload result" where
  "decodePayload type bs =
     (if type = TypeClientHello then
        bind_result (require ''invalid ClientHello layout'' (get_hello bs))
          (\<lambda>p. and_then (validateHello p) (Inr (PClientHello p)))
      else if type = TypeServerConfig then
        bind_result (require ''invalid ServerConfig layout'' (get_config bs))
          (\<lambda>p. and_then (validateConfig p) (Inr (PServerConfig p)))
      else if type = TypeVideoFrame then
        bind_result (require ''invalid VideoFrame layout'' (get_video bs))
          (\<lambda>p. and_then (validateVideo p) (Inr (PVideoFrame p)))
      else if type = TypeInputBatch then
        bind_result (decode_input bs)
          (\<lambda>p. and_then (validateInput p) (Inr (PInputBatch p)))
      else bind_result (decode_control bs)
        (\<lambda>c. and_then (validateControl c) (Inr (PControl c))))"

section \<open>Each layout reads back what it writes\<close>

lemma unat_u32_less: "unat (w :: u32) < 4294967296"
  using unsigned_less [of w] by simp

lemma get_hello_iff:
  "get_hello bs = Some p \<longleftrightarrow>
     length (deviceName p) \<le> 64 \<and> length (osName p) \<le> 32 \<and> bs = put_hello p"
proof
  assume "get_hello bs = Some p"
  then show "length (deviceName p) \<le> 64 \<and> length (osName p) \<le> 32 \<and> bs = put_hello p"
    by (auto simp: get_hello_def put_hello_def bind_eq_Some_conv codec_iffs word_le_nat_alt not_less
        split: if_splits)
next
  assume "length (deviceName p) \<le> 64 \<and> length (osName p) \<le> 32 \<and> bs = put_hello p"
  then show "get_hello bs = Some p"
    by (simp add: get_hello_def put_hello_def wire_simps word_less_nat_alt unat_of_nat)
qed

lemma get_config_iff: "get_config bs = Some p \<longleftrightarrow> bs = put_config p"
  by (cases p) (auto simp: get_config_def put_config_def bind_eq_Some_conv codec_iffs)

text \<open>A field that takes all the bytes that are left, as the video and the disconnect text do.\<close>

lemma take_rest:
  "(if unat (n :: 'a::len word) \<noteq> length r then None
    else do { (u, r') \<leftarrow> get_bytes (unat n) r; f u }) = (if unat n = length r then f r else None)"
  "(if c \<or> unat n \<noteq> length r then None
    else do { (s, r') \<leftarrow> get_string (unat n) r; g s }) =
   (if \<not> c \<and> unat n = length r then g (map char_of_byte r) else None)"
  by (simp_all add: get_bytes_def get_string_def)

lemma word_of_length: "unat (n :: 'a::len word) = length r \<Longrightarrow> word_of_nat (length r) = n"
  by (drule sym) simp

lemma get_video_iff:
  "get_video bs = Some p \<longleftrightarrow> length (accessUnit p) < 2 ^ 32 \<and> bs = put_video p"
proof
  assume "get_video bs = Some p"
  then obtain a b n r where r: "bs = put_u64 a @ put_u64 b @ put_u32 n @ r" and n: "unat n = length r"
    and p: "p = \<lparr>captureTimestampNs = a, presentationTimestampNs = b, accessUnit = r\<rparr>"
    unfolding get_video_def take_rest
    by (auto simp: bind_eq_Some_conv codec_iffs split: if_splits)
  show "length (accessUnit p) < 2 ^ 32 \<and> bs = put_video p"
    using unat_u32_less [of n] n word_of_length [OF n] by (simp add: p r put_video_def put_bytes_def)
next
  assume "length (accessUnit p) < 2 ^ 32 \<and> bs = put_video p"
  then show "get_video bs = Some p"
    by (simp add: get_video_def put_video_def wire_simps unat_of_nat)
qed

interpretation sample: wire_codec put_sample get_sample
proof
  show "get_sample (put_sample s @ r) = Some (s, r)" for s r
    by (simp add: get_sample_def put_sample_def wire_simps)
  show "bs = put_sample s @ r" if "get_sample bs = Some (s, r)" for bs s r
    using that by (auto simp: get_sample_def put_sample_def bind_eq_Some_conv codec_iffs)
qed


lemma length_put_sample [simp]: "length (put_sample s) = 22"
  by (simp add: put_sample_def)

lemma length_put_samples [simp]: "length (concat (map put_sample ss)) = length ss * 22"
  by (induction ss) simp_all

lemma decode_input_iff:
  "decode_input bs = Inr p \<longleftrightarrow>
     samples p \<noteq> [] \<and> length (samples p) \<le> kMaxInputSamples \<and> bs = put_input p"
proof
  assume "decode_input bs = Inr p"
  then show "samples p \<noteq> [] \<and> length (samples p) \<le> kMaxInputSamples \<and> bs = put_input p"
    by (auto simp: decode_input_def put_input_def bind_eq_Some_conv codec_iffs sample.get_n_iff
        split: if_splits) (metis unat_eq_zero)
next
  assume "samples p \<noteq> [] \<and> length (samples p) \<le> kMaxInputSamples \<and> bs = put_input p"
  moreover from this have "unat (word_of_nat (length (samples p)) :: u16) = length (samples p)"
    by (simp add: unat_of_nat kMaxInputSamples_def)
  moreover from this have "word_of_nat (length (samples p)) \<noteq> (0 :: u16)"
    using calculation by (metis length_0_conv unat_0)
  ultimately show "decode_input bs = Inr p"
    using sample.get_n_put [of "samples p" "[]"]
    by (simp add: decode_input_def put_input_def wire_simps)
qed

lemma length_control_body: "length (snd (control_body c)) \<le> 32 \<or> (\<exists>r m. c = Disconnect r m \<and> length (snd (control_body c)) = 4 + length m)"
  by (cases c) simp_all

lemma decode_control_body_sound:
  assumes "decode_control_body opcode body = Inr c"
  shows "control_body c = (opcode, body) \<and>
    (\<forall>reason message. c = Disconnect reason message \<longrightarrow> length message \<le> 128)"
proof -
  have rest: "put_string (map char_of_byte r) = r" for r
    by (simp add: put_string_def comp_def)
  have disconnect: "control_body c = (opcode, body) \<and>
      (\<forall>reason message. c = Disconnect reason message \<longrightarrow> length message \<le> 128)"
    if "opcode = OpDisconnect"
  proof -
    from assms that obtain reason n r where r: "body = put_u16 reason @ put_u16 n @ r"
      and n: "\<not> n > 128" "unat n = length r" and c: "c = Disconnect reason (map char_of_byte r)"
      unfolding decode_control_body_def take_rest
      by (auto simp: bind_eq_Some_conv codec_iffs split: if_splits)
    from n have "length r \<le> 128" by (simp add: word_less_nat_alt)
    with r c that word_of_length [OF n(2)] show ?thesis by (simp add: rest)
  qed
  consider "opcode = OpDisconnect" | "opcode = OpClockSyncRequest" | "opcode = OpClockSyncResponse"
    | "opcode = OpClockSyncComplete" | "opcode = OpRequestIdr" | "opcode = OpOrientationChanged"
    | "opcode = OpCapabilityChanged" | "opcode = OpTelemetry"
    using assms by (fastforce simp: decode_control_body_def split: if_splits)
  then show ?thesis
    using disconnect assms
    by cases (auto simp: decode_control_body_def bind_eq_Some_conv codec_iffs split: if_splits)
qed

lemma decode_control_body_complete:
  assumes "control_body c = (opcode, body)"
    and "\<And>reason message. c = Disconnect reason message \<Longrightarrow> length message \<le> 128"
  shows "decode_control_body opcode body = Inr c"
  using assms
  by (cases c) (auto simp: decode_control_body_def wire_simps word_less_nat_alt unat_of_nat)

lemma validateControl_text:
  "validateControl (Disconnect reason message) = Inr () \<Longrightarrow> length message \<le> 128"
  by simp

lemma control_body_short:
  assumes "validateControl c = Inr ()"
  shows "length (snd (control_body c)) \<le> 132"
  using assms by (cases c) simp_all

lemma decode_control_iff:
  "decode_control bs = Inr c \<and> validateControl c = Inr () \<longleftrightarrow>
     encodeControl c = Inr bs"
proof -
  obtain opcode body where c: "control_body c = (opcode, body)" by fastforce
  show ?thesis
  proof
    assume L: "decode_control bs = Inr c \<and> validateControl c = Inr ()"
    then obtain n where bs: "bs = put_u16 opcode @ put_u16 n @ body" "unat n = length body"
      by (auto simp: decode_control_def bind_eq_Some_conv codec_iffs c split: if_splits
          dest!: decode_control_body_sound)
    with L show "encodeControl c = Inr bs"
      by (simp add: encodeControl_def put_control_def c put_bytes_def word_of_length)
  next
    assume "encodeControl c = Inr bs"
    then have valid: "validateControl c = Inr ()"
      and bs: "bs = put_u16 opcode @ put_u16 (word_of_nat (length body)) @ body"
      by (auto simp: encodeControl_def put_control_def c put_bytes_def)
    from control_body_short [OF valid] c have "length body \<le> 132" by simp
    with bs c valid show "decode_control bs = Inr c \<and> validateControl c = Inr ()"
      by (auto simp: decode_control_def wire_simps unat_of_nat intro!: decode_control_body_complete)
  qed
qed

lemma unit_result_eq: "(r :: unit result) = Inr u \<longleftrightarrow> r = Inr ()"
  by simp

lemma validated_lengths:
  "validateHello h = Inr () \<Longrightarrow> length (deviceName h) \<le> 64 \<and> length (osName h) \<le> 32"
  "validateVideo v = Inr () \<Longrightarrow> length (accessUnit v) < 4294967296"
  "validateInput i = Inr () \<Longrightarrow> samples i \<noteq> [] \<and> length (samples i) \<le> kMaxInputSamples"
  by (simp_all add: validateHello_def validateVideo_def validateInput_def kMaxPayloadBytes_def)

text \<open>The decoder accepts exactly the encodings, and returns the value that was encoded.\<close>

lemma decodePayload_iff:
  assumes "validType type"
  shows "decodePayload type bs = Inr p \<longleftrightarrow> encodePayload p = Inr (type, bs)"
proof -
  have "type = TypeClientHello \<or> type = TypeServerConfig \<or> type = TypeVideoFrame \<or>
      type = TypeInputBatch \<or> type = TypeControl"
  proof -
    have "1 \<le> unat type \<and> unat type \<le> 5" using assms by (simp add: validType_def word_le_nat_alt)
    then have "unat type \<in> {1, 2, 3, 4, 5}" by auto
    then show ?thesis by (auto simp: word_unat_eq_iff)
  qed
  then show ?thesis
    using decode_control_iff [of bs]
    by (cases p) (auto simp: decodePayload_def get_hello_iff get_config_iff get_video_iff decode_input_iff
        validated_lengths encodeControl_def put_bytes_def)
qed

lemma encodePayload_type: "encodePayload p = Inr (type, bs) \<Longrightarrow> validType type"
  by (cases p) (auto simp: validType_def word_le_nat_alt)

end
