(* ===== verification/Framing.thy ===== *)
theory Framing
  imports Payloads
begin

text \<open>
  \<open>encodeFrame\<close> and \<open>decodeFrame\<close> of \<open>protocol/cpp/paddraw_protocol.cpp\<close>: the 20-byte header
  around a payload. A null pointer is the empty input here, the program has no other use of it.
\<close>

section \<open>The frame\<close>

definition put_header :: "u16 \<Rightarrow> u32 \<Rightarrow> u32 \<Rightarrow> u32 \<Rightarrow> bytes" where
  "put_header type flags sequence payloadLength =
     put_u32 kMagic @ put_u16 kVersion @ put_u16 type @ put_u32 flags @ put_u32 sequence @
     put_u32 payloadLength"

definition encodeFrame :: "Frame \<Rightarrow> bytes result" where
  "encodeFrame frame = bind_result (encodePayload (payload frame)) (\<lambda>(payloadType, scratch).
     and_then (check (frameType (header frame) = payloadType \<and>
         allowedFlags (frameType (header frame)) (frameFlags (header frame)))
       ''header and payload mismatch'')
     (and_then (check (length scratch \<le> kMaxPayloadBytes) ''payload too large'')
     (Inr (put_header (frameType (header frame)) (frameFlags (header frame))
        (frameSequence (header frame)) (word_of_nat (length scratch)) @ put_bytes scratch))))"

definition get_header :: "bytes \<Rightarrow> ((u32 \<times> u16 \<times> u16 \<times> u32 \<times> u32 \<times> u32) \<times> bytes) option" where
  "get_header bs = do {
     (magic, r) \<leftarrow> get_u32 bs;
     (version, r) \<leftarrow> get_u16 r;
     (rawType, r) \<leftarrow> get_u16 r;
     (flags, r) \<leftarrow> get_u32 r;
     (sequence, r) \<leftarrow> get_u32 r;
     (payloadLength, r) \<leftarrow> get_u32 r;
     Some ((magic, version, rawType, flags, sequence, payloadLength), r) }"

definition decodeFrame :: "bytes \<Rightarrow> Frame result" where
  "decodeFrame bs =
     (if length bs < kFrameHeaderBytes then Inl ''truncated frame header''
      else bind_result (require ''truncated frame header'' (get_header bs))
       (\<lambda>((magic, version, type, flags, sequence, payloadLength), r).
        and_then (check (magic = kMagic) ''wrong frame magic'')
        (and_then (check (version = kVersion) ''unsupported protocol version'')
        (and_then (check (validType type) ''unknown message type'')
        (and_then (check (allowedFlags type flags) ''unknown message flag'')
        (and_then (check (\<not> (unat payloadLength > kMaxPayloadBytes \<or> unat payloadLength \<noteq> length r))
           ''invalid payload length'')
        (bind_result (decodePayload type r) (\<lambda>p.
           Inr \<lparr>header = \<lparr>frameFlags = flags, frameSequence = sequence, frameType = type\<rparr>,
             payload = p\<rparr>))))))))"

section \<open>The header codec\<close>

text \<open>The header is a \<open>wire_codec\<close> of its six fields.\<close>

definition put_fields :: "u32 \<times> u16 \<times> u16 \<times> u32 \<times> u32 \<times> u32 \<Rightarrow> bytes" where
  "put_fields = (\<lambda>(magic, version, type, flags, sequence, payloadLength).
     put_u32 magic @ put_u16 version @ put_u16 type @ put_u32 flags @ put_u32 sequence @
     put_u32 payloadLength)"

interpretation header: wire_codec put_fields get_header
proof
  show "get_header (put_fields h @ r) = Some (h, r)" for h r
    by (cases h) (simp add: get_header_def put_fields_def wire_simps)
  show "bs = put_fields h @ r" if "get_header bs = Some (h, r)" for bs h r
    using that by (auto simp: get_header_def put_fields_def bind_eq_Some_conv codec_iffs)
qed

lemma length_put_fields [simp]: "length (put_fields h) = kFrameHeaderBytes"
  by (cases h) (simp add: put_fields_def kFrameHeaderBytes_def)

lemma put_header_fields:
  "put_header type flags sequence n = put_fields (kMagic, kVersion, type, flags, sequence, n)"
  by (simp add: put_header_def put_fields_def)

lemma length_put_header [simp]: "length (put_header t f s n) = kFrameHeaderBytes"
  by (simp add: put_header_fields)

section \<open>Encoding and decoding a frame\<close>

text \<open>The outcome of the encoder, field by field.\<close>

lemma encodeFrame_eq:
  "encodeFrame \<lparr>header = \<lparr>frameFlags = f, frameSequence = s, frameType = t\<rparr>, payload = p\<rparr> = Inr bs \<longleftrightarrow>
     (\<exists>body. encodePayload p = Inr (t, body) \<and> allowedFlags t f \<and> length body \<le> kMaxPayloadBytes \<and>
       bs = put_fields (kMagic, kVersion, t, f, s, word_of_nat (length body)) @ body)"
  by (auto simp: encodeFrame_def put_header_fields put_bytes_def)

lemma decodeFrame_eq:
  "decodeFrame bs = Inr \<lparr>header = \<lparr>frameFlags = f, frameSequence = s, frameType = t\<rparr>, payload = p\<rparr> \<longleftrightarrow>
     (\<exists>n body. bs = put_fields (kMagic, kVersion, t, f, s, n) @ body \<and> validType t \<and> allowedFlags t f \<and>
       unat n \<le> kMaxPayloadBytes \<and> unat n = length body \<and> decodePayload t body = Inr p)"
  by (auto simp: decodeFrame_def header.get_iff not_less)

text \<open>One theorem shared by the round trip and the canonicity of the format.\<close>

lemma decodeFrame_encodeFrame: "decodeFrame bs = Inr frame \<longleftrightarrow> encodeFrame frame = Inr bs"
proof -
  obtain f s t p where frame:
    "frame = \<lparr>header = \<lparr>frameFlags = f, frameSequence = s, frameType = t\<rparr>, payload = p\<rparr>"
    by (metis (full_types) Frame.cases FrameHeader.cases)
  have len: "unat (word_of_nat n :: u32) = n" if "n \<le> kMaxPayloadBytes" for n
    using that by (simp add: unat_of_nat kMaxPayloadBytes_def)
  show ?thesis
    unfolding frame
  proof
    assume "decodeFrame bs = Inr \<lparr>header = \<lparr>frameFlags = f, frameSequence = s, frameType = t\<rparr>, payload = p\<rparr>"
    then obtain n body where bs: "bs = put_fields (kMagic, kVersion, t, f, s, n) @ body" "validType t"
      "allowedFlags t f" "unat n \<le> kMaxPayloadBytes" "unat n = length body" "decodePayload t body = Inr p"
      unfolding decodeFrame_eq by blast
    moreover from bs(2,6) have "encodePayload p = Inr (t, body)" by (simp add: decodePayload_iff)
    moreover have "word_of_nat (length body) = n" using bs(5) by (rule word_of_length)
    ultimately show "encodeFrame \<lparr>header = \<lparr>frameFlags = f, frameSequence = s, frameType = t\<rparr>, payload = p\<rparr> = Inr bs"
      unfolding encodeFrame_eq by (intro exI [of _ body]) simp
  next
    assume "encodeFrame \<lparr>header = \<lparr>frameFlags = f, frameSequence = s, frameType = t\<rparr>, payload = p\<rparr> = Inr bs"
    then obtain body where body: "encodePayload p = Inr (t, body)" "allowedFlags t f"
      "length body \<le> kMaxPayloadBytes"
      "bs = put_fields (kMagic, kVersion, t, f, s, word_of_nat (length body)) @ body"
      unfolding encodeFrame_eq by blast
    then show "decodeFrame bs = Inr \<lparr>header = \<lparr>frameFlags = f, frameSequence = s, frameType = t\<rparr>, payload = p\<rparr>"
      unfolding decodeFrame_eq using encodePayload_type [OF body(1)]
      by (intro exI [of _ "word_of_nat (length body)"] exI [of _ body]) (simp add: len decodePayload_iff)
  qed
qed

lemma encodeFrame_type: "encodeFrame frame = Inr bs \<Longrightarrow> validType (frameType (header frame))"
  by (auto simp: encodeFrame_def dest: encodePayload_type)

lemma encodeFrame_parts:
  assumes "encodeFrame frame = Inr bs"
  obtains body where "encodePayload (payload frame) = Inr (frameType (header frame), body)"
    "allowedFlags (frameType (header frame)) (frameFlags (header frame))"
    "length body \<le> kMaxPayloadBytes"
    "bs = put_header (frameType (header frame)) (frameFlags (header frame))
        (frameSequence (header frame)) (word_of_nat (length body)) @ body"
  using assms by (auto simp: encodeFrame_def put_bytes_def)

text \<open>The declared length of an accepted frame is the length of what follows the header.\<close>

lemma decodeFrame_length:
  assumes "decodeFrame bs = Inr frame"
  obtains t f s n body where "bs = put_fields (kMagic, kVersion, t, f, s, n) @ body" "unat n = length body"
  using assms by (auto simp: decodeFrame_def header.get_iff not_less split: if_splits)

lemma decodeFrame_same_header:
  assumes "decodeFrame bs = Inr frame" and "decodeFrame (bs @ xs) = Inr frame'"
  shows "xs = []"
proof -
  obtain t f s n body where bs: "bs = put_fields (kMagic, kVersion, t, f, s, n) @ body" "unat n = length body"
    using decodeFrame_length [OF assms(1)] by metis
  obtain t' f' s' n' body' where
    bs': "bs @ xs = put_fields (kMagic, kVersion, t', f', s', n') @ body'" "unat n' = length body'"
    using decodeFrame_length [OF assms(2)] by metis
  from bs(1) bs'(1) have "n = n'" "body @ xs = body'"
    by (simp_all add: header.put_inject)
  with bs(2) bs'(2) show ?thesis by (metis append_self_conv length_append add_cancel_right_right length_0_conv)
qed

section \<open>Sizes\<close>

lemma length_put_hello:
  "length (put_hello p) = 28 + length (deviceName p) + length (osName p)"
  by (simp add: put_hello_def)

lemma length_put_config: "length (put_config p) = 40"
  by (simp add: put_config_def)

lemma length_put_video: "length (put_video p) = 20 + length (accessUnit p)"
  by (simp add: put_video_def)

lemma length_put_input: "length (put_input p) = 12 + 22 * length (samples p)"
  by (simp add: put_input_def)

lemma length_put_control: "length (put_control c) = 4 + length (snd (control_body c))"
  by (simp add: put_control_def split: prod.split)

lemmas payload_lengths =
  length_put_hello length_put_config length_put_video length_put_input length_put_control

lemma payload_not_Nil:
  "put_hello h \<noteq> []" "put_config c \<noteq> []" "put_video v \<noteq> []" "put_input i \<noteq> []" "put_control d \<noteq> []"
  by (simp_all add: payload_lengths flip: length_greater_0_conv)

text \<open>The largest payload of each message, as \<open>protocol/README.md\<close> gives it.\<close>

fun payload_limit :: "Payload \<Rightarrow> nat" where
  "payload_limit (PClientHello _) = 124"
| "payload_limit (PServerConfig _) = 40"
| "payload_limit (PVideoFrame _) = 8 * 1024 * 1024"
| "payload_limit (PInputBatch _) = 1420"
| "payload_limit (PControl _) = 136"

lemma encodePayload_length:
  "encodePayload p = Inr (t, body) \<Longrightarrow> 0 < length body \<and> length body \<le> payload_limit p"
  using control_body_short
  by (cases p) (auto simp: payload_lengths encodeControl_def validateHello_def validateVideo_def
      put_bytes_def validateInput_def kMaxPayloadBytes_def kMaxInputSamples_def
      payload_not_Nil)

section \<open>Accepted input\<close>

definition sample_ok :: "InputSample \<Rightarrow> bool" where
  "sample_ok s \<longleftrightarrow> pointerId s \<noteq> 0 \<and> tool s \<in> {ToolPen, ToolTouch, ToolEraser} \<and>
     unat (contactFlags s) < 16 \<and> unat (buttons s) < 8 \<and>
     \<bar>sint (tiltX s)\<bar> \<le> 9000 \<and> \<bar>sint (tiltY s)\<bar> \<le> 9000"

lemma no_unknown_bits:
  "c AND NOT kKnownContactFlags = 0 \<longleftrightarrow> unat c < 16"
  "b AND NOT kKnownButtons = 0 \<longleftrightarrow> unat b < 8"
proof -
  have m: "kKnownContactFlags = mask 4" "kKnownButtons = mask 3"
    by (simp_all add: kKnownContactFlags_def kKnownButtons_def mask_eq_exp_minus_1)
  have "n div 16 * 16 = 0 \<longleftrightarrow> n < 16" "n div 8 * 8 = 0 \<longleftrightarrow> n < 8" for n :: nat by auto
  then show "c AND NOT kKnownContactFlags = 0 \<longleftrightarrow> unat c < 16"
    "b AND NOT kKnownButtons = 0 \<longleftrightarrow> unat b < 8"
    by (simp_all add: m word_unat_eq_iff unat_and_not_mask)
qed

lemma validateSample_iff:
  "validateSample first previous s = Inr () \<longleftrightarrow>
     sample_ok s \<and> (first \<or> unat previous \<le> unat (timestampDeltaUs s))"
  by (auto simp: validateSample_def sample_ok_def validTool_def no_unknown_bits word_le_nat_alt)

lemma validateSamples_iff:
  "validateSamples first previous ss = Inr () \<longleftrightarrow>
     list_all sample_ok ss \<and>
     sorted (map (\<lambda>s. unat (timestampDeltaUs s)) ss) \<and>
     (first \<or> ss = [] \<or> unat previous \<le> unat (timestampDeltaUs (hd ss)))"
proof (induction ss arbitrary: first previous)
  case Nil
  then show ?case by simp
next
  case (Cons s ss)
  have "(\<forall>y \<in> set (map (\<lambda>s. unat (timestampDeltaUs s)) ss). unat (timestampDeltaUs s) \<le> y) \<longleftrightarrow>
      ss = [] \<or> unat (timestampDeltaUs s) \<le> unat (timestampDeltaUs (hd ss))"
    if "sorted (map (\<lambda>s. unat (timestampDeltaUs s)) ss)"
    using that by (cases ss) auto
  then show ?case by (auto simp: Cons.IH validateSample_iff)
qed

section \<open>A frame on the wire\<close>

text \<open>The frame of \<open>tests/cpp/PdbProtocolCppRegression.cpp\<close> and the bytes it expects.\<close>

definition clock_sync_frame :: Frame where
  "clock_sync_frame = \<lparr>header = \<lparr>frameFlags = 0, frameSequence = 12, frameType = TypeControl\<rparr>,
     payload = PControl (ClockSyncComplete 1000000000 1000001000 1000002000 1000005000)\<rparr>"

definition clock_sync_bytes :: bytes where
  "clock_sync_bytes =
     [0x50, 0x44, 0x42, 0x31, 0x01, 0x00, 0x05, 0x00, 0x00, 0x00, 0x00, 0x00,
      0x0c, 0x00, 0x00, 0x00, 0x24, 0x00, 0x00, 0x00, 0x08, 0x00, 0x20, 0x00,
      0x00, 0xca, 0x9a, 0x3b, 0x00, 0x00, 0x00, 0x00, 0xe8, 0xcd, 0x9a, 0x3b,
      0x00, 0x00, 0x00, 0x00, 0xd0, 0xd1, 0x9a, 0x3b, 0x00, 0x00, 0x00, 0x00,
      0x88, 0xdd, 0x9a, 0x3b, 0x00, 0x00, 0x00, 0x00]"

lemma encode_clock_sync: "encodeFrame clock_sync_frame = Inr clock_sync_bytes"
  by (simp add: clock_sync_frame_def clock_sync_bytes_def encodeFrame_def encodeControl_def
      put_control_def put_header_def kMagic_def kVersion_def kMaxPayloadBytes_def allowedFlags_def
      put_evals)

lemma decode_clock_sync: "decodeFrame clock_sync_bytes = Inr clock_sync_frame"
  by (simp add: decodeFrame_encodeFrame encode_clock_sync)

text \<open>An input batch of two samples, the pen down and then one centimetre on.\<close>

definition pen_sample :: "u32 \<Rightarrow> u16 \<Rightarrow> InputSample" where
  "pen_sample delta x = \<lparr>timestampDeltaUs = delta, pointerId = 1, tool = ToolPen, contactFlags = 3,
     sampleX = x, sampleY = 1000, pressure = 2048, tiltX = -1500, tiltY = 1500,
     distance = kDistanceUnavailable, buttons = 1\<rparr>"

definition pen_frame :: Frame where
  "pen_frame = \<lparr>header = \<lparr>frameFlags = 0, frameSequence = 7, frameType = TypeInputBatch\<rparr>,
     payload = PInputBatch \<lparr>batchTimestampNs = 5000, samples = [pen_sample 0 100, pen_sample 250 180]\<rparr>\<rparr>"

lemma encode_pen_frame: "\<exists>bs. encodeFrame pen_frame = Inr bs"
  by (simp add: pen_frame_def encodeFrame_def validateInput_def validateSample_def validTool_def
      pen_sample_def kMaxInputSamples_def kKnownContactFlags_def kKnownButtons_def
      length_put_input kMaxPayloadBytes_def allowedFlags_def)

section \<open>Properties\<close>

text \<open>C1: The wire format is a bijection between the frames the encoder accepts and the byte
  strings the decoder accepts: \<open>decodeFrame\<close> returns a frame exactly when \<open>encodeFrame\<close> of that
  frame gives those bytes. So every frame that is sent is read back unchanged, and no two byte
  strings stand for the same frame.\<close>

theorem frame_codec: "decodeFrame bs = Inr frame \<longleftrightarrow> encodeFrame frame = Inr bs"
  by (rule decodeFrame_encodeFrame)

text \<open>Frames delimit themselves: bytes appended to an accepted frame, or cut off its end,
  make the decoder report an error, so a mis-framed read is never taken for a message.\<close>

lemma frame_prefix_free:
  assumes "decodeFrame bs = Inr frame" and "xs \<noteq> []"
  shows "(\<exists>e. decodeFrame (bs @ xs) = Inl e) \<and> (\<forall>ys. bs = ys @ xs \<longrightarrow> (\<exists>e. decodeFrame ys = Inl e))"
proof (intro conjI allI impI)
  show "\<exists>e. decodeFrame (bs @ xs) = Inl e"
    using decodeFrame_same_header [OF assms(1)] assms(2) by (cases "decodeFrame (bs @ xs)") auto
  fix ys assume "bs = ys @ xs"
  then show "\<exists>e. decodeFrame ys = Inl e"
    using decodeFrame_same_header [of ys _ xs] assms by (cases "decodeFrame ys") auto
qed

theorem frame_prefix_free_witness:
  "(\<exists>e. decodeFrame (clock_sync_bytes @ [0]) = Inl e) \<and>
   (\<exists>e. decodeFrame (butlast clock_sync_bytes) = Inl e)"
  using frame_prefix_free [OF decode_clock_sync, of "[0]"]
  by (simp add: clock_sync_bytes_def)

text \<open>C7: What reaches the input system from the wire is well formed: an accepted input frame has
  the message type and flags of one, between 1 and 64 samples in non-decreasing time order, and every
  sample has a non-zero pointer id, a known tool, no unknown contact or button bit, and a tilt
  within 90 degrees.\<close>

theorem accepted_input_batch:
  assumes "decodeFrame bs = Inr frame" and "payload frame = PInputBatch batch"
  shows "frameType (header frame) = TypeInputBatch \<and> frameFlags (header frame) = 0 \<and>
    1 \<le> length (samples batch) \<and> length (samples batch) \<le> 64 \<and>
    sorted (map (\<lambda>s. unat (timestampDeltaUs s)) (samples batch)) \<and>
    list_all sample_ok (samples batch)"
proof -
  from assms(1) obtain body where
    "encodePayload (payload frame) = Inr (frameType (header frame), body)"
    "allowedFlags (frameType (header frame)) (frameFlags (header frame))"
    by (auto simp: decodeFrame_encodeFrame elim: encodeFrame_parts)
  with assms(2) show ?thesis
    by (auto simp: validateInput_def validateSamples_iff kMaxInputSamples_def allowedFlags_def Suc_le_eq)
qed

theorem accepted_input_batch_witness:
  "\<exists>bs. decodeFrame bs = Inr pen_frame \<and>
     sorted (map (\<lambda>s. unat (timestampDeltaUs s)) [pen_sample 0 100, pen_sample 250 180])"
proof -
  obtain bs where bs: "decodeFrame bs = Inr pen_frame"
    using encode_pen_frame by (auto simp: decodeFrame_encodeFrame)
  from accepted_input_batch [OF bs, of "\<lparr>batchTimestampNs = 5000, samples = [pen_sample 0 100, pen_sample 250 180]\<rparr>"] bs
  show ?thesis by (auto simp: pen_frame_def)
qed

text \<open>An encoded frame is the 20-byte header and a non-empty payload no longer than the limit
  that \<open>protocol/README.md\<close> gives for its message: 124 bytes for ClientHello, 40 for ServerConfig,
  8 MiB for VideoFrame, 1420 for InputBatch, 136 for Control. The length field holds the payload's
  length.\<close>

lemma frame_size:
  assumes "encodeFrame frame = Inr bs"
  shows "20 < length bs \<and> length bs \<le> 20 + payload_limit (payload frame) \<and>
    length bs \<le> 20 + kMaxPayloadBytes \<and>
    take 4 (drop 16 bs) = put_u32 (word_of_nat (length bs - 20))"
proof -
  from assms obtain body where body:
    "encodePayload (payload frame) = Inr (frameType (header frame), body)" "length body \<le> kMaxPayloadBytes"
    "bs = put_header (frameType (header frame)) (frameFlags (header frame))
        (frameSequence (header frame)) (word_of_nat (length body)) @ body"
    by (elim encodeFrame_parts)
  with encodePayload_length [OF body(1)] show ?thesis
    by (simp add: kFrameHeaderBytes_def put_header_def)
qed

theorem frame_size_witness:
  "20 < length clock_sync_bytes \<and> length clock_sync_bytes \<le> 20 + payload_limit (payload clock_sync_frame) \<and>
    length clock_sync_bytes \<le> 20 + kMaxPayloadBytes \<and>
    take 4 (drop 16 clock_sync_bytes) = put_u32 (word_of_nat (length clock_sync_bytes - 20))"
  by (rule frame_size [OF encode_clock_sync])

end
