(* ===== verification/FramedStream.thy ===== *)
theory FramedStream
  imports Framing
begin

text \<open>
  \<open>app/framed_stream.h\<close> and \<open>app/framed_stream.cpp\<close>: \<open>IByteStream\<close>, the frame reader and the
  resumable writer over it, and \<open>SocketByteStream\<close> over the Winsock calls.

  \<open>byte_stream\<close> is the interface: whatever a stream reports as transferred has moved, in order, and
  nothing else has. The reader and the writer are proved against it once. \<open>winsock\<close> states what
  \<open>recv\<close> and \<open>send\<close> are documented to do; \<open>SocketByteStream\<close> is a \<open>byte_stream\<close> over any such pair.
\<close>

section \<open>Streams\<close>

datatype IoStatus = IoOk | IoClosed | IoWouldBlock | IoError

record IoResult =
  ioStatus :: IoStatus
  transferred :: nat
  ioError :: string

abbreviation io :: "IoStatus \<Rightarrow> nat \<Rightarrow> string \<Rightarrow> IoResult" where
  "io st n e \<equiv> \<lparr>ioStatus = st, transferred = n, ioError = e\<rparr>"

text \<open>
  A \<open>Read\<close> gets the size of its destination and returns its result, the bytes it stores at the front
  of the destination, and the stream after it. A \<open>Write\<close> gets the source bytes.
\<close>

type_synonym 's reader = "'s \<Rightarrow> nat \<Rightarrow> IoResult \<times> bytes \<times> 's"
type_synonym 's writer = "'s \<Rightarrow> bytes \<Rightarrow> IoResult \<times> 's"

text \<open>Bytes stored in a buffer from a position on; a span ends where the buffer ends.\<close>

definition overlay :: "nat \<Rightarrow> bytes \<Rightarrow> bytes \<Rightarrow> bytes" where
  "overlay at bs buf = take (length buf) (take at buf @ bs @ drop (at + length bs) buf)"

lemma length_overlay [simp]: "length (overlay at bs buf) = length buf"
  by (simp add: overlay_def)

section \<open>ReadFrame\<close>

function readExactFrom :: "'s reader \<Rightarrow> 's \<Rightarrow> nat \<Rightarrow> bytes \<Rightarrow> IoResult \<times> bytes \<times> 's" where
  "readExactFrom read s got destination =
     (if got < length destination then
        (case read s (length destination - got) of (result, bs, s') \<Rightarrow>
           let destination' = overlay got bs destination;
               got' = got + transferred result
           in if transferred result > length destination - got
              then (io IoError got ''stream returned an invalid read length'', destination', s')
              else if ioStatus result \<noteq> IoOk
              then (io (ioStatus result) got' (ioError result), destination', s')
              else if transferred result = 0
              then (io IoClosed got' ''peer closed during frame read'', destination', s')
              else readExactFrom read s' got' destination')
      else (io IoOk got [], destination, s))"
  by pat_completeness auto
termination
  by (relation "measure (\<lambda>(read, s, got, destination). length destination - got)") auto

declare readExactFrom.simps [simp del]

definition readExact :: "'s reader \<Rightarrow> 's \<Rightarrow> bytes \<Rightarrow> IoResult \<times> bytes \<times> 's" where
  "readExact read s destination = readExactFrom read s 0 destination"

definition kPayloadLengthOffset :: nat where "kPayloadLengthOffset = 16"

definition readLe32 :: "bytes \<Rightarrow> u32" where
  "readLe32 bs = ucast (bs ! 0) OR push_bit 8 (ucast (bs ! 1)) OR push_bit 16 (ucast (bs ! 2)) OR
     push_bit 24 (ucast (bs ! 3))"

text \<open>The frame is the second component; \<open>None\<close> where \<open>*frame\<close> is left as it was.\<close>

definition readFrame :: "'s reader \<Rightarrow> 's \<Rightarrow> IoResult \<times> Frame option \<times> 's" where
  "readFrame read s =
     (case readExact read s (replicate kFrameHeaderBytes 0) of (result, head, s1) \<Rightarrow>
        if ioStatus result \<noteq> IoOk then (result, None, s1)
        else let payload_length = readLe32 (drop kPayloadLengthOffset head)
        in if unat payload_length > kMaxPayloadBytes
           then (io IoError (transferred result) ''protocol payload exceeds v1 maximum'', None, s1)
           else (case (if payload_length = 0 then (result, [], s1)
                       else case readExact read s1 (replicate (unat payload_length) 0) of
                         (body, bs, s2) \<Rightarrow>
                           (body\<lparr>transferred := transferred body + transferred result\<rparr>, bs, s2)) of
             (result2, body, s2) \<Rightarrow>
               if ioStatus result2 \<noteq> IoOk then (result2, None, s2)
               else (case decodeFrame (head @ body) of
                   Inl e \<Rightarrow> (io IoError (transferred result2) (''invalid protocol frame: '' @ e), None, s2)
                 | Inr frame \<Rightarrow> (io IoOk (transferred result2) [], Some frame, s2))))"

section \<open>ResumableFrameWriter\<close>

record FrameWriter =
  pendingBytes :: bytes
  payloadScratch :: bytes
  writeOffset :: nat

definition writer_init :: FrameWriter where
  "writer_init = \<lparr>pendingBytes = [], payloadScratch = [], writeOffset = 0\<rparr>"

definition writer_pending :: "FrameWriter \<Rightarrow> bool" where
  "writer_pending w \<longleftrightarrow> pendingBytes w \<noteq> []"

definition writer_clear :: "FrameWriter \<Rightarrow> FrameWriter" where
  "writer_clear w = w\<lparr>pendingBytes := [], payloadScratch := [], writeOffset := 0\<rparr>"

definition writer_start :: "FrameWriter \<Rightarrow> Frame \<Rightarrow> IoResult \<times> FrameWriter" where
  "writer_start w frame =
     (if writer_pending w then (io IoError 0 ''another protocol frame is already pending'', w)
      else case encodeFrame frame of
        Inr bs \<Rightarrow> (io IoOk 0 [], w\<lparr>pendingBytes := bs, payloadScratch := drop kFrameHeaderBytes bs,
                     writeOffset := 0\<rparr>)
      | Inl e \<Rightarrow> (io IoError 0 (''cannot encode protocol frame: '' @ e), writer_clear w))"

function writer_loop ::
  "'s writer \<Rightarrow> 's \<Rightarrow> nat \<Rightarrow> FrameWriter \<Rightarrow> IoResult \<times> FrameWriter \<times> 's" where
  "writer_loop write s starting w =
     (if writeOffset w < length (pendingBytes w) then
        (case write s (drop (writeOffset w) (pendingBytes w)) of (result, s') \<Rightarrow>
           let w' = w\<lparr>writeOffset := writeOffset w + transferred result\<rparr>
           in if transferred result > length (pendingBytes w) - writeOffset w
              then (io IoError (writeOffset w - starting) ''stream returned an invalid write length'', w, s')
              else if ioStatus result \<noteq> IoOk
              then (io (ioStatus result) (writeOffset w' - starting) (ioError result), w', s')
              else if transferred result = 0
              then (io IoClosed (writeOffset w' - starting) ''peer closed during frame write'', w', s')
              else writer_loop write s' starting w')
      else (io IoOk (writeOffset w - starting) [], writer_clear w, s))"
  by pat_completeness auto
termination
  by (relation "measure (\<lambda>(write, s, starting, w). length (pendingBytes w) - writeOffset w)") auto

declare writer_loop.simps [simp del]

definition writer_continue :: "'s writer \<Rightarrow> 's \<Rightarrow> FrameWriter \<Rightarrow> IoResult \<times> FrameWriter \<times> 's" where
  "writer_continue write s w =
     (if \<not> writer_pending w then (io IoError 0 ''no protocol frame is pending'', w, s)
      else writer_loop write s (writeOffset w) w)"

definition writeFrame :: "'s writer \<Rightarrow> 's \<Rightarrow> Frame \<Rightarrow> IoResult \<times> 's" where
  "writeFrame write s frame =
     (case writer_start writer_init frame of (started, w) \<Rightarrow>
        if ioStatus started \<noteq> IoOk then (started, s)
        else case writer_continue write s w of (result, w', s') \<Rightarrow> (result, s'))"

section \<open>SocketByteStream\<close>

text \<open>
  \<open>recv\<close>, \<open>send\<close> and \<open>WSAGetLastError\<close> are the operating system's; \<open>'w\<close> is the state of the socket
  inside it. \<open>recv\<close> gets a length and returns its \<open>int\<close> and the bytes it stored.
\<close>

definition kIntMax :: nat where "kIntMax = 2147483647"

definition socketStatusForError :: "int \<Rightarrow> IoStatus" where
  "socketStatusForError err =
     (if err = 10035 \<or> err = 10060 then IoWouldBlock
      else if err = 10054 \<or> err = 10053 \<or> err = 10057 \<or> err = 10058 then IoClosed
      else IoError)"

definition socketFailure :: "('w \<Rightarrow> int) \<Rightarrow> 'w \<Rightarrow> string \<Rightarrow> IoResult" where
  "socketFailure lastError s operation =
     io (socketStatusForError (lastError s)) 0 (operation @ '' failed: WSA '' @ to_string (lastError s))"

definition socketRead ::
  "bool \<Rightarrow> ('w \<Rightarrow> nat \<Rightarrow> int \<times> bytes \<times> 'w) \<Rightarrow> ('w \<Rightarrow> int) \<Rightarrow> 'w reader" where
  "socketRead valid recv lastError s n =
     (if \<not> valid then (io IoClosed 0 ''socket is closed'', [], s)
      else if n = 0 then (io IoOk 0 [], [], s)
      else case recv s (min n kIntMax) of (read, bs, s') \<Rightarrow>
        if read > 0 then (io IoOk (nat read) [], bs, s')
        else if read = 0 then (io IoClosed 0 ''peer closed socket'', bs, s')
        else (socketFailure lastError s' ''recv'', bs, s'))"

definition socketWrite ::
  "bool \<Rightarrow> ('w \<Rightarrow> bytes \<Rightarrow> int \<times> 'w) \<Rightarrow> ('w \<Rightarrow> int) \<Rightarrow> 'w writer" where
  "socketWrite valid send lastError s source =
     (if \<not> valid then (io IoClosed 0 ''socket is closed'', s)
      else if source = [] then (io IoOk 0 [], s)
      else case send s (take (min (length source) kIntMax) source) of (written, s') \<Rightarrow>
        if written > 0 then (io IoOk (nat written) [], s')
        else if written = 0 then (io IoClosed 0 ''peer closed socket'', s')
        else (socketFailure lastError s' ''send'', s'))"

section \<open>The interface of a stream\<close>

text \<open>
  \<open>incoming s\<close> are the bytes the peer has sent that are still to be read from \<open>s\<close>,
  \<open>outgoing s\<close> the bytes that have been written to it.
\<close>

locale byte_stream =
  fixes rd :: "'s reader" and wr :: "'s writer"
    and incoming :: "'s \<Rightarrow> bytes" and outgoing :: "'s \<Rightarrow> bytes"
  assumes read_moves: "rd s n = (r, bs, s') \<Longrightarrow>
      transferred r \<le> length bs \<and> length bs \<le> n \<and>
      incoming s = take (transferred r) bs @ incoming s' \<and> outgoing s' = outgoing s"
    and write_moves: "wr s bs = (r, s') \<Longrightarrow>
      transferred r \<le> length bs \<and> outgoing s' = outgoing s @ take (transferred r) bs \<and>
      incoming s' = incoming s"
begin

lemma overlay_take:
  assumes "k \<le> length bs" "at + length bs \<le> length buf"
  shows "take (at + k) (overlay at bs buf) = take at buf @ take k bs"
proof -
  have "overlay at bs buf = take at buf @ bs @ drop (at + length bs) buf"
    using assms by (simp add: overlay_def)
  also have "\<dots> = (take at buf @ take k bs) @ drop k bs @ drop (at + length bs) buf"
    by simp
  finally show ?thesis using assms by simp
qed

lemma read_exact_from:
  assumes "readExactFrom rd s got dest = (r, dest', s')" and "got \<le> length dest"
  shows "length dest' = length dest \<and> got \<le> transferred r \<and> transferred r \<le> length dest \<and>
    take got dest' = take got dest \<and> outgoing s' = outgoing s \<and>
    take got dest @ incoming s = take (transferred r) dest' @ incoming s' \<and>
    (ioStatus r = IoOk \<longrightarrow> r = io IoOk (length dest) [])"
  using assms
proof (induction "length dest - got" arbitrary: s got dest rule: less_induct)
  case less
  show ?case
  proof (cases "got < length dest")
    case False
    with less.prems show ?thesis by (auto simp: readExactFrom.simps [of rd s got dest])
  next
    case True
    obtain q bs s1 where q: "rd s (length dest - got) = (q, bs, s1)" by (metis surj_pair)
    define dest1 where "dest1 = overlay got bs dest"
    from read_moves [OF q] True have mv: "transferred q \<le> length bs" "got + length bs \<le> length dest"
      "incoming s = take (transferred q) bs @ incoming s1" "outgoing s1 = outgoing s" by auto
    have d1: "length dest1 = length dest" "take (got + transferred q) dest1 = take got dest @ take (transferred q) bs"
      "take got dest1 = take got dest"
      using overlay_take [OF mv(1,2)] overlay_take [of 0 bs got dest] mv(2)
      by (simp_all add: dest1_def)
    show ?thesis
    proof (cases "ioStatus q \<noteq> IoOk \<or> transferred q = 0")
      case True
      with less.prems q mv d1 \<open>got < length dest\<close> show ?thesis
        by (auto simp: readExactFrom.simps [of rd s got dest] Let_def dest1_def split: if_splits)
    next
      case False
      moreover have "\<not> length dest - got < transferred q" using mv by simp
      ultimately have rec: "readExactFrom rd s1 (got + transferred q) dest1 = (r, dest', s')"
        using less.prems(1) q True by (simp add: readExactFrom.simps [of rd s got dest] dest1_def)
      have le: "got + transferred q \<le> length dest1" using mv d1 by simp
      have "length dest1 - (got + transferred q) < length dest - got" using False True d1 mv by auto
      note ih = less.hyps [OF this rec le]
      then have "take got (take (got + transferred q) dest') = take got dest"
        using True d1 mv by simp
      then have "take got dest' = take got dest" by simp
      with ih d1 mv show ?thesis by auto
    qed
  qed
qed

lemma read_exact:
  assumes "readExact rd s dest = (r, dest', s')"
  shows "length dest' = length dest" "transferred r \<le> length dest" "outgoing s' = outgoing s"
    "incoming s = take (transferred r) dest' @ incoming s'"
    "ioStatus r = IoOk \<Longrightarrow> transferred r = length dest \<and> incoming s = dest' @ incoming s'"
    "ioStatus r = IoOk \<Longrightarrow> r = io IoOk (length dest) []"
  using read_exact_from [OF assms [unfolded readExact_def]] by auto

text \<open>
  Reading a frame takes a prefix off the stream and nothing more; it returns a frame exactly when
  that prefix is the encoding of it.
\<close>

lemma read_frame:
  assumes "readFrame rd s = (r, result, s')"
  shows "\<exists>bs. incoming s = bs @ incoming s' \<and> length bs = transferred r \<and> outgoing s' = outgoing s \<and>
    (case result of None \<Rightarrow> ioStatus r \<noteq> IoOk | Some frame \<Rightarrow> ioStatus r = IoOk \<and> encodeFrame frame = Inr bs)"
proof -
  obtain q head s1 where q: "readExact rd s (replicate kFrameHeaderBytes 0) = (q, head, s1)" by (metis surj_pair)
  note rq = read_exact [OF q]
  define n where "n = readLe32 (drop kPayloadLengthOffset head)"
  show ?thesis
  proof (cases "ioStatus q = IoOk \<and> unat n \<le> kMaxPayloadBytes")
    case False
    with assms q rq show ?thesis
      by (intro exI [of _ "take (transferred q) head"])
        (auto simp: readFrame_def n_def Let_def split: if_splits)
  next
    case True
    obtain b body s2 where b: "(if n = 0 then (q, [], s1) else case readExact rd s1 (replicate (unat n) 0) of
        (b, bs, s2) \<Rightarrow> (b\<lparr>transferred := transferred b + transferred q\<rparr>, bs, s2)) = (b, body, s2)"
      by (rule prod_cases3)
    have moved: "incoming s = (head @ take (transferred b - transferred q) body) @ incoming s2 \<and>
        outgoing s2 = outgoing s \<and> transferred q = length head \<and> transferred q \<le> transferred b \<and>
        transferred b - transferred q \<le> length body \<and>
        (ioStatus b = IoOk \<longrightarrow> transferred b = length head + length body)"
    proof (cases "n = 0")
      case True
      with b rq \<open>ioStatus q = IoOk \<and> unat n \<le> kMaxPayloadBytes\<close> show ?thesis by auto
    next
      case False
      obtain c bs s3 where c: "readExact rd s1 (replicate (unat n) 0) = (c, bs, s3)" by (metis surj_pair)
      have b': "b = c\<lparr>transferred := transferred c + transferred q\<rparr>" "body = bs" "s2 = s3"
        using b False c by simp_all
      have q': "transferred q = length head" "incoming s = head @ incoming s1"
        using rq(1,5) True by simp_all
      note rc = read_exact [OF c]
      have "incoming s = head @ take (transferred c) bs @ incoming s3"
        using q'(2) rc(4) by simp
      moreover have "outgoing s3 = outgoing s" using rc(3) rq(3) by simp
      moreover have "transferred c \<le> length bs" "ioStatus c = IoOk \<Longrightarrow> transferred c = length bs"
        using rc(1,2,5) by simp_all
      ultimately show ?thesis using q' by (simp add: b')
    qed
    have "(r, result, s') = (if ioStatus b \<noteq> IoOk then (b, None, s2)
        else (case decodeFrame (head @ body) of
            Inl e \<Rightarrow> (io IoError (transferred b) (''invalid protocol frame: '' @ e), None, s2)
          | Inr frame \<Rightarrow> (io IoOk (transferred b) [], Some frame, s2)))"
      using assms q True by (simp add: readFrame_def n_def [symmetric] not_less b)
    with moved show ?thesis
      by (intro exI [of _ "head @ take (transferred b - transferred q) body"])
        (auto simp: decodeFrame_encodeFrame split: if_splits sum.splits)
  qed
qed

text \<open>The writer's invariant: what it has sent is the pending frame up to its offset.\<close>

definition writer_inv :: "bytes \<Rightarrow> bytes \<Rightarrow> FrameWriter \<Rightarrow> 's \<Rightarrow> bool" where
  "writer_inv sent frame_bytes w s \<longleftrightarrow>
     pendingBytes w = frame_bytes \<and> writeOffset w \<le> length frame_bytes \<and>
     outgoing s = sent @ take (writeOffset w) frame_bytes"

lemma writer_loop:
  assumes "writer_loop wr s starting w = (r, w', s')" and "writer_inv sent frame_bytes w s"
    and "starting \<le> writeOffset w"
  shows "incoming s' = incoming s \<and>
    (if ioStatus r = IoOk then w' = writer_clear w \<and> outgoing s' = sent @ frame_bytes \<and>
        transferred r = length frame_bytes - starting
     else writer_inv sent frame_bytes w' s' \<and> transferred r = writeOffset w' - starting \<and>
        writeOffset w \<le> writeOffset w')"
  using assms
proof (induction "length (pendingBytes w) - writeOffset w" arbitrary: s w rule: less_induct)
  case less
  show ?case
  proof (cases "writeOffset w < length (pendingBytes w)")
    case False
    with less.prems show ?thesis
      by (auto simp: writer_loop.simps [of wr s starting w] writer_inv_def)
  next
    case True
    obtain q s1 where q: "wr s (drop (writeOffset w) (pendingBytes w)) = (q, s1)" by (metis surj_pair)
    define w1 where "w1 = w\<lparr>writeOffset := writeOffset w + transferred q\<rparr>"
    note mv = write_moves [OF q]
    have inv1: "writer_inv sent frame_bytes w1 s1"
      using less.prems(2) mv True by (auto simp: writer_inv_def w1_def take_add)
    show ?thesis
    proof (cases "ioStatus q \<noteq> IoOk \<or> transferred q = 0")
      case True
      with less.prems q mv inv1 \<open>writeOffset w < length (pendingBytes w)\<close> show ?thesis
        by (auto simp: writer_loop.simps [of wr s starting w] Let_def w1_def split: if_splits)
    next
      case False
      have "\<not> length (pendingBytes w) - writeOffset w < transferred q" using mv by auto
      with less.prems(1) q False True have rec: "writer_loop wr s1 starting w1 = (r, w', s')"
        by (simp add: writer_loop.simps [of wr s starting w] w1_def)
      have "length (pendingBytes w1) - writeOffset w1 < length (pendingBytes w) - writeOffset w"
        using False True by (auto simp: w1_def)
      from less.hyps [OF this rec inv1] less.prems(3) mv show ?thesis
        by (auto simp: w1_def writer_clear_def)
    qed
  qed
qed

lemma writer_continue:
  assumes "writer_continue wr s w = (r, w', s')" and "writer_inv sent frame_bytes w s" and "frame_bytes \<noteq> []"
  shows "incoming s' = incoming s \<and>
    (if ioStatus r = IoOk then w' = writer_clear w \<and> outgoing s' = sent @ frame_bytes
     else writer_inv sent frame_bytes w' s' \<and> writeOffset w \<le> writeOffset w')"
  using assms writer_loop [of s "writeOffset w" w r w' s']
  by (auto simp: writer_continue_def writer_pending_def writer_inv_def split: if_splits)

end

section \<open>Repeated calls\<close>

text \<open>\<open>Continue\<close> called \<open>n\<close> times, as the send loops of the server do between other work.\<close>

fun writer_rounds :: "'s writer \<Rightarrow> nat \<Rightarrow> FrameWriter \<times> 's \<Rightarrow> FrameWriter \<times> 's" where
  "writer_rounds wr 0 (w, s) = (w, s)"
| "writer_rounds wr (Suc n) (w, s) =
     (case writer_continue wr s w of (r, w', s') \<Rightarrow> writer_rounds wr n (w', s'))"

text \<open>Reading frames one after the other; stops at the first that fails.\<close>

fun read_frames :: "'s reader \<Rightarrow> nat \<Rightarrow> 's \<Rightarrow> Frame list \<times> 's" where
  "read_frames rd 0 s = ([], s)"
| "read_frames rd (Suc n) s =
     (case readFrame rd s of (r, result, s') \<Rightarrow>
       (case result of None \<Rightarrow> ([], s')
        | Some f \<Rightarrow> (case read_frames rd n s' of (fs, s'') \<Rightarrow> (f # fs, s''))))"

lemma writer_rounds_idle: "\<not> writer_pending w \<Longrightarrow> writer_rounds wr n (w, s) = (w, s)"
  by (induction n) (simp_all add: writer_continue_def)

context byte_stream
begin

lemma writer_rounds:
  assumes "writer_inv sent frame_bytes w s" and "frame_bytes \<noteq> []"
    and "writer_rounds wr n (w, s) = (w', s')"
  shows "incoming s' = incoming s \<and>
    (if writer_pending w' then writer_inv sent frame_bytes w' s' else outgoing s' = sent @ frame_bytes)"
  using assms(1,3)
proof (induction n arbitrary: w s)
  case 0
  with assms(2) show ?case by (auto simp: writer_pending_def writer_inv_def)
next
  case (Suc n)
  obtain r w1 s1 where c: "writer_continue wr s w = (r, w1, s1)" by (metis surj_pair)
  note step = writer_continue [OF c Suc.prems(1) assms(2)]
  show ?case
  proof (cases "ioStatus r = IoOk")
    case True
    with step have "\<not> writer_pending w1" by (simp add: writer_pending_def writer_clear_def)
    with Suc.prems(2) c True step show ?thesis
      by (auto simp: writer_rounds_idle)
  next
    case False
    with step Suc.IH [of w1 s1] Suc.prems(2) c show ?thesis by auto
  qed
qed

lemma writer_start_inv:
  assumes "writer_start w frame = (r, w')" and "ioStatus r = IoOk"
  shows "\<exists>bs. encodeFrame frame = Inr bs \<and> bs \<noteq> [] \<and> writer_inv (outgoing s) bs w' s"
proof (cases "encodeFrame frame")
  case (Inr bs)
  have "bs \<noteq> []" using Inr by (auto elim!: encodeFrame_parts simp: put_header_def put_evals)
  with assms Inr show ?thesis by (auto simp: writer_start_def writer_inv_def split: if_splits)
qed (use assms in \<open>auto simp: writer_start_def split: if_splits\<close>)

end

section \<open>Streams that deliver\<close>

lemma readLe32_put: "readLe32 (put_u32 n @ r) = n"
  by (rule bit_eqI, auto simp: readLe32_def put_u32_def put_le_def put_u8_def upt_rec bit_simps
      dest: bit_imp_le_length, case_tac "na < 24", auto)

lemma readLe32_header:
  "readLe32 (drop kPayloadLengthOffset (put_fields (m, v, t, f, sq, n))) = n"
  using readLe32_put [of n "[]"] by (simp add: kPayloadLengthOffset_def put_fields_def)

text \<open>
  The stream of a live peer: a read of a non-empty buffer returns some of the bytes that are
  there. How many is open, so this is what any split of the frames into packets gives.
\<close>

locale delivering_stream = byte_stream +
  assumes read_delivers: "rd s n = (r, bs, s') \<Longrightarrow> 0 < n \<Longrightarrow> incoming s \<noteq> [] \<Longrightarrow>
      ioStatus r = IoOk \<and> 0 < transferred r"
begin

lemma read_exact_from_delivers:
  assumes "length dest - got \<le> length (incoming s)" and "got \<le> length dest"
  shows "ioStatus (fst (readExactFrom rd s got dest)) = IoOk"
  using assms
proof (induction "length dest - got" arbitrary: s got dest rule: less_induct)
  case less
  show ?case
  proof (cases "got < length dest")
    case False
    then show ?thesis by (simp add: readExactFrom.simps [of rd s got dest])
  next
    case True
    obtain q bs s1 where q: "rd s (length dest - got) = (q, bs, s1)" by (metis surj_pair)
    have ok: "ioStatus q = IoOk" "0 < transferred q" using read_delivers [OF q] True less.prems(1) by fastforce+
    note mv = read_moves [OF q]
    then have "length (incoming s) = transferred q + length (incoming s1)"
      by (metis length_append length_take min.absorb2)
    moreover have "got + transferred q \<le> length dest" "\<not> length dest - got < transferred q"
      using mv True by auto
    ultimately show ?thesis
      using less.hyps [of "overlay got bs dest" "got + transferred q" s1] less.prems True ok
      by (simp add: readExactFrom.simps [of rd s got dest] q Let_def)
  qed
qed

lemma read_exact_delivers:
  assumes "length dest \<le> length (incoming s)"
  shows "\<exists>s'. readExact rd s dest = (io IoOk (length dest) [], take (length dest) (incoming s), s') \<and>
    incoming s' = drop (length dest) (incoming s)"
proof -
  obtain r dest' s' where e: "readExact rd s dest = (r, dest', s')" by (metis surj_pair)
  with read_exact_from_delivers [of dest 0 s] assms have ok: "ioStatus r = IoOk"
    by (simp add: readExact_def)
  have "r = io IoOk (length dest) []" using read_exact(6) [OF e ok] .
  then show ?thesis using read_exact(5) [OF e ok] read_exact(1) [OF e] e by simp
qed

lemma read_frame_delivers:
  assumes "incoming s = bs @ rest" and "decodeFrame bs = Inr frame"
  shows "\<exists>s'. readFrame rd s = (io IoOk (length bs) [], Some frame, s') \<and> incoming s' = rest"
proof -
  obtain t f sq n body where bs: "bs = put_fields (kMagic, kVersion, t, f, sq, n) @ body" "unat n = length body"
    using decodeFrame_length [OF assms(2)] by metis
  define head where "head = put_fields (kMagic, kVersion, t, f, sq, n)"
  have head: "length head = kFrameHeaderBytes" "readLe32 (drop kPayloadLengthOffset head) = n"
    by (simp_all add: head_def readLe32_header)
  have "length bs \<le> 20 + kMaxPayloadBytes"
    using assms(2) encodePayload_length by (auto simp: decodeFrame_encodeFrame kFrameHeaderBytes_def elim!: encodeFrame_parts)
  then have n: "\<not> unat n > kMaxPayloadBytes" using bs by (simp add: kFrameHeaderBytes_def)
  obtain s1 where h: "readExact rd s (replicate kFrameHeaderBytes 0) = (io IoOk kFrameHeaderBytes [], head, s1)"
    and s1: "incoming s1 = body @ rest"
    using read_exact_delivers [of "replicate kFrameHeaderBytes 0" s] assms(1) head(1) bs(1)
    by (auto simp: head_def [symmetric])
  show ?thesis
  proof (cases "n = 0")
    case True
    then have "body = []" using bs(2) by simp
    then have "decodeFrame head = Inr frame" using assms(2) bs(1) by (simp add: head_def)
    with True \<open>body = []\<close> h s1 head n bs show ?thesis
      by (simp add: readFrame_def head_def [symmetric])
  next
    case False
    obtain s2 where b: "readExact rd s1 (replicate (unat n) 0) = (io IoOk (unat n) [], body, s2)"
      and s2: "incoming s2 = rest"
      using read_exact_delivers [of "replicate (unat n) 0" s1] s1 bs(2) by auto
    with False h head n assms(2) bs show ?thesis
      by (simp add: readFrame_def head_def [symmetric])
  qed
qed

lemma read_frames_delivers:
  assumes "incoming s = concat bss @ rest" and "map encodeFrame frames = map Inr bss"
  shows "\<exists>s'. read_frames rd (length frames) s = (frames, s') \<and> incoming s' = rest"
  using assms
proof (induction frames arbitrary: bss s)
  case Nil
  then show ?case by simp
next
  case (Cons f fs)
  then obtain bs bss' where bss: "bss = bs # bss'" by (cases bss) auto
  with Cons.prems obtain s1 where "readFrame rd s = (io IoOk (length bs) [], Some f, s1)"
    "incoming s1 = concat bss' @ rest"
    using read_frame_delivers [of s bs "concat bss' @ rest" f] by (auto simp: decodeFrame_encodeFrame)
  with Cons.IH [of s1 bss'] Cons.prems(2) bss show ?case by auto
qed

end

section \<open>Winsock\<close>

text \<open>
  What \<open>recv\<close> and \<open>send\<close> are documented to do on a connected stream socket: a positive result is
  the number of bytes that were moved, in order and at most as many as asked for; a result of zero or
  \<open>SOCKET_ERROR\<close> moves none.
\<close>

locale winsock =
  fixes recv :: "'w \<Rightarrow> nat \<Rightarrow> int \<times> bytes \<times> 'w" and send :: "'w \<Rightarrow> bytes \<Rightarrow> int \<times> 'w"
    and inbound :: "'w \<Rightarrow> bytes" and outbound :: "'w \<Rightarrow> bytes"
  assumes recv_moves: "recv s n = (k, bs, s') \<Longrightarrow> 0 < n \<Longrightarrow>
      length bs \<le> n \<and> nat k \<le> length bs \<and> inbound s = take (nat k) bs @ inbound s' \<and>
      outbound s' = outbound s"
    and send_moves: "send s bs = (k, s') \<Longrightarrow> bs \<noteq> [] \<Longrightarrow>
      nat k \<le> length bs \<and> outbound s' = outbound s @ take (nat k) bs \<and> inbound s' = inbound s"

sublocale winsock \<subseteq> socket: byte_stream "socketRead valid recv lastError"
  "socketWrite valid send lastError" inbound outbound
proof
  fix s n r bs s'
  assume "socketRead valid recv lastError s n = (r, bs, s')"
  then show "transferred r \<le> length bs \<and> length bs \<le> n \<and>
      inbound s = take (transferred r) bs @ inbound s' \<and> outbound s' = outbound s"
    using recv_moves [of s "min n kIntMax"]
    by (fastforce simp: socketRead_def socketFailure_def kIntMax_def split: if_splits prod.splits)
next
  fix s bs r s'
  assume "socketWrite valid send lastError s bs = (r, s')"
  then show "transferred r \<le> length bs \<and> outbound s' = outbound s @ take (transferred r) bs \<and>
      inbound s' = inbound s"
    using send_moves [of s "take (min (length bs) kIntMax) bs"]
    by (fastforce simp: socketWrite_def socketFailure_def kIntMax_def split: if_splits prod.splits)
qed

text \<open>A socket on which \<open>recv\<close> waits for data, as the server's blocking sockets do.\<close>

locale delivering_winsock = winsock +
  assumes recv_delivers: "recv s n = (k, bs, s') \<Longrightarrow> 0 < n \<Longrightarrow> inbound s \<noteq> [] \<Longrightarrow> 0 < k"

sublocale delivering_winsock \<subseteq> live: delivering_stream "socketRead True recv lastError"
  "socketWrite True send lastError" inbound outbound
proof
  fix s n r bs s'
  assume "socketRead True recv lastError s n = (r, bs, s')" "0 < n" "inbound s \<noteq> []"
  then show "ioStatus r = IoOk \<and> 0 < transferred r"
    using recv_delivers [of s "min n kIntMax"]
    by (auto simp: socketRead_def kIntMax_def split: if_splits prod.splits)
qed

text \<open>
  An instance: a socket driven by a script of packet sizes, in the manner of the streams of
  \<open>tests/app/framed_stream_tests.cpp\<close>. Entry \<open>k\<close> moves at most \<open>k\<close> bytes; a negative one
  is the error \<open>- k\<close> instead. When the script is over everything moves.
\<close>

record ScriptedSocket =
  inbox :: bytes
  outbox :: bytes
  script :: "int list"
  lastCode :: int

fun next_chunk :: "ScriptedSocket \<Rightarrow> nat \<Rightarrow> int" where
  "next_chunk s n = (case script s of [] \<Rightarrow> int n | k # _ \<Rightarrow> min k (int n))"

definition scripted_recv :: "ScriptedSocket \<Rightarrow> nat \<Rightarrow> int \<times> bytes \<times> ScriptedSocket" where
  "scripted_recv s n =
     (let k = next_chunk s (min n (length (inbox s)))
      in (k, take (nat k) (inbox s),
          s\<lparr>inbox := drop (nat k) (inbox s), script := tl (script s), lastCode := - k\<rparr>))"

definition scripted_send :: "ScriptedSocket \<Rightarrow> bytes \<Rightarrow> int \<times> ScriptedSocket" where
  "scripted_send s bs =
     (let k = next_chunk s (length bs)
      in (k, s\<lparr>outbox := outbox s @ take (nat k) bs, script := tl (script s), lastCode := - k\<rparr>))"

interpretation scripted: winsock scripted_recv scripted_send inbox outbox
proof
  fix s n k bs s'
  assume "scripted_recv s n = (k, bs, s')" "0 < (n :: nat)"
  moreover have "nat (next_chunk s (min n (length (inbox s)))) \<le> min n (length (inbox s))"
    by (auto split: list.split)
  ultimately show "length bs \<le> n \<and> nat k \<le> length bs \<and> inbox s = take (nat k) bs @ inbox s' \<and> outbox s' = outbox s"
    by (auto simp: scripted_recv_def Let_def simp del: next_chunk.simps)
next
  fix s bs k s'
  assume "scripted_send s bs = (k, s')" "bs \<noteq> []"
  moreover have "nat (next_chunk s (length bs)) \<le> length bs" by (auto split: list.split)
  ultimately show "nat k \<le> length bs \<and> outbox s' = outbox s @ take (nat k) bs \<and> inbox s' = inbox s"
    by (auto simp: scripted_send_def Let_def simp del: next_chunk.simps)
qed

text \<open>The same with packets of at least one byte.\<close>

definition chunked_recv :: "ScriptedSocket \<Rightarrow> nat \<Rightarrow> int \<times> bytes \<times> ScriptedSocket" where
  "chunked_recv s n = scripted_recv (s\<lparr>script := map (max 1) (script s)\<rparr>) n"

interpretation chunked: delivering_winsock chunked_recv scripted_send inbox outbox
proof
  fix s n k bs s'
  assume e: "chunked_recv s n = (k, bs, s')" and n: "0 < (n :: nat)"
  then show "length bs \<le> n \<and> nat k \<le> length bs \<and> inbox s = take (nat k) bs @ inbox s' \<and> outbox s' = outbox s"
    using scripted.recv_moves [of "s\<lparr>script := map (max 1) (script s)\<rparr>" n] by (simp add: chunked_recv_def)
  assume "inbox s \<noteq> []"
  with e n show "0 < k"
    by (auto simp: chunked_recv_def scripted_recv_def Let_def split: list.splits)
qed (use scripted.send_moves in blast)

section \<open>The socket operations, under the contract of Winsock\<close>

context winsock
begin

lemma socket_read_frame:
  assumes "readFrame (socketRead valid recv lastError) s = (r, result, s')"
  shows "\<exists>bs. inbound s = bs @ inbound s' \<and> length bs = transferred r \<and>
    (case result of None \<Rightarrow> ioStatus r \<noteq> IoOk | Some frame \<Rightarrow> ioStatus r = IoOk \<and> encodeFrame frame = Inr bs)"
  using socket.read_frame [OF assms] by blast

lemma socket_send_frame:
  assumes "writer_start w frame = (r, w1)" and "ioStatus r = IoOk"
    and "writer_rounds (socketWrite valid send lastError) n (w1, s) = (w2, s2)"
  shows "\<exists>bs. encodeFrame frame = Inr bs \<and>
    (if writer_pending w2
     then writeOffset w2 \<le> length bs \<and> outbound s2 = outbound s @ take (writeOffset w2) bs
     else outbound s2 = outbound s @ bs)"
proof -
  from socket.writer_start_inv [OF assms(1,2)] obtain bs where bs: "encodeFrame frame = Inr bs" "bs \<noteq> []"
    "socket.writer_inv (outbound s) bs w1 s" by blast
  from socket.writer_rounds [OF bs(3,2) assms(3)] bs(1) show ?thesis
    by (auto simp: socket.writer_inv_def)
qed

end

context delivering_winsock
begin

lemma socket_read_frames:
  assumes "inbound s = concat bss @ rest" and "map encodeFrame frames = map Inr bss"
  shows "\<exists>s'. read_frames (socketRead True recv lastError) (length frames) s = (frames, s') \<and>
    inbound s' = rest"
  using live.read_frames_delivers [OF assms] .

end

section \<open>Properties\<close>

text \<open>C2: Frames survive any split into packets: on a socket whose \<open>recv\<close> waits for data, reading
  as many frames as the peer encoded returns exactly those frames, in order, and leaves exactly the
  bytes behind them.\<close>

theorem socket_reads_frames:
  assumes "delivering_winsock recv send inbound outbound"
    and "inbound s = concat bss @ rest" and "map encodeFrame frames = map Inr bss"
  shows "\<exists>s'. read_frames (socketRead True recv lastError) (length frames) s = (frames, s') \<and>
    inbound s' = rest"
  by (rule delivering_winsock.socket_read_frames [OF assms])

theorem socket_reads_frames_witness:
  "\<exists>s'. read_frames (socketRead True chunked_recv lastCode) (length [clock_sync_frame, clock_sync_frame])
      \<lparr>inbox = clock_sync_bytes @ clock_sync_bytes @ [0x50], outbox = [], script = [1, 7, 30, 2], lastCode = 0\<rparr>
     = ([clock_sync_frame, clock_sync_frame], s') \<and> inbox s' = [0x50]"
  by (rule socket_reads_frames [OF chunked.delivering_winsock_axioms,
        of _ "[clock_sync_bytes, clock_sync_bytes]"]) (simp_all add: encode_clock_sync)

text \<open>C19: Every outcome of \<open>ReadFrame\<close> on a socket is accounted for: it takes off the stream exactly
  the bytes it reports as transferred, returns a frame exactly when its status is \<open>kOk\<close>, and then the
  bytes it took are the encoding of that frame.\<close>

theorem socket_read_frame_accounts:
  assumes "winsock recv send inbound outbound"
    and "readFrame (socketRead valid recv lastError) s = (r, result, s')"
  shows "\<exists>bs. inbound s = bs @ inbound s' \<and> length bs = transferred r \<and>
    (case result of None \<Rightarrow> ioStatus r \<noteq> IoOk | Some frame \<Rightarrow> ioStatus r = IoOk \<and> encodeFrame frame = Inr bs)"
  by (rule winsock.socket_read_frame [OF assms])

text \<open>The witness: the socket times out after four of the bytes of the frame.\<close>

lemma timeout_in_header:
  "\<exists>s'. readFrame (socketRead True scripted_recv lastCode)
     \<lparr>inbox = clock_sync_bytes, outbox = [], script = [4, - 10060], lastCode = 0\<rparr>
     = (io IoWouldBlock 4 ''recv failed: WSA 10060'', None, s')"
  by (simp add: readFrame_def readExact_def readExactFrom.simps socketRead_def scripted_recv_def
      socketFailure_def socketStatusForError_def kFrameHeaderBytes_def kIntMax_def clock_sync_bytes_def
      to_string_def decimal.simps)

theorem socket_read_frame_accounts_witness:
  "\<exists>s' bs. readFrame (socketRead True scripted_recv lastCode)
     \<lparr>inbox = clock_sync_bytes, outbox = [], script = [4, - 10060], lastCode = 0\<rparr>
       = (io IoWouldBlock 4 ''recv failed: WSA 10060'', None, s') \<and>
     clock_sync_bytes = bs @ inbox s' \<and> length bs = 4"
  using timeout_in_header socket_read_frame_accounts [OF scripted.winsock_axioms]
  by fastforce

text \<open>C16: A frame handed to \<open>ResumableFrameWriter\<close> is sent exactly once: after any number of
  \<open>Continue\<close> calls, whatever the socket did, the peer has received precisely the bytes of the frame up
  to the writer's offset while it is pending, and the whole frame when it no longer is.\<close>

theorem frame_sent_once:
  assumes "winsock recv send inbound outbound"
    and "writer_start w frame = (r, w1)" and "ioStatus r = IoOk"
    and "writer_rounds (socketWrite valid send lastError) n (w1, s) = (w2, s2)"
  shows "\<exists>bs. encodeFrame frame = Inr bs \<and>
    (if writer_pending w2
     then writeOffset w2 \<le> length bs \<and> outbound s2 = outbound s @ take (writeOffset w2) bs
     else outbound s2 = outbound s @ bs)"
  by (rule winsock.socket_send_frame [OF assms])

lemma start_clock_sync:
  "writer_start writer_init clock_sync_frame =
     (io IoOk 0 [], \<lparr>pendingBytes = clock_sync_bytes, payloadScratch = drop 20 clock_sync_bytes, writeOffset = 0\<rparr>)"
  by (simp add: writer_start_def writer_pending_def writer_init_def encode_clock_sync kFrameHeaderBytes_def)

theorem frame_sent_once_witness:
  "\<exists>w2 s2. writer_rounds (socketWrite True scripted_send lastCode) 2
       (snd (writer_start writer_init clock_sync_frame),
        \<lparr>inbox = [], outbox = [9], script = [10, - 10035], lastCode = 0\<rparr>) = (w2, s2) \<and>
     \<not> writer_pending w2 \<and> outbox s2 = 9 # clock_sync_bytes"
proof -
  obtain w2 s2 where run: "writer_rounds (socketWrite True scripted_send lastCode) 2
      (snd (writer_start writer_init clock_sync_frame),
       \<lparr>inbox = [], outbox = [9], script = [10, - 10035], lastCode = 0\<rparr>) = (w2, s2)" by fastforce
  then have "\<not> writer_pending w2"
    by (auto simp: start_clock_sync numeral_2_eq_2 writer_continue_def writer_pending_def clock_sync_bytes_def
        writer_loop.simps socketWrite_def scripted_send_def socketFailure_def socketStatusForError_def
        kIntMax_def writer_clear_def)
  with run frame_sent_once [OF scripted.winsock_axioms start_clock_sync _ run [unfolded start_clock_sync snd_conv]]
  show ?thesis by (simp add: encode_clock_sync)
qed

end
