(* ===== verification/FloatArith.thy ===== *)
theory FloatArith
  imports Complex_Main
begin

text \<open>
  The floating-point arithmetic of the input and video code: finite \<open>float\<close> and \<open>double\<close> values are
  rationals, and every operation is the exact one followed by rounding to nearest, ties to even, at 24
  and at 53 bits, with the gradual underflow of the formats. Overflow to infinity is not
  modelled; no operation of the modelled code comes near it. \<open>lround\<close> rounds halves away
  from zero.
\<close>

section \<open>Rounding\<close>

fun ilog2 :: "nat \<Rightarrow> int" where
  "ilog2 n = (if n < 2 then 0 else 1 + ilog2 (n div 2))"

declare ilog2.simps [simp del]

text \<open>The exponent of a positive rational: \<open>2 powi e \<le> x < 2 powi (e + 1)\<close>.\<close>

definition exponent :: "rat \<Rightarrow> int" where
  "exponent x = (case quotient_of x of (n, d) \<Rightarrow>
     let e = ilog2 (nat n) - ilog2 (nat d) in if 2 powi e \<le> x then e else e - 1)"

definition round_even :: "rat \<Rightarrow> int" where
  "round_even r = (let f = \<lfloor>r\<rfloor>; d = r - of_int f in
     if d < 1/2 then f else if d > 1/2 then f + 1 else if even f then f else f + 1)"

definition quantum :: "nat \<Rightarrow> int \<Rightarrow> rat \<Rightarrow> rat" where
  "quantum p emin x = 2 powi (max (exponent \<bar>x\<bar> - int p + 1) emin)"

definition round_fp :: "nat \<Rightarrow> int \<Rightarrow> rat \<Rightarrow> rat" where
  "round_fp p emin x =
     (if x = 0 then 0 else quantum p emin x * of_int (round_even (x / quantum p emin x)))"

definition f32 :: "rat \<Rightarrow> rat" where "f32 x = round_fp 24 (- 149) x"
definition f64 :: "rat \<Rightarrow> rat" where "f64 x = round_fp 53 (- 1074) x"

definition lround :: "rat \<Rightarrow> int" where
  "lround x = (if x \<ge> 0 then \<lfloor>x + 1/2\<rfloor> else - \<lfloor>1/2 - x\<rfloor>)"

definition clamp :: "rat \<Rightarrow> rat \<Rightarrow> rat \<Rightarrow> rat" where
  "clamp x low high = (if x < low then low else if high < x then high else x)"

section \<open>The exponent\<close>

lemma ilog2_bounds: "0 < n \<Longrightarrow> 0 \<le> ilog2 n \<and> 2 powi ilog2 n \<le> (of_nat n :: rat) \<and> (of_nat n :: rat) < 2 powi (ilog2 n + 1)"
proof (induction n rule: ilog2.induct)
  case (1 n)
  show ?case
  proof (cases "n < 2")
    case True
    with 1 have "n = 1" by simp
    then show ?thesis by (simp add: ilog2.simps [of "Suc 0"])
  next
    case False
    define k where "k = ilog2 (n div 2)"
    from False 1 have ih: "0 \<le> k" "2 powi k \<le> (of_nat (n div 2) :: rat)" "(of_nat (n div 2) :: rat) < 2 powi (k + 1)"
      by (auto simp: k_def)
    define j where "j = nat k"
    have k: "k = int j" using ih(1) by (simp add: j_def)
    have "rat_of_nat (2 ^ j) \<le> rat_of_nat (n div 2)" using ih(2) by (simp add: k)
    moreover have "rat_of_nat (n div 2) < rat_of_nat (2 ^ (j + 1))"
      using ih(3) by (simp add: k power_int_add)
    ultimately have "2 ^ j \<le> n div 2" "n div 2 < 2 ^ (j + 1)"
      by (simp_all only: of_nat_le_iff of_nat_less_iff)
    then have "2 ^ (j + 1) \<le> n" "n < 2 ^ (j + 2)" by auto
    then have "rat_of_nat (2 ^ (j + 1)) \<le> of_nat n" "rat_of_nat n < of_nat (2 ^ (j + 2))"
      by (simp_all only: of_nat_le_iff of_nat_less_iff)
    moreover have "ilog2 n = int (j + 1)" using False by (simp add: ilog2.simps [of n] k_def [symmetric] k)
    ultimately show ?thesis
      by (simp only: power_int_of_nat) (simp add: power_int_add)
  qed
qed

lemma exponent_bounds:
  assumes "0 < x"
  shows "2 powi exponent x \<le> x \<and> x < 2 powi (exponent x + 1)"
proof -
  obtain n d where q: "quotient_of x = (n, d)" by fastforce
  from q have d: "0 < d" by (rule quotient_of_denom_pos)
  from q have x: "x = of_int n / of_int d" by (rule quotient_of_div)
  with assms d have n: "0 < n" by (simp add: zero_less_divide_iff)
  define N D where "N = nat n" and "D = nat d"
  have ND: "0 < N" "0 < D" "x = of_nat N / of_nat D" using n d x by (simp_all add: N_def D_def)
  define a b where "a = ilog2 N" and "b = ilog2 D"
  have a: "2 powi a \<le> (of_nat N :: rat)" "(of_nat N :: rat) < 2 powi (a + 1)"
    using ilog2_bounds [OF ND(1)] by (simp_all add: a_def)
  have b: "2 powi b \<le> (of_nat D :: rat)" "(of_nat D :: rat) < 2 powi (b + 1)"
    using ilog2_bounds [OF ND(2)] by (simp_all add: b_def)
  have "x < 2 powi (a + 1) / 2 powi b"
    unfolding ND(3) using a b ND by (intro frac_less) auto
  then have up: "x < 2 powi (a - b + 1)" by (simp add: power_int_diff algebra_simps)
  have "2 powi a / 2 powi (b + 1) < x"
    unfolding ND(3) using a b ND by (intro frac_less2) auto
  then have low: "2 powi (a - b - 1) < x" by (simp add: power_int_diff power_int_add field_simps)
  show ?thesis
    using up low by (simp add: exponent_def q Let_def N_def [symmetric] D_def [symmetric]
        a_def [symmetric] b_def [symmetric])
qed

lemma quantum_pos: "0 < quantum p emin x"
  by (simp add: quantum_def)

section \<open>Rounding is monotone over the representable values\<close>

text \<open>A value the format holds: at most \<open>p\<close> bits, no finer than the smallest quantum.\<close>

definition representable :: "nat \<Rightarrow> int \<Rightarrow> rat \<Rightarrow> bool" where
  "representable p emin y \<longleftrightarrow> (\<exists>m k. y = of_int m * 2 powi k \<and> \<bar>m\<bar> \<le> 2 ^ p \<and> emin \<le> k)"

lemma round_even_bounds:
  "r \<le> of_int n \<Longrightarrow> round_even r \<le> n" "of_int n \<le> r \<Longrightarrow> n \<le> round_even r"
proof -
  assume r: "r \<le> of_int n"
  show "round_even r \<le> n"
  proof (cases "r = of_int n")
    case True
    then show ?thesis by (simp add: round_even_def)
  next
    case False
    with r have "\<lfloor>r\<rfloor> < n" by (simp add: floor_less_iff)
    then show ?thesis by (auto simp: round_even_def Let_def)
  qed
next
  assume "of_int n \<le> r"
  then have "n \<le> \<lfloor>r\<rfloor>" by (simp add: le_floor_iff)
  then show "n \<le> round_even r" by (auto simp: round_even_def Let_def)
qed

lemma round_even_of_int [simp]: "round_even (of_int n) = n"
  by (simp add: round_even_def)

text \<open>A representable value of the binade of \<open>x\<close>, or the end of it, is a multiple of the quantum.\<close>

lemma power_int_multiple: "k \<le> j \<Longrightarrow> \<exists>c::int. (2 :: rat) powi j = of_int c * 2 powi k"
proof -
  assume "k \<le> j"
  then obtain n where "j = k + int n" by (metis zle_iff_zadd)
  then have "(2 :: rat) powi j = of_int (2 ^ n) * 2 powi k" by (simp add: power_int_add)
  then show ?thesis by blast
qed

lemma representable_multiple:
  assumes "0 < p" and "representable p emin y" and "2 powi e \<le> y"
  shows "\<exists>c::int. y = of_int c * 2 powi max (e - int p + 1) emin"
proof -
  from assms(2) obtain m k where y: "y = of_int m * 2 powi k" "\<bar>m\<bar> \<le> 2 ^ p" "emin \<le> k"
    by (auto simp: representable_def)
  show ?thesis
  proof (cases "max (e - int p + 1) emin \<le> k")
    case True
    then obtain c :: int where "(2 :: rat) powi k = of_int c * 2 powi max (e - int p + 1) emin"
      using power_int_multiple by blast
    then have "y = of_int (m * c) * 2 powi max (e - int p + 1) emin" using y(1) by simp
    then show ?thesis by blast
  next
    case False
    with y(3) have k: "k \<le> e - int p" and M: "max (e - int p + 1) emin = e - int p + 1" by auto
    have "(2 :: rat) powi k * 2 ^ p \<le> 2 powi (e - int p) * 2 ^ p"
      using k by (intro mult_right_mono power_int_increasing) simp_all
    also have "\<dots> = 2 powi e" by (simp add: power_int_diff)
    also have "\<dots> \<le> 2 powi k * of_int m" using assms(3) unfolding y(1) by (simp only: mult.commute)
    finally have "(2 :: rat) powi k * 2 ^ p \<le> 2 powi k * of_int m" .
    then have "(2 ^ p :: rat) \<le> of_int m" by (rule mult_le_cancel_left_pos [THEN iffD1, rotated]) simp
    then have "rat_of_int (2 ^ p) \<le> rat_of_int m" by simp
    then have "2 ^ p \<le> m" by (simp only: of_int_le_iff)
    with y(2) have m: "m = 2 ^ p" by simp
    have "(2 :: rat) powi e \<le> 2 powi (k + int p)" using assms(3) y(1) m by (simp add: power_int_add mult.commute)
    then have "e \<le> k + int p"
      using power_int_strict_increasing [of "k + int p" e "2 :: rat"] by (cases "e \<le> k + int p") simp_all
    with k have "k + int p = e" by simp
    then have "y = 2 powi e" using y(1) m by (simp add: power_int_add mult.commute flip: \<open>k + int p = e\<close>)
    also have "\<dots> = of_int (2 ^ (p - 1)) * 2 powi (e - int p + 1)"
      using assms(1) by (cases p) (simp_all add: power_int_add power_int_diff field_simps)
    finally show ?thesis unfolding M by blast
  qed
qed

lemma round_fp_upper:
  assumes "0 < p" and "0 \<le> x" and "x \<le> y" and "representable p emin y"
  shows "round_fp p emin x \<le> y"
proof (cases "x = 0")
  case True
  with assms(3) show ?thesis by (simp add: round_fp_def)
next
  case False
  with assms(2) have x: "0 < x" by simp
  define e q where "e = exponent x" and "q = quantum p emin x"
  have q: "q = 2 powi max (e - int p + 1) emin" "0 < q"
    using x by (simp_all add: q_def e_def quantum_def)
  have "2 powi e \<le> x" using exponent_bounds [OF x] by (simp add: e_def)
  with assms(3) have "2 powi e \<le> y" by simp
  from representable_multiple [OF assms(1,4) this] obtain c :: int where c: "y = of_int c * q"
    unfolding q(1) by blast
  with assms(3) q(2) have "x / q \<le> of_int c" by (simp add: divide_le_eq)
  then have "round_even (x / q) \<le> c" by (rule round_even_bounds)
  then have "of_int (round_even (x / q)) \<le> (of_int c :: rat)" by simp
  then have "q * of_int (round_even (x / q)) \<le> q * of_int c" using q(2) by simp
  with False c show ?thesis by (simp add: round_fp_def q_def mult.commute)
qed

lemma round_fp_lower:
  assumes "0 < p" and "0 \<le> y" and "y \<le> x" and "representable p emin y"
  shows "y \<le> round_fp p emin x"
proof (cases "x = 0")
  case True
  with assms show ?thesis by (simp add: round_fp_def)
next
  case False
  with assms have x: "0 < x" by simp
  define e q where "e = exponent x" and "q = quantum p emin x"
  have q: "q = 2 powi max (e - int p + 1) emin" "0 < q"
    using x by (simp_all add: q_def e_def quantum_def)
  show ?thesis
  proof (cases "2 powi e \<le> y")
    case True
    from representable_multiple [OF assms(1,4) True] obtain c :: int where c: "y = of_int c * q"
      unfolding q(1) by blast
    with assms(3) q(2) have "of_int c \<le> x / q" by (simp add: le_divide_eq)
    then have "c \<le> round_even (x / q)" by (rule round_even_bounds)
    then have "(of_int c :: rat) \<le> of_int (round_even (x / q))" by simp
    then have "q * of_int c \<le> q * of_int (round_even (x / q))" using q(2) by simp
    with False c show ?thesis by (simp add: round_fp_def q_def mult.commute)
  next
    case below: False
    show ?thesis
    proof (cases "emin \<le> e - int p + 1")
      case True
      then have q': "q = 2 powi (e - int p + 1)" using q(1) by simp
      have "(2 :: rat) powi e = of_int (2 ^ (p - 1)) * q"
        unfolding q' using assms(1) by (cases p) (simp_all add: power_int_add power_int_diff field_simps)
      moreover have "2 powi e \<le> x" using exponent_bounds [OF x] by (simp add: e_def)
      ultimately have "of_int (2 ^ (p - 1)) \<le> x / q" using q(2) by (simp add: le_divide_eq)
      then have "2 ^ (p - 1) \<le> round_even (x / q)" by (rule round_even_bounds)
      then have "rat_of_int (2 ^ (p - 1)) \<le> of_int (round_even (x / q))" by (simp only: of_int_le_iff)
      then have "q * of_int (2 ^ (p - 1)) \<le> q * of_int (round_even (x / q))"
        using q(2) by (simp only: mult_le_cancel_left_pos)
      then have "2 powi e \<le> q * of_int (round_even (x / q))"
        using \<open>2 powi e = of_int (2 ^ (p - 1)) * q\<close> by (simp add: mult.commute)
      with below False show ?thesis by (simp add: round_fp_def q_def)
    next
      case False
      then have q': "q = 2 powi emin" using q(1) by simp
      from assms(4) obtain m k where y: "y = of_int m * 2 powi k" "emin \<le> k" by (auto simp: representable_def)
      obtain d :: int where "(2 :: rat) powi k = of_int d * 2 powi emin" using power_int_multiple [OF y(2)] by blast
      then have c: "y = of_int (m * d) * q" using y(1) q' by simp
      with assms(3) q(2) have "of_int (m * d) \<le> x / q" by (simp add: le_divide_eq)
      then have "m * d \<le> round_even (x / q)" by (rule round_even_bounds)
      then have "rat_of_int (m * d) \<le> of_int (round_even (x / q))" by (simp only: of_int_le_iff)
      then have "q * of_int (m * d) \<le> q * of_int (round_even (x / q))" using q(2) by (simp only: mult_le_cancel_left_pos)
      with \<open>x \<noteq> 0\<close> c show ?thesis by (simp add: round_fp_def q_def mult.commute)
    qed
  qed
qed

lemma round_fp_nonneg: "0 < p \<Longrightarrow> 0 \<le> x \<Longrightarrow> 0 \<le> round_fp p emin x"
proof -
  assume "0 < p" "0 \<le> x"
  moreover have "representable p emin 0"
    unfolding representable_def by (intro exI [of _ 0] exI [of _ emin]) simp
  ultimately show ?thesis by (intro round_fp_lower) simp_all
qed

lemma round_fp_exact: "0 < p \<Longrightarrow> 0 \<le> y \<Longrightarrow> representable p emin y \<Longrightarrow> round_fp p emin y = y"
  by (intro antisym round_fp_upper round_fp_lower) simp_all

section \<open>The two formats\<close>

lemma representable_int: "\<bar>n\<bar> \<le> 2 ^ p \<Longrightarrow> emin \<le> 0 \<Longrightarrow> representable p emin (of_int n)"
  unfolding representable_def by (intro exI [of _ n] exI [of _ 0]) simp

lemma f32_int [simp]: "0 \<le> n \<Longrightarrow> n \<le> 2 ^ 24 \<Longrightarrow> f32 (of_int n) = of_int n"
  unfolding f32_def by (intro round_fp_exact representable_int) simp_all

lemma f32_of_nat: "n \<le> 2 ^ 24 \<Longrightarrow> f32 (of_nat n) = of_nat n"
  using f32_int [of "int n"] by simp

lemma f32_0 [simp]: "f32 0 = 0" by (simp add: f32_def round_fp_def)

lemma f32_1 [simp]: "f32 1 = 1" using f32_int [of 1] by simp

lemma f32_le_int: "0 \<le> x \<Longrightarrow> x \<le> of_int n \<Longrightarrow> n \<le> 2 ^ 24 \<Longrightarrow> f32 x \<le> of_int n"
proof -
  assume x: "0 \<le> x" "x \<le> of_int n" and n: "n \<le> 2 ^ 24"
  then have "0 \<le> rat_of_int n" by linarith
  then have "0 \<le> n" by simp
  with n have "representable 24 (- 149) (rat_of_int n)" by (intro representable_int) simp_all
  with x show ?thesis unfolding f32_def by (intro round_fp_upper) simp_all
qed

lemma f32_nonneg: "0 \<le> x \<Longrightarrow> 0 \<le> f32 x"
  unfolding f32_def by (rule round_fp_nonneg) simp

lemma f32_ge_int: "0 \<le> n \<Longrightarrow> of_int n \<le> x \<Longrightarrow> n \<le> 2 ^ 24 \<Longrightarrow> of_int n \<le> f32 x"
  unfolding f32_def by (rule round_fp_lower) (auto intro!: representable_int)

lemma lround_bounds: "0 \<le> x \<Longrightarrow> x \<le> of_int n \<Longrightarrow> 0 \<le> lround x \<and> lround x \<le> n"
  by (auto simp: lround_def floor_le_iff)

text \<open>Evaluation: the exponent is known from its bounds.\<close>

lemma floor_rat_numeral [simp]: "\<lfloor>numeral a / numeral b :: rat\<rfloor> = numeral a div numeral b"
  by (metis floor_divide_of_int_eq of_int_numeral)

lemma exponentI: "2 powi e \<le> x \<Longrightarrow> x < 2 powi (e + 1) \<Longrightarrow> exponent x = e"
proof -
  assume b: "2 powi e \<le> x" "x < 2 powi (e + 1)"
  have "(0 :: rat) < 2 powi e" by simp
  with b have "0 < x" by linarith
  from exponent_bounds [OF this] b
  have "(2 :: rat) powi exponent x < 2 powi (e + 1)" "(2 :: rat) powi e < 2 powi (exponent x + 1)" by linarith+
  then show "exponent x = e"
    using power_int_increasing [of "e + 1" "exponent x" "2 :: rat"]
      power_int_increasing [of "exponent x + 1" e "2 :: rat"] by (cases "exponent x" e rule: linorder_cases) auto
qed

lemma round_fp_eval:
  assumes "2 powi e \<le> x" and "x < 2 powi (e + 1)" and "emin \<le> e - int p + 1"
  shows "round_fp p emin x = 2 powi (e - int p + 1) * of_int (round_even (x / 2 powi (e - int p + 1)))"
proof -
  have "(0 :: rat) < 2 powi e" by simp
  with assms(1) have "0 < x" by linarith
  then show ?thesis using exponentI [OF assms(1,2)] assms(3)
    by (simp add: round_fp_def quantum_def max_def)
qed

lemma f32_eval:
  assumes "2 powi e \<le> x" and "x < 2 powi (e + 1)" and "- 126 \<le> e"
  shows "f32 x = 2 powi (e - 23) * of_int (round_even (x / 2 powi (e - 23)))"
  using round_fp_eval [OF assms(1,2), of "- 149" 24] assms(3) by (simp add: f32_def)

lemma lround_of_int [simp]: "0 \<le> n \<Longrightarrow> lround (of_int n) = n"
  unfolding lround_def by simp (rule floor_unique, simp_all)

lemma lround_0 [simp]: "lround 0 = 0"
  using lround_of_int [of 0] by simp

text \<open>A float: what the 24-bit format represents.\<close>

definition is_f32 :: "rat \<Rightarrow> bool" where
  "is_f32 x \<longleftrightarrow> representable 24 (- 149) x"

lemma f32_le_float: "0 \<le> x \<Longrightarrow> x \<le> y \<Longrightarrow> is_f32 y \<Longrightarrow> f32 x \<le> y"
  unfolding f32_def is_f32_def by (rule round_fp_upper) simp_all

lemma f32_ge_float: "0 \<le> y \<Longrightarrow> y \<le> x \<Longrightarrow> is_f32 y \<Longrightarrow> y \<le> f32 x"
  unfolding f32_def is_f32_def by (rule round_fp_lower) simp_all

end
