(* ===== verification/InputDomain.thy ===== *)
theory InputDomain
  imports FloatArith Prelude
begin

text \<open>
  The host-side samples of \<open>input/domain.h\<close>, the palm guard (\<open>input/palm_guard.cpp\<close>) and the
  grouping of touch history into injections (\<open>input/touch_grouping.h\<close>). Times are
  nanoseconds of the steady clock.
\<close>

section \<open>Samples\<close>

record NormalizedPoint =
  pointX :: rat
  pointY :: rat

record NormalizedRect =
  rectLeft :: rat
  rectTop :: rat
  rectRight :: rat
  rectBottom :: rat

definition normalized_rect_valid :: "NormalizedRect \<Rightarrow> bool" where
  "normalized_rect_valid r \<longleftrightarrow> rectLeft r \<ge> 0 \<and> rectTop r \<ge> 0 \<and> rectRight r \<le> 1 \<and>
     rectBottom r \<le> 1 \<and> rectRight r > rectLeft r \<and> rectBottom r > rectTop r"

record PixelRect =
  pxLeft :: int
  pxTop :: int
  pxWidth :: int
  pxHeight :: int

definition pixel_rect_valid :: "PixelRect \<Rightarrow> bool" where
  "pixel_rect_valid r \<longleftrightarrow> pxWidth r > 0 \<and> pxHeight r > 0"

datatype Rotation = Rot0 | Rot90 | Rot180 | Rot270
datatype PointerPhase = PHover | PDown | PMove | PUp | PCancel

abbreviation PenButtonPrimary :: u32 where "PenButtonPrimary \<equiv> 1"
abbreviation PenButtonSecondary :: u32 where "PenButtonSecondary \<equiv> 2"
abbreviation PenButtonTertiary :: u32 where "PenButtonTertiary \<equiv> 4"

record PenSample =
  penPointerId :: u32
  penEpoch :: u64
  penPhase :: PointerPhase
  penPosition :: NormalizedPoint
  penPressure :: rat
  penTiltX :: rat
  penTiltY :: rat
  penDistance :: rat
  penInRange :: bool
  penPressureAvailable :: bool
  penTiltAvailable :: bool
  penEraser :: bool
  penButtons :: u32
  penTimestamp :: int

record TouchSample =
  touchPointerId :: u32
  touchEpoch :: u64
  touchPhase :: PointerPhase
  touchPosition :: NormalizedPoint
  contactWidth :: rat
  contactHeight :: rat
  touchPressure :: rat
  touchPressureAvailable :: bool
  touchTimestamp :: int

record InputFrame =
  pens :: "PenSample list"
  touches :: "TouchSample list"

section \<open>Palm guard\<close>

record PalmGuard =
  releaseDelay :: int
  lastPenExit :: int
  penTipDown :: bool
  seenPen :: bool

definition palm_guard_init :: "int \<Rightarrow> PalmGuard" where
  "palm_guard_init delay = \<lparr>releaseDelay = delay, lastPenExit = 0, penTipDown = False, seenPen = False\<rparr>"

definition observe_pen :: "bool \<Rightarrow> int \<Rightarrow> PalmGuard \<Rightarrow> PalmGuard" where
  "observe_pen tipDown now g =
     g\<lparr>lastPenExit := (if penTipDown g \<and> \<not> tipDown then now else lastPenExit g),
       penTipDown := tipDown, seenPen := True\<rparr>"

definition allows_touch :: "int \<Rightarrow> PalmGuard \<Rightarrow> bool" where
  "allows_touch now g \<longleftrightarrow> \<not> penTipDown g \<and> (\<not> seenPen g \<or> now - lastPenExit g \<ge> releaseDelay g)"

definition palm_guard_reset :: "PalmGuard \<Rightarrow> PalmGuard" where
  "palm_guard_reset g = g\<lparr>penTipDown := False, seenPen := False, lastPenExit := 0\<rparr>"

text \<open>The observations of a session, in order.\<close>

definition observe_all :: "(bool \<times> int) list \<Rightarrow> PalmGuard \<Rightarrow> PalmGuard" where
  "observe_all evs g = fold (\<lambda>(tip, t). observe_pen tip t) evs g"

text \<open>When the tip last left the surface, in a list of observations.\<close>

fun tip_exits :: "bool \<Rightarrow> (bool \<times> int) list \<Rightarrow> int list" where
  "tip_exits was [] = []"
| "tip_exits was ((tip, t) # evs) = (if was \<and> \<not> tip then [t] else []) @ tip_exits tip evs"

lemma observe_all_state:
  "observe_all evs g = g\<lparr>lastPenExit := last (lastPenExit g # tip_exits (penTipDown g) evs),
     penTipDown := (if evs = [] then penTipDown g else fst (last evs)),
     seenPen := (seenPen g \<or> evs \<noteq> [])\<rparr>"
proof (induction evs arbitrary: g)
  case Nil
  show ?case by (simp add: observe_all_def)
next
  case (Cons e evs)
  obtain tip t where e: "e = (tip, t)" by fastforce
  have "observe_all (e # evs) g = observe_all evs (observe_pen tip t g)"
    by (simp add: observe_all_def e)
  then show ?case by (simp add: Cons.IH e observe_pen_def)
qed

section \<open>Touch groups\<close>

definition kMaxContacts :: nat where "kMaxContacts = 10"

text \<open>The inner loop: \<open>prior\<close> is the group found so far, the list the samples from \<open>end\<close> on.\<close>

fun touch_group_scan :: "int \<Rightarrow> TouchSample list \<Rightarrow> TouchSample list \<Rightarrow> nat" where
  "touch_group_scan timestamp prior [] = length prior"
| "touch_group_scan timestamp prior (s # rest) =
     (if length prior < kMaxContacts \<and> touchTimestamp s = timestamp then
        (if list_ex (\<lambda>p. touchPointerId p = touchPointerId s) prior then length prior
         else touch_group_scan timestamp (prior @ [s]) rest)
      else length prior)"

definition next_touch_group_end :: "TouchSample list \<Rightarrow> nat \<Rightarrow> nat" where
  "next_touch_group_end samples begin =
     (if begin \<ge> length samples then length samples
      else begin + touch_group_scan (touchTimestamp (samples ! begin)) [] (drop begin samples))"

text \<open>What one injection may contain.\<close>

definition injectable_group :: "TouchSample list \<Rightarrow> bool" where
  "injectable_group g \<longleftrightarrow> g \<noteq> [] \<and> length g \<le> kMaxContacts \<and> distinct (map touchPointerId g) \<and>
     (\<forall>s \<in> set g. touchTimestamp s = touchTimestamp (hd g))"

definition scan_stops :: "int \<Rightarrow> TouchSample list \<Rightarrow> nat \<Rightarrow> bool" where
  "scan_stops timestamp samples n \<longleftrightarrow> n \<le> length samples \<and> n \<le> kMaxContacts \<and>
     distinct (map touchPointerId (take n samples)) \<and>
     (\<forall>s \<in> set (take n samples). touchTimestamp s = timestamp) \<and>
     (n < length samples \<longrightarrow> n = kMaxContacts \<or> touchTimestamp (samples ! n) \<noteq> timestamp \<or>
       touchPointerId (samples ! n) \<in> touchPointerId ` set (take n samples))"

lemma touch_group_scan_stops:
  assumes "distinct (map touchPointerId prior)" and "length prior \<le> kMaxContacts"
    and "\<forall>s \<in> set prior. touchTimestamp s = timestamp"
  shows "scan_stops timestamp (prior @ rest) (touch_group_scan timestamp prior rest)"
  using assms
proof (induction timestamp prior rest rule: touch_group_scan.induct)
  case (1 timestamp prior)
  then show ?case by (simp add: scan_stops_def)
next
  case (2 timestamp prior s rest)
  show ?case
  proof (cases "length prior < kMaxContacts \<and> touchTimestamp s = timestamp \<and>
      \<not> list_ex (\<lambda>p. touchPointerId p = touchPointerId s) prior")
    case True
    then have "touchPointerId s \<notin> touchPointerId ` set prior" by (force simp: list_ex_iff)
    with True 2 have "scan_stops timestamp ((prior @ [s]) @ rest) (touch_group_scan timestamp (prior @ [s]) rest)"
      by simp
    with True show ?thesis by simp
  next
    case False
    then have n: "touch_group_scan timestamp prior (s # rest) = length prior" by auto
    from 2(2-) False show ?thesis unfolding n
      by (auto simp: scan_stops_def list_ex_iff) (metis imageI)
  qed
qed

lemma next_touch_group_end:
  assumes "begin < length samples" and "e = next_touch_group_end samples begin"
  shows "begin < e \<and> e \<le> length samples \<and> injectable_group (take (e - begin) (drop begin samples)) \<and>
    (e < length samples \<longrightarrow> \<not> injectable_group (take (Suc e - begin) (drop begin samples)))"
proof -
  define rest where "rest = drop begin samples"
  obtain s rest' where rest: "rest = s # rest'" using assms(1) by (metis Cons_nth_drop_Suc rest_def)
  then have s: "samples ! begin = s" using assms(1) by (metis Cons_nth_drop_Suc list.inject rest_def)
  define n where "n = touch_group_scan (touchTimestamp s) [] rest"
  have e: "e = begin + n" using assms s by (simp add: next_touch_group_end_def n_def rest_def)
  have stops: "scan_stops (touchTimestamp s) rest n"
    using touch_group_scan_stops [of "[]" "touchTimestamp s" rest] by (simp add: n_def)
  have p: "n \<le> length rest" "n \<le> kMaxContacts" "distinct (map touchPointerId (take n rest))"
    "\<forall>s' \<in> set (take n rest). touchTimestamp s' = touchTimestamp s"
    "n < length rest \<Longrightarrow> n = kMaxContacts \<or> touchTimestamp (rest ! n) \<noteq> touchTimestamp s \<or>
       touchPointerId (rest ! n) \<in> touchPointerId ` set (take n rest)"
    using stops unfolding scan_stops_def by blast+
  have "n \<noteq> 0"
  proof
    assume "n = 0"
    with p(5) rest show False by (simp add: kMaxContacts_def)
  qed
  moreover from this obtain m where m: "n = Suc m" by (cases n) auto
  then have h: "hd (take n rest) = s" "take n rest \<noteq> []" by (simp_all add: rest)
  have "length (take n rest) \<le> kMaxContacts" using p(2) by simp
  with h p(3,4) have "injectable_group (take n rest)"
    unfolding injectable_group_def h(1) by blast
  moreover have "\<not> injectable_group (take (Suc n) rest)" if "n < length rest"
  proof
    assume g: "injectable_group (take (Suc n) rest)"
    have t: "take (Suc n) rest = take n rest @ [rest ! n]" using that by (simp add: take_Suc_conv_app_nth)
    have h: "hd (take (Suc n) rest) = s" by (simp add: rest)
    from g have len: "length (take (Suc n) rest) \<le> kMaxContacts"
      and dist: "distinct (map touchPointerId (take (Suc n) rest))"
      and ts: "\<forall>x \<in> set (take (Suc n) rest). touchTimestamp x = touchTimestamp s"
      unfolding injectable_group_def h by auto
    have "n < kMaxContacts" using len that by simp
    moreover have "touchTimestamp (rest ! n) = touchTimestamp s" using ts unfolding t by simp
    moreover have "touchPointerId (rest ! n) \<notin> touchPointerId ` set (take n rest)"
      using dist unfolding t by simp
    ultimately show False using p(5) [OF that] by simp
  qed
  ultimately show ?thesis using e p(1) assms(1) by (auto simp: rest_def Suc_diff_le)
qed

section \<open>Properties\<close>

text \<open>After any sequence of pen observations, touch is allowed exactly when the last of them had
  the tip up and the release delay has passed since the tip last left the surface; with no
  observation it is always allowed. In particular hovering never starts a suppression.\<close>

lemma palm_guard_spec:
  "allows_touch now (observe_all evs (palm_guard_init delay)) \<longleftrightarrow>
     evs = [] \<or> (\<not> fst (last evs) \<and> now - last (0 # tip_exits False evs) \<ge> delay)"
  by (auto simp: observe_all_state allows_touch_def palm_guard_init_def)

text \<open>One injection gets as many touch samples as Windows accepts at once: the group that starts
  at a sample is not empty, holds at most 10 samples of one instant and each pointer once, and the sample
  after it could not have been added.\<close>

lemma touch_group_maximal:
  assumes "begin < length samples"
  shows "begin < next_touch_group_end samples begin \<and> next_touch_group_end samples begin \<le> length samples \<and>
    injectable_group (take (next_touch_group_end samples begin - begin) (drop begin samples)) \<and>
    (next_touch_group_end samples begin < length samples \<longrightarrow>
      \<not> injectable_group (take (Suc (next_touch_group_end samples begin) - begin) (drop begin samples)))"
  using next_touch_group_end [OF assms refl] .

text \<open>The history of \<open>RunTouchGroupingTests\<close>.\<close>

definition touch_at :: "u32 \<Rightarrow> int \<Rightarrow> TouchSample" where
  "touch_at p t = \<lparr>touchPointerId = p, touchEpoch = 0, touchPhase = PMove,
     touchPosition = \<lparr>pointX = 0, pointY = 0\<rparr>, contactWidth = 1/100, contactHeight = 1/100,
     touchPressure = 0, touchPressureAvailable = False, touchTimestamp = t\<rparr>"

theorem touch_group_maximal_witness:
  "next_touch_group_end [touch_at 1 0, touch_at 2 0, touch_at 1 1000000, touch_at 1 2000000] 0 = 2 \<and>
   injectable_group [touch_at 1 0, touch_at 2 0] \<and>
   \<not> injectable_group [touch_at 1 0, touch_at 2 0, touch_at 1 1000000]"
proof -
  have e: "next_touch_group_end [touch_at 1 0, touch_at 2 0, touch_at 1 1000000, touch_at 1 2000000] 0 = 2"
    by (simp add: next_touch_group_end_def touch_at_def kMaxContacts_def)
  from touch_group_maximal [of 0 "[touch_at 1 0, touch_at 2 0, touch_at 1 1000000, touch_at 1 2000000]"]
  show ?thesis by (simp add: e numeral_3_eq_3 numeral_2_eq_2)
qed

end
