(* ===== verification/Mapper.thy ===== *)
theory Mapper
  imports InputDomain "HOL-Library.Signed_Division"
begin

text \<open>
  \<open>CoordinateMapper\<close> of \<open>input/mapper.h\<close> and \<open>input/mapper.cpp\<close>: the letterboxed viewport of the
  content on the monitor, and the map from a normalized tablet point to a pixel of it. Pixel
  arithmetic is on unbounded integers: every intermediate value is shown to stay inside the monitor
  rectangle, so no \<open>int32_t\<close> operation overflows on a monitor whose edges fit.
\<close>

section \<open>The mapper\<close>

record MapperConfig =
  tabletActiveRect :: NormalizedRect
  monitorRect :: PixelRect
  contentAspectRatio :: rat
  rotation :: Rotation
  orientationEpoch :: u64

record CoordinateMapper =
  mapperConfig :: MapperConfig
  viewport :: PixelRect
  configured :: bool

definition empty_rect :: PixelRect where
  "empty_rect = \<lparr>pxLeft = 0, pxTop = 0, pxWidth = 0, pxHeight = 0\<rparr>"

definition full_rect :: NormalizedRect where
  "full_rect = \<lparr>rectLeft = 0, rectTop = 0, rectRight = 1, rectBottom = 1\<rparr>"

definition mapper_init :: CoordinateMapper where
  "mapper_init = \<lparr>mapperConfig = \<lparr>tabletActiveRect = full_rect, monitorRect = empty_rect,
       contentAspectRatio = 0, rotation = Rot0, orientationEpoch = 0\<rparr>,
     viewport = empty_rect, configured = False\<rparr>"

definition kEpsilon :: rat where "kEpsilon = f32 (1 / 10000)"

definition monitor_aspect :: "PixelRect \<Rightarrow> rat" where
  "monitor_aspect r = f32 (f32 (of_int (pxWidth r)) / f32 (of_int (pxHeight r)))"

definition content_aspect :: "MapperConfig \<Rightarrow> rat" where
  "content_aspect config = (if contentAspectRatio config > kEpsilon then contentAspectRatio config
     else monitor_aspect (monitorRect config))"

definition letterbox :: "PixelRect \<Rightarrow> rat \<Rightarrow> PixelRect" where
  "letterbox monitor contentAspect =
     (let monitorAspect = monitor_aspect monitor
      in if contentAspect > monitorAspect then
           (let h = lround (f32 (f32 (of_int (pxWidth monitor)) / contentAspect))
            in monitor\<lparr>pxHeight := h, pxTop := pxTop monitor + (pxHeight monitor - h) sdiv 2\<rparr>)
         else if contentAspect < monitorAspect then
           (let w = lround (f32 (f32 (of_int (pxHeight monitor)) * contentAspect))
            in monitor\<lparr>pxWidth := w, pxLeft := pxLeft monitor + (pxWidth monitor - w) sdiv 2\<rparr>)
         else monitor)"

definition mapper_configure :: "MapperConfig \<Rightarrow> CoordinateMapper \<Rightarrow> bool \<times> CoordinateMapper" where
  "mapper_configure config m =
     (if \<not> normalized_rect_valid (tabletActiveRect config) \<or> \<not> pixel_rect_valid (monitorRect config) \<or>
         contentAspectRatio config < 0
      then (False, m\<lparr>viewport := empty_rect, configured := False\<rparr>)
      else if content_aspect config \<le> kEpsilon
      then (False, m\<lparr>viewport := empty_rect, configured := False\<rparr>)
      else let vp = letterbox (monitorRect config) (content_aspect config)
        in (pixel_rect_valid vp,
            m\<lparr>mapperConfig := config, viewport := vp, configured := pixel_rect_valid vp\<rparr>))"

text \<open>The axis in the active rectangle, the turn of the tablet, and the pixel.\<close>

definition axis_position :: "rat \<Rightarrow> rat \<Rightarrow> rat \<Rightarrow> rat" where
  "axis_position v low high = f32 (f32 (v - low) / f32 (high - low))"

fun rotate_point :: "Rotation \<Rightarrow> rat \<times> rat \<Rightarrow> rat \<times> rat" where
  "rotate_point Rot0 (x, y) = (x, y)"
| "rotate_point Rot90 (x, y) = (f32 (1 - y), x)"
| "rotate_point Rot180 (x, y) = (f32 (1 - x), f32 (1 - y))"
| "rotate_point Rot270 (x, y) = (y, f32 (1 - x))"

definition pixel_offset :: "rat \<Rightarrow> int \<Rightarrow> int" where
  "pixel_offset v extent = lround (f32 (clamp v 0 1 * f32 (of_int (extent - 1))))"

definition mapper_map :: "NormalizedPoint \<Rightarrow> u64 \<Rightarrow> CoordinateMapper \<Rightarrow> (int \<times> int) option" where
  "mapper_map point epoch m =
     (let r = tabletActiveRect (mapperConfig m)
      in if \<not> configured m \<or> epoch \<noteq> orientationEpoch (mapperConfig m) \<or>
            pointX point < rectLeft r \<or> pointX point > rectRight r \<or>
            pointY point < rectTop r \<or> pointY point > rectBottom r
         then None
         else (case rotate_point (rotation (mapperConfig m))
                 (axis_position (pointX point) (rectLeft r) (rectRight r),
                  axis_position (pointY point) (rectTop r) (rectBottom r)) of
           (x, y) \<Rightarrow> Some (pxLeft (viewport m) + pixel_offset x (pxWidth (viewport m)),
                          pxTop (viewport m) + pixel_offset y (pxHeight (viewport m)))))"

section \<open>Pixels stay inside\<close>

lemma clamp_bounds: "0 \<le> clamp v 0 1 \<and> clamp v 0 1 \<le> 1"
  by (simp add: clamp_def)

lemma pixel_offset_bounds:
  assumes "0 < extent" and "extent \<le> 2 ^ 24"
  shows "0 \<le> pixel_offset v extent \<and> pixel_offset v extent < extent"
proof -
  have s: "f32 (of_int (extent - 1)) = of_int (extent - 1)"
    using assms by (intro f32_int) simp_all
  have "clamp v 0 1 * of_int (extent - 1) \<le> 1 * of_int (extent - 1)"
    using clamp_bounds [of v] assms by (intro mult_right_mono) simp_all
  then have le: "clamp v 0 1 * of_int (extent - 1) \<le> of_int (extent - 1)" by simp
  have ge: "0 \<le> clamp v 0 1 * of_int (extent - 1)" using clamp_bounds [of v] assms by simp
  have "f32 (clamp v 0 1 * of_int (extent - 1)) \<le> of_int (extent - 1)"
    using le ge assms by (intro f32_le_int) simp_all
  moreover have "0 \<le> f32 (clamp v 0 1 * of_int (extent - 1))" using ge by (rule f32_nonneg)
  ultimately have "0 \<le> pixel_offset v extent \<and> pixel_offset v extent \<le> extent - 1"
    unfolding pixel_offset_def s by (intro lround_bounds)
  then show ?thesis by simp
qed

definition inside :: "PixelRect \<Rightarrow> PixelRect \<Rightarrow> bool" where
  "inside a b \<longleftrightarrow> pxLeft b \<le> pxLeft a \<and> pxTop b \<le> pxTop a \<and>
     pxLeft a + pxWidth a \<le> pxLeft b + pxWidth b \<and> pxTop a + pxHeight a \<le> pxTop b + pxHeight b"

lemma sdiv_half: "0 \<le> d \<Longrightarrow> 0 \<le> (d :: int) sdiv 2 \<and> d sdiv 2 \<le> d"
  by (cases "d = 0") (auto simp: signed_divide_int_def sgn_if)

lemma monitor_aspect_exact:
  assumes "pixel_rect_valid r" "pxWidth r \<le> 2 ^ 24" "pxHeight r \<le> 2 ^ 24"
  shows "monitor_aspect r = f32 (of_int (pxWidth r) / of_int (pxHeight r))"
proof -
  have "f32 (of_int (pxWidth r)) = of_int (pxWidth r)" "f32 (of_int (pxHeight r)) = of_int (pxHeight r)"
    using assms by (auto simp: pixel_rect_valid_def intro!: f32_int)
  then show ?thesis by (simp add: monitor_aspect_def)
qed

text \<open>
  The letterbox never leaves the monitor: rounding the monitor's aspect to a float and comparing it
  with the content's cannot make the shorter side longer than the monitor's.
\<close>

lemma letterbox_inside:
  assumes valid: "pixel_rect_valid r" and small: "pxWidth r \<le> 2 ^ 24" "pxHeight r \<le> 2 ^ 24"
    and a: "0 < a" "is_f32 a"
  shows "inside (letterbox r a) r \<and> pxWidth (letterbox r a) \<le> pxWidth r \<and> pxHeight (letterbox r a) \<le> pxHeight r"
proof -
  define w h where "w = pxWidth r" and "h = pxHeight r"
  have pos: "0 < w" "0 < h" using valid by (simp_all add: pixel_rect_valid_def w_def h_def)
  have asp: "monitor_aspect r = f32 (of_int w / of_int h)"
    using monitor_aspect_exact [OF valid small] by (simp add: w_def h_def)
  have fw: "f32 (of_int w) = of_int w" "f32 (of_int h) = of_int h"
    using pos small by (auto simp: w_def h_def intro!: f32_int)
  consider "monitor_aspect r < a" | "a < monitor_aspect r" | "a = monitor_aspect r" by linarith
  then show ?thesis
  proof cases
    case 1
    have "of_int w / of_int h < a"
    proof (rule ccontr)
      assume "\<not> of_int w / of_int h < a"
      then have "a \<le> f32 (of_int w / of_int h)" using a by (intro f32_ge_float) simp_all
      with 1 asp show False by simp
    qed
    then have "of_int w / a \<le> of_int h" using a pos by (simp add: field_simps)
    moreover have "0 \<le> of_int w / a" using a pos by simp
    ultimately have "0 \<le> lround (f32 (of_int w / a)) \<and> lround (f32 (of_int w / a)) \<le> h"
      using small by (intro lround_bounds f32_le_int f32_nonneg) (simp_all add: h_def)
    with 1 sdiv_half [of "h - lround (f32 (of_int w / a))"] show ?thesis
      by (simp add: letterbox_def Let_def inside_def fw w_def [symmetric] h_def [symmetric])
  next
    case 2
    have "a < of_int w / of_int h"
    proof (rule ccontr)
      assume "\<not> a < of_int w / of_int h"
      then have "f32 (of_int w / of_int h) \<le> a" using a pos by (intro f32_le_float) simp_all
      with 2 asp show False by simp
    qed
    then have "of_int h * a \<le> of_int w" using a pos by (simp add: field_simps)
    moreover have "0 \<le> of_int h * a" using a pos by simp
    ultimately have "0 \<le> lround (f32 (of_int h * a)) \<and> lround (f32 (of_int h * a)) \<le> w"
      using small by (intro lround_bounds f32_le_int f32_nonneg) (simp_all add: w_def)
    with 2 sdiv_half [of "w - lround (f32 (of_int h * a))"] show ?thesis
      by (simp add: letterbox_def Let_def inside_def fw w_def [symmetric] h_def [symmetric])
  next
    case 3
    then show ?thesis by (simp add: letterbox_def Let_def inside_def)
  qed
qed

lemma configured_inside:
  assumes "mapper_configure config m = (True, m')" and "is_f32 (contentAspectRatio config)"
    and "pxWidth (monitorRect config) \<le> 2 ^ 24" "pxHeight (monitorRect config) \<le> 2 ^ 24"
  shows "inside (viewport m') (monitorRect config) \<and> pixel_rect_valid (viewport m') \<and> configured m' \<and>
    pxWidth (viewport m') \<le> 2 ^ 24 \<and> pxHeight (viewport m') \<le> 2 ^ 24 \<and> mapperConfig m' = config"
proof -
  have ok: "pixel_rect_valid (monitorRect config)" "kEpsilon < content_aspect config"
    and m': "m' = m\<lparr>mapperConfig := config, viewport := letterbox (monitorRect config) (content_aspect config),
        configured := True\<rparr>"
    and v: "pixel_rect_valid (letterbox (monitorRect config) (content_aspect config))"
    using assms(1) by (auto simp: mapper_configure_def Let_def split: if_splits)
  have eps: "0 \<le> kEpsilon" unfolding kEpsilon_def by (rule f32_nonneg) simp
  have "inside (letterbox (monitorRect config) (content_aspect config)) (monitorRect config) \<and>
      pxWidth (letterbox (monitorRect config) (content_aspect config)) \<le> pxWidth (monitorRect config) \<and>
      pxHeight (letterbox (monitorRect config) (content_aspect config)) \<le> pxHeight (monitorRect config)"
  proof (cases "contentAspectRatio config > kEpsilon")
    case True
    with eps assms ok show ?thesis
      by (intro letterbox_inside) (auto simp: content_aspect_def)
  next
    case False
    then show ?thesis by (simp add: content_aspect_def letterbox_def inside_def)
  qed
  with assms(3,4) m' v show ?thesis by auto
qed

lemma mapped_in_viewport:
  assumes "mapper_map p epoch m = Some (x, y)" and "pixel_rect_valid (viewport m)"
    and "pxWidth (viewport m) \<le> 2 ^ 24" "pxHeight (viewport m) \<le> 2 ^ 24"
  shows "pxLeft (viewport m) \<le> x \<and> x < pxLeft (viewport m) + pxWidth (viewport m) \<and>
    pxTop (viewport m) \<le> y \<and> y < pxTop (viewport m) + pxHeight (viewport m)"
  using assms pixel_offset_bounds
  by (auto simp: mapper_map_def Let_def pixel_rect_valid_def split: if_splits prod.splits)

section \<open>Corners\<close>

lemma f32_diff_not_0:
  assumes "is_f32 a" "is_f32 b" "a < b"
  shows "f32 (b - a) \<noteq> 0"
proof -
  let ?q = "(2 :: rat) powi (- 149)"
  have mult: "\<exists>c::int. v = of_int c * ?q" if v: "is_f32 v" for v
  proof -
    from v obtain m k where "v = of_int m * 2 powi k" "- 149 \<le> k"
      unfolding is_f32_def representable_def by blast
    moreover from this obtain d :: int where "(2 :: rat) powi k = of_int d * ?q"
      using power_int_multiple by blast
    ultimately have "v = of_int (m * d) * ?q" by simp
    then show ?thesis by blast
  qed
  obtain c d :: int where cd: "a = of_int c * ?q" "b = of_int d * ?q" using mult assms(1,2) by blast
  have q: "0 < ?q" by simp
  have "c < d" using assms(3) q unfolding cd by (simp only: mult_less_cancel_right_pos of_int_less_iff)
  then have "1 * ?q \<le> of_int (d - c) * ?q" using q by (intro mult_right_mono) simp_all
  also have "\<dots> = b - a" by (simp add: cd left_diff_distrib)
  finally have "?q \<le> b - a" by simp
  moreover have "is_f32 ?q"
    unfolding is_f32_def representable_def by (intro exI [of _ 1] exI [of _ "- 149"]) simp
  ultimately have "?q \<le> f32 (b - a)" by (intro f32_ge_float) simp_all
  with q show ?thesis by linarith
qed

lemma axis_ends:
  assumes "is_f32 a" "is_f32 b" "a < b"
  shows "axis_position a a b = 0" "axis_position b a b = 1"
  using f32_diff_not_0 [OF assms] by (simp_all add: axis_position_def)

lemma pixel_offset_ends:
  assumes "0 < extent" "extent \<le> 2 ^ 24"
  shows "pixel_offset 0 extent = 0" "pixel_offset 1 extent = extent - 1"
proof -
  have "f32 (of_int (extent - 1)) = of_int (extent - 1)"
    using assms by (intro f32_int) simp_all
  with assms show "pixel_offset 0 extent = 0" "pixel_offset 1 extent = extent - 1"
    by (simp_all add: pixel_offset_def clamp_def flip: of_int_diff)
qed

text \<open>The corner a turn takes each corner to, as (right?, bottom?).\<close>

fun rotate_corner :: "Rotation \<Rightarrow> bool \<times> bool \<Rightarrow> bool \<times> bool" where
  "rotate_corner Rot0 (r, b) = (r, b)"
| "rotate_corner Rot90 (r, b) = (\<not> b, r)"
| "rotate_corner Rot180 (r, b) = (\<not> r, \<not> b)"
| "rotate_corner Rot270 (r, b) = (b, \<not> r)"

definition corner_point :: "NormalizedRect \<Rightarrow> bool \<times> bool \<Rightarrow> NormalizedPoint" where
  "corner_point r c = \<lparr>pointX = (if fst c then rectRight r else rectLeft r),
     pointY = (if snd c then rectBottom r else rectTop r)\<rparr>"

definition corner_pixel :: "PixelRect \<Rightarrow> bool \<times> bool \<Rightarrow> int \<times> int" where
  "corner_pixel v c = (if fst c then pxLeft v + pxWidth v - 1 else pxLeft v,
     if snd c then pxTop v + pxHeight v - 1 else pxTop v)"

definition float_rect :: "NormalizedRect \<Rightarrow> bool" where
  "float_rect r \<longleftrightarrow> is_f32 (rectLeft r) \<and> is_f32 (rectTop r) \<and> is_f32 (rectRight r) \<and> is_f32 (rectBottom r)"

lemma map_corner:
  assumes "configured m" and "normalized_rect_valid (tabletActiveRect (mapperConfig m))"
    and "float_rect (tabletActiveRect (mapperConfig m))" and "pixel_rect_valid (viewport m)"
    and "pxWidth (viewport m) \<le> 2 ^ 24" "pxHeight (viewport m) \<le> 2 ^ 24"
  shows "mapper_map (corner_point (tabletActiveRect (mapperConfig m)) c)
       (orientationEpoch (mapperConfig m)) m =
     Some (corner_pixel (viewport m) (rotate_corner (rotation (mapperConfig m)) c))"
proof -
  let ?r = "tabletActiveRect (mapperConfig m)"
  have x: "axis_position (pointX (corner_point ?r c)) (rectLeft ?r) (rectRight ?r) = (if fst c then 1 else 0)"
    and y: "axis_position (pointY (corner_point ?r c)) (rectTop ?r) (rectBottom ?r) = (if snd c then 1 else 0)"
    using assms(2,3) axis_ends by (auto simp: corner_point_def normalized_rect_valid_def float_rect_def)
  have inr: "rectLeft ?r \<le> pointX (corner_point ?r c)" "pointX (corner_point ?r c) \<le> rectRight ?r"
    "rectTop ?r \<le> pointY (corner_point ?r c)" "pointY (corner_point ?r c) \<le> rectBottom ?r"
    using assms(2) by (auto simp: corner_point_def normalized_rect_valid_def)
  have "mapper_map (corner_point ?r c) (orientationEpoch (mapperConfig m)) m =
      Some (case rotate_point (rotation (mapperConfig m)) (if fst c then 1 else 0, if snd c then 1 else 0) of
        (x, y) \<Rightarrow> (pxLeft (viewport m) + pixel_offset x (pxWidth (viewport m)),
                  pxTop (viewport m) + pixel_offset y (pxHeight (viewport m))))"
    using inr assms(1) by (simp only: mapper_map_def Let_def x y) (simp add: not_less split: prod.split)
  moreover have ends: "pixel_offset 0 (pxWidth (viewport m)) = 0" "pixel_offset 1 (pxWidth (viewport m)) = pxWidth (viewport m) - 1"
    "pixel_offset 0 (pxHeight (viewport m)) = 0" "pixel_offset 1 (pxHeight (viewport m)) = pxHeight (viewport m) - 1"
    using pixel_offset_ends assms(4-6) by (simp_all add: pixel_rect_valid_def)
  moreover obtain r b where "c = (r, b)" by fastforce
  ultimately show ?thesis
    by (cases "rotation (mapperConfig m)"; cases r; cases b) (simp_all add: corner_pixel_def)
qed

section \<open>Properties\<close>

text \<open>C15: Every point the mapper returns is a pixel of the configured viewport, and the viewport
  lies inside the monitor: pen and touch input can never land outside the selected monitor, whatever the
  float rounding of the aspect ratios and of the coordinates. (The bound of 2^24 pixels per edge
  is where a float stops holding every pixel count.)\<close>

theorem mapped_point_on_monitor:
  assumes "mapper_configure config m = (True, m')" and "is_f32 (contentAspectRatio config)"
    and "pxWidth (monitorRect config) \<le> 2 ^ 24" and "pxHeight (monitorRect config) \<le> 2 ^ 24"
    and "mapper_map p epoch m' = Some (x, y)"
  shows "pxLeft (monitorRect config) \<le> x \<and> x < pxLeft (monitorRect config) + pxWidth (monitorRect config) \<and>
    pxTop (monitorRect config) \<le> y \<and> y < pxTop (monitorRect config) + pxHeight (monitorRect config)"
  using configured_inside [OF assms(1-4)] mapped_in_viewport [OF assms(5)]
  by (auto simp: inside_def)

text \<open>The configuration of \<open>RunCoordinateMapperTests\<close>, with the active rectangle on binary fractions.\<close>

definition test_config :: "Rotation \<Rightarrow> MapperConfig" where
  "test_config r = \<lparr>tabletActiveRect = \<lparr>rectLeft = 1/8, rectTop = 1/4, rectRight = 7/8, rectBottom = 3/4\<rparr>,
     monitorRect = \<lparr>pxLeft = 100, pxTop = 200, pxWidth = 2000, pxHeight = 1000\<rparr>,
     contentAspectRatio = 1, rotation = r, orientationEpoch = 7\<rparr>"

lemma is_f32I: "v = of_int m * 2 powi k \<Longrightarrow> \<bar>m\<bar> \<le> 2 ^ 24 \<Longrightarrow> - 149 \<le> k \<Longrightarrow> is_f32 v"
  unfolding is_f32_def representable_def by blast

lemma test_config_floats:
  "is_f32 (contentAspectRatio (test_config r))" "float_rect (tabletActiveRect (test_config r))"
  unfolding float_rect_def test_config_def
  by (auto intro: is_f32I [of _ 1 0] is_f32I [of _ 1 "- 3"] is_f32I [of _ 1 "- 2"] is_f32I [of _ 7 "- 3"]
      is_f32I [of _ 3 "- 2"] simp: power_int_minus)

definition test_mapper :: "Rotation \<Rightarrow> CoordinateMapper" where
  "test_mapper r = \<lparr>mapperConfig = test_config r,
     viewport = \<lparr>pxLeft = 600, pxTop = 200, pxWidth = 1000, pxHeight = 1000\<rparr>, configured = True\<rparr>"

lemma f32_numeral: "(numeral k :: int) \<le> 2 ^ 24 \<Longrightarrow> f32 (numeral k) = numeral k"
  using f32_int [of "numeral k"] by simp

lemma kEpsilon_less_1: "kEpsilon < 1"
proof -
  have "is_f32 (1 / 1024)" by (rule is_f32I [of _ 1 "- 10"]) (simp_all add: power_int_minus)
  then have "kEpsilon \<le> 1 / 1024" unfolding kEpsilon_def by (intro f32_le_float) simp_all
  then show ?thesis by simp
qed

lemma test_configured: "mapper_configure (test_config r) mapper_init = (True, test_mapper r)"
proof -
  have nums: "f32 2000 = 2000" "f32 1000 = 1000" "f32 2 = 2" by (simp_all add: f32_numeral)
  have asp: "monitor_aspect (monitorRect (test_config r)) = 2" "content_aspect (test_config r) = 1"
    using kEpsilon_less_1 by (simp_all add: monitor_aspect_def content_aspect_def test_config_def nums)
  have "lround 1000 = 1000" using lround_of_int [of 1000] by simp
  then have "letterbox (monitorRect (test_config r)) 1 = viewport (test_mapper r)"
    using asp by (simp add: letterbox_def Let_def test_config_def test_mapper_def nums signed_divide_int_def)
  then show ?thesis using kEpsilon_less_1
    by (simp add: mapper_configure_def asp)
      (simp add: test_mapper_def test_config_def mapper_init_def normalized_rect_valid_def pixel_rect_valid_def)
qed

lemma test_corner:
  "mapper_map (corner_point (tabletActiveRect (test_config r)) c) 7 (test_mapper r)
     = Some (corner_pixel (viewport (test_mapper r)) (rotate_corner r c))"
  using map_corner [of "test_mapper r" c] test_config_floats [of r]
  by (simp add: test_mapper_def normalized_rect_valid_def pixel_rect_valid_def test_config_def)

theorem mapped_point_on_monitor_witness:
  "mapper_map (corner_point (tabletActiveRect (test_config Rot90)) (True, True)) 7 (test_mapper Rot90) = Some (600, 1199) \<and>
   100 \<le> (600 :: int) \<and> (600 :: int) < 2100 \<and> 200 \<le> (1199 :: int) \<and> (1199 :: int) < 1200"
proof -
  have m: "mapper_map (corner_point (tabletActiveRect (test_config Rot90)) (True, True)) 7 (test_mapper Rot90) = Some (600, 1199)"
    by (simp only: test_corner) (simp add: test_mapper_def corner_pixel_def)
  from mapped_point_on_monitor [OF test_configured test_config_floats(1) _ _ m] m show ?thesis
    by (simp add: test_config_def)
qed

text \<open>The corners of the tablet's active rectangle map exactly to the corner pixels of the
  viewport, turned by the configured rotation; no row or column of the edge is lost to rounding.\<close>

lemma mapper_corners:
  assumes "mapper_configure config m = (True, m')" and "is_f32 (contentAspectRatio config)"
    and "float_rect (tabletActiveRect config)"
    and "pxWidth (monitorRect config) \<le> 2 ^ 24" and "pxHeight (monitorRect config) \<le> 2 ^ 24"
  shows "mapper_map (corner_point (tabletActiveRect config) c) (orientationEpoch config) m' =
     Some (corner_pixel (viewport m') (rotate_corner (rotation config) c))"
proof -
  have "normalized_rect_valid (tabletActiveRect config)"
    using assms(1) by (auto simp: mapper_configure_def split: if_splits)
  with configured_inside [OF assms(1,2,4,5)] map_corner [of m' c] assms(3) show ?thesis by simp
qed

theorem mapper_corners_witness:
  "mapper_map (corner_point (tabletActiveRect (test_config Rot90)) (False, False)) 7 (test_mapper Rot90)
     = Some (1599, 200)"
  using mapper_corners [OF test_configured test_config_floats [of Rot90], of "(False, False)"]
  by (simp add: test_mapper_def test_config_def corner_pixel_def)

end
