(* ===== verification/Profiles.thy ===== *)
theory Profiles
  imports Prelude
begin

text \<open>
  \<open>ProfileResolver\<close> of \<open>input/profiles.h\<close> and \<open>input/profiles.cpp\<close>, and the sending of the actions it
  selects (\<open>SendKey\<close>, \<open>SendAction\<close> of \<open>input/input_system.cpp\<close>). A \<open>std::wstring\<close> is a list of 16-bit
  units. \<open>std::towlower\<close>, whose table belongs to the C library, and the query of the foreground
  process are arguments.
\<close>

type_synonym wstring = "u16 list"

section \<open>Actions\<close>

datatype ActionKind = AkDisabled | AkMouseButton | AkKeyChord | AkEraser
datatype MouseButton = MbLeft | MbMiddle | MbRight | MbX1 | MbX2

record Action =
  actionKind :: ActionKind
  mouseButton :: MouseButton
  virtualKeys :: "u16 list"

definition default_action :: Action where
  "default_action = \<lparr>actionKind = AkDisabled, mouseButton = MbMiddle, virtualKeys = []\<rparr>"

record ApplicationProfile =
  executableName :: wstring
  profileButtonActions :: "Action list"

definition default_profile :: ApplicationProfile where
  "default_profile = \<lparr>executableName = [], profileButtonActions = replicate 3 default_action\<rparr>"

text \<open>\<open>VK_SHIFT\<close> is 16 and \<open>VK_CONTROL\<close> 17; the name is \<open>blender.exe\<close>.\<close>

definition blender_profile :: ApplicationProfile where
  "blender_profile = \<lparr>executableName = map (\<lambda>c. word_of_nat (of_char c)) ''blender.exe'',
     profileButtonActions =
      [\<lparr>actionKind = AkMouseButton, mouseButton = MbMiddle, virtualKeys = []\<rparr>,
       \<lparr>actionKind = AkMouseButton, mouseButton = MbMiddle, virtualKeys = [16]\<rparr>,
       \<lparr>actionKind = AkMouseButton, mouseButton = MbMiddle, virtualKeys = [17]\<rparr>]\<rparr>"

section \<open>Resolving the profile of a program\<close>

record ProfileResolver =
  resolverProfiles :: "ApplicationProfile list"
  defaultProfile :: ApplicationProfile

definition resolver_init :: ProfileResolver where
  "resolver_init = \<lparr>resolverProfiles = [], defaultProfile = default_profile\<rparr>"

definition is_separator :: "u16 \<Rightarrow> bool" where
  "is_separator c \<longleftrightarrow> c = 92 \<or> c = 47"

text \<open>What is left after erasing through the last separator.\<close>

definition after_last_separator :: "wstring \<Rightarrow> wstring" where
  "after_last_separator value = rev (takeWhile (\<lambda>c. \<not> is_separator c) (rev value))"

definition fileName :: "(u16 \<Rightarrow> u16) \<Rightarrow> wstring \<Rightarrow> wstring" where
  "fileName towlower value = map towlower (after_last_separator value)"

definition set_profiles :: "(u16 \<Rightarrow> u16) \<Rightarrow> ApplicationProfile list \<Rightarrow> ProfileResolver \<Rightarrow> ProfileResolver" where
  "set_profiles towlower ps r =
     r\<lparr>resolverProfiles := map (\<lambda>p. p\<lparr>executableName := fileName towlower (executableName p)\<rparr>) ps\<rparr>"

definition resolve_for_executable :: "(u16 \<Rightarrow> u16) \<Rightarrow> wstring \<Rightarrow> ProfileResolver \<Rightarrow> ApplicationProfile" where
  "resolve_for_executable towlower executable r =
     (case find (\<lambda>p. executableName p = fileName towlower executable) (resolverProfiles r) of
        None \<Rightarrow> defaultProfile r | Some p \<Rightarrow> p)"

text \<open>\<open>foreground\<close> is the image path of the foreground process, or \<open>None\<close> if one of the calls
  that find it fails.\<close>

definition resolve_foreground :: "(u16 \<Rightarrow> u16) \<Rightarrow> wstring option \<Rightarrow> ProfileResolver \<Rightarrow> ApplicationProfile" where
  "resolve_foreground towlower foreground r =
     (case foreground of None \<Rightarrow> defaultProfile r | Some path \<Rightarrow> resolve_for_executable towlower path r)"

lemma after_last_separator_dir:
  "list_all (\<lambda>c. \<not> is_separator c) f \<Longrightarrow> is_separator c \<Longrightarrow> after_last_separator (dir @ [c] @ f) = f"
  by (simp add: after_last_separator_def takeWhile_append list_all_iff)

lemma resolve_set_profiles:
  "resolve_for_executable towlower exe (set_profiles towlower ps r) =
     (case find (\<lambda>p. fileName towlower (executableName p) = fileName towlower exe) ps of
        None \<Rightarrow> defaultProfile r
      | Some p \<Rightarrow> p\<lparr>executableName := fileName towlower exe\<rparr>)"
proof -
  have "find (\<lambda>p. executableName p = fileName towlower exe)
      (map (\<lambda>p. p\<lparr>executableName := fileName towlower (executableName p)\<rparr>) ps) =
    map_option (\<lambda>p. p\<lparr>executableName := fileName towlower exe\<rparr>)
      (find (\<lambda>p. fileName towlower (executableName p) = fileName towlower exe) ps)"
    by (induction ps) auto
  then show ?thesis
    by (simp add: resolve_for_executable_def set_profiles_def split: option.split)
qed

lemma blender_buttons: "length (profileButtonActions blender_profile) = 3"
  by (simp add: blender_profile_def)

section \<open>Sending keys and buttons\<close>

text \<open>The events given to \<open>SendInput\<close>, with the constants of the Windows SDK.\<close>

datatype InputEvent = KeyEvent u16 bool | MouseEvent u32 u32

fun mouse_flag :: "MouseButton \<Rightarrow> bool \<Rightarrow> u32" where
  "mouse_flag MbLeft down = (if down then 0x2 else 0x4)"
| "mouse_flag MbMiddle down = (if down then 0x20 else 0x40)"
| "mouse_flag MbRight down = (if down then 0x8 else 0x10)"
| "mouse_flag MbX1 down = (if down then 0x80 else 0x100)"
| "mouse_flag MbX2 down = (if down then 0x80 else 0x100)"

definition mouse_data :: "MouseButton \<Rightarrow> u32" where
  "mouse_data b = (if b = MbX1 then 1 else if b = MbX2 then 2 else 0)"

definition send_key :: "u16 \<Rightarrow> bool \<Rightarrow> InputEvent list" where
  "send_key key down = [KeyEvent key down]"

definition send_action :: "Action \<Rightarrow> bool \<Rightarrow> InputEvent list" where
  "send_action action down =
     (if actionKind action = AkDisabled \<or> actionKind action = AkEraser then []
      else (if down then concat (map (\<lambda>k. send_key k True) (virtualKeys action)) else []) @
        (if actionKind action = AkMouseButton
         then [MouseEvent (mouse_flag (mouseButton action) down) (mouse_data (mouseButton action))] else []) @
        (if \<not> down then concat (map (\<lambda>k. send_key k False) (rev (virtualKeys action))) else []))"

text \<open>How often a key or a mouse button is held after a list of events.\<close>

definition held_key :: "u16 \<Rightarrow> InputEvent list \<Rightarrow> int" where
  "held_key k evs = int (count_list evs (KeyEvent k True)) - int (count_list evs (KeyEvent k False))"

definition held_button :: "MouseButton \<Rightarrow> InputEvent list \<Rightarrow> int" where
  "held_button b evs = int (count_list evs (MouseEvent (mouse_flag b True) (mouse_data b))) -
     int (count_list evs (MouseEvent (mouse_flag b False) (mouse_data b)))"

lemma held_append [simp]:
  "held_key k (xs @ ys) = held_key k xs + held_key k ys"
  "held_button b (xs @ ys) = held_button b xs + held_button b ys"
  by (simp_all add: held_key_def held_button_def)

lemma held_Nil [simp]: "held_key k [] = 0" "held_button b [] = 0"
  by (simp_all add: held_key_def held_button_def)

lemma count_keys:
  "count_list (concat (map (\<lambda>k. send_key k d) ks)) (KeyEvent k d') = (if d = d' then count_list ks k else 0)"
  "count_list (concat (map (\<lambda>k. send_key k d) ks)) (MouseEvent f x) = 0"
  by (induction ks) (auto simp: send_key_def)

lemma mouse_codes:
  "mouse_flag b d = mouse_flag b' d' \<and> mouse_data b = mouse_data b' \<longleftrightarrow> b = b' \<and> d = d'"
  by (cases b; cases b'; cases d; cases d'; simp add: mouse_data_def)

lemma count_list_rev: "count_list (rev xs) x = count_list xs x"
  by (induction xs) auto

text \<open>What is pressed with an action is released with it.\<close>

lemma send_action_balanced:
  "held_key k (send_action a False) = - held_key k (send_action a True)"
  "held_button b (send_action a False) = - held_button b (send_action a True)"
  using mouse_codes [of "mouseButton a" _ b]
  by (auto simp: held_key_def held_button_def send_action_def count_keys count_list_rev)

end
