(* ===== verification/InputSystem.thy ===== *)
theory InputSystem
  imports Mapper Profiles
begin

text \<open>
  \<open>SyntheticPointerInjector\<close> (\<open>input/synthetic_injector.cpp\<close>) and \<open>InputSystem\<close>
  (\<open>input/input_system.cpp\<close>). What they tell Windows is a log of effects, newest last; whether
  an injection succeeds is an argument, a function of the log that ends in it. The mutex makes each
  operation one step. The device handles are the flags that say whether they exist.
\<close>

section \<open>What is injected\<close>

record PointerInfo =
  piPointerId :: u32
  piFlags :: u32
  piLocation :: "int \<times> int"

record PenInfo =
  penPointer :: PointerInfo
  penMask :: u32
  penFlags :: u32
  injPressure :: int
  injTiltX :: int
  injTiltY :: int

record TouchInfo =
  touchPointer :: PointerInfo
  touchMask :: u32
  touchRect :: "int \<times> int \<times> int \<times> int"
  injTouchPressure :: int

datatype Effect = InjectPenEffect PenInfo | InjectTouchEffect "TouchInfo list" | SendInputEffect InputEvent

abbreviation FlagNew :: u32 where "FlagNew \<equiv> 0x1"
abbreviation FlagInRange :: u32 where "FlagInRange \<equiv> 0x2"
abbreviation FlagInContact :: u32 where "FlagInContact \<equiv> 0x4"
abbreviation FlagDown :: u32 where "FlagDown \<equiv> 0x10000"
abbreviation FlagUpdate :: u32 where "FlagUpdate \<equiv> 0x20000"
abbreviation FlagUp :: u32 where "FlagUp \<equiv> 0x40000"
abbreviation FlagCanceled :: u32 where "FlagCanceled \<equiv> 0x8000"

definition to_pressure :: "rat \<Rightarrow> int" where
  "to_pressure p = lround (f32 (clamp p 0 1 * 1024))"

definition to_tilt :: "rat \<Rightarrow> int" where
  "to_tilt t = lround (clamp t (- 90) 90)"

fun phase_flags :: "PointerPhase \<Rightarrow> bool \<Rightarrow> u32" where
  "phase_flags PHover inRange = (if inRange then FlagInRange else 0) OR FlagUpdate"
| "phase_flags PDown inRange = FlagNew OR FlagInRange OR FlagInContact OR FlagDown"
| "phase_flags PMove inRange = (if inRange then FlagInRange else 0) OR FlagInContact OR FlagUpdate"
| "phase_flags PUp inRange = (if inRange then FlagInRange else 0) OR FlagUp"
| "phase_flags PCancel inRange = FlagCanceled OR FlagUp"

definition pointer_info :: "u32 \<Rightarrow> PointerPhase \<Rightarrow> bool \<Rightarrow> int \<times> int \<Rightarrow> PointerInfo" where
  "pointer_info pid phase inRange point =
     \<lparr>piPointerId = pid, piFlags = phase_flags phase inRange, piLocation = point\<rparr>"

section \<open>The injector\<close>

record Injector =
  penDevice :: bool
  touchDevice :: bool
  injectInput :: bool
  penActive :: bool
  penPointer_Id :: u32
  touchActiveMask :: u32
  touchPoints :: "(int \<times> int) list"

text \<open>
  Windows, as far as the code asks it something: whether the injection that ends a log succeeds, the
  lower case of a character, and the image path of the foreground process at that point.
\<close>

record os =
  injectOk :: "Effect list \<Rightarrow> bool"
  towlower :: "u16 \<Rightarrow> u16"
  foreground :: "Effect list \<Rightarrow> wstring option"

definition injector_init :: "bool \<Rightarrow> bool \<Rightarrow> bool \<Rightarrow> Injector" where
  "injector_init pen touch inject = \<lparr>penDevice = pen, touchDevice = touch, injectInput = inject, penActive = False,
     penPointer_Id = 1, touchActiveMask = 0, touchPoints = replicate kMaxContacts (0, 0)\<rparr>"

definition is_available :: "Injector \<Rightarrow> bool" where
  "is_available i \<longleftrightarrow> penDevice i \<and> touchDevice i \<and> injectInput i"

definition pen_info :: "PenSample \<Rightarrow> int \<times> int \<Rightarrow> bool \<Rightarrow> PenInfo" where
  "pen_info s point forceEraser =
     \<lparr>penPointer = pointer_info (penPointerId s) (penPhase s) (penInRange s) point,
      penMask = (if penPressureAvailable s then 0x1 else 0) OR (if penTiltAvailable s then 0x4 OR 0x8 else 0),
      penFlags = (if penButtons s AND PenButtonPrimary \<noteq> 0 then 0x1 else 0) OR
        (if penEraser s \<or> forceEraser then 0x4 else 0),
      injPressure = (if penPressureAvailable s then to_pressure (penPressure s) else 0),
      injTiltX = (if penTiltAvailable s then to_tilt (penTiltX s) else 0),
      injTiltY = (if penTiltAvailable s then to_tilt (penTiltY s) else 0)\<rparr>"

definition inject_pen ::
  "os \<Rightarrow> PenSample \<Rightarrow> int \<times> int \<Rightarrow> bool \<Rightarrow> Injector \<times> Effect list \<Rightarrow> bool \<times> Injector \<times> Effect list" where
  "inject_pen os s point forceEraser = (\<lambda>(i, effs).
     if \<not> penDevice i \<or> \<not> injectInput i then (False, i, effs)
     else let effs' = effs @ [InjectPenEffect (pen_info s point forceEraser)];
              ok = injectOk os effs'
          in (ok, i\<lparr>penActive := ok \<and> penPhase s \<noteq> PUp \<and> penPhase s \<noteq> PCancel,
                    penPointer_Id := penPointerId s\<rparr>, effs'))"

definition touch_info :: "TouchSample \<Rightarrow> int \<times> int \<Rightarrow> TouchInfo" where
  "touch_info s point =
     (let halfWidth = max 1 (lround (f32 (contactWidth s * 500)));
          halfHeight = max 1 (lround (f32 (contactHeight s * 500)))
      in \<lparr>touchPointer = pointer_info (touchPointerId s) (touchPhase s) True point,
          touchMask = 0x4 OR (if touchPressureAvailable s then 0x4 else 0),
          touchRect = (fst point - halfWidth, snd point - halfHeight, fst point + halfWidth, snd point + halfHeight),
          injTouchPressure = (if touchPressureAvailable s then to_pressure (touchPressure s) else 0)\<rparr>)"

definition contact_bit :: "nat \<Rightarrow> u32" where
  "contact_bit index = push_bit index 1"

text \<open>The loop over the samples; \<open>False\<close> with the state reached where it returns early.\<close>

fun inject_touch_loop ::
  "(TouchSample \<times> int \<times> int) list \<Rightarrow> Injector \<Rightarrow> TouchInfo list \<Rightarrow> bool \<times> Injector \<times> TouchInfo list" where
  "inject_touch_loop [] i infos = (True, i, infos)"
| "inject_touch_loop ((s, point) # rest) i infos =
     (if touchPointerId s = 0 \<or> touchPointerId s > word_of_nat kMaxContacts then (False, i, infos)
      else let index = unat (touchPointerId s - 1);
               i' = i\<lparr>touchPoints := (touchPoints i)[index := point],
                 touchActiveMask := (if touchPhase s = PUp \<or> touchPhase s = PCancel
                   then touchActiveMask i AND NOT (contact_bit index)
                   else touchActiveMask i OR contact_bit index)\<rparr>
           in inject_touch_loop rest i' (infos @ [touch_info s point]))"

definition inject_touches ::
  "os \<Rightarrow> (TouchSample \<times> int \<times> int) list \<Rightarrow> Injector \<times> Effect list \<Rightarrow> bool \<times> Injector \<times> Effect list" where
  "inject_touches os samples = (\<lambda>(i, effs).
     if \<not> touchDevice i \<or> \<not> injectInput i \<or> length samples > kMaxContacts then (False, i, effs)
     else (case inject_touch_loop samples i [] of (ok, i', infos) \<Rightarrow>
       if \<not> ok then (False, i', effs)
       else if samples = [] then (True, i', effs)
       else let effs' = effs @ [InjectTouchEffect infos] in (injectOk os effs', i', effs')))"

definition cancel_info :: "nat \<Rightarrow> int \<times> int \<Rightarrow> TouchInfo" where
  "cancel_info index point = \<lparr>touchPointer = pointer_info (word_of_nat (index + 1)) PCancel False point,
     touchMask = 0, touchRect = (0, 0, 0, 0), injTouchPressure = 0\<rparr>"

definition active_contacts :: "Injector \<Rightarrow> nat list" where
  "active_contacts i = filter (\<lambda>n. touchActiveMask i AND contact_bit n \<noteq> 0) [0..<kMaxContacts]"

definition release_touches :: "Injector \<times> Effect list \<Rightarrow> Injector \<times> Effect list" where
  "release_touches = (\<lambda>(i, effs).
     (i\<lparr>touchActiveMask := 0\<rparr>,
      if touchActiveMask i \<noteq> 0 \<and> touchDevice i \<and> injectInput i
      then let infos = map (\<lambda>n. cancel_info n (touchPoints i ! n)) (active_contacts i)
           in if infos \<noteq> [] then effs @ [InjectTouchEffect infos] else effs
      else effs))"

definition cancel_sample :: "u32 \<Rightarrow> PenSample" where
  "cancel_sample pid = \<lparr>penPointerId = pid, penEpoch = 0, penPhase = PCancel,
     penPosition = \<lparr>pointX = 0, pointY = 0\<rparr>, penPressure = 0, penTiltX = 0, penTiltY = 0, penDistance = 0,
     penInRange = False, penPressureAvailable = False, penTiltAvailable = False, penEraser = False,
     penButtons = 0, penTimestamp = 0\<rparr>"

definition release_all :: "os \<Rightarrow> Injector \<times> Effect list \<Rightarrow> Injector \<times> Effect list" where
  "release_all os = (\<lambda>(i, effs).
     (case (if penActive i \<and> penDevice i
            then snd (inject_pen os (cancel_sample (penPointer_Id i)) (0, 0) False (i, effs))
            else (i, effs)) of
       (i1, effs1) \<Rightarrow> (case release_touches (i1, effs1) of (i2, effs2) \<Rightarrow> (i2\<lparr>penActive := False\<rparr>, effs2))))"

section \<open>The input system\<close>

record InputSystem =
  mapper :: CoordinateMapper
  palmGuard :: PalmGuard
  resolver :: ProfileResolver
  injector :: Injector
  profileButtons :: "bool list"
  pressedActions :: "Action list"
  effectiveEraser :: bool
  touchesSuppressed :: bool
  palmRejectionEnabled :: bool
  osLog :: "Effect list"

definition input_system_init :: "os \<Rightarrow> Injector \<Rightarrow> InputSystem" where
  "input_system_init os i = \<lparr>mapper = mapper_init, palmGuard = palm_guard_init 0,
     resolver = set_profiles (towlower os) [blender_profile] resolver_init, injector = i,
     profileButtons = replicate 3 False, pressedActions = replicate 3 default_action,
     effectiveEraser = False, touchesSuppressed = False, palmRejectionEnabled = True, osLog = []\<rparr>"

definition send_input :: "InputEvent list \<Rightarrow> InputSystem \<Rightarrow> InputSystem" where
  "send_input evs s = s\<lparr>osLog := osLog s @ map SendInputEffect evs\<rparr>"

definition with_injector :: "(Injector \<times> Effect list \<Rightarrow> Injector \<times> Effect list) \<Rightarrow> InputSystem \<Rightarrow> InputSystem" where
  "with_injector f s = (case f (injector s, osLog s) of (i, effs) \<Rightarrow> s\<lparr>injector := i, osLog := effs\<rparr>)"

text \<open>One turn of the loop of \<open>ReleaseProfileActions\<close>.\<close>

definition release_button :: "nat \<Rightarrow> InputSystem \<Rightarrow> InputSystem" where
  "release_button index s =
     (let s1 = (if profileButtons s ! index then send_input (send_action (pressedActions s ! index) False) s else s)
      in s1\<lparr>profileButtons := (profileButtons s1)[index := False],
            pressedActions := (pressedActions s1)[index := default_action]\<rparr>)"

definition release_profile_actions :: "InputSystem \<Rightarrow> InputSystem" where
  "release_profile_actions s =
     (fold release_button [0..<length (profileButtons s)] s)\<lparr>effectiveEraser := False\<rparr>"

definition button_bit :: "nat \<Rightarrow> u32" where
  "button_bit index = [PenButtonPrimary, PenButtonSecondary, PenButtonTertiary] ! index"

text \<open>One turn of the loop of \<open>ApplyProfileButtons\<close>.\<close>

definition apply_button :: "ApplicationProfile \<Rightarrow> PenSample \<Rightarrow> nat \<Rightarrow> InputSystem \<Rightarrow> InputSystem" where
  "apply_button prof pen index s =
     (let nowPressed = penButtons pen AND button_bit index \<noteq> 0
      in if nowPressed = profileButtons s ! index then
           (if nowPressed \<and> actionKind (pressedActions s ! index) = AkEraser
            then s\<lparr>effectiveEraser := True\<rparr> else s)
         else
           let s1 = (if profileButtons s ! index
                     then send_input (send_action (pressedActions s ! index) False) s else s);
               s2 = s1\<lparr>profileButtons := (profileButtons s1)[index := nowPressed]\<rparr>
           in if nowPressed then
                let action = profileButtonActions prof ! index;
                    s3 = send_input (send_action action True)
                      (s2\<lparr>pressedActions := (pressedActions s2)[index := action]\<rparr>)
                in if actionKind action = AkEraser then s3\<lparr>effectiveEraser := True\<rparr> else s3
              else s2\<lparr>pressedActions := (pressedActions s2)[index := default_action]\<rparr>)"

definition apply_profile_buttons :: "os \<Rightarrow> PenSample \<Rightarrow> InputSystem \<Rightarrow> InputSystem" where
  "apply_profile_buttons os pen s =
     (let prof = resolve_foreground (towlower os) (foreground os (osLog s)) (resolver s)
      in fold (apply_button prof pen) [0..<3] (s\<lparr>effectiveEraser := penEraser pen\<rparr>))"

definition reset_guard :: "InputSystem \<Rightarrow> InputSystem" where
  "reset_guard s = s\<lparr>palmGuard := palm_guard_reset (palmGuard s), touchesSuppressed := False\<rparr>"

definition release_everything :: "os \<Rightarrow> InputSystem \<Rightarrow> InputSystem" where
  "release_everything os s = reset_guard (with_injector (release_all os) (release_profile_actions s))"

definition configure :: "os \<Rightarrow> MapperConfig \<Rightarrow> InputSystem \<Rightarrow> bool \<times> InputSystem" where
  "configure os config s =
     (case mapper_configure config (mapper s) of (ok, mp) \<Rightarrow> (ok, (release_everything os s)\<lparr>mapper := mp\<rparr>))"

definition set_palm_rejection :: "bool \<Rightarrow> InputSystem \<Rightarrow> InputSystem" where
  "set_palm_rejection enabled s = s\<lparr>palmRejectionEnabled := enabled,
     touchesSuppressed := (if enabled then touchesSuppressed s else False)\<rparr>"

definition set_system_profiles :: "os \<Rightarrow> ApplicationProfile list \<Rightarrow> InputSystem \<Rightarrow> InputSystem" where
  "set_system_profiles os ps s =
     (let s1 = release_profile_actions s in s1\<lparr>resolver := set_profiles (towlower os) ps (resolver s1)\<rparr>)"

definition on_disconnect :: "os \<Rightarrow> InputSystem \<Rightarrow> InputSystem" where
  "on_disconnect os s = release_everything os s"

definition on_orientation_change :: "os \<Rightarrow> MapperConfig \<Rightarrow> InputSystem \<Rightarrow> InputSystem" where
  "on_orientation_change os config s = snd (configure os config s)"

text \<open>
  \<open>Process\<close>: the pens first. The first component is \<open>None\<close> where the function returns \<open>false\<close> at
  once, else the value of \<open>success\<close>.
\<close>

definition observed :: "PenSample \<Rightarrow> InputSystem \<Rightarrow> InputSystem" where
  "observed pen s = s\<lparr>palmGuard :=
     observe_pen (penPhase pen = PDown \<or> penPhase pen = PMove) (penTimestamp pen) (palmGuard s)\<rparr>"

definition suppress_touches :: "PenSample \<Rightarrow> InputSystem \<Rightarrow> InputSystem" where
  "suppress_touches pen s =
     (if palmRejectionEnabled s \<and> \<not> allows_touch (penTimestamp pen) (palmGuard s)
      then (if \<not> touchesSuppressed s then with_injector release_touches s else s)\<lparr>touchesSuppressed := True\<rparr>
      else s)"

definition process_pen ::
  "os \<Rightarrow> PenSample \<Rightarrow> bool \<Rightarrow> InputSystem \<Rightarrow> bool option \<times> InputSystem" where
  "process_pen os pen success s =
     (case mapper_map (penPosition pen) (penEpoch pen) (mapper s) of
        None \<Rightarrow> (None, release_everything os s)
      | Some point \<Rightarrow>
          let s' = suppress_touches pen (apply_profile_buttons os pen (observed pen s))
          in (case inject_pen os pen point (effectiveEraser s') (injector s', osLog s') of
               (ok, i, effs) \<Rightarrow> (Some (ok \<and> success), s'\<lparr>injector := i, osLog := effs\<rparr>)))"

fun process_pens ::
  "os \<Rightarrow> PenSample list \<Rightarrow> bool \<Rightarrow> InputSystem \<Rightarrow> bool option \<times> InputSystem" where
  "process_pens os [] success s = (Some success, s)"
| "process_pens os (pen # rest) success s =
     (case process_pen os pen success s of
        (None, s') \<Rightarrow> (None, s')
      | (Some ok, s') \<Rightarrow> process_pens os rest ok s')"

text \<open>The samples of one group that may be injected, with their pixels.\<close>

fun collect_touches ::
  "TouchSample list \<Rightarrow> InputSystem \<Rightarrow> (TouchSample \<times> int \<times> int) list option \<times> InputSystem" where
  "collect_touches [] s = (Some [], s)"
| "collect_touches (t # rest) s =
     (case mapper_map (touchPosition t) (touchEpoch t) (mapper s) of
        None \<Rightarrow> (None, with_injector release_touches s)
      | Some point \<Rightarrow>
          if palmRejectionEnabled s \<and> \<not> allows_touch (touchTimestamp t) (palmGuard s)
          then collect_touches rest (s\<lparr>touchesSuppressed := True\<rparr>)
          else (case collect_touches rest (s\<lparr>touchesSuppressed := False\<rparr>) of
              (None, s') \<Rightarrow> (None, s')
            | (Some allowed, s') \<Rightarrow> (Some ((t, point) # allowed), s')))"

function process_touches ::
  "os \<Rightarrow> TouchSample list \<Rightarrow> nat \<Rightarrow> bool \<Rightarrow> InputSystem \<Rightarrow> bool option \<times> InputSystem" where
  "process_touches os ts begin success s =
     (if begin < length ts then
        let e = next_touch_group_end ts begin
        in (case collect_touches (take (e - begin) (drop begin ts)) s of
             (None, s') \<Rightarrow> (None, s')
           | (Some allowed, s') \<Rightarrow>
               if allowed \<noteq> [] then
                 (case inject_touches os allowed (injector s', osLog s') of
                   (ok, i, effs) \<Rightarrow> process_touches os ts e (ok \<and> success) (s'\<lparr>injector := i, osLog := effs\<rparr>))
               else process_touches os ts e success s')
      else (Some success, s))"
  by pat_completeness auto
termination
  by (relation "measure (\<lambda>(os, ts, begin, success, s). length ts - begin)")
    (use next_touch_group_end in fastforce)+

declare process_touches.simps [simp del]

definition process :: "os \<Rightarrow> InputFrame \<Rightarrow> InputSystem \<Rightarrow> bool \<times> InputSystem" where
  "process os frame s =
     (case process_pens os (pens frame) True s of
        (None, s') \<Rightarrow> (False, s')
      | (Some success, s') \<Rightarrow>
          (case process_touches os (touches frame) 0 success s' of
             (None, s'') \<Rightarrow> (False, s'')
           | (Some ok, s'') \<Rightarrow> (ok, s'')))"

section \<open>Keys and buttons\<close>

text \<open>The events that went to \<open>SendInput\<close>.\<close>

fun input_events :: "Effect list \<Rightarrow> InputEvent list" where
  "input_events [] = []"
| "input_events (SendInputEffect e # es) = e # input_events es"
| "input_events (_ # es) = input_events es"

lemma input_events_append [simp]: "input_events (xs @ ys) = input_events xs @ input_events ys"
  by (induction xs rule: input_events.induct) auto

lemma input_events_send [simp]: "input_events (map SendInputEffect evs) = evs"
  by (induction evs) auto

text \<open>
  \<open>held_measure\<close> is what the balance of presses and releases needs to know of a way to count them;
  keys and mouse buttons are two instances.
\<close>

locale held_measure =
  fixes held :: "InputEvent list \<Rightarrow> int"
  assumes held_append: "held (xs @ ys) = held xs + held ys"
    and held_release: "held (send_action a False) = - held (send_action a True)"
begin

definition expected :: "bool list \<Rightarrow> Action list \<Rightarrow> int" where
  "expected pb pa = sum_list (map2 (\<lambda>b a. if b then held (send_action a True) else 0) pb pa)"

definition balanced :: "InputSystem \<Rightarrow> bool" where
  "balanced s \<longleftrightarrow> length (profileButtons s) = 3 \<and> length (pressedActions s) = 3 \<and>
     held (input_events (osLog s)) = expected (profileButtons s) (pressedActions s)"

lemma expected_update:
  assumes "length pb = 3" "length pa = 3" "n < 3"
  shows "expected (pb[n := b]) (pa[n := a]) = expected pb pa
    - (if pb ! n then held (send_action (pa ! n) True) else 0) + (if b then held (send_action a True) else 0)"
proof -
  obtain b0 b1 b2 where pb: "pb = [b0, b1, b2]" using assms(1) by (auto simp: numeral_3_eq_3 length_Suc_conv)
  obtain a0 a1 a2 where pa: "pa = [a0, a1, a2]" using assms(2) by (auto simp: numeral_3_eq_3 length_Suc_conv)
  have "n = 0 \<or> n = 1 \<or> n = 2" using assms(3) by auto
  then show ?thesis by (auto simp: expected_def pb pa numeral_2_eq_2)
qed

lemma balanced_release_button:
  "balanced s \<Longrightarrow> n < 3 \<Longrightarrow> balanced (release_button n s)"
  by (auto simp: balanced_def release_button_def send_input_def held_append held_release expected_update Let_def)

lemma balanced_apply_button:
  "balanced s \<Longrightarrow> n < 3 \<Longrightarrow> balanced (apply_button prof pen n s)"
  by (auto simp: balanced_def apply_button_def send_input_def held_append held_release expected_update
      Let_def)

lemma balanced_quiet:
  "balanced s \<Longrightarrow> profileButtons s' = profileButtons s \<Longrightarrow> pressedActions s' = pressedActions s \<Longrightarrow>
     input_events (osLog s') = input_events (osLog s) \<Longrightarrow> balanced s'"
  by (simp add: balanced_def)

end

interpretation keys: held_measure "held_key k" for k
  by unfold_locales (simp_all add: send_action_balanced)

interpretation buttons: held_measure "held_button b" for b
  by unfold_locales (simp_all add: send_action_balanced)

subsection \<open>Operations that send no input event\<close>

definition quiet :: "InputSystem \<Rightarrow> InputSystem \<Rightarrow> bool" where
  "quiet s s' \<longleftrightarrow> profileButtons s' = profileButtons s \<and> pressedActions s' = pressedActions s \<and>
     input_events (osLog s') = input_events (osLog s)"

lemma inject_pen_quiet:
  "inject_pen os s point e (i, effs) = (ok, i', effs') \<Longrightarrow> input_events effs' = input_events effs"
  by (auto simp: inject_pen_def Let_def split: if_splits)

lemma inject_touches_quiet:
  "inject_touches os samples (i, effs) = (ok, i', effs') \<Longrightarrow> input_events effs' = input_events effs"
  by (auto simp: inject_touches_def Let_def split: if_splits prod.splits)

lemma release_touches_quiet:
  "release_touches (i, effs) = (i', effs') \<Longrightarrow> input_events effs' = input_events effs"
  by (auto simp: release_touches_def Let_def split: if_splits)

lemma release_all_quiet:
  "release_all os (i, effs) = (i', effs') \<Longrightarrow> input_events effs' = input_events effs"
proof -
  obtain ok i1 effs1 where p: "inject_pen os (cancel_sample (penPointer_Id i)) (0, 0) False (i, effs) = (ok, i1, effs1)"
    by (rule prod_cases3)
  assume "release_all os (i, effs) = (i', effs')"
  with p inject_pen_quiet [OF p] show ?thesis
    by (auto simp: release_all_def split: prod.splits if_splits dest!: release_touches_quiet)
qed

lemma with_injector_quiet:
  "quiet s (with_injector release_touches s)" "quiet s (with_injector (release_all os) s)"
  using release_touches_quiet release_all_quiet
  by (auto simp: quiet_def with_injector_def split: prod.split)

lemma quiet_trans: "quiet a b \<Longrightarrow> quiet b c \<Longrightarrow> quiet a c"
  by (simp add: quiet_def)

lemma quiet_refl [simp]: "quiet s s"
  by (simp add: quiet_def)

lemma quiet_update [simp]:
  "quiet s (s'\<lparr>touchesSuppressed := x\<rparr>) = quiet s s'" "quiet s (s'\<lparr>palmGuard := g\<rparr>) = quiet s s'"
  "quiet s (s'\<lparr>mapper := m\<rparr>) = quiet s s'" "quiet s (s'\<lparr>palmRejectionEnabled := y\<rparr>) = quiet s s'"
  "quiet s (s'\<lparr>resolver := r\<rparr>) = quiet s s'" "quiet s (s'\<lparr>effectiveEraser := x\<rparr>) = quiet s s'"
  "quiet (s\<lparr>touchesSuppressed := x\<rparr>) s' = quiet s s'"
  by (simp_all add: quiet_def)

lemma collect_touches_quiet: "collect_touches ts s = (r, s') \<Longrightarrow> quiet s s'"
proof (induction ts arbitrary: s r s')
  case Nil
  then show ?case by simp
next
  case (Cons t rest)
  show ?case
  proof (cases "mapper_map (touchPosition t) (touchEpoch t) (mapper s)")
    case None
    with Cons.prems show ?thesis by (auto intro: with_injector_quiet)
  next
    case (Some point)
    with Cons.prems show ?thesis
      by (auto split: if_splits prod.splits option.splits dest!: Cons.IH)
  qed
qed

lemma process_touches_quiet: "process_touches os ts pos success s = (r, s') \<Longrightarrow> quiet s s'"
proof (induction os ts pos success s arbitrary: r s' rule: process_touches.induct)
  case (1 os ts pos success s)
  show ?case
  proof (cases "pos < length ts")
    case False
    with 1(3) show ?thesis by (simp add: process_touches.simps [of os ts pos success s])
  next
    case True
    define e where "e = next_touch_group_end ts pos"
    obtain c s1 where c: "collect_touches (take (e - pos) (drop pos ts)) s = (c, s1)" by fastforce
    note q = collect_touches_quiet [OF c]
    show ?thesis
    proof (cases c)
      case None
      with 1(3) True c q show ?thesis
        by (simp add: process_touches.simps [of os ts pos success s] e_def)
    next
      case (Some allowed)
      show ?thesis
      proof (cases "allowed = []")
        case nil: True
        with 1(3) True c Some have rec: "process_touches os ts e success s1 = (r, s')"
          by (simp add: process_touches.simps [of os ts pos success s] e_def)
        from 1(2) [OF True e_def c [symmetric] Some _ rec] nil q show ?thesis by (auto intro: quiet_trans)
      next
        case False
        obtain ok i effs where i: "inject_touches os allowed (injector s1, osLog s1) = (ok, i, effs)"
          by (rule prod_cases3)
        with 1(3) True c Some False
        have rec: "process_touches os ts e (ok \<and> success) (s1\<lparr>injector := i, osLog := effs\<rparr>) = (r, s')"
          by (simp add: process_touches.simps [of os ts pos success s] e_def)
        have "quiet s1 (s1\<lparr>injector := i, osLog := effs\<rparr>)"
          using inject_touches_quiet [OF i] by (simp add: quiet_def)
        moreover have "quiet (s1\<lparr>injector := i, osLog := effs\<rparr>) s'"
          by (rule 1(1) [OF True e_def c [symmetric] Some False i [symmetric] refl rec])
        ultimately show ?thesis using q by (blast intro: quiet_trans)
      qed
    qed
  qed
qed

subsection \<open>Balance of every operation\<close>

context held_measure
begin

lemma balanced_quiet_step: "balanced s \<Longrightarrow> quiet s s' \<Longrightarrow> balanced s'"
  by (simp add: balanced_def quiet_def)

lemma balanced_release_fold:
  assumes "balanced s" and "n \<le> 3"
  shows "balanced (fold release_button [0..<n] s)"
  using assms(2) by (induction n) (auto simp: assms(1) balanced_release_button)

lemma release_button_released:
  assumes "i < length (profileButtons s)" "n < length (profileButtons s)"
  shows "profileButtons (release_button n s) ! i \<longleftrightarrow> profileButtons s ! i \<and> i \<noteq> n"
  using assms by (auto simp: release_button_def send_input_def Let_def nth_list_update)

lemma release_fold_released:
  assumes "length (profileButtons s) = 3" and "n \<le> 3" and "i < 3"
  shows "length (profileButtons (fold release_button [0..<n] s)) = 3 \<and>
    (profileButtons (fold release_button [0..<n] s) ! i \<longleftrightarrow> profileButtons s ! i \<and> n \<le> i)"
  using assms(2)
proof (induction n)
  case 0
  then show ?case using assms by simp
next
  case (Suc n)
  define s1 where "s1 = fold release_button [0..<n] s"
  have s1: "length (profileButtons s1) = 3" "profileButtons s1 ! i \<longleftrightarrow> profileButtons s ! i \<and> n \<le> i"
    using Suc by (simp_all add: s1_def)
  have "length (profileButtons (release_button n s1)) = 3"
    using s1 by (simp add: release_button_def send_input_def Let_def)
  moreover have "profileButtons (release_button n s1) ! i \<longleftrightarrow> profileButtons s ! i \<and> Suc n \<le> i"
    using release_button_released [of i s1 n] s1 assms(3) Suc.prems by auto
  ultimately show ?case by (simp add: s1_def [symmetric])
qed

lemma balanced_release_profile:
  assumes "balanced s"
  shows "balanced (release_profile_actions s)" "held (input_events (osLog (release_profile_actions s))) = 0"
proof -
  define s1 where "s1 = fold release_button [0..<3] s"
  have len: "length (profileButtons s) = 3" using assms by (simp add: balanced_def)
  have b1: "balanced s1" unfolding s1_def by (rule balanced_release_fold [OF assms]) simp
  have eq: "release_profile_actions s = s1\<lparr>effectiveEraser := False\<rparr>"
    by (simp add: release_profile_actions_def s1_def len)
  have l: "length (profileButtons s1) = 3" and off: "i < 3 \<Longrightarrow> \<not> profileButtons s1 ! i" for i
    using release_fold_released [OF len, of 3 0] release_fold_released [OF len, of 3 i]
    by (simp_all add: s1_def)
  obtain b0 b1' b2 where pb: "profileButtons s1 = [b0, b1', b2]"
    using l by (auto simp: numeral_3_eq_3 length_Suc_conv)
  with off [of 0] off [of 1] off [of 2] have "profileButtons s1 = [False, False, False]"
    by (simp add: numeral_2_eq_2)
  moreover obtain a0 a1 a2 where "pressedActions s1 = [a0, a1, a2]"
    using b1 by (auto simp: balanced_def numeral_3_eq_3 length_Suc_conv)
  ultimately show "held (input_events (osLog (release_profile_actions s))) = 0"
    using b1 by (simp add: eq balanced_def expected_def)
  show "balanced (release_profile_actions s)" using b1 by (simp add: eq balanced_def)
qed

lemma balanced_release_everything:
  assumes "balanced s"
  shows "balanced (release_everything os s)" "held (input_events (osLog (release_everything os s))) = 0"
proof -
  have q: "quiet (release_profile_actions s) (release_everything os s)"
    using with_injector_quiet(2) by (simp add: release_everything_def reset_guard_def)
  show "balanced (release_everything os s)"
    using balanced_release_profile(1) [OF assms] q by (rule balanced_quiet_step)
  show "held (input_events (osLog (release_everything os s))) = 0"
    using balanced_release_profile(2) [OF assms] q by (simp add: quiet_def)
qed

lemma balanced_apply_profile:
  assumes "balanced s"
  shows "balanced (apply_profile_buttons os pen s)"
proof -
  have "balanced (fold (apply_button prof pen) [0..<n] s')" if "balanced s'" "n \<le> 3" for prof s' n
    using that(2) by (induction n) (auto simp: that(1) balanced_apply_button)
  moreover have "balanced (s\<lparr>effectiveEraser := penEraser pen\<rparr>)"
    using assms by (simp add: balanced_def)
  ultimately show ?thesis by (simp add: apply_profile_buttons_def Let_def)
qed

lemma balanced_process_pen:
  assumes "balanced s" and "process_pen os pen success s = (r, s')"
  shows "balanced s'"
proof (cases "mapper_map (penPosition pen) (penEpoch pen) (mapper s)")
  case None
  with assms show ?thesis by (auto simp: process_pen_def balanced_release_everything)
next
  case (Some point)
  define s3 where "s3 = suppress_touches pen (apply_profile_buttons os pen (observed pen s))"
  have "balanced (apply_profile_buttons os pen (observed pen s))"
    by (rule balanced_apply_profile, rule balanced_quiet_step [OF assms(1)]) (simp add: observed_def)
  moreover have "quiet s2 (suppress_touches pen s2)" for s2
    using with_injector_quiet(1) by (simp add: suppress_touches_def)
  ultimately have b3: "balanced s3" unfolding s3_def by (rule balanced_quiet_step)
  obtain ok i effs where j: "inject_pen os pen point (effectiveEraser s3) (injector s3, osLog s3) = (ok, i, effs)"
    by (rule prod_cases3)
  have "s' = s3\<lparr>injector := i, osLog := effs\<rparr>"
    using assms(2) Some j by (simp add: process_pen_def s3_def [symmetric])
  moreover have "quiet s3 (s3\<lparr>injector := i, osLog := effs\<rparr>)"
    using inject_pen_quiet [OF j] by (simp add: quiet_def)
  ultimately show ?thesis using b3 balanced_quiet_step by blast
qed

lemma balanced_process_pens:
  "balanced s \<Longrightarrow> process_pens os ps success s = (r, s') \<Longrightarrow> balanced s'"
proof (induction os ps success s rule: process_pens.induct)
  case (1 os success s)
  then show ?case by simp
next
  case (2 os pen rest success s)
  obtain c s1 where c: "process_pen os pen success s = (c, s1)" by fastforce
  from balanced_process_pen [OF 2(2) c] have "balanced s1" .
  with 2(1) [OF c [symmetric]] 2(3) c show ?case by (cases c) auto
qed

lemma balanced_process:
  assumes "balanced s"
  shows "balanced (snd (process os frame s))"
proof -
  obtain c s1 where c: "process_pens os (pens frame) True s = (c, s1)" by fastforce
  have b1: "balanced s1" by (rule balanced_process_pens [OF assms c])
  show ?thesis
  proof (cases c)
    case None
    with c b1 show ?thesis by (simp add: process_def)
  next
    case (Some success)
    obtain r s2 where t: "process_touches os (touches frame) 0 success s1 = (r, s2)" by fastforce
    have "balanced s2" using b1 process_touches_quiet [OF t] by (rule balanced_quiet_step)
    with c Some t show ?thesis by (cases r) (simp_all add: process_def)
  qed
qed

end

section \<open>Reachable states\<close>

inductive reachable :: "os \<Rightarrow> InputSystem \<Rightarrow> bool" for os where
  init: "touchActiveMask i = 0 \<Longrightarrow> \<not> penActive i \<Longrightarrow> reachable os (input_system_init os i)"
| configure: "reachable os s \<Longrightarrow> reachable os (snd (configure os config s))"
| palm: "reachable os s \<Longrightarrow> reachable os (set_palm_rejection enabled s)"
| profiles: "reachable os s \<Longrightarrow> reachable os (set_system_profiles os ps s)"
| process: "reachable os s \<Longrightarrow> reachable os (snd (process os frame s))"
| disconnect: "reachable os s \<Longrightarrow> reachable os (on_disconnect os s)"
| orientation: "reachable os s \<Longrightarrow> reachable os (on_orientation_change os config s)"

context held_measure
begin

lemma balanced_configure: "balanced s \<Longrightarrow> balanced (snd (configure os config s))"
proof -
  assume "balanced s"
  then have "balanced (release_everything os s)" by (rule balanced_release_everything)
  then show ?thesis by (auto simp: configure_def balanced_def split: prod.split)
qed

lemma reachable_balanced:
  assumes "held [] = 0" and "reachable os s"
  shows "balanced s"
  using assms(2)
proof (induction rule: reachable.induct)
  case (init i)
  then show ?case using assms(1)
    by (simp add: balanced_def input_system_init_def expected_def numeral_3_eq_3)
next
  case (palm s enabled)
  then show ?case by (simp add: balanced_def set_palm_rejection_def)
next
  case (profiles s ps)
  then have "balanced (release_profile_actions s)" by (simp add: balanced_release_profile)
  then show ?case by (simp add: balanced_def set_system_profiles_def Let_def)
qed (simp_all add: balanced_configure balanced_process on_disconnect_def on_orientation_change_def
    balanced_release_everything)

end

section \<open>What reaches the touch device\<close>

text \<open>Every touch contact in the effect is a cancel.\<close>

definition no_finger :: "Effect \<Rightarrow> bool" where
  "no_finger e = (case e of
     InjectTouchEffect infos \<Rightarrow> list_all (\<lambda>t. piFlags (touchPointer t) = FlagCanceled OR FlagUp) infos
   | _ \<Rightarrow> True)"

definition fingers_quiet :: "InputSystem \<Rightarrow> InputSystem \<Rightarrow> bool" where
  "fingers_quiet s s' \<longleftrightarrow> (\<exists>new. osLog s' = osLog s @ new \<and> list_all no_finger new) \<and>
     palmRejectionEnabled s' = palmRejectionEnabled s \<and> mapper s' = mapper s"

lemma fingers_quiet_refl [simp]: "fingers_quiet s s"
  by (simp add: fingers_quiet_def)

lemma fingers_quiet_trans: "fingers_quiet a b \<Longrightarrow> fingers_quiet b c \<Longrightarrow> fingers_quiet a c"
  unfolding fingers_quiet_def by (metis append.assoc list_all_append)

lemma fingers_quiet_update [simp]:
  "fingers_quiet s (s'\<lparr>touchesSuppressed := x\<rparr>) = fingers_quiet s s'"
  "fingers_quiet s (s'\<lparr>palmGuard := g\<rparr>) = fingers_quiet s s'"
  "fingers_quiet s (s'\<lparr>effectiveEraser := x\<rparr>) = fingers_quiet s s'"
  "fingers_quiet s (s'\<lparr>profileButtons := pb\<rparr>) = fingers_quiet s s'"
  "fingers_quiet s (s'\<lparr>pressedActions := pa\<rparr>) = fingers_quiet s s'"
  by (simp_all add: fingers_quiet_def)

lemma fingers_send_input: "fingers_quiet s (send_input evs s)"
  by (simp add: fingers_quiet_def send_input_def list_all_iff no_finger_def)

lemma fingers_release_touches: "fingers_quiet s (with_injector release_touches s)"
  by (simp add: fingers_quiet_def with_injector_def release_touches_def Let_def list_all_iff no_finger_def
      cancel_info_def pointer_info_def)

lemma fingers_inject_pen:
  "inject_pen os pen point e (injector s, osLog s) = (ok, i, effs) \<Longrightarrow>
     fingers_quiet s (s\<lparr>injector := i, osLog := effs\<rparr>)"
  by (auto simp: fingers_quiet_def inject_pen_def Let_def no_finger_def split: if_splits)

lemma fingers_release_all: "fingers_quiet s (with_injector (release_all os) s)"
proof -
  obtain ok i1 effs1 where p: "inject_pen os (cancel_sample (penPointer_Id (injector s))) (0, 0) False
      (injector s, osLog s) = (ok, i1, effs1)" by (rule prod_cases3)
  define s1 where "s1 = (if penActive (injector s) \<and> penDevice (injector s)
    then s\<lparr>injector := i1, osLog := effs1\<rparr> else s)"
  have "fingers_quiet s s1" using fingers_inject_pen [OF p] by (simp add: s1_def)
  moreover have "with_injector (release_all os) s =
      (let s2 = with_injector release_touches s1 in s2\<lparr>injector := (injector s2)\<lparr>penActive := False\<rparr>\<rparr>)"
    using p by (auto simp: with_injector_def release_all_def s1_def Let_def split: prod.split)
  moreover have "fingers_quiet s1 (with_injector release_touches s1)" by (rule fingers_release_touches)
  ultimately show ?thesis by (auto simp: Let_def fingers_quiet_def)
qed

lemma fingers_release_button: "fingers_quiet s (release_button n s)"
  by (simp add: release_button_def Let_def fingers_send_input)

lemma fingers_fold:
  assumes "\<And>n s. fingers_quiet s (f n s)"
  shows "fingers_quiet s (fold f ns s)"
  by (induction ns arbitrary: s) (simp, metis assms fingers_quiet_trans fold_simps(2))

lemma fingers_release_everything: "fingers_quiet s (release_everything os s)"
proof -
  have "fingers_quiet s (release_profile_actions s)"
    using fingers_fold [of release_button, OF fingers_release_button] by (simp add: release_profile_actions_def)
  then show ?thesis
    using fingers_quiet_trans [OF _ fingers_release_all]
    by (simp add: release_everything_def reset_guard_def)
qed

lemma fingers_apply_button: "fingers_quiet s (apply_button prof pen n s)"
proof -
  have "fingers_quiet s (if profileButtons s ! n then send_input (send_action (pressedActions s ! n) False) s else s)"
    by (simp add: fingers_send_input)
  then show ?thesis
    by (auto simp: apply_button_def Let_def intro: fingers_quiet_trans [OF _ fingers_send_input])
qed

lemma fingers_apply_profile: "fingers_quiet s (apply_profile_buttons os pen s)"
proof -
  define s1 where "s1 = s\<lparr>effectiveEraser := penEraser pen\<rparr>"
  have "fingers_quiet s s1" by (simp add: s1_def)
  with fingers_fold [of "apply_button prof pen" s1 "[0..<3]" for prof, OF fingers_apply_button]
  show ?thesis by (simp add: apply_profile_buttons_def Let_def s1_def [symmetric]) (metis fingers_quiet_trans)
qed

lemma guard_apply_button: "palmGuard (apply_button prof pen n s) = palmGuard s"
  by (simp add: apply_button_def Let_def send_input_def)

lemma guard_apply_profile: "palmGuard (apply_profile_buttons os pen s) = palmGuard s"
proof -
  have "palmGuard (fold (apply_button prof pen) ns s') = palmGuard s'" for prof ns s'
    by (induction ns arbitrary: s') (simp_all add: guard_apply_button)
  then show ?thesis by (simp add: apply_profile_buttons_def Let_def)
qed

lemma guard_with_injector [simp]: "palmGuard (with_injector f s) = palmGuard s"
  by (simp add: with_injector_def split: prod.split)

lemma process_pen_fingers:
  assumes "process_pen os pen success s = (r, s')"
  shows "fingers_quiet s s' \<and> (r \<noteq> None \<longrightarrow> (penTipDown (palmGuard s') \<longleftrightarrow> penPhase pen = PDown \<or> penPhase pen = PMove))"
proof (cases "mapper_map (penPosition pen) (penEpoch pen) (mapper s)")
  case None
  with assms show ?thesis by (auto simp: process_pen_def fingers_release_everything)
next
  case (Some point)
  define s1 where "s1 = apply_profile_buttons os pen (observed pen s)"
  define s2 where "s2 = suppress_touches pen s1"
  obtain ok i effs where j: "inject_pen os pen point (effectiveEraser s2) (injector s2, osLog s2) = (ok, i, effs)"
    by (rule prod_cases3)
  have "fingers_quiet s s1" unfolding s1_def
    by (rule fingers_quiet_trans [OF _ fingers_apply_profile]) (simp add: observed_def)
  moreover have "fingers_quiet s1 s2"
    using fingers_release_touches by (simp add: s2_def suppress_touches_def)
  moreover note fingers_inject_pen [OF j]
  ultimately have "fingers_quiet s (s2\<lparr>injector := i, osLog := effs\<rparr>)" by (blast intro: fingers_quiet_trans)
  moreover have "palmGuard s2 = palmGuard (observed pen s)"
    by (simp add: s2_def suppress_touches_def s1_def guard_apply_profile)
  moreover have "r = Some (ok \<and> success) \<and> s' = s2\<lparr>injector := i, osLog := effs\<rparr>"
    using assms Some j by (simp add: process_pen_def s1_def [symmetric] s2_def [symmetric])
  ultimately show ?thesis by (simp add: observed_def observe_pen_def)
qed

lemma process_pens_fingers:
  "process_pens os ps success s = (r, s') \<Longrightarrow>
     fingers_quiet s s' \<and> (r \<noteq> None \<longrightarrow> (penTipDown (palmGuard s') \<longleftrightarrow>
       (if ps = [] then penTipDown (palmGuard s) else penPhase (last ps) = PDown \<or> penPhase (last ps) = PMove)))"
proof (induction os ps success s arbitrary: r s' rule: process_pens.induct)
  case (1 os success s)
  then show ?case by simp
next
  case (2 os pen rest success s)
  obtain c s1 where c: "process_pen os pen success s = (c, s1)" by fastforce
  note step = process_pen_fingers [OF c]
  show ?case
  proof (cases c)
    case None
    with 2(2) c step show ?thesis by auto
  next
    case (Some ok)
    with 2(2) c have "process_pens os rest ok s1 = (r, s')" by simp
    from 2(1) [OF c [symmetric] Some this] step Some show ?thesis
      by (auto intro: fingers_quiet_trans)
  qed
qed

lemma collect_touches_blocked:
  assumes "palmRejectionEnabled s" and "penTipDown (palmGuard s)"
    and "collect_touches ts s = (r, s')"
  shows "fingers_quiet s s' \<and> palmGuard s' = palmGuard s \<and> (r = None \<or> r = Some [])"
  using assms
proof (induction ts arbitrary: s)
  case Nil
  then show ?case by simp
next
  case (Cons t rest)
  show ?case
  proof (cases "mapper_map (touchPosition t) (touchEpoch t) (mapper s)")
    case None
    with Cons.prems show ?thesis by (auto simp: fingers_release_touches)
  next
    case (Some point)
    with Cons.prems have "collect_touches rest (s\<lparr>touchesSuppressed := True\<rparr>) = (r, s')"
      by (simp add: allows_touch_def)
    from Cons.IH [OF _ _ this] Cons.prems(1,2) show ?thesis
      by (auto simp: fingers_quiet_def)
  qed
qed

lemma process_touches_blocked:
  assumes "process_touches os ts pos success s = (r, s')"
    and "palmRejectionEnabled s" and "penTipDown (palmGuard s)"
  shows "fingers_quiet s s'"
  using assms
proof (induction "length ts - pos" arbitrary: pos s rule: less_induct)
  case less
  show ?case
  proof (cases "pos < length ts")
    case False
    with less.prems show ?thesis by (simp add: process_touches.simps [of os ts pos success s])
  next
    case True
    define e where "e = next_touch_group_end ts pos"
    have e: "length ts - e < length ts - pos"
      using next_touch_group_end [OF True e_def] by auto
    obtain c s1 where c: "collect_touches (take (e - pos) (drop pos ts)) s = (c, s1)" by fastforce
    note b = collect_touches_blocked [OF less.prems(2,3) c]
    show ?thesis
    proof (cases c)
      case None
      with less.prems(1) True c b show ?thesis
        by (simp add: process_touches.simps [of os ts pos success s] e_def)
    next
      case (Some allowed)
      with b have "allowed = []" by simp
      with less.prems(1) True c Some have rec: "process_touches os ts e success s1 = (r, s')"
        by (simp add: process_touches.simps [of os ts pos success s] e_def)
      have "palmRejectionEnabled s1" "penTipDown (palmGuard s1)"
        using b less.prems(2,3) by (simp_all add: fingers_quiet_def)
      from less.hyps [OF e rec this] b show ?thesis by (blast intro: fingers_quiet_trans)
    qed
  qed
qed

section \<open>Releasing the pointers\<close>

lemma release_touches_cancels:
  assumes "touchDevice i" "injectInput i" "touchActiveMask i AND contact_bit n \<noteq> 0" "n < kMaxContacts"
  shows "\<exists>infos. snd (release_touches (i, effs)) = effs @ [InjectTouchEffect infos] \<and>
    cancel_info n (touchPoints i ! n) \<in> set infos"
proof -
  have n: "n \<in> set (active_contacts i)" using assms(3,4) by (simp add: active_contacts_def)
  then have "active_contacts i \<noteq> []" by auto
  moreover have "touchActiveMask i \<noteq> 0" using assms(3) by auto
  ultimately show ?thesis using assms(1,2) n by (auto simp: release_touches_def Let_def)
qed

lemma release_all_state:
  assumes "release_all os (i, effs) = (i', effs')"
  shows "touchActiveMask i' = 0 \<and> \<not> penActive i'"
  using assms by (auto simp: release_all_def release_touches_def split: prod.splits if_splits)

lemma inject_pen_touch_state:
  "inject_pen os s point e (i, effs) = (ok, i', effs') \<Longrightarrow>
     touchDevice i' = touchDevice i \<and> injectInput i' = injectInput i \<and> touchActiveMask i' = touchActiveMask i \<and>
     touchPoints i' = touchPoints i \<and> (\<exists>new. effs' = effs @ new)"
  by (auto simp: inject_pen_def Let_def split: if_splits)

lemma release_all_cancels:
  assumes "touchDevice i" "injectInput i" "touchActiveMask i AND contact_bit n \<noteq> 0" "n < kMaxContacts"
  shows "\<exists>new infos. snd (release_all os (i, effs)) = effs @ new \<and> InjectTouchEffect infos \<in> set new \<and>
    cancel_info n (touchPoints i ! n) \<in> set infos"
proof -
  obtain ok i1 effs1 where p: "inject_pen os (cancel_sample (penPointer_Id i)) (0, 0) False (i, effs) = (ok, i1, effs1)"
    by (rule prod_cases3)
  define i2 effs2 where "i2 = (if penActive i \<and> penDevice i then i1 else i)"
    and "effs2 = (if penActive i \<and> penDevice i then effs1 else effs)"
  have st: "touchDevice i2" "injectInput i2" "touchActiveMask i2 AND contact_bit n \<noteq> 0"
    "touchPoints i2 = touchPoints i" "\<exists>new. effs2 = effs @ new"
    using inject_pen_touch_state [OF p] assms by (auto simp: i2_def effs2_def)
  have "snd (release_all os (i, effs)) = snd (release_touches (i2, effs2))"
    using p by (simp add: release_all_def i2_def effs2_def split: prod.split)
  with release_touches_cancels [OF st(1-3) assms(4), of effs2] st(4,5) show ?thesis by fastforce
qed

section \<open>Properties\<close>

text \<open>C13: No key or mouse button stays pressed after the tablet is gone: in whatever way a session has used
  the input system (pens with any buttons, profile and mapper changes, early returns on stale input), once it has
  been told of the disconnect every key and every mouse button has been released exactly as often as it has
  been pressed.\<close>

theorem disconnect_releases_keys:
  assumes "reachable os s"
  shows "held_key k (input_events (osLog (on_disconnect os s))) = 0 \<and>
    held_button b (input_events (osLog (on_disconnect os s))) = 0"
  using keys.balanced_release_everything(2) [OF keys.reachable_balanced [OF _ assms]]
    buttons.balanced_release_everything(2) [OF buttons.reachable_balanced [OF _ assms]]
  by (simp add: on_disconnect_def)

text \<open>A session in which the second pen button is pressed in Blender: Shift and the middle button go down.\<close>

definition test_os :: os where
  "test_os = \<lparr>injectOk = (\<lambda>_. True), towlower = (\<lambda>c. c),
     foreground = (\<lambda>_. Some (map (\<lambda>c. word_of_nat (of_char c)) ''blender.exe''))\<rparr>"

definition button_pen :: PenSample where
  "button_pen = (cancel_sample 1)\<lparr>penEpoch := 7, penPhase := PHover, penInRange := True, penButtons := 2,
     penPosition := corner_point (tabletActiveRect (test_config Rot0)) (False, False)\<rparr>"

definition button_session :: InputSystem where
  "button_session = snd (process test_os \<lparr>pens = [button_pen], touches = []\<rparr>
     (snd (configure test_os (test_config Rot0) (input_system_init test_os (injector_init True True True)))))"

lemma button_session_reachable: "reachable test_os button_session"
  unfolding button_session_def
  by (intro reachable.process reachable.configure reachable.init) (simp_all add: injector_init_def)

theorem disconnect_releases_keys_witness:
  "held_key 16 (input_events (osLog (on_disconnect test_os button_session))) = 0 \<and>
   held_button MbMiddle (input_events (osLog (on_disconnect test_os button_session))) = 0"
  by (rule disconnect_releases_keys [OF button_session_reachable])

text \<open>C21: Palm rejection holds: if it is on and the pen tip is down when the pens of a frame have been processed,
  the frame puts no finger down and moves none; whatever goes to the touch device is a cancel.\<close>

theorem pen_down_blocks_touch:
  assumes "palmRejectionEnabled s"
    and "(if pens frame = [] then penTipDown (palmGuard s)
          else penPhase (last (pens frame)) = PDown \<or> penPhase (last (pens frame)) = PMove)"
  shows "\<exists>new. osLog (snd (process os frame s)) = osLog s @ new \<and> list_all no_finger new"
proof -
  obtain c s1 where c: "process_pens os (pens frame) True s = (c, s1)" by fastforce
  note p = process_pens_fingers [OF c]
  show ?thesis
  proof (cases c)
    case None
    with c p show ?thesis by (simp add: process_def fingers_quiet_def)
  next
    case (Some success)
    obtain r s2 where t: "process_touches os (touches frame) 0 success s1 = (r, s2)" by fastforce
    have "palmRejectionEnabled s1" "penTipDown (palmGuard s1)"
      using p Some assms by (auto simp: fingers_quiet_def split: if_splits)
    from process_touches_blocked [OF t this] p have "fingers_quiet s s2" by (blast intro: fingers_quiet_trans)
    with c Some t show ?thesis by (cases r) (simp_all add: process_def fingers_quiet_def)
  qed
qed

definition tip_down_system :: InputSystem where
  "tip_down_system = (input_system_init test_os (injector_init True True True))
     \<lparr>mapper := test_mapper Rot0, palmGuard := observe_pen True 0 (palm_guard_init 0)\<rparr>"

theorem pen_down_blocks_touch_witness:
  "\<exists>new. osLog (snd (process test_os \<lparr>pens = [], touches = [touch_at 1 0]\<rparr> tip_down_system)) = osLog tip_down_system @ new \<and>
     list_all no_finger new"
  by (rule pen_down_blocks_touch)
    (simp_all add: tip_down_system_def input_system_init_def observe_pen_def)


definition touching_system :: InputSystem where
  "touching_system = (input_system_init test_os (injector_init True True True))
     \<lparr>injector := (injector_init True True True)\<lparr>touchActiveMask := 4, touchPoints := replicate 10 (700, 300)\<rparr>\<rparr>"


section \<open>A contact that is lost\<close>

text \<open>
  \<open>InjectTouches\<close> changes the mask of active contacts before it knows that it will inject. When a
  lift of contact 1 shares its group with a pointer id above 10, the mask forgets contact 1, nothing is
  injected, and no later release cancels it.
\<close>

definition lift_with_high_id :: "(TouchSample \<times> int \<times> int) list" where
  "lift_with_high_id = [((touch_at 1 0)\<lparr>touchPhase := PUp\<rparr>, 5, 5), ((touch_at 11 0)\<lparr>touchPhase := PDown\<rparr>, 6, 6)]"

lemma lifted_contact_forgotten:
  "inject_touches test_os lift_with_high_id ((injector_init True True True)\<lparr>touchActiveMask := 1\<rparr>, []) =
     (False, (injector_init True True True)\<lparr>touchPoints := (replicate 10 (0, 0))[0 := (5, 5)]\<rparr>, []) \<and>
   snd (release_touches ((injector_init True True True)\<lparr>touchPoints := (replicate 10 (0, 0))[0 := (5, 5)]\<rparr>, [])) = []"
  by (simp add: inject_touches_def lift_with_high_id_def injector_init_def touch_at_def kMaxContacts_def
      contact_bit_def release_touches_def)

end
