(* ===== verification/InputAdapter.thy ===== *)
theory InputAdapter
  imports InputDomain Framing
begin

text \<open>
  \<open>InputBatchAdapter\<close> of \<open>app/input_adapter.h\<close> and \<open>app/input_adapter.cpp\<close>: the wire samples of a
  batch become host samples, with the phase of each pointer derived from its contact flag and the
  device's time deltas anchored at the time of receipt. The unordered map of contacts is a map
  from contact keys. A null output pointer is the absence of a caller and is not modelled.
\<close>

section \<open>The adapter\<close>

record InputBatchAdapter =
  capabilities :: u32
  max_pressure :: u16
  orientation_epoch :: u64
  contacts :: "u32 \<rightharpoonup> bool"
  last_timestamp :: int

definition adapter_init :: InputBatchAdapter where
  "adapter_init = \<lparr>capabilities = 0, max_pressure = 1, orientation_epoch = 0,
     contacts = Map.empty, last_timestamp = 0\<rparr>"

definition kAxisScale :: rat where "kAxisScale = f32 (1 / 65535)"

definition normalizedAxis :: "u16 \<Rightarrow> rat" where
  "normalizedAxis v = f32 (f32 (of_nat (unat v)) * kAxisScale)"

definition normalizedPressure :: "u16 \<Rightarrow> u16 \<Rightarrow> rat" where
  "normalizedPressure v maximum =
     clamp (f32 (f32 (of_nat (unat v)) / f32 (of_nat (unat (max maximum 1))))) 0 1"

abbreviation FlagInRange :: u8 where "FlagInRange \<equiv> 1"
abbreviation FlagContact :: u8 where "FlagContact \<equiv> 2"
abbreviation FlagCancelled :: u8 where "FlagCancelled \<equiv> 4"

definition hasFlag :: "InputSample \<Rightarrow> u8 \<Rightarrow> bool" where
  "hasFlag s flag \<longleftrightarrow> contactFlags s AND flag \<noteq> 0"

definition hasCapability :: "u32 \<Rightarrow> u32 \<Rightarrow> bool" where
  "hasCapability caps cap \<longleftrightarrow> caps AND cap \<noteq> 0"

abbreviation CapabilityPressure :: u32 where "CapabilityPressure \<equiv> 1"
abbreviation CapabilityTilt :: u32 where "CapabilityTilt \<equiv> 4"

definition adapter_reset :: "InputBatchAdapter \<Rightarrow> InputBatchAdapter" where
  "adapter_reset a = a\<lparr>contacts := Map.empty, last_timestamp := 0\<rparr>"

definition adapter_configure :: "ClientHello \<Rightarrow> u64 \<Rightarrow> InputBatchAdapter \<Rightarrow> InputBatchAdapter" where
  "adapter_configure hello epoch a =
     adapter_reset (a\<lparr>capabilities := helloCapabilities hello,
       max_pressure := max (maxPenPressure hello) 1, orientation_epoch := epoch\<rparr>)"

definition adapter_set_capabilities :: "u32 \<Rightarrow> InputBatchAdapter \<Rightarrow> InputBatchAdapter" where
  "adapter_set_capabilities caps a = a\<lparr>capabilities := caps\<rparr>"

definition adapter_set_orientation_epoch :: "u64 \<Rightarrow> InputBatchAdapter \<Rightarrow> InputBatchAdapter" where
  "adapter_set_orientation_epoch epoch a = a\<lparr>orientation_epoch := epoch, contacts := Map.empty\<rparr>"

definition contactKey :: "InputSample \<Rightarrow> u32" where
  "contactKey s = push_bit 16 (ucast (tool s)) OR ucast (pointerId s)"

definition phaseFor :: "InputSample \<Rightarrow> bool \<Rightarrow> PointerPhase" where
  "phaseFor s was_contact =
     (if hasFlag s FlagCancelled then PCancel
      else if hasFlag s FlagContact then (if was_contact then PMove else PDown)
      else if was_contact then PUp else PHover)"

definition was_contact :: "InputSample \<Rightarrow> InputBatchAdapter \<Rightarrow> bool" where
  "was_contact s a \<longleftrightarrow> contacts a (contactKey s) = Some True"

definition sample_timestamp :: "int \<Rightarrow> InputSample \<Rightarrow> InputBatchAdapter \<Rightarrow> int" where
  "sample_timestamp batch_start s a =
     (let t = batch_start + int (unat (timestampDeltaUs s)) * 1000
      in if t < last_timestamp a then last_timestamp a else t)"

definition touch_of :: "InputSample \<Rightarrow> int \<Rightarrow> InputBatchAdapter \<Rightarrow> TouchSample" where
  "touch_of s t a = \<lparr>touchPointerId = ucast (pointerId s), touchEpoch = orientation_epoch a,
     touchPhase = phaseFor s (was_contact s a),
     touchPosition = \<lparr>pointX = normalizedAxis (sampleX s), pointY = normalizedAxis (sampleY s)\<rparr>,
     contactWidth = f32 (1 / 100), contactHeight = f32 (1 / 100),
     touchPressure = normalizedPressure (pressure s) (max_pressure a),
     touchPressureAvailable = hasCapability (capabilities a) CapabilityPressure, touchTimestamp = t\<rparr>"

definition pen_buttons_of :: "u16 \<Rightarrow> u32" where
  "pen_buttons_of b = (if b AND 1 \<noteq> 0 then PenButtonPrimary else 0) OR
     (if b AND 2 \<noteq> 0 then PenButtonSecondary else 0) OR (if b AND 4 \<noteq> 0 then PenButtonTertiary else 0)"

definition pen_of :: "InputSample \<Rightarrow> int \<Rightarrow> InputBatchAdapter \<Rightarrow> PenSample" where
  "pen_of s t a = \<lparr>penPointerId = ucast (pointerId s), penEpoch = orientation_epoch a,
     penPhase = phaseFor s (was_contact s a),
     penPosition = \<lparr>pointX = normalizedAxis (sampleX s), pointY = normalizedAxis (sampleY s)\<rparr>,
     penPressure = normalizedPressure (pressure s) (max_pressure a),
     penTiltX = f32 (f32 (of_int (sint (tiltX s))) / 100), penTiltY = f32 (f32 (of_int (sint (tiltY s))) / 100),
     penDistance = (if distance s = kDistanceUnavailable then 0 else normalizedAxis (distance s)),
     penInRange = hasFlag s FlagInRange,
     penPressureAvailable = hasCapability (capabilities a) CapabilityPressure,
     penTiltAvailable = hasCapability (capabilities a) CapabilityTilt,
     penEraser = (tool s = ToolEraser), penButtons = pen_buttons_of (buttons s), penTimestamp = t\<rparr>"

text \<open>One turn of the loop: the contact map and the clock, then the sample it adds, if any.\<close>

definition contacts_after :: "InputSample \<Rightarrow> InputBatchAdapter \<Rightarrow> u32 \<rightharpoonup> bool" where
  "contacts_after s a =
     (if hasFlag s FlagCancelled \<or> \<not> hasFlag s FlagContact then (contacts a)(contactKey s := None)
      else (contacts a)(contactKey s := Some True))"

definition adapt_sample :: "int \<Rightarrow> InputSample \<Rightarrow> InputBatchAdapter \<times> InputFrame \<Rightarrow> InputBatchAdapter \<times> InputFrame" where
  "adapt_sample batch_start s = (\<lambda>(a, out).
     let t = sample_timestamp batch_start s a;
         a' = a\<lparr>last_timestamp := t, contacts := contacts_after s a\<rparr>
     in if tool s = ToolTouch then
          if \<not> hasFlag s FlagContact \<and> \<not> hasFlag s FlagCancelled \<and> \<not> was_contact s a then (a', out)
          else (a', out\<lparr>touches := touches out @ [touch_of s t a]\<rparr>)
        else (a', out\<lparr>pens := pens out @ [pen_of s t a]\<rparr>))"

definition adapt :: "InputBatch \<Rightarrow> int \<Rightarrow> InputBatchAdapter \<Rightarrow> (string + InputFrame) \<times> InputBatchAdapter" where
  "adapt batch received_at a =
     (if samples batch = [] \<or> length (samples batch) > kMaxInputSamples
      then (Inl ''invalid InputBatch sample count'', a)
      else let batch_start = received_at - int (unat (timestampDeltaUs (last (samples batch)))) * 1000
        in case fold (adapt_sample batch_start) (samples batch) (a, \<lparr>pens = [], touches = []\<rparr>) of
          (a', out) \<Rightarrow> (Inr out, a'))"

section \<open>Normalized values\<close>

lemma kAxisScale_value: "kAxisScale = 65537 / 2 ^ 32"
  unfolding kAxisScale_def using f32_eval [of "- 16" "1 / 65535"]
  by (simp add: power_int_minus round_even_def Let_def)

lemma axis_bounds:
  assumes "n \<le> 65535"
  shows "0 \<le> f32 (f32 (of_nat n) * kAxisScale) \<and> f32 (f32 (of_nat n) * kAxisScale) \<le> 1"
proof -
  have n: "f32 (of_nat n) = of_nat n" using assms by (intro f32_of_nat) simp
  have "(of_nat n :: rat) \<le> of_nat 65535" using assms by (simp only: of_nat_le_iff)
  then have "of_nat n * kAxisScale \<le> of_int 1" by (simp add: kAxisScale_value)
  moreover have "0 \<le> of_nat n * kAxisScale" by (simp add: kAxisScale_value)
  ultimately show ?thesis
    using f32_le_int [of "of_nat n * kAxisScale" 1] f32_nonneg by (simp add: n)
qed

lemma normalizedAxis_bounds: "0 \<le> normalizedAxis v \<and> normalizedAxis v \<le> 1"
  unfolding normalizedAxis_def by (rule axis_bounds) (rule unat_u16_le)

lemma normalizedAxis_ends: "normalizedAxis 0 = 0" "normalizedAxis 0xffff = 1"
proof -
  show "normalizedAxis 0 = 0" by (simp add: normalizedAxis_def)
  have "f32 (4294967295 / 4294967296) = 1"
    using f32_eval [of "- 1" "4294967295 / 4294967296"] by (simp add: power_int_minus round_even_def Let_def)
  then show "normalizedAxis 0xffff = 1"
    using f32_of_nat [of 65535] by (simp add: normalizedAxis_def kAxisScale_value)
qed

lemma normalizedPressure_bounds: "0 \<le> normalizedPressure v m \<and> normalizedPressure v m \<le> 1"
  by (simp add: normalizedPressure_def clamp_def)

section \<open>The phase protocol of a pointer\<close>

text \<open>
  What a consumer of the phases may rely on, as an automaton on the contact state: a pointer goes
  down only from the air, moves and goes up only from the surface, and a cancel ends any contact.
\<close>

fun phase_step :: "bool option \<Rightarrow> PointerPhase \<Rightarrow> bool option" where
  "phase_step (Some False) PHover = Some False"
| "phase_step (Some False) PDown = Some True"
| "phase_step (Some True) PMove = Some True"
| "phase_step (Some True) PUp = Some False"
| "phase_step (Some c) PCancel = Some False"
| "phase_step _ _ = None"

definition phase_run :: "bool \<Rightarrow> PointerPhase list \<Rightarrow> bool option" where
  "phase_run c phases = foldl phase_step (Some c) phases"

definition key_of :: "u8 \<Rightarrow> u16 \<Rightarrow> u32" where
  "key_of t p = push_bit 16 (ucast t) OR ucast p"

lemma key_of_inject: "key_of t p = key_of t' p' \<longleftrightarrow> t = t' \<and> p = p'"
proof
  assume e: "key_of t p = key_of t' p'"
  have "bit t n \<longleftrightarrow> bit t' n" if n: "n < 8" for n
  proof -
    have "bit (key_of t p) (n + 16) \<longleftrightarrow> bit (key_of t' p') (n + 16)" using e by simp
    then show ?thesis using n by (auto simp: key_of_def bit_simps dest: bit_imp_le_length)
  qed
  moreover have "bit p n \<longleftrightarrow> bit p' n" if n: "n < 16" for n
  proof -
    have "bit (key_of t p) n \<longleftrightarrow> bit (key_of t' p') n" using e by simp
    then show ?thesis using n by (auto simp: key_of_def bit_simps)
  qed
  ultimately show "t = t' \<and> p = p'" by (auto intro!: bit_word_eqI)
qed simp

lemma contactKey_eq: "contactKey s = key_of t p \<longleftrightarrow> tool s = t \<and> pointerId s = p"
  using key_of_inject [of "tool s" "pointerId s" t p] by (simp add: contactKey_def key_of_def)

lemma ucast_u16_inject [simp]: "(ucast (a :: u16) :: u32) = ucast b \<longleftrightarrow> a = b"
proof
  assume e: "(ucast a :: u32) = ucast b"
  show "a = b"
  proof (rule bit_word_eqI)
    fix n assume "n < LENGTH(16)"
    then have "bit (ucast a :: u32) n \<longleftrightarrow> bit a n" "bit (ucast b :: u32) n \<longleftrightarrow> bit b n"
      by (simp_all add: bit_simps)
    with e show "bit a n \<longleftrightarrow> bit b n" by simp
  qed
qed simp

definition in_contact :: "u8 \<Rightarrow> u16 \<Rightarrow> InputBatchAdapter \<Rightarrow> bool" where
  "in_contact t p a \<longleftrightarrow> contacts a (key_of t p) = Some True"

definition touch_phases :: "u16 \<Rightarrow> InputFrame \<Rightarrow> PointerPhase list" where
  "touch_phases p out = map touchPhase (filter (\<lambda>t. touchPointerId t = ucast p) (touches out))"

definition pen_phases :: "bool \<Rightarrow> u16 \<Rightarrow> InputFrame \<Rightarrow> PointerPhase list" where
  "pen_phases eraser p out =
     map penPhase (filter (\<lambda>t. penPointerId t = ucast p \<and> penEraser t = eraser) (pens out))"

lemma phase_run_append [simp]: "phase_run c (xs @ [x]) = phase_step (phase_run c xs) x"
  by (simp add: phase_run_def)

text \<open>The phase of a sample is a step of the automaton to the contact state after it.\<close>

lemma phaseFor_step:
  "phase_step (Some (was_contact s a)) (phaseFor s (was_contact s a)) =
     Some (contacts_after s a (contactKey s) = Some True)"
  by (cases "was_contact s a") (auto simp: phaseFor_def contacts_after_def)

lemma contacts_after_other:
  "contactKey s \<noteq> k \<Longrightarrow> contacts_after s a k = contacts a k"
  by (simp add: contacts_after_def)

lemma was_contact_eq: "was_contact s a \<longleftrightarrow> in_contact (tool s) (pointerId s) a"
  using contactKey_eq [of s "tool s" "pointerId s"] by (simp add: was_contact_def in_contact_def)

lemma adapt_sample_phases:
  fixes a a' :: InputBatchAdapter
  assumes "adapt_sample bs s (a, out) = (a', out')" and "validTool (tool s)"
  shows "phase_run c (touch_phases p out) = Some (in_contact ToolTouch p a) \<Longrightarrow>
      phase_run c (touch_phases p out') = Some (in_contact ToolTouch p a')" (is "?T \<Longrightarrow> ?T'")
    and "phase_run c (pen_phases e p out) = Some (in_contact (if e then ToolEraser else ToolPen) p a) \<Longrightarrow>
      phase_run c (pen_phases e p out') = Some (in_contact (if e then ToolEraser else ToolPen) p a')" (is "?P \<Longrightarrow> ?P'")
proof -
  have a': "contacts a' = contacts_after s a"
    using assms(1) by (auto simp: adapt_sample_def Let_def split: if_splits)
  have same: "in_contact t q a' = in_contact t q a" if "\<not> (tool s = t \<and> pointerId s = q)" for t q
    using that contactKey_eq [of s t q] by (simp add: in_contact_def a' contacts_after_other)
  have own: "phase_step (Some (in_contact (tool s) (pointerId s) a)) (phaseFor s (was_contact s a)) =
      Some (in_contact (tool s) (pointerId s) a')"
    using phaseFor_step [of s a] contactKey_eq [of s "tool s" "pointerId s"]
    by (simp add: was_contact_eq in_contact_def a')
  have tools: "tool s = ToolPen \<or> tool s = ToolTouch \<or> tool s = ToolEraser"
    using assms(2) by (simp add: validTool_def)
  show "?T \<Longrightarrow> ?T'"
  proof (cases "tool s = ToolTouch \<and> pointerId s = p")
    case True
    assume ?T
    with True own assms(1) show ?T'
      by (cases "was_contact s a")
        (auto simp: adapt_sample_def Let_def touch_phases_def touch_of_def phaseFor_def was_contact_eq
          split: if_splits)
  next
    case False
    assume ?T
    with False same [OF False] assms(1) show ?T'
      by (auto simp: adapt_sample_def Let_def touch_phases_def touch_of_def split: if_splits)
  qed
  show "?P \<Longrightarrow> ?P'"
  proof (cases "tool s = (if e then ToolEraser else ToolPen) \<and> pointerId s = p")
    case True
    assume ?P
    with True own assms(1) show ?P'
      by (cases e) (auto simp: adapt_sample_def Let_def pen_phases_def pen_of_def was_contact_eq)
  next
    case False
    assume ?P
    with False same [OF False] assms(1) tools show ?P'
      by (cases e) (auto simp: adapt_sample_def Let_def pen_phases_def pen_of_def split: if_splits)
  qed
qed

lemma adapt_fold:
  assumes "adapt batch t a = (Inr out, a')"
  obtains bs where "fold (adapt_sample bs) (samples batch) (a, \<lparr>pens = [], touches = []\<rparr>) = (a', out)"
  using assms by (auto simp: adapt_def Let_def split: if_splits prod.splits)

lemma adapt_phases:
  assumes "adapt batch t a = (Inr out, a')" and "list_all (\<lambda>s. validTool (tool s)) (samples batch)"
  shows "phase_run (in_contact ToolTouch p a) (touch_phases p out) = Some (in_contact ToolTouch p a')"
    and "phase_run (in_contact (if e then ToolEraser else ToolPen) p a) (pen_phases e p out) =
      Some (in_contact (if e then ToolEraser else ToolPen) p a')"
proof -
  obtain bs where f: "fold (adapt_sample bs) (samples batch) (a, \<lparr>pens = [], touches = []\<rparr>) = (a', out)"
    using adapt_fold [OF assms(1)] .
  let ?inv = "\<lambda>(b, o'). phase_run (in_contact ToolTouch p a) (touch_phases p o') = Some (in_contact ToolTouch p b) \<and>
    phase_run (in_contact (if e then ToolEraser else ToolPen) p a) (pen_phases e p o') =
      Some (in_contact (if e then ToolEraser else ToolPen) p b)"
  have "?inv (fold (adapt_sample bs) (samples batch) (a, \<lparr>pens = [], touches = []\<rparr>))"
  proof (rule fold_invariant [where Q = "\<lambda>s. validTool (tool s)"])
    show "validTool (tool s)" if "s \<in> set (samples batch)" for s
      using assms(2) that by (simp add: list_all_iff)
    show "?inv (a, \<lparr>pens = [], touches = []\<rparr>)"
      by (simp add: touch_phases_def pen_phases_def phase_run_def)
    show "?inv (adapt_sample bs s x)" if s: "validTool (tool s)" and x: "?inv x" for s x
    proof -
      obtain b o' where xb: "x = (b, o')" by fastforce
      obtain b' o'' where st: "adapt_sample bs s (b, o') = (b', o'')" by fastforce
      show ?thesis
        using adapt_sample_phases [OF st s, where c = "in_contact ToolTouch p a"]
          adapt_sample_phases [OF st s, where c = "in_contact (if e then ToolEraser else ToolPen) p a"] x
        unfolding xb st prod.case by blast
    qed
  qed
  with f show "phase_run (in_contact ToolTouch p a) (touch_phases p out) = Some (in_contact ToolTouch p a')"
    and "phase_run (in_contact (if e then ToolEraser else ToolPen) p a) (pen_phases e p out) =
      Some (in_contact (if e then ToolEraser else ToolPen) p a')" by simp_all
qed

section \<open>Times and ranges\<close>

definition times_ordered :: "int \<Rightarrow> InputBatchAdapter \<times> InputFrame \<Rightarrow> bool" where
  "times_ordered t0 = (\<lambda>(a, out). t0 \<le> last_timestamp a \<and>
     sorted (t0 # map touchTimestamp (touches out) @ [last_timestamp a]) \<and>
     sorted (t0 # map penTimestamp (pens out) @ [last_timestamp a]))"

lemma adapt_sample_times:
  "times_ordered t0 (a, out) \<Longrightarrow> times_ordered t0 (adapt_sample bs s (a, out))"
  by (auto simp: times_ordered_def adapt_sample_def Let_def sample_timestamp_def touch_of_def pen_of_def
      sorted_append split: if_splits intro: order_trans)

definition point_normalized :: "NormalizedPoint \<Rightarrow> bool" where
  "point_normalized p \<longleftrightarrow> 0 \<le> pointX p \<and> pointX p \<le> 1 \<and> 0 \<le> pointY p \<and> pointY p \<le> 1"

definition frame_normalized :: "InputFrame \<Rightarrow> bool" where
  "frame_normalized out \<longleftrightarrow>
     list_all (\<lambda>t. point_normalized (touchPosition t) \<and> 0 \<le> touchPressure t \<and> touchPressure t \<le> 1) (touches out) \<and>
     list_all (\<lambda>q. point_normalized (penPosition q) \<and> 0 \<le> penPressure q \<and> penPressure q \<le> 1 \<and>
       0 \<le> penDistance q \<and> penDistance q \<le> 1) (pens out)"

lemma adapt_sample_normalized:
  "frame_normalized out \<Longrightarrow> frame_normalized (snd (adapt_sample bs s (a, out)))"
  by (auto simp: frame_normalized_def adapt_sample_def Let_def touch_of_def pen_of_def point_normalized_def
      normalizedAxis_bounds normalizedPressure_bounds)

section \<open>Properties\<close>

text \<open>C14: The phases the adapter derives follow the contact protocol for every pointer: for a batch the
  protocol accepts, the touch phases of each pointer id and the pen phases of each pointer id and
  tip or eraser end form a run that starts in the contact state before the batch and ends in the one after
  it. So no pointer is ever put down twice, moved in the air or lifted without having been down.\<close>

theorem adapter_phase_protocol:
  assumes "validateInput batch = Inr ()" and "adapt batch t a = (Inr out, a')"
  shows "phase_run (in_contact ToolTouch p a) (touch_phases p out) = Some (in_contact ToolTouch p a') \<and>
    phase_run (in_contact (if e then ToolEraser else ToolPen) p a) (pen_phases e p out) =
      Some (in_contact (if e then ToolEraser else ToolPen) p a')"
proof -
  have "list_all sample_ok (samples batch)"
    using assms(1) by (auto simp: validateInput_def validateSamples_iff)
  then have "list_all (\<lambda>s. validTool (tool s)) (samples batch)"
    by (auto simp: list_all_iff sample_ok_def validTool_def)
  then show ?thesis
    using adapt_phases(1) [OF assms(2), of p] adapt_phases(2) [OF assms(2), of e p] by blast
qed

text \<open>Two pen samples in contact, with a reset adapter.\<close>

definition two_samples :: InputBatch where
  "two_samples = \<lparr>batchTimestampNs = 5000, samples = [pen_sample 0 100, pen_sample 250 180]\<rparr>"

lemma two_samples_valid: "validateInput two_samples = Inr ()"
  by (simp add: two_samples_def validateInput_def validateSample_def pen_sample_def validTool_def
      kMaxInputSamples_def kKnownContactFlags_def kKnownButtons_def)

lemma two_samples_adapted:
  "\<exists>out a'. adapt two_samples 9000000 adapter_init = (Inr out, a') \<and>
     pen_phases False 1 out = [PDown, PMove] \<and> map penTimestamp (pens out) = [8750000, 9000000]"
  by (simp add: adapt_def two_samples_def pen_sample_def kMaxInputSamples_def adapt_sample_def
      sample_timestamp_def adapter_init_def contacts_after_def hasFlag_def pen_of_def pen_phases_def
      phaseFor_def was_contact_def contactKey_def)

theorem adapter_phase_protocol_witness:
  "\<exists>out a'. adapt two_samples 9000000 adapter_init = (Inr out, a') \<and> pen_phases False 1 out = [PDown, PMove] \<and>
     phase_run False [PDown, PMove] = Some (in_contact ToolPen 1 a')"
proof -
  obtain out a' where a: "adapt two_samples 9000000 adapter_init = (Inr out, a')"
    and p: "pen_phases False 1 out = [PDown, PMove]"
    using two_samples_adapted by blast
  have "\<not> in_contact ToolPen 1 adapter_init" by (simp add: in_contact_def adapter_init_def)
  with adapter_phase_protocol [OF two_samples_valid a, of 1 False] a p show ?thesis by auto
qed

text \<open>The host times of a batch never run backwards, neither inside the batch nor across batches:
  pen and touch timestamps are each in order, none is earlier than the last time of the batch before,
  and the adapter keeps the latest of them.\<close>

lemma adapter_times_monotone:
  assumes "adapt batch t a = (Inr out, a')"
  shows "last_timestamp a \<le> last_timestamp a' \<and>
    sorted (last_timestamp a # map touchTimestamp (touches out) @ [last_timestamp a']) \<and>
    sorted (last_timestamp a # map penTimestamp (pens out) @ [last_timestamp a'])"
proof -
  obtain bs where f: "fold (adapt_sample bs) (samples batch) (a, \<lparr>pens = [], touches = []\<rparr>) = (a', out)"
    using adapt_fold [OF assms] .
  have "times_ordered (last_timestamp a) (fold (adapt_sample bs) (samples batch) (a, \<lparr>pens = [], touches = []\<rparr>))"
    by (rule fold_invariant [where Q = "\<lambda>_. True"])
      (auto simp: adapt_sample_times, simp add: times_ordered_def)
  with f show ?thesis by (simp add: times_ordered_def)
qed

theorem adapter_times_monotone_witness:
  "\<exists>out a'. adapt two_samples 9000000 adapter_init = (Inr out, a') \<and>
     sorted (0 # map penTimestamp (pens out) @ [last_timestamp a']) \<and> map penTimestamp (pens out) = [8750000, 9000000]"
proof -
  obtain out a' where a: "adapt two_samples 9000000 adapter_init = (Inr out, a')"
    and p: "map penTimestamp (pens out) = [8750000, 9000000]"
    using two_samples_adapted by (elim exE conjE) (rule that)
  have "last_timestamp adapter_init = 0" by (simp add: adapter_init_def)
  with adapter_times_monotone [OF a] a p show ?thesis by auto
qed

text \<open>C20: Everything the adapter hands to the input system is normalized: positions, pressures and
  distances are between 0 and 1 after all float roundings, and the ends of the 16-bit axis are exactly
  0 and 1.\<close>

theorem adapter_normalizes:
  "frame_normalized (case adapt batch t a of (Inr out, _) \<Rightarrow> out | (Inl _, _) \<Rightarrow> \<lparr>pens = [], touches = []\<rparr>) \<and>
   normalizedAxis 0 = 0 \<and> normalizedAxis 0xffff = 1"
proof -
  have empty: "frame_normalized \<lparr>pens = [], touches = []\<rparr>" by (simp add: frame_normalized_def)
  have "frame_normalized (snd (fold (adapt_sample bs) ss (a, \<lparr>pens = [], touches = []\<rparr>)))" for bs ss
    by (rule fold_invariant [where Q = "\<lambda>_. True" and P = "\<lambda>x. frame_normalized (snd x)"])
      (use empty adapt_sample_normalized in auto)
  then show ?thesis
    using empty normalizedAxis_ends by (auto simp: adapt_def Let_def split: prod.split)
      (metis snd_conv)
qed

end
