(* ===== verification/Json.thy ===== *)
theory Json
  imports Prelude
begin

text \<open>
  The JSON reader of \<open>app/config.cpp\<close> (\<open>JsonValue\<close>, \<open>JsonParser\<close>) and its writer of strings
  (\<open>EscapeJson\<close>). The parser's position is the rest of the input; a failure is \<open>Inl\<close> of the
  text given to \<open>Fail\<close>. The three functions that call each other take a fuel, \<open>None\<close> when it is
  used up; \<open>parse_value_fuel\<close> shows that twice the input and one is always enough, so
  \<open>parseJson\<close> never runs out.
\<close>

section \<open>Values\<close>

datatype JsonValue =
    JNull
  | JBool bool
  | JNumber nat
  | JString string
  | JArray "JsonValue list"
  | JObject "(string \<times> JsonValue) list"

text \<open>A member of an object, \<open>nullptr\<close> being \<open>None\<close>. The keys of a parsed object are distinct.\<close>

fun member :: "JsonValue \<Rightarrow> string \<Rightarrow> JsonValue option" where
  "member (JObject ms) name = map_of ms name"
| "member _ name = None"

section \<open>The scanner\<close>

abbreviation quote_char :: char where "quote_char \<equiv> CHR 0x22"
abbreviation backslash :: char where "backslash \<equiv> CHR 0x5C"

definition skip_ws :: "string \<Rightarrow> string" where
  "skip_ws s = dropWhile is_space s"

definition consume :: "char \<Rightarrow> string \<Rightarrow> string option" where
  "consume expected s =
     (case skip_ws s of [] \<Rightarrow> None | c # r \<Rightarrow> if c = expected then Some r else None)"

definition escape_value :: "char \<Rightarrow> char option" where
  "escape_value c =
     (if c = quote_char then Some quote_char
      else if c = backslash then Some backslash
      else if c = CHR ''/'' then Some (CHR ''/'')
      else if c = CHR ''b'' then Some (CHR 0x08)
      else if c = CHR ''f'' then Some (CHR 0x0C)
      else if c = CHR ''n'' then Some (CHR 0x0A)
      else if c = CHR ''r'' then Some (CHR 0x0D)
      else if c = CHR ''t'' then Some (CHR 0x09)
      else None)"

fun parse_chars :: "string \<Rightarrow> string \<Rightarrow> (string \<times> string) result" where
  "parse_chars out [] = Inl ''unterminated JSON string''"
| "parse_chars out (c # r) =
     (if c = quote_char then Inr (out, r)
      else if (of_char c :: nat) < 0x20 then Inl ''control character in JSON string''
      else if c \<noteq> backslash then parse_chars (out @ [c]) r
      else (case r of
          [] \<Rightarrow> Inl ''truncated JSON escape''
        | e # r' \<Rightarrow> (case escape_value e of
              None \<Rightarrow> Inl ''unsupported JSON escape''
            | Some v \<Rightarrow> parse_chars (out @ [v]) r')))"

definition parse_string :: "string \<Rightarrow> (string \<times> string) result" where
  "parse_string s = (case consume quote_char s of
     None \<Rightarrow> Inl ''expected JSON string'' | Some r \<Rightarrow> parse_chars [] r)"

definition parse_number :: "string \<Rightarrow> (JsonValue \<times> string) result" where
  "parse_number s =
     (if s \<noteq> [] \<and> hd s = CHR ''-'' then Inl ''negative configuration number''
      else let digits = takeWhile is_digit s
        in if digits = [] then Inl ''invalid JSON value''
           else if decimal_value digits \<ge> 2 ^ 64 then Inl ''invalid JSON number''
           else Inr (JNumber (decimal_value digits), dropWhile is_digit s))"

definition parse_literal :: "string \<Rightarrow> JsonValue \<Rightarrow> string \<Rightarrow> (JsonValue \<times> string) result" where
  "parse_literal literal v s =
     (if length s < length literal \<or> take (length literal) s \<noteq> literal then Inl ''invalid JSON literal''
      else Inr (v, drop (length literal) s))"

definition as_string :: "(string \<times> string) result \<Rightarrow> (JsonValue \<times> string) result" where
  "as_string p = bind_result p (\<lambda>(s, r). Inr (JString s, r))"

section \<open>The parser\<close>

type_synonym parsed = "(JsonValue \<times> string) result option"

fun parse_value :: "nat \<Rightarrow> string \<Rightarrow> parsed"
  and parse_members :: "nat \<Rightarrow> (string \<times> JsonValue) list \<Rightarrow> string \<Rightarrow> parsed"
  and parse_items :: "nat \<Rightarrow> JsonValue list \<Rightarrow> string \<Rightarrow> parsed" where
  "parse_value 0 s = None"
| "parse_value (Suc f) s =
     (case skip_ws s of
        [] \<Rightarrow> Some (Inl ''unexpected end of JSON'')
      | c # r \<Rightarrow>
          if c = CHR ''{'' then
            (case consume (CHR ''}'') r of
               Some r' \<Rightarrow> Some (Inr (JObject [], r'))
             | None \<Rightarrow> parse_members f [] r)
          else if c = CHR ''['' then
            (case consume (CHR '']'') r of
               Some r' \<Rightarrow> Some (Inr (JArray [], r'))
             | None \<Rightarrow> parse_items f [] r)
          else if c = quote_char then Some (as_string (parse_string (c # r)))
          else if c = CHR ''t'' then Some (parse_literal ''true'' (JBool True) (c # r))
          else if c = CHR ''f'' then Some (parse_literal ''false'' (JBool False) (c # r))
          else if c = CHR ''n'' then Some (parse_literal ''null'' JNull (c # r))
          else Some (parse_number (c # r)))"
| "parse_members 0 ms s = None"
| "parse_members (Suc f) ms s =
     (case parse_string s of
        Inl _ \<Rightarrow> Some (Inl ''invalid JSON object'')
      | Inr (key, r) \<Rightarrow> (case consume (CHR '':'') r of
          None \<Rightarrow> Some (Inl ''invalid JSON object'')
        | Some r \<Rightarrow> (case parse_value f r of
            None \<Rightarrow> None
          | Some (Inl e) \<Rightarrow> Some (Inl e)
          | Some (Inr (v, r)) \<Rightarrow>
              if key \<in> fst ` set ms then Some (Inl ''duplicate JSON key'')
              else (case consume (CHR ''}'') r of
                  Some r \<Rightarrow> Some (Inr (JObject (ms @ [(key, v)]), r))
                | None \<Rightarrow> (case consume (CHR '','') r of
                      None \<Rightarrow> Some (Inl ''unterminated JSON object'')
                    | Some r \<Rightarrow> parse_members f (ms @ [(key, v)]) r)))))"
| "parse_items 0 vs s = None"
| "parse_items (Suc f) vs s =
     (case parse_value f s of
        None \<Rightarrow> None
      | Some (Inl e) \<Rightarrow> Some (Inl e)
      | Some (Inr (v, r)) \<Rightarrow> (case consume (CHR '']'') r of
          Some r \<Rightarrow> Some (Inr (JArray (vs @ [v]), r))
        | None \<Rightarrow> (case consume (CHR '','') r of
              None \<Rightarrow> Some (Inl ''unterminated JSON array'')
            | Some r \<Rightarrow> parse_items f (vs @ [v]) r)))"

declare parse_value.simps [simp del] parse_members.simps [simp del] parse_items.simps [simp del]

definition json_fuel :: "string \<Rightarrow> nat" where
  "json_fuel s = 2 * length s + 1"

definition parseJson :: "string \<Rightarrow> JsonValue result" where
  "parseJson s = (case parse_value (json_fuel s) (skip_ws s) of
     None \<Rightarrow> Inl ''out of fuel''
   | Some (Inl e) \<Rightarrow> Inl e
   | Some (Inr (v, r)) \<Rightarrow> if skip_ws r = [] then Inr v else Inl ''trailing JSON data'')"

section \<open>Every step consumes input\<close>

lemma length_skip_ws: "length (skip_ws s) \<le> length s"
  by (simp add: skip_ws_def length_dropWhile_le)

lemma consume_less: "consume c s = Some r \<Longrightarrow> length r < length s"
  using length_skip_ws [of s] by (auto simp: consume_def split: list.splits if_splits)

lemma parse_chars_less: "parse_chars out s = Inr (t, r) \<Longrightarrow> length r < length s"
  by (induction out s rule: parse_chars.induct) (auto split: if_splits list.splits option.splits, fastforce)

lemma parse_string_less: "parse_string s = Inr (t, r) \<Longrightarrow> length r < length s"
  by (auto simp: parse_string_def split: option.splits dest!: consume_less parse_chars_less)

lemma parse_number_less: "parse_number s = Inr (v, r) \<Longrightarrow> length r < length s"
proof -
  assume p: "parse_number s = Inr (v, r)"
  then have "r = dropWhile is_digit s" "takeWhile is_digit s \<noteq> []"
    by (auto simp: parse_number_def Let_def split: if_splits)
  then show ?thesis using takeWhile_dropWhile_id [of is_digit s] by (metis append.simps(1) length_append length_greater_0_conv less_add_same_cancel2)
qed

lemma parse_literal_less: "lit \<noteq> [] \<Longrightarrow> parse_literal lit v s = Inr (w, r) \<Longrightarrow> length r < length s"
  by (cases s) (auto simp: parse_literal_def split: if_splits)

lemma as_string_less: "as_string (parse_string s) = Inr (v, r) \<Longrightarrow> length r < length s"
  by (auto simp: as_string_def dest: parse_string_less)

lemma parse_members_Inr:
  assumes "parse_members (Suc f) ms s = Some (Inr (v, r))"
  shows "\<exists>key r1 r2 w r3. parse_string s = Inr (key, r1) \<and> consume (CHR '':'') r1 = Some r2 \<and>
    parse_value f r2 = Some (Inr (w, r3)) \<and> key \<notin> fst ` set ms \<and>
    (consume (CHR ''}'') r3 = Some r \<or>
     (\<exists>r4. consume (CHR ''}'') r3 = None \<and> consume (CHR '','') r3 = Some r4 \<and>
       parse_members f (ms @ [(key, w)]) r4 = Some (Inr (v, r))))"
  using assms by (auto simp: parse_members.simps split: sum.splits option.splits if_splits)

lemma parse_items_Inr:
  assumes "parse_items (Suc f) vs s = Some (Inr (v, r))"
  shows "\<exists>w r3. parse_value f s = Some (Inr (w, r3)) \<and>
    (consume (CHR '']'') r3 = Some r \<or>
     (\<exists>r4. consume (CHR '']'') r3 = None \<and> consume (CHR '','') r3 = Some r4 \<and>
       parse_items f (vs @ [w]) r4 = Some (Inr (v, r))))"
  using assms by (auto simp: parse_items.simps split: sum.splits option.splits if_splits)

lemma parse_less:
  "parse_value f s = Some (Inr (v, r)) \<Longrightarrow> length r < length s"
  "parse_members f ms s = Some (Inr (v, r)) \<Longrightarrow> length r < length s"
  "parse_items f vs s = Some (Inr (v, r)) \<Longrightarrow> length r < length s"
proof (induction f s and f ms s and f vs s arbitrary: v r and v r and v r
    rule: parse_value_parse_members_parse_items.induct)
  case (2 f s)
  show ?case
  proof (cases "skip_ws s")
    case Nil
    with 2(3) show ?thesis by (simp add: parse_value.simps)
  next
    case (Cons c r0)
    have s: "length (c # r0) \<le> length s" using length_skip_ws [of s] Cons by simp
    have "length r < length (c # r0)"
      using 2(3) 2(1) [OF Cons] 2(2) [OF Cons]
      by (fastforce simp: parse_value.simps Cons dest: as_string_less parse_literal_less [rotated]
          parse_number_less consume_less split: if_splits option.splits)
    with s show ?thesis by simp
  qed
next
  case (4 f ms s)
  from parse_members_Inr [OF 4(3)] obtain key r1 r2 w r3 where
    k: "parse_string s = Inr (key, r1)" "consume (CHR '':'') r1 = Some r2"
      "parse_value f r2 = Some (Inr (w, r3))" "key \<notin> fst ` set ms" and
    c: "consume (CHR ''}'') r3 = Some r \<or> (\<exists>r4. consume (CHR ''}'') r3 = None \<and> consume (CHR '','') r3 = Some r4 \<and>
      parse_members f (ms @ [(key, w)]) r4 = Some (Inr (v, r)))" by blast
  have l3: "length r3 < length s"
    using 4(1) [OF k(1) refl k(2) k(3)] parse_string_less [OF k(1)] consume_less [OF k(2)] by simp
  from c show ?case
  proof (elim disjE exE conjE)
    assume "consume (CHR ''}'') r3 = Some r"
    from consume_less [OF this] l3 show ?thesis by simp
  next
    fix r4 assume r4: "consume (CHR ''}'') r3 = None" "consume (CHR '','') r3 = Some r4"
      "parse_members f (ms @ [(key, w)]) r4 = Some (Inr (v, r))"
    from 4(2) [OF k(1) refl k(2) k(3) refl refl k(4) r4(1,2,3)] consume_less [OF r4(2)] l3
    show ?thesis by simp
  qed
next
  case (6 f vs s)
  from parse_items_Inr [OF 6(3)] obtain w r3 where
    w: "parse_value f s = Some (Inr (w, r3))" and
    c: "consume (CHR '']'') r3 = Some r \<or> (\<exists>r4. consume (CHR '']'') r3 = None \<and> consume (CHR '','') r3 = Some r4 \<and>
      parse_items f (vs @ [w]) r4 = Some (Inr (v, r)))" by blast
  from 6(1) [OF w] have l3: "length r3 < length s" .
  from c show ?case
  proof (elim disjE exE conjE)
    assume "consume (CHR '']'') r3 = Some r"
    from consume_less [OF this] l3 show ?thesis by simp
  next
    fix r4 assume r4: "consume (CHR '']'') r3 = None" "consume (CHR '','') r3 = Some r4"
      "parse_items f (vs @ [w]) r4 = Some (Inr (v, r))"
    from 6(2) [OF w refl refl r4(1,2,3)] consume_less [OF r4(2)] l3
    show ?thesis by simp
  qed
qed (simp_all add: parse_value.simps parse_members.simps parse_items.simps)

section \<open>The fuel is enough\<close>

lemma parse_fuel:
  "2 * length s < f \<Longrightarrow> parse_value f s \<noteq> None"
  "2 * length s < f \<Longrightarrow> parse_members f ms s \<noteq> None"
  "2 * length s + 1 < f \<Longrightarrow> parse_items f vs s \<noteq> None"
proof (induction f s and f ms s and f vs s rule: parse_value_parse_members_parse_items.induct)
  case (2 f s)
  show ?case
  proof (cases "skip_ws s")
    case Nil
    then show ?thesis by (simp add: parse_value.simps)
  next
    case (Cons c r0)
    have "length (c # r0) \<le> length s" using length_skip_ws [of s] Cons by simp
    with 2(3) have "2 * length r0 + 1 < f" by simp
    with 2(1) [OF Cons] 2(2) [OF Cons] show ?thesis
      by (auto simp: parse_value.simps Cons split: option.split)
  qed
next
  case (4 f ms s)
  show ?case
  proof (cases "parse_string s")
    case (Inl e)
    then show ?thesis by (simp add: parse_members.simps)
  next
    case (Inr kr)
    then obtain key r1 where k: "parse_string s = Inr (key, r1)" by (cases kr) auto
    note l1 = parse_string_less [OF k]
    show ?thesis
    proof (cases "consume (CHR '':'') r1")
      case None
      with k show ?thesis by (simp add: parse_members.simps)
    next
      case (Some r2)
      note l2 = consume_less [OF Some]
      have f2: "2 * length r2 < f" using l1 l2 4(3) by simp
      with 4(1) [OF k refl Some] have nn: "parse_value f r2 \<noteq> None" by blast
      have rest: "parse_members f (ms @ [(key, v)]) r4 \<noteq> None"
        if v: "parse_value f r2 = Some (Inr (v, r3))" "key \<notin> fst ` set ms" "consume (CHR ''}'') r3 = None"
          "consume (CHR '','') r3 = Some r4" for v r3 r4
      proof -
        have "2 * length r4 < f" using parse_less(1) [OF v(1)] consume_less [OF v(4)] f2 by simp
        then show ?thesis using 4(2) [OF k refl Some v(1) refl refl v(2-4)] by blast
      qed
      from nn k Some rest show ?thesis
        by (auto simp: parse_members.simps split: option.split sum.split)
    qed
  qed
next
  case (6 f vs s)
  have f1: "2 * length s < f" using 6(3) by simp
  with 6(1) have nn: "parse_value f s \<noteq> None" by blast
  have rest: "parse_items f (vs @ [v]) r2 \<noteq> None"
    if v: "parse_value f s = Some (Inr (v, r))" "consume (CHR '']'') r = None" "consume (CHR '','') r = Some r2" for v r r2
  proof -
    have "2 * length r2 + 1 < f" using parse_less(1) [OF v(1)] consume_less [OF v(3)] f1 by simp
    then show ?thesis using 6(2) [OF v(1) refl refl v(2,3)] by blast
  qed
  from nn rest show ?case
    by (auto simp: parse_items.simps split: option.split sum.split)
qed simp_all

text \<open>More fuel does not change a result.\<close>

lemma parse_mono:
  "parse_value f s = Some x \<Longrightarrow> parse_value (Suc f) s = Some x"
  "parse_members f ms s = Some x \<Longrightarrow> parse_members (Suc f) ms s = Some x"
  "parse_items f vs s = Some x \<Longrightarrow> parse_items (Suc f) vs s = Some x"
proof (induction f s and f ms s and f vs s arbitrary: x and x and x
    rule: parse_value_parse_members_parse_items.induct)
  case (2 f s)
  show ?case
  proof (cases "skip_ws s")
    case Nil
    with 2(3) show ?thesis by (simp add: parse_value.simps)
  next
    case (Cons c r0)
    with 2(3) 2(1) [OF Cons] 2(2) [OF Cons] show ?thesis
      by (simp add: parse_value.simps(2) split: if_splits option.splits)
  qed
next
  case (4 f ms s)
  show ?case
  proof (cases "parse_string s")
    case (Inl e)
    with 4(3) show ?thesis by (simp add: parse_members.simps)
  next
    case (Inr kr)
    then obtain key r1 where k: "parse_string s = Inr (key, r1)" by (cases kr) auto
    show ?thesis
    proof (cases "consume (CHR '':'') r1")
      case None
      with 4(3) k show ?thesis by (simp add: parse_members.simps)
    next
      case (Some r2)
      note c = this
      show ?thesis
      proof (cases "parse_value f r2")
        case None
        with 4(3) k c show ?thesis by (simp add: parse_members.simps)
      next
        case (Some y)
        note y = 4(1) [OF k refl c Some]
        show ?thesis
        proof (cases y)
          case (Inl e)
          with 4(3) k c Some y show ?thesis
            by (subst parse_members.simps(2)) (auto simp: parse_members.simps(2))
        next
          case (Inr vr)
          then obtain v r3 where v: "y = Inr (v, r3)" by (cases vr) auto
          from 4(3) k c Some y v show ?thesis
            using 4(2) [OF k refl c Some v refl]
            by (simp add: parse_members.simps(2) split: if_splits option.splits)
        qed
      qed
    qed
  qed
next
  case (6 f vs s)
  show ?case
  proof (cases "parse_value f s")
    case None
    with 6(3) show ?thesis by (simp add: parse_items.simps)
  next
    case (Some y)
    note y = 6(1) [OF Some]
    show ?thesis
    proof (cases y)
      case (Inl e)
      with 6(3) Some y show ?thesis
        by (subst parse_items.simps(2)) (auto simp: parse_items.simps(2))
    next
      case (Inr vr)
      then obtain v r3 where v: "y = Inr (v, r3)" by (cases vr) auto
      show ?thesis
      proof (cases "consume (CHR '']'') r3")
        case None
        note close = this
        show ?thesis
        proof (cases "consume (CHR '','') r3")
          case None
          with 6(3) \<open>parse_value f s = Some y\<close> y v close show ?thesis
            by (subst parse_items.simps(2)) (simp add: parse_items.simps(2))
        next
          case (Some r4)
          with 6(3) \<open>parse_value f s = Some y\<close> v close have "parse_items f (vs @ [v]) r4 = Some x"
            by (simp add: parse_items.simps(2))
          from 6(2) [OF \<open>parse_value f s = Some y\<close> v refl close Some this] y v close Some show ?thesis
            by (subst parse_items.simps(2)) simp
        qed
      next
        case (Some r4)
        with 6(3) \<open>parse_value f s = Some y\<close> y v show ?thesis
          by (subst parse_items.simps(2)) (simp add: parse_items.simps(2))
      qed
    qed
  qed
qed (simp_all add: parse_value.simps(1) parse_members.simps(1) parse_items.simps(1))

lemma parse_mono_le: "parse_value f s = Some x \<Longrightarrow> f \<le> g \<Longrightarrow> parse_value g s = Some x"
proof -
  assume p: "parse_value f s = Some x" and "f \<le> g"
  have "parse_value (f + n) s = Some x" for n
    by (induction n) (simp_all add: p parse_mono)
  with \<open>f \<le> g\<close> show ?thesis by (metis le_add_diff_inverse)
qed

lemma skip_ws_idem: "skip_ws (skip_ws s) = skip_ws s"
  by (simp add: skip_ws_def)

lemma parseJson_fuel: "parse_value (json_fuel s) (skip_ws s) \<noteq> None"
  by (rule parse_fuel(1)) (use length_skip_ws [of s] in \<open>simp add: json_fuel_def\<close>)

section \<open>Writing strings\<close>

definition escape_char :: "char \<Rightarrow> string" where
  "escape_char c =
     (if c = quote_char then [backslash, quote_char]
      else if c = backslash then [backslash, backslash]
      else if c = CHR 0x08 then [backslash, CHR ''b'']
      else if c = CHR 0x0C then [backslash, CHR ''f'']
      else if c = CHR 0x0A then [backslash, CHR ''n'']
      else if c = CHR 0x0D then [backslash, CHR ''r'']
      else if c = CHR 0x09 then [backslash, CHR ''t'']
      else [c])"

definition escapeJson :: "string \<Rightarrow> string" where
  "escapeJson value = [quote_char] @ concat (map escape_char value) @ [quote_char]"

text \<open>The characters the writer turns into something the reader accepts.\<close>

definition writable_char :: "char \<Rightarrow> bool" where
  "writable_char c \<longleftrightarrow> 32 \<le> (of_char c :: nat) \<or> c \<in> {CHR 0x08, CHR 0x0C, CHR 0x0A, CHR 0x0D, CHR 0x09}"

lemma parse_escaped_char:
  assumes "writable_char c"
  shows "parse_chars out (escape_char c @ x) = parse_chars (out @ [c]) x"
proof -
  consider "c = quote_char" | "c = backslash" | "c = CHR 0x08" | "c = CHR 0x0C" | "c = CHR 0x0A" | "c = CHR 0x0D"
    | "c = CHR 0x09" | "32 \<le> (of_char c :: nat)" "c \<noteq> quote_char" "c \<noteq> backslash"
    using assms by (auto simp: writable_char_def)
  then show ?thesis by cases (auto simp: escape_char_def escape_value_def)
qed

lemma parse_chars_escape:
  "list_all writable_char s \<Longrightarrow>
     parse_chars out (concat (map escape_char s) @ quote_char # r) = Inr (out @ s, r)"
  by (induction s arbitrary: out) (simp_all add: parse_escaped_char)

lemma parse_string_escape:
  "list_all writable_char s \<Longrightarrow> parse_string (escapeJson s @ r) = Inr (s, r)"
  by (simp add: parse_string_def escapeJson_def consume_def skip_ws_def is_space_def parse_chars_escape)

section \<open>Texts that read as a value\<close>

text \<open>
  \<open>reads t v\<close>: whatever follows the text \<open>t\<close>, unless it goes on with a digit, the parser reads \<open>v\<close>
  and stops behind it, with any fuel that is large enough.
\<close>

definition follows :: "string \<Rightarrow> bool" where
  "follows r \<longleftrightarrow> r = [] \<or> \<not> is_digit (hd r)"

definition reads :: "string \<Rightarrow> JsonValue \<Rightarrow> bool" where
  "reads t v \<longleftrightarrow> (\<exists>n. \<forall>f \<ge> n. \<forall>r. follows r \<longrightarrow> parse_value f (t @ r) = Some (Inr (v, r)))"

definition spaces :: "string \<Rightarrow> bool" where
  "spaces ws \<longleftrightarrow> list_all is_space ws"

lemma skip_spaces: "spaces ws \<Longrightarrow> skip_ws (ws @ s) = skip_ws s"
  by (induction ws) (simp_all add: spaces_def skip_ws_def)

lemma skip_ws_char: "\<not> is_space c \<Longrightarrow> skip_ws (c # s) = c # s"
  by (simp add: skip_ws_def)

lemma consume_spaces: "spaces ws \<Longrightarrow> consume c (ws @ s) = consume c s"
  by (simp add: consume_def skip_spaces)

lemma consume_char: "\<not> is_space d \<Longrightarrow> consume c (d # s) = (if d = c then Some s else None)"
  by (simp add: consume_def skip_ws_char)

lemma parse_value_spaces: "spaces ws \<Longrightarrow> parse_value f (ws @ s) = parse_value f s"
  by (cases f) (simp_all add: parse_value.simps skip_spaces)

lemma readsE:
  assumes "reads t v"
  obtains n where "\<And>f r. n \<le> f \<Longrightarrow> follows r \<Longrightarrow> parse_value f (t @ r) = Some (Inr (v, r))"
  using assms by (auto simp: reads_def)

lemma readsI:
  assumes "\<And>f r. n \<le> f \<Longrightarrow> follows r \<Longrightarrow> parse_value f (t @ r) = Some (Inr (v, r))"
  shows "reads t v"
  using assms by (auto simp: reads_def)

lemma reads_spaces: "spaces ws \<Longrightarrow> reads t v \<Longrightarrow> reads (ws @ t) v"
  by (simp add: reads_def parse_value_spaces)

lemma not_space_simps [simp]:
  "\<not> is_space quote_char" "\<not> is_space (CHR ''{'')" "\<not> is_space (CHR ''}'')" "\<not> is_space (CHR ''['')"
  "\<not> is_space (CHR '']'')" "\<not> is_space (CHR '','')" "\<not> is_space (CHR '':'')" "\<not> is_space (CHR ''t'')"
  "\<not> is_space (CHR ''f'')" "is_space (CHR '' '')" "is_space (CHR 0x0A)"
  by (simp_all add: is_space_def)

lemma follows_simps [simp]:
  "follows []" "follows (CHR '','' # r)" "follows (CHR ''}'' # r)" "follows (CHR '']'' # r)"
  "follows (CHR 0x0A # r)"
  by (simp_all add: follows_def is_digit_def)

lemma reads_string: "list_all writable_char s \<Longrightarrow> reads (escapeJson s) (JString s)"
proof (rule readsI [of 1])
  fix f :: nat and r
  assume s: "list_all writable_char s" and "1 \<le> f"
  then obtain g where "f = Suc g" by (cases f) auto
  moreover have "escapeJson s @ r = quote_char # concat (map escape_char s) @ quote_char # r"
    by (simp add: escapeJson_def)
  ultimately show "parse_value f (escapeJson s @ r) = Some (Inr (JString s, r))"
    using parse_string_escape [OF s, of r]
    by (simp add: parse_value.simps skip_ws_char as_string_def)
qed

lemma takeWhile_digits:
  "list_all is_digit ds \<Longrightarrow> follows r \<Longrightarrow> takeWhile is_digit (ds @ r) = ds \<and> dropWhile is_digit (ds @ r) = r"
  by (cases r) (auto simp: follows_def list_all_iff)

lemma reads_number:
  assumes "n < 2 ^ 64"
  shows "reads (decimal n) (JNumber n)"
proof (rule readsI [of 1])
  fix f :: nat and r
  assume "1 \<le> f" and r: "follows r"
  then obtain g where f: "f = Suc g" by (cases f) auto
  obtain d ds where d: "decimal n = d # ds" using decimal_not_Nil by (metis neq_Nil_conv)
  have dig: "is_digit d" using decimal_digits [of n] d by simp
  then have c: "\<not> is_space d" "d \<noteq> CHR ''{''" "d \<noteq> CHR ''[''" "d \<noteq> quote_char" "d \<noteq> CHR ''t''" "d \<noteq> CHR ''f''"
    "d \<noteq> CHR ''n''" "d \<noteq> CHR ''-''"
    by (auto simp: is_digit_def is_space_def)
  have "parse_number (decimal n @ r) = Inr (JNumber n, r)"
    using takeWhile_digits [OF decimal_digits r, of n] c(8) assms decimal_value_decimal [of n]
    by (simp add: parse_number_def d dig)
  then show "parse_value f (decimal n @ r) = Some (Inr (JNumber n, r))"
    using c by (simp add: f parse_value.simps skip_ws_char d)
qed

lemma reads_true: "reads ''true'' (JBool True)"
proof (rule readsI [of 1])
  fix f :: nat and r assume "1 \<le> f"
  then show "parse_value f (''true'' @ r) = Some (Inr (JBool True, r))"
    by (cases f) (simp_all add: parse_value.simps skip_ws_char parse_literal_def)
qed

lemma reads_false: "reads ''false'' (JBool False)"
proof (rule readsI [of 1])
  fix f :: nat and r assume "1 \<le> f"
  then show "parse_value f (''false'' @ r) = Some (Inr (JBool False, r))"
    by (cases f) (simp_all add: parse_value.simps skip_ws_char parse_literal_def)
qed

subsection \<open>Sequences\<close>

lemma skip_ws_append: "skip_ws t = c # t' \<Longrightarrow> skip_ws (t @ x) = c # t' @ x"
  by (induction t) (auto simp: skip_ws_def split: if_splits)

text \<open>A text that reads as a value does not begin with a closing bracket or brace.\<close>

lemma reads_start:
  assumes "reads t v"
  shows "\<exists>c t'. skip_ws t = c # t' \<and> c \<noteq> CHR '']'' \<and> c \<noteq> CHR ''}''"
proof -
  from assms obtain n where n: "\<And>f r. n \<le> f \<Longrightarrow> follows r \<Longrightarrow> parse_value f (t @ r) = Some (Inr (v, r))"
    by (rule readsE) auto
  from n [of "Suc n" "[]"] have p: "parse_value (Suc n) t = Some (Inr (v, []))" by simp
  show ?thesis
  proof (cases "skip_ws t")
    case Nil
    with p show ?thesis by (simp add: parse_value.simps)
  next
    case (Cons c t')
    with p show ?thesis
      by (auto simp: parse_value.simps parse_number_def is_digit_def)
  qed
qed

text \<open>Texts written one after the other, with one separator before the first and another before the rest.\<close>

fun separated :: "string \<Rightarrow> string \<Rightarrow> string list \<Rightarrow> string" where
  "separated first rest [] = []"
| "separated first rest (t # ts) = first @ t @ separated rest rest ts"

lemma read_items:
  assumes "list_all2 reads (t # ts) vs" and "spaces ws" and "spaces end_ws"
  shows "\<exists>n. \<forall>f \<ge> n. \<forall>r acc. parse_items f acc (t @ separated (CHR '','' # ws) (CHR '','' # ws) ts @ end_ws @ CHR '']'' # r)
    = Some (Inr (JArray (acc @ vs), r))"
  using assms(1)
proof (induction ts arbitrary: t vs)
  case Nil
  then obtain v where v: "vs = [v]" "reads t v" by (cases vs) auto
  from v(2) obtain n where n: "\<And>f r. n \<le> f \<Longrightarrow> follows r \<Longrightarrow> parse_value f (t @ r) = Some (Inr (v, r))"
    by (rule readsE) auto
  have fol: "follows (end_ws @ CHR '']'' # r)" for r
    using assms(3) by (cases end_ws) (auto simp: follows_def spaces_def is_space_def is_digit_def)
  have "parse_items f acc (t @ end_ws @ CHR '']'' # r) = Some (Inr (JArray (acc @ [v]), r))"
    if "Suc n \<le> f" for f acc r
    using that n [OF _ fol] by (cases f) (simp_all add: parse_items.simps consume_spaces [OF assms(3)] consume_char)
  then show ?case using v(1) by (intro exI [of _ "Suc n"]) simp
next
  case (Cons t' ts)
  then obtain v vs' where v: "vs = v # vs'" "reads t v" "list_all2 reads (t' # ts) vs'" by (cases vs) auto
  from v(2) obtain n where n: "\<And>f r. n \<le> f \<Longrightarrow> follows r \<Longrightarrow> parse_value f (t @ r) = Some (Inr (v, r))"
    by (rule readsE) auto
  from v(3) have "list_all2 reads ((ws @ t') # ts) vs'"
    using reads_spaces [OF assms(2)] by (cases vs') auto
  from Cons.IH [OF this] obtain k where k: "\<And>f r acc. k \<le> f \<Longrightarrow>
      parse_items f acc ((ws @ t') @ separated (CHR '','' # ws) (CHR '','' # ws) ts @ end_ws @ CHR '']'' # r)
        = Some (Inr (JArray (acc @ vs'), r))" by blast
  have "parse_items f acc (t @ separated (CHR '','' # ws) (CHR '','' # ws) (t' # ts) @ end_ws @ CHR '']'' # r)
      = Some (Inr (JArray (acc @ vs), r))" if "Suc (max n k) \<le> f" for f acc r
    using that n k by (cases f) (simp_all add: parse_items.simps consume_char v(1))
  then show ?case by blast
qed

lemma reads_array:
  assumes "list_all2 reads ts vs" and "spaces first" and "spaces ws" and "spaces end_ws"
  shows "reads ([CHR ''[''] @ separated first (CHR '','' # ws) ts @ end_ws @ [CHR '']'']) (JArray vs)"
proof (cases ts)
  case Nil
  with assms(1) have "vs = []" by simp
  show ?thesis
  proof (rule readsI [of 1])
    fix f :: nat and r assume "1 \<le> f"
    then show "parse_value f (([CHR ''[''] @ separated first (CHR '','' # ws) ts @ end_ws @ [CHR '']'']) @ r)
        = Some (Inr (JArray vs, r))"
      using Nil \<open>vs = []\<close> by (cases f) (simp_all add: parse_value.simps skip_ws_char consume_spaces [OF assms(4)] consume_char)
  qed
next
  case (Cons t ts')
  then obtain v vs' where v: "vs = v # vs'" using assms(1) by (cases vs) auto
  have l: "list_all2 reads ((first @ t) # ts') vs"
    using assms(1) reads_spaces [OF assms(2)] by (simp add: Cons v)
  from read_items [OF this assms(3,4)] obtain n where n: "\<And>f r acc. n \<le> f \<Longrightarrow>
      parse_items f acc ((first @ t) @ separated (CHR '','' # ws) (CHR '','' # ws) ts' @ end_ws @ CHR '']'' # r)
        = Some (Inr (JArray (acc @ vs), r))" by blast
  have nonempty: "consume (CHR '']'') (first @ t @ x) = None" for x
    using reads_start [of t v] assms(1) by (auto simp: Cons v consume_def skip_spaces [OF assms(2)] skip_ws_append)
  show ?thesis
  proof (rule readsI [of "Suc n"])
    fix f :: nat and r assume "Suc n \<le> f"
    then obtain g where "f = Suc g" "n \<le> g" by (metis Suc_le_D Suc_le_mono)
    then show "parse_value f (([CHR ''[''] @ separated first (CHR '','' # ws) ts @ end_ws @ [CHR '']'']) @ r)
        = Some (Inr (JArray vs, r))"
      using n [of g "[]" r] nonempty by (simp add: Cons parse_value.simps skip_ws_char)
  qed
qed

definition member_text :: "string \<times> string \<Rightarrow> string" where
  "member_text = (\<lambda>(key, t). escapeJson key @ '': '' @ t)"

lemma parse_string_spaces: "spaces ws \<Longrightarrow> parse_string (ws @ s) = parse_string s"
  by (simp add: parse_string_def consume_spaces)

lemma read_members:
  assumes "list_all2 reads (map snd (m # ms)) vs" and "list_all (list_all writable_char) (map fst (m # ms))"
    and "distinct (map fst (m # ms))" and "spaces ws" and "spaces end_ws"
  shows "\<exists>n. \<forall>f \<ge> n. \<forall>r acc. fst ` set acc \<inter> fst ` set (m # ms) = {} \<longrightarrow>
    parse_members f acc (member_text m @ separated (CHR '','' # ws) (CHR '','' # ws) (map member_text ms) @ end_ws @ CHR ''}'' # r)
    = Some (Inr (JObject (acc @ zip (map fst (m # ms)) vs), r))"
  using assms(1-3)
proof (induction ms arbitrary: m vs)
  case Nil
  then obtain v where v: "vs = [v]" "reads (snd m) v" by (cases vs) auto
  from v(2) obtain n where n: "\<And>f r. n \<le> f \<Longrightarrow> follows r \<Longrightarrow> parse_value f (snd m @ r) = Some (Inr (v, r))"
    by (rule readsE) auto
  have fol: "follows (end_ws @ CHR ''}'' # r)" for r
    using assms(5) by (cases end_ws) (auto simp: follows_def spaces_def is_space_def is_digit_def)
  have "parse_members f acc (member_text m @ end_ws @ CHR ''}'' # r) = Some (Inr (JObject (acc @ [(fst m, v)]), r))"
    if f: "Suc n \<le> f" and acc: "fst m \<notin> fst ` set acc" for f acc r
  proof -
    obtain g where g: "f = Suc g" "n \<le> g" using f by (cases f) auto
    have "parse_value g ('' '' @ snd m @ end_ws @ CHR ''}'' # r) = Some (Inr (v, end_ws @ CHR ''}'' # r))"
      using n [OF g(2) fol] parse_value_spaces [of "'' ''" g] by (simp add: spaces_def)
    then show ?thesis
      using acc Nil(2)
      by (cases m) (simp add: g parse_members.simps member_text_def parse_string_escape consume_char
          consume_spaces [OF assms(5)])
  qed
  then show ?case using v(1) by (intro exI [of _ "Suc n"]) simp
next
  case (Cons m' ms)
  then obtain v vs' where v: "vs = v # vs'" "reads (snd m) v" "list_all2 reads (map snd (m' # ms)) vs'" by (cases vs) auto
  from v(2) obtain n where n: "\<And>f r. n \<le> f \<Longrightarrow> follows r \<Longrightarrow> parse_value f (snd m @ r) = Some (Inr (v, r))"
    by (rule readsE) auto
  have "list_all (list_all writable_char) (map fst (m' # ms))" and "distinct (map fst (m' # ms))"
    using Cons.prems(2,3) by simp_all
  from Cons.IH [OF v(3) this] obtain k where k: "\<And>f r acc. k \<le> f \<Longrightarrow> fst ` set acc \<inter> fst ` set (m' # ms) = {} \<Longrightarrow>
      parse_members f acc (member_text m' @ separated (CHR '','' # ws) (CHR '','' # ws) (map member_text ms) @ end_ws @ CHR ''}'' # r)
        = Some (Inr (JObject (acc @ zip (map fst (m' # ms)) vs'), r))" by blast
  have "parse_members f acc (member_text m @ separated (CHR '','' # ws) (CHR '','' # ws) (map member_text (m' # ms)) @ end_ws @ CHR ''}'' # r)
      = Some (Inr (JObject (acc @ zip (map fst (m # m' # ms)) vs), r))"
    if f: "Suc (max n (Suc k)) \<le> f" and acc: "fst ` set acc \<inter> fst ` set (m # m' # ms) = {}" for f acc r
  proof -
    obtain g where g: "f = Suc g" "n \<le> g" "Suc k \<le> g" using f by (cases f) auto
    obtain h where h: "g = Suc h" "k \<le> h" using g(3) by (cases g) auto
    define rest where "rest = member_text m' @ separated (CHR '','' # ws) (CHR '','' # ws) (map member_text ms) @ end_ws @ CHR ''}'' # r"
    have "parse_value g ('' '' @ snd m @ CHR '','' # ws @ rest) = Some (Inr (v, CHR '','' # ws @ rest))"
      using n [OF g(2)] parse_value_spaces [of "'' ''" g] by (simp add: spaces_def)
    moreover have "parse_members g (acc @ [(fst m, v)]) (ws @ rest) = parse_members g (acc @ [(fst m, v)]) rest"
      by (simp add: h parse_members.simps parse_string_spaces [OF assms(4)])
    moreover have "fst ` set (acc @ [(fst m, v)]) \<inter> fst ` set (m' # ms) = {}"
      using acc Cons.prems(3) by auto
    moreover note k [of g "acc @ [(fst m, v)]" r, folded rest_def]
    ultimately have "parse_members f acc (member_text m @ CHR '','' # ws @ rest) =
        Some (Inr (JObject ((acc @ [(fst m, v)]) @ zip (map fst (m' # ms)) vs'), r))"
      using acc Cons.prems(2) g(1,3)
      by (cases m) (simp add: parse_members.simps member_text_def parse_string_escape consume_char)
    then show ?thesis by (simp add: rest_def v(1))
  qed
  then show ?case by blast
qed

lemma reads_object:
  assumes "list_all2 reads (map snd ms) vs" and "list_all (list_all writable_char) (map fst ms)"
    and "distinct (map fst ms)" and "ms \<noteq> []" and "spaces first" and "spaces ws" and "spaces end_ws"
  shows "reads ([CHR ''{''] @ separated first (CHR '','' # ws) (map member_text ms) @ end_ws @ [CHR ''}''])
    (JObject (zip (map fst ms) vs))"
proof -
  obtain m ms' where ms: "ms = m # ms'" using assms(4) by (cases ms) auto
  from read_members [of m ms' vs ws end_ws] assms(1-3,6,7) obtain n where
    "\<forall>f \<ge> n. \<forall>r acc. fst ` set acc \<inter> fst ` set ms = {} \<longrightarrow>
      parse_members f acc (member_text m @ separated (CHR '','' # ws) (CHR '','' # ws) (map member_text ms') @ end_ws @ CHR ''}'' # r)
      = Some (Inr (JObject (acc @ zip (map fst ms) vs), r))"
    unfolding ms by blast
  then have
    n: "\<And>f r. n \<le> f \<Longrightarrow> parse_members f [] (member_text m @ separated (CHR '','' # ws) (CHR '','' # ws) (map member_text ms') @ end_ws @ CHR ''}'' # r)
      = Some (Inr (JObject (zip (map fst ms) vs), r))"
    by simp
  show ?thesis
  proof (rule readsI [of "Suc (Suc n)"])
    fix f :: nat and r assume "Suc (Suc n) \<le> f"
    then obtain g where g: "f = Suc (Suc g)" "n \<le> Suc g" by (cases f; cases "f - 1") auto
    define rest where "rest = member_text m @ separated (CHR '','' # ws) (CHR '','' # ws) (map member_text ms') @ end_ws @ CHR ''}'' # r"
    have c: "consume (CHR ''}'') (first @ rest) = None"
      by (cases m) (simp add: consume_spaces [OF assms(5)] rest_def member_text_def escapeJson_def consume_char)
    have p: "parse_members (Suc g) [] (first @ rest) = parse_members (Suc g) [] rest"
      by (simp add: parse_members.simps parse_string_spaces [OF assms(5)])
    have "parse_value f (CHR ''{'' # first @ rest) = Some (Inr (JObject (zip (map fst ms) vs), r))"
      using n [OF g(2), of r, folded rest_def]
      by (simp add: g(1) parse_value.simps skip_ws_char c p)
    then show "parse_value f (([CHR ''{''] @ separated first (CHR '','' # ws) (map member_text ms) @ end_ws @ [CHR ''}'']) @ r)
        = Some (Inr (JObject (zip (map fst ms) vs), r))"
      by (simp add: ms rest_def)
  qed
qed

text \<open>A whole document.\<close>

lemma parseJson_reads:
  assumes "reads t v" and "spaces ws"
  shows "parseJson (t @ ws) = Inr v"
proof -
  from assms(1) obtain n where n: "\<And>f r. n \<le> f \<Longrightarrow> follows r \<Longrightarrow> parse_value f (t @ r) = Some (Inr (v, r))"
    by (rule readsE) auto
  have fol: "follows ws"
    using assms(2) by (cases ws) (auto simp: follows_def spaces_def is_space_def is_digit_def)
  obtain c t' where c: "skip_ws t = c # t'" using reads_start [OF assms(1)] by blast
  have "parse_value (json_fuel (t @ ws)) (skip_ws (t @ ws)) = Some (Inr (v, ws))"
  proof -
    obtain x where x: "parse_value (json_fuel (t @ ws)) (skip_ws (t @ ws)) = Some x"
      using parseJson_fuel by blast
    have same: "parse_value f (skip_ws (t @ ws)) = parse_value f (t @ ws)" for f
      by (cases f) (simp_all add: parse_value.simps skip_ws_idem)
    define f where "f = max n (json_fuel (t @ ws))"
    from parse_mono_le [OF x, of f] have "parse_value f (t @ ws) = Some x"
      by (simp add: f_def same)
    with n [of f ws] fol x show ?thesis by (simp add: f_def)
  qed
  moreover have "skip_ws ws = []" using skip_spaces [OF assms(2), of "[]"] by (simp add: skip_ws_def)
  ultimately show ?thesis by (simp add: parseJson_def)
qed

end
