(* ===== verification/Config.thy ===== *)
theory Config
  imports Json Profiles
begin

text \<open>
  The configuration store: \<open>app/config.h\<close> and the rest of \<open>app/config.cpp\<close> (checking a parsed document,
  writing one, the limits, loading and the atomic replacement of the file). The conversions
  \<open>MultiByteToWideChar\<close> and \<open>WideCharToMultiByte\<close> of Windows are the arguments \<open>mb2w\<close> and \<open>w2mb\<close>,
  \<open>None\<close> standing for a failed call; the outcomes of the file calls are arguments too.
\<close>

section \<open>The configuration\<close>

record AppConfig =
  schema_version :: u32
  selected_monitor_id :: wstring
  bitrate_mbps :: u32
  palm_guard_enabled :: bool
  profiles :: "ApplicationProfile list"

definition kConfigSchemaVersion :: u32 where
  "kConfigSchemaVersion = 1"

definition default_config :: AppConfig where
  "default_config = \<lparr>schema_version = kConfigSchemaVersion, selected_monitor_id = [], bitrate_mbps = 80,
     palm_guard_enabled = True, profiles = [blender_profile]\<rparr>"

definition MAX_PATH :: nat where "MAX_PATH = 260"

definition validate_action :: "Action \<Rightarrow> unit result" where
  "validate_action a = check (length (virtualKeys a) \<le> 8) ''too many keys in profile action''"

definition validate_profile :: "ApplicationProfile \<Rightarrow> unit result" where
  "validate_profile p =
     and_then (check (executableName p \<noteq> [] \<and> length (executableName p) \<le> MAX_PATH) ''invalid profile executable'')
       (bind_result (map_result validate_action (profileButtonActions p)) (\<lambda>_. Inr ()))"

definition validate_config :: "AppConfig \<Rightarrow> unit result" where
  "validate_config c =
     and_then (check (\<not> (schema_version c \<noteq> kConfigSchemaVersion \<or> bitrate_mbps c < 20 \<or> bitrate_mbps c > 120 \<or>
         length (selected_monitor_id c) > 128 \<or> length (profiles c) > 32)) ''configuration values are outside v1 limits'')
       (bind_result (map_result validate_profile (profiles c)) (\<lambda>_. Inr ()))"

section \<open>Reading a document\<close>

definition require_number :: "JsonValue \<Rightarrow> string \<Rightarrow> nat result" where
  "require_number object name = (case member object name of
     Some (JNumber n) \<Rightarrow> Inr n | _ \<Rightarrow> Inl (''missing numeric configuration field: '' @ name))"

definition require_bool :: "JsonValue \<Rightarrow> string \<Rightarrow> bool result" where
  "require_bool object name = (case member object name of
     Some (JBool b) \<Rightarrow> Inr b | _ \<Rightarrow> Inl (''missing boolean configuration field: '' @ name))"

definition require_string :: "JsonValue \<Rightarrow> string \<Rightarrow> string result" where
  "require_string object name = (case member object name of
     Some (JString s) \<Rightarrow> Inr s | _ \<Rightarrow> Inl (''missing string configuration field: '' @ name))"

definition array_of :: "JsonValue option \<Rightarrow> JsonValue list option" where
  "array_of v = (case v of Some (JArray xs) \<Rightarrow> Some xs | _ \<Rightarrow> None)"

definition utf8ToWide :: "(string \<Rightarrow> wstring option) \<Rightarrow> string \<Rightarrow> wstring option" where
  "utf8ToWide mb2w s = (if s = [] then Some [] else mb2w s)"

definition wideToUtf8 :: "(wstring \<Rightarrow> string option) \<Rightarrow> wstring \<Rightarrow> string option" where
  "wideToUtf8 w2mb w = (if w = [] then Some [] else w2mb w)"

fun actionKindName :: "ActionKind \<Rightarrow> string" where
  "actionKindName AkDisabled = ''disabled''"
| "actionKindName AkMouseButton = ''mouse''"
| "actionKindName AkKeyChord = ''keys''"
| "actionKindName AkEraser = ''eraser''"

fun mouseButtonName :: "MouseButton \<Rightarrow> string" where
  "mouseButtonName MbLeft = ''left''"
| "mouseButtonName MbMiddle = ''middle''"
| "mouseButtonName MbRight = ''right''"
| "mouseButtonName MbX1 = ''x1''"
| "mouseButtonName MbX2 = ''x2''"

definition parseActionKind :: "string \<Rightarrow> ActionKind option" where
  "parseActionKind name =
     (if name = ''disabled'' then Some AkDisabled
      else if name = ''mouse'' then Some AkMouseButton
      else if name = ''keys'' then Some AkKeyChord
      else if name = ''eraser'' then Some AkEraser else None)"

definition parseMouseButton :: "string \<Rightarrow> MouseButton option" where
  "parseMouseButton name =
     (if name = ''left'' then Some MbLeft
      else if name = ''middle'' then Some MbMiddle
      else if name = ''right'' then Some MbRight
      else if name = ''x1'' then Some MbX1
      else if name = ''x2'' then Some MbX2 else None)"

definition parse_key :: "JsonValue \<Rightarrow> u16 result" where
  "parse_key v = (case v of
     JNumber n \<Rightarrow> if n > 65535 then Inl ''invalid profile virtual key'' else Inr (of_nat n)
   | _ \<Rightarrow> Inl ''invalid profile virtual key'')"

definition parseAction :: "JsonValue \<Rightarrow> Action result" where
  "parseAction v =
     bind_result (require_string v ''kind'') (\<lambda>kind.
     bind_result (require_string v ''mouseButton'') (\<lambda>mouse.
       (case (parseActionKind kind, parseMouseButton mouse, array_of (member v ''keys'')) of
          (Some k, Some b, Some keys) \<Rightarrow>
            if length keys > 8 then Inl ''invalid profile button action''
            else bind_result (map_result parse_key keys)
              (\<lambda>ks. Inr \<lparr>actionKind = k, mouseButton = b, virtualKeys = ks\<rparr>)
        | _ \<Rightarrow> Inl ''invalid profile button action'')))"

text \<open>When the buttons are missing or not three, the function returns without setting its error text.\<close>

definition parse_profile :: "(string \<Rightarrow> wstring option) \<Rightarrow> JsonValue \<Rightarrow> ApplicationProfile result" where
  "parse_profile mb2w v =
     bind_result (require_string v ''executable'') (\<lambda>executable.
       (case array_of (member v ''buttons'') of
          None \<Rightarrow> Inl []
        | Some buttons \<Rightarrow>
            if length buttons \<noteq> 3 then Inl []
            else bind_result (require ''profile executable is not valid UTF-8'' (utf8ToWide mb2w executable)) (\<lambda>wide.
              bind_result (map_result parseAction buttons) (\<lambda>actions.
                Inr \<lparr>executableName = wide, profileButtonActions = actions\<rparr>))))"

definition parseConfig :: "(string \<Rightarrow> wstring option) \<Rightarrow> JsonValue \<Rightarrow> AppConfig result" where
  "parseConfig mb2w root =
     and_then (check (case root of JObject _ \<Rightarrow> True | _ \<Rightarrow> False) ''configuration root must be an object'') (
     bind_result (require_number root ''schemaVersion'') (\<lambda>schema.
     bind_result (require_string root ''selectedMonitor'') (\<lambda>monitor.
     bind_result (require_number root ''bitrateMbps'') (\<lambda>bitrate.
     bind_result (require_bool root ''palmGuard'') (\<lambda>palm.
       (case array_of (member root ''profiles'') of
          None \<Rightarrow> Inl ''unsupported or invalid configuration schema''
        | Some ps \<Rightarrow>
            if schema \<noteq> unat kConfigSchemaVersion \<or> bitrate > 2 ^ 32 - 1 \<or> length ps > 32
            then Inl ''unsupported or invalid configuration schema''
            else bind_result (require ''selected monitor is not valid UTF-8'' (utf8ToWide mb2w monitor)) (\<lambda>wide.
              bind_result (map_result (parse_profile mb2w) ps) (\<lambda>parsed_profiles.
                let parsed = \<lparr>schema_version = kConfigSchemaVersion, selected_monitor_id = wide,
                      bitrate_mbps = of_nat bitrate, palm_guard_enabled = palm, profiles = parsed_profiles\<rparr>
                in and_then (validate_config parsed) (Inr parsed)))))))))"

section \<open>Writing a document\<close>

abbreviation newline :: char where "newline \<equiv> CHR 0x0A"
abbreviation quoted :: "string \<Rightarrow> string" where "quoted s \<equiv> quote_char # s @ [quote_char]"

definition serialize_action :: "Action \<Rightarrow> string" where
  "serialize_action a =
     ''{'' @ quoted ''kind'' @ '': '' @ quoted (actionKindName (actionKind a)) @ '', '' @
     quoted ''mouseButton'' @ '': '' @ quoted (mouseButtonName (mouseButton a)) @ '', '' @
     quoted ''keys'' @ '': ['' @ separated [] '', '' (map (\<lambda>k. decimal (unat k)) (virtualKeys a)) @ '']}''"

definition serialize_profile :: "(wstring \<Rightarrow> string option) \<Rightarrow> ApplicationProfile \<Rightarrow> string" where
  "serialize_profile w2mb p =
     ''{'' @ quoted ''executable'' @ '': '' @
     escapeJson (case wideToUtf8 w2mb (executableName p) of None \<Rightarrow> [] | Some s \<Rightarrow> s) @ '', '' @
     quoted ''buttons'' @ '': ['' @ separated [] '', '' (map serialize_action (profileButtonActions p)) @ '']}''"

definition serializeConfig :: "(wstring \<Rightarrow> string option) \<Rightarrow> AppConfig \<Rightarrow> string" where
  "serializeConfig w2mb c =
     ''{'' @ newline # ''  '' @ quoted ''schemaVersion'' @ '': '' @ decimal (unat (schema_version c)) @ '','' @
     newline # ''  '' @ quoted ''selectedMonitor'' @ '': '' @
     escapeJson (case wideToUtf8 w2mb (selected_monitor_id c) of None \<Rightarrow> [] | Some s \<Rightarrow> s) @ '','' @
     newline # ''  '' @ quoted ''bitrateMbps'' @ '': '' @ decimal (unat (bitrate_mbps c)) @ '','' @
     newline # ''  '' @ quoted ''palmGuard'' @ '': '' @ (if palm_guard_enabled c then ''true'' else ''false'') @ '','' @
     newline # ''  '' @ quoted ''profiles'' @ '': ['' @
     separated (newline # ''    '') ('','' @ newline # ''    '') (map (serialize_profile w2mb) (profiles c)) @
     newline # ''  ]'' @ newline # ''}'' @ [newline]"

section \<open>Loading\<close>

record ConfigLoadResult =
  config :: AppConfig
  loaded_from_disk :: bool
  diagnostic :: string

text \<open>\<open>file\<close> is the content of the file, \<open>None\<close> if it cannot be opened.\<close>

definition load_config :: "(string \<Rightarrow> wstring option) \<Rightarrow> string option \<Rightarrow> ConfigLoadResult" where
  "load_config mb2w file =
     (case file of
        None \<Rightarrow> \<lparr>config = default_config, loaded_from_disk = False,
                 diagnostic = ''configuration not found; using defaults''\<rparr>
      | Some json \<Rightarrow>
          if length json > 256 * 1024
          then \<lparr>config = default_config, loaded_from_disk = False,
                 diagnostic = ''configuration is too large; using defaults''\<rparr>
          else (case bind_result (parseJson json) (parseConfig mb2w) of
              Inl e \<Rightarrow> \<lparr>config = default_config, loaded_from_disk = False, diagnostic = ''configuration ignored: '' @ e\<rparr>
            | Inr c \<Rightarrow> \<lparr>config = c, loaded_from_disk = True, diagnostic = ''configuration loaded''\<rparr>))"

section \<open>Saving\<close>

text \<open>
  The two files the replacement works on and the outcomes of the calls: \<open>wrote i n\<close> is the count
  the \<open>i\<close>-th \<open>WriteFile\<close> reports when it is asked to write \<open>n\<close> bytes, \<open>None\<close> when it fails.
\<close>

record files =
  target :: "string option"
  temporary :: "string option"

record file_calls =
  directory_error :: "string option"
  opened :: bool
  wrote :: "nat \<Rightarrow> nat \<Rightarrow> nat option"
  flushed :: bool
  moved :: bool
  deleted :: bool

definition write_chunk :: "string \<Rightarrow> nat" where
  "write_chunk remaining = min (length remaining) (2 ^ 32 - 1)"

text \<open>The content of the file and whether all was written.\<close>

function write_loop :: "(nat \<Rightarrow> nat \<Rightarrow> nat option) \<Rightarrow> nat \<Rightarrow> string \<Rightarrow> string \<Rightarrow> string \<times> bool" where
  "write_loop calls i content remaining =
     (if remaining = [] then (content, True)
      else (case calls i (write_chunk remaining) of
          None \<Rightarrow> (content, False)
        | Some actual \<Rightarrow>
            if actual = 0 then (content, False)
            else write_loop calls (Suc i) (content @ take (min actual (write_chunk remaining)) remaining)
                   (drop actual remaining)))"
  by pat_completeness auto
termination
  by (relation "measure (\<lambda>(calls, i, content, remaining). length remaining)") auto

declare write_loop.simps [simp del]

definition writeAtomic :: "file_calls \<Rightarrow> string \<Rightarrow> files \<Rightarrow> unit result \<times> files" where
  "writeAtomic calls bytes fs =
     (case directory_error calls of
        Some e \<Rightarrow> (Inl (''cannot create configuration directory: '' @ e), fs)
      | None \<Rightarrow>
          if \<not> opened calls then (Inl ''cannot open temporary configuration file'', fs)
          else (let (content, complete) = write_loop (wrote calls) 0 [] bytes;
                    complete = (complete \<and> flushed calls);
                    fs = fs\<lparr>temporary := Some content\<rparr>
                in if \<not> complete \<or> \<not> moved calls
                   then (Inl ''atomic configuration replacement failed'',
                         if deleted calls then fs\<lparr>temporary := None\<rparr> else fs)
                   else (Inr (), fs\<lparr>target := Some content, temporary := None\<rparr>)))"

definition save_config ::
  "file_calls \<Rightarrow> (wstring \<Rightarrow> string option) \<Rightarrow> AppConfig \<Rightarrow> files \<Rightarrow> unit result \<times> files" where
  "save_config calls w2mb c fs =
     (case validate_config c of
        Inl e \<Rightarrow> (Inl e, fs)
      | Inr _ \<Rightarrow> writeAtomic calls (serializeConfig w2mb c) fs)"

section \<open>The limits\<close>

lemma validate_config_iff:
  "validate_config c = Inr () \<longleftrightarrow>
     schema_version c = kConfigSchemaVersion \<and> 20 \<le> bitrate_mbps c \<and> bitrate_mbps c \<le> 120 \<and>
     length (selected_monitor_id c) \<le> 128 \<and> length (profiles c) \<le> 32 \<and>
     list_all (\<lambda>p. executableName p \<noteq> [] \<and> length (executableName p) \<le> 260 \<and>
       list_all (\<lambda>a. length (virtualKeys a) \<le> 8) (profileButtonActions p)) (profiles c)"
proof -
  have unit: "(\<exists>us. map_result f xs = Inr us) \<longleftrightarrow> list_all (\<lambda>x. f x = Inr ()) xs" for f :: "'a \<Rightarrow> unit result" and xs
    by (induction xs) auto
  have p: "validate_profile p = Inr () \<longleftrightarrow> executableName p \<noteq> [] \<and> length (executableName p) \<le> 260 \<and>
       list_all (\<lambda>a. length (virtualKeys a) \<le> 8) (profileButtonActions p)" for p
    by (simp add: validate_profile_def MAX_PATH_def unit validate_action_def)
  show ?thesis by (auto simp: validate_config_def unit p not_less)
qed

lemma default_config_valid: "validate_config default_config = Inr ()"
  by (simp add: validate_config_iff default_config_def blender_profile_def)

lemma parseConfig_valid: "parseConfig mb2w root = Inr c \<Longrightarrow> validate_config c = Inr ()"
  by (auto simp: parseConfig_def Let_def split: option.splits if_splits)

lemma parse_profile_buttons: "parse_profile mb2w v = Inr p \<Longrightarrow> length (profileButtonActions p) = 3"
  by (cases "array_of (member v ''buttons'')")
    (auto simp: parse_profile_def map_result_eq_Inr dest!: list_all2_lengthD split: if_splits)

lemma parseConfig_buttons:
  "parseConfig mb2w root = Inr c \<Longrightarrow> list_all (\<lambda>p. length (profileButtonActions p) = 3) (profiles c)"
proof -
  have "map_result (parse_profile mb2w) vs = Inr ps \<Longrightarrow> list_all (\<lambda>p. length (profileButtonActions p) = 3) ps" for vs ps
    by (induction vs arbitrary: ps) (auto dest: parse_profile_buttons)
  then show "parseConfig mb2w root = Inr c \<Longrightarrow> list_all (\<lambda>p. length (profileButtonActions p) = 3) (profiles c)"
    by (auto simp: parseConfig_def Let_def split: option.splits if_splits)
qed

section \<open>What is written reads back\<close>

text \<open>A text Windows converts to UTF-8 and back, with no control character the writer leaves alone.\<close>

definition storable :: "(string \<Rightarrow> wstring option) \<Rightarrow> (wstring \<Rightarrow> string option) \<Rightarrow> wstring \<Rightarrow> bool" where
  "storable mb2w w2mb w \<longleftrightarrow> (case wideToUtf8 w2mb w of
     None \<Rightarrow> False
   | Some s \<Rightarrow> list_all writable_char s \<and> utf8ToWide mb2w s = Some w \<and> length s \<le> 3 * length w)"

definition storable_config :: "(string \<Rightarrow> wstring option) \<Rightarrow> (wstring \<Rightarrow> string option) \<Rightarrow> AppConfig \<Rightarrow> bool" where
  "storable_config mb2w w2mb c \<longleftrightarrow> storable mb2w w2mb (selected_monitor_id c) \<and>
     list_all (\<lambda>p. storable mb2w w2mb (executableName p) \<and> length (profileButtonActions p) = 3) (profiles c)"

lemma storableE:
  assumes "storable mb2w w2mb w"
  obtains s where "wideToUtf8 w2mb w = Some s" "list_all writable_char s" "utf8ToWide mb2w s = Some w"
    "length s \<le> 3 * length w"
  using assms by (auto simp: storable_def split: option.splits)

lemma names_parse [simp]:
  "parseActionKind (actionKindName k) = Some k" "parseMouseButton (mouseButtonName b) = Some b"
  by (cases k; simp add: parseActionKind_def) (cases b; simp add: parseMouseButton_def)

lemma names_writable [simp]:
  "list_all writable_char (actionKindName k)" "list_all writable_char (mouseButtonName b)"
  by (cases k; simp add: writable_char_def) (cases b; simp add: writable_char_def)

lemma quoted_names:
  "quoted (actionKindName k) = escapeJson (actionKindName k)"
  "quoted (mouseButtonName b) = escapeJson (mouseButtonName b)"
  by (cases k; simp add: escapeJson_def escape_char_def) (cases b; simp add: escapeJson_def escape_char_def)

text \<open>The values behind the written texts.\<close>

definition action_value :: "Action \<Rightarrow> JsonValue" where
  "action_value a = JObject [(''kind'', JString (actionKindName (actionKind a))),
     (''mouseButton'', JString (mouseButtonName (mouseButton a))),
     (''keys'', JArray (map (\<lambda>k. JNumber (unat k)) (virtualKeys a)))]"

definition profile_value :: "string \<Rightarrow> ApplicationProfile \<Rightarrow> JsonValue" where
  "profile_value exe p = JObject [(''executable'', JString exe),
     (''buttons'', JArray (map action_value (profileButtonActions p)))]"

definition config_value :: "string \<Rightarrow> string list \<Rightarrow> AppConfig \<Rightarrow> JsonValue" where
  "config_value monitor exes c = JObject [(''schemaVersion'', JNumber (unat (schema_version c))),
     (''selectedMonitor'', JString monitor), (''bitrateMbps'', JNumber (unat (bitrate_mbps c))),
     (''palmGuard'', JBool (palm_guard_enabled c)),
     (''profiles'', JArray (map2 profile_value exes (profiles c)))]"

lemma spaces_simps [simp]: "spaces []" "spaces (CHR '' '' # ws) = spaces ws" "spaces (newline # ws) = spaces ws"
  by (simp_all add: spaces_def)

lemma reads_keys: "reads (''['' @ separated [] '', '' (map (\<lambda>k. decimal (unat k)) ks) @ '']'')
    (JArray (map (\<lambda>k. JNumber (unat (k :: u16))) ks))"
proof -
  have n: "reads (decimal (unat k)) (JNumber (unat k))" for k :: u16
    using unat_u16_le [of k] by (intro reads_number) simp
  show ?thesis
    using reads_array [of "map (\<lambda>k. decimal (unat k)) ks" "map (\<lambda>k. JNumber (unat k)) ks" "[]" "'' ''" "[]"]
    by (simp add: list_all2_conv_all_nth n)
qed

text \<open>The object rule for members given with their value.\<close>

lemma reads_record:
  assumes "list_all (\<lambda>(k, t, v). list_all writable_char k \<and> reads t v) ms" and "distinct (map fst ms)" and "ms \<noteq> []"
    and "spaces first" and "spaces ws" and "spaces end_ws"
  shows "reads (''{'' @ separated first ('','' @ ws) (map (\<lambda>(k, t, v). escapeJson k @ '': '' @ t) ms) @ end_ws @ ''}'')
    (JObject (map (\<lambda>(k, t, v). (k, v)) ms))"
proof -
  define kts where "kts = map (\<lambda>(k, t, v). (k, t)) ms"
  define vs where "vs = map (\<lambda>(k, t, v). v) ms"
  have "list_all2 reads (map snd kts) vs" and "list_all (list_all writable_char) (map fst kts)"
    using assms(1) unfolding kts_def vs_def by (induction ms) auto
  moreover have fst: "map fst kts = map fst ms" unfolding kts_def by (induction ms) auto
  moreover have "kts \<noteq> []" using assms(3) by (simp add: kts_def)
  ultimately have "reads ([CHR ''{''] @ separated first (CHR '','' # ws) (map member_text kts) @ end_ws @ [CHR ''}''])
      (JObject (zip (map fst kts) vs))"
    using assms(2,4-6) by (intro reads_object) simp_all
  moreover have "map member_text kts = map (\<lambda>(k, t, v). escapeJson k @ '': '' @ t) ms"
    unfolding kts_def by (induction ms) (auto simp: member_text_def)
  moreover have "zip (map fst kts) vs = map (\<lambda>(k, t, v). (k, v)) ms"
    unfolding fst unfolding vs_def by (induction ms) auto
  ultimately show ?thesis by simp
qed

lemma plain_string:
  assumes "list_all (\<lambda>c. 64 \<le> (of_char c :: nat) \<and> c \<noteq> backslash) s"
  shows "escapeJson s = quoted s"
proof -
  have "escape_char c = [c]" if "64 \<le> (of_char c :: nat)" "c \<noteq> backslash" for c
  proof -
    have "c \<notin> {quote_char, CHR 0x08, CHR 0x0C, CHR 0x0A, CHR 0x0D, CHR 0x09}"
      using that(1) by (intro notI) (elim insertE emptyE; simp)
    with that(2) show ?thesis by (simp add: escape_char_def)
  qed
  with assms have "concat (map escape_char s) = s" by (induction s) simp_all
  then show ?thesis by (simp add: escapeJson_def)
qed

lemma reads_action: "reads (serialize_action a) (action_value a)"
proof -
  let ?ms = "[(''kind'', escapeJson (actionKindName (actionKind a)), JString (actionKindName (actionKind a))),
    (''mouseButton'', escapeJson (mouseButtonName (mouseButton a)), JString (mouseButtonName (mouseButton a))),
    (''keys'', ''['' @ separated [] '', '' (map (\<lambda>k. decimal (unat k)) (virtualKeys a)) @ '']'',
      JArray (map (\<lambda>k. JNumber (unat k)) (virtualKeys a)))]"
  have "list_all (\<lambda>(k, t, v). list_all writable_char k \<and> reads t v) ?ms"
    using reads_keys [of "virtualKeys a"] by (simp add: reads_string) (simp add: writable_char_def)
  from reads_record [OF this, of "[]" "'' ''" "[]"] show ?thesis
    by (simp add: action_value_def serialize_action_def quoted_names plain_string)
qed

lemma reads_profile:
  assumes "wideToUtf8 w2mb (executableName p) = Some exe" and "list_all writable_char exe"
  shows "reads (serialize_profile w2mb p) (profile_value exe p)"
proof -
  let ?ms = "[(''executable'', escapeJson exe, JString exe),
    (''buttons'', ''['' @ separated [] '', '' (map serialize_action (profileButtonActions p)) @ '']'',
      JArray (map action_value (profileButtonActions p)))]"
  have "reads (''['' @ separated [] '', '' (map serialize_action as) @ '']'') (JArray (map action_value as))" for as
    using reads_array [of "map serialize_action as" "map action_value as" "[]" "'' ''" "[]"]
    by (simp add: list_all2_conv_all_nth reads_action)
  then have "list_all (\<lambda>(k, t, v). list_all writable_char k \<and> reads t v) ?ms"
    using assms(2) by (simp add: reads_string) (simp add: writable_char_def)
  from reads_record [OF this, of "[]" "'' ''" "[]"] assms(1) show ?thesis
    by (simp add: profile_value_def serialize_profile_def plain_string)
qed

lemma reads_config:
  assumes "wideToUtf8 w2mb (selected_monitor_id c) = Some monitor" and "list_all writable_char monitor"
    and "list_all2 (\<lambda>exe p. wideToUtf8 w2mb (executableName p) = Some exe \<and> list_all writable_char exe) exes (profiles c)"
  shows "parseJson (serializeConfig w2mb c) = Inr (config_value monitor exes c)"
proof -
  let ?ps = "''['' @ separated (newline # ''    '') ('','' @ newline # ''    '') (map (serialize_profile w2mb) (profiles c)) @
     (newline # ''  '') @ '']''"
  let ?ms = "[(''schemaVersion'', decimal (unat (schema_version c)), JNumber (unat (schema_version c))),
    (''selectedMonitor'', escapeJson monitor, JString monitor),
    (''bitrateMbps'', decimal (unat (bitrate_mbps c)), JNumber (unat (bitrate_mbps c))),
    (''palmGuard'', if palm_guard_enabled c then ''true'' else ''false'', JBool (palm_guard_enabled c)),
    (''profiles'', ?ps, JArray (map2 profile_value exes (profiles c)))]"
  have n: "reads (decimal (unat v)) (JNumber (unat v))" for v :: u32
    using unsigned_less [of v, where 'a = nat] by (intro reads_number) simp
  have "list_all2 reads (map (serialize_profile w2mb) (profiles c)) (map2 profile_value exes (profiles c))"
    using assms(3) by (auto simp: list_all2_conv_all_nth intro!: reads_profile)
  from reads_array [OF this, of "newline # ''    ''" "newline # ''    ''" "newline # ''  ''"]
  have "list_all (\<lambda>(k, t, v). list_all writable_char k \<and> reads t v) ?ms"
    using assms(2) by (simp add: reads_string reads_true reads_false n) (simp add: writable_char_def)
  from parseJson_reads [OF reads_record [OF this, of "newline # ''  ''" "newline # ''  ''" "[newline]"], of "[newline]"]
  show ?thesis using assms(1)
    by (simp add: config_value_def serializeConfig_def plain_string)
qed

text \<open>Checking the written values gives the configuration back.\<close>

lemma parse_key_value [simp]: "map_result parse_key (map (\<lambda>k. JNumber (unat k)) ks) = Inr ks"
proof -
  have "parse_key (JNumber (unat k)) = Inr k" for k :: u16
    using unat_u16_le [of k] by (simp add: parse_key_def)
  then show ?thesis by (simp add: map_result_eq_Inr list_all2_conv_all_nth)
qed

lemma parseAction_value: "length (virtualKeys a) \<le> 8 \<Longrightarrow> parseAction (action_value a) = Inr a"
  by (simp add: parseAction_def action_value_def require_string_def array_of_def)

lemma parse_profile_value:
  assumes "utf8ToWide mb2w exe = Some (executableName p)" and "length (profileButtonActions p) = 3"
    and "list_all (\<lambda>a. length (virtualKeys a) \<le> 8) (profileButtonActions p)"
  shows "parse_profile mb2w (profile_value exe p) = Inr p"
proof -
  have "map_result parseAction (map action_value (profileButtonActions p)) = Inr (profileButtonActions p)"
    using assms(3) by (auto simp: map_result_eq_Inr list_all2_conv_all_nth list_all_length parseAction_value)
  with assms(1,2) show ?thesis
    by (simp add: parse_profile_def profile_value_def require_string_def array_of_def)
qed

lemma parseConfig_value:
  assumes valid: "validate_config c = Inr ()" and "utf8ToWide mb2w monitor = Some (selected_monitor_id c)"
    and "list_all2 (\<lambda>exe p. utf8ToWide mb2w exe = Some (executableName p) \<and> length (profileButtonActions p) = 3) exes (profiles c)"
  shows "parseConfig mb2w (config_value monitor exes c) = Inr c"
proof -
  have "map_result (parse_profile mb2w) (map2 profile_value exes (profiles c)) = Inr (profiles c)"
    using valid assms(3)
    by (auto simp: map_result_eq_Inr list_all2_conv_all_nth validate_config_iff list_all_length
        intro!: parse_profile_value)
  moreover have "unat (bitrate_mbps c) < 2 ^ 32" using unsigned_less [of "bitrate_mbps c", where 'a = nat] by simp
  moreover have "c\<lparr>schema_version := kConfigSchemaVersion\<rparr> = c" using valid by (simp add: validate_config_iff)
  ultimately show ?thesis
    using valid assms(2,3)
    by (cases c) (auto simp: parseConfig_def config_value_def require_number_def require_string_def require_bool_def
        array_of_def Let_def validate_config_iff list_all2_lengthD)
qed

text \<open>The size of what is written.\<close>

lemma length_decimal: "n < 10 ^ Suc k \<Longrightarrow> length (decimal n) \<le> Suc k"
proof (induction k arbitrary: n)
  case 0
  then show ?case by (subst decimal.simps) simp
next
  case (Suc k)
  then have "n div 10 < 10 ^ Suc k" by (simp add: less_mult_imp_div_less mult.commute)
  from Suc.IH [OF this] show ?case by (subst decimal.simps) simp
qed

lemma length_escapeJson: "length (escapeJson s) \<le> 2 * length s + 2"
proof -
  have "length (escape_char c) \<le> 2" for c by (simp add: escape_char_def)
  then have "length (concat (map escape_char s)) \<le> 2 * length s"
  proof (induction s)
    case (Cons c s)
    then have "length (concat (map escape_char s)) \<le> 2 * length s" by simp
    with \<open>\<And>c. length (escape_char c) \<le> 2\<close> [of c] show ?case by simp
  qed simp
  then show ?thesis by (simp add: escapeJson_def)
qed

lemma length_separated:
  assumes "list_all (\<lambda>t. length t \<le> n) ts" and "length first \<le> m" and "length rest \<le> m"
  shows "length (separated first rest ts) \<le> length ts * (n + m)"
  using assms(1,2)
proof (induction ts arbitrary: first)
  case (Cons t ts)
  from Cons.IH [OF _ assms(3)] Cons.prems show ?case by simp
qed simp

lemma length_action: "length (virtualKeys a) \<le> 8 \<Longrightarrow> length (serialize_action a) \<le> 130"
proof -
  assume k: "length (virtualKeys a) \<le> 8"
  have "length (decimal (unat v)) \<le> 5" for v :: u16
    using unat_u16_le [of v] length_decimal [of "unat v" 4] by simp
  then have "length (separated [] '', '' (map (\<lambda>k. decimal (unat k)) (virtualKeys a))) \<le> length (virtualKeys a) * (5 + 2)"
    using length_separated [of 5 "map (\<lambda>k. decimal (unat k)) (virtualKeys a)" "[]" 2 "'', ''"]
    by (simp add: list_all_iff)
  moreover have "length (actionKindName k) \<le> 8" for k by (cases k) simp_all
  moreover have "length (mouseButtonName b) \<le> 6" for b by (cases b) simp_all
  ultimately show ?thesis
    using k add_mono [of "length (actionKindName (actionKind a))" 8 "length (mouseButtonName (mouseButton a))" 6]
    by (simp add: serialize_action_def)
qed

lemma length_profile:
  assumes "list_all (\<lambda>a. length (virtualKeys a) \<le> 8) (profileButtonActions p)"
    and "length (profileButtonActions p) = 3" and "wideToUtf8 w2mb (executableName p) = Some exe" and "length exe \<le> 780"
  shows "length (serialize_profile w2mb p) \<le> 2100"
proof -
  have "length (separated [] '', '' (map serialize_action (profileButtonActions p))) \<le> 3 * (130 + 2)"
    using length_separated [of 130 "map serialize_action (profileButtonActions p)" "[]" 2 "'', ''"] assms(1,2)
    by (auto simp: list_all_iff length_action)
  moreover have "length (escapeJson exe) \<le> 1562"
    using length_escapeJson [of exe] assms(4) by simp
  ultimately show ?thesis using assms(3) by (simp add: serialize_profile_def)
qed

lemma storable_config_texts:
  assumes "storable_config mb2w w2mb c" and "validate_config c = Inr ()"
  obtains monitor exes where "wideToUtf8 w2mb (selected_monitor_id c) = Some monitor" "list_all writable_char monitor"
    "utf8ToWide mb2w monitor = Some (selected_monitor_id c)" "length monitor \<le> 384"
    "list_all2 (\<lambda>exe p. wideToUtf8 w2mb (executableName p) = Some exe \<and> list_all writable_char exe \<and>
       utf8ToWide mb2w exe = Some (executableName p) \<and> length (profileButtonActions p) = 3 \<and> length exe \<le> 780) exes (profiles c)"
proof -
  from assms(1) obtain monitor where m: "wideToUtf8 w2mb (selected_monitor_id c) = Some monitor" "list_all writable_char monitor"
    "utf8ToWide mb2w monitor = Some (selected_monitor_id c)" "length monitor \<le> 3 * length (selected_monitor_id c)"
    by (auto simp: storable_config_def elim: storableE)
  let ?e = "map (\<lambda>p. the (wideToUtf8 w2mb (executableName p))) (profiles c)"
  have "list_all2 (\<lambda>exe p. wideToUtf8 w2mb (executableName p) = Some exe \<and> list_all writable_char exe \<and>
       utf8ToWide mb2w exe = Some (executableName p) \<and> length (profileButtonActions p) = 3 \<and> length exe \<le> 780) ?e (profiles c)"
    using assms unfolding list_all2_map1
    by (intro list.rel_refl_strong)
      (fastforce simp: storable_config_def storable_def validate_config_iff list_all_iff split: option.splits)
  with m assms(2) that [of monitor ?e] show ?thesis by (simp add: validate_config_iff)
qed

lemma length_serializeConfig:
  assumes "storable_config mb2w w2mb c" and "validate_config c = Inr ()"
  shows "length (serializeConfig w2mb c) \<le> 70000"
proof -
  from assms obtain monitor exes where
    m: "wideToUtf8 w2mb (selected_monitor_id c) = Some monitor" "length monitor \<le> 384" and
    e: "list_all2 (\<lambda>exe p. wideToUtf8 w2mb (executableName p) = Some exe \<and> list_all writable_char exe \<and>
       utf8ToWide mb2w exe = Some (executableName p) \<and> length (profileButtonActions p) = 3 \<and> length exe \<le> 780) exes (profiles c)"
    by (rule storable_config_texts)
  have "length (serialize_profile w2mb p) \<le> 2100" if "p \<in> set (profiles c)" for p
    using that e assms(2)
    by (auto simp: in_set_conv_nth list_all2_conv_all_nth validate_config_iff list_all_length intro!: length_profile)
  then have "length (separated (newline # ''    '') ('','' @ newline # ''    '') (map (serialize_profile w2mb) (profiles c)))
      \<le> length (profiles c) * (2100 + 6)"
    using length_separated [of 2100 "map (serialize_profile w2mb) (profiles c)" "newline # ''    ''" 6 "'','' @ newline # ''    ''"]
    by (simp add: list_all_iff)
  also have "\<dots> \<le> 32 * 2106" using assms(2) by (simp add: validate_config_iff)
  finally have "length (separated (newline # ''    '') ('','' @ newline # ''    '') (map (serialize_profile w2mb) (profiles c)))
      \<le> 67392" by simp
  moreover have "length (escapeJson monitor) \<le> 770" using length_escapeJson [of monitor] m(2) by simp
  moreover have "length (decimal (unat v)) \<le> 10" for v :: u32
    using unsigned_less [of v, where 'a = nat] length_decimal [of "unat v" 9] by simp
  note this [of "schema_version c"] this [of "bitrate_mbps c"]
  ultimately show ?thesis using m(1) by (simp add: serializeConfig_def)
qed

section \<open>Properties of the store\<close>

lemma load_serialized:
  assumes valid: "validate_config c = Inr ()" and "storable_config mb2w w2mb c"
  shows "load_config mb2w (Some (serializeConfig w2mb c)) =
    \<lparr>config = c, loaded_from_disk = True, diagnostic = ''configuration loaded''\<rparr>"
proof -
  from assms obtain monitor exes where
    m: "wideToUtf8 w2mb (selected_monitor_id c) = Some monitor" "list_all writable_char monitor"
      "utf8ToWide mb2w monitor = Some (selected_monitor_id c)" and
    e: "list_all2 (\<lambda>exe p. wideToUtf8 w2mb (executableName p) = Some exe \<and> list_all writable_char exe \<and>
       utf8ToWide mb2w exe = Some (executableName p) \<and> length (profileButtonActions p) = 3 \<and> length exe \<le> 780) exes (profiles c)"
    using storable_config_texts by blast
  have "parseJson (serializeConfig w2mb c) = Inr (config_value monitor exes c)"
    using m(1,2) by (rule reads_config) (rule list_all2_mono [OF e], simp)
  moreover have "parseConfig mb2w (config_value monitor exes c) = Inr c"
    using valid m(3) by (rule parseConfig_value) (rule list_all2_mono [OF e], simp)
  ultimately show ?thesis
    using length_serializeConfig [OF assms(2) valid] by (simp add: load_config_def)
qed

lemma write_loop_complete:
  assumes calls: "\<And>i k n. calls i k = Some n \<Longrightarrow> n \<le> k"
  shows "write_loop calls i content remaining = (c, True) \<Longrightarrow> c = content @ remaining"
  using assms
proof (induction calls i content remaining rule: write_loop.induct)
  case (1 calls i content remaining)
  show ?case
  proof (cases "remaining = []")
    case True
    with 1(2) show ?thesis by (simp add: write_loop.simps)
  next
    case False
    with 1(2) obtain n where n: "calls i (write_chunk remaining) = Some n" "n \<noteq> 0"
      by (auto simp: write_loop.simps [of _ _ _ remaining] split: option.splits if_splits)
    then have "n \<le> write_chunk remaining" using 1(3) by blast
    with 1(1) [OF False n(1,2) _ 1(3)] 1(2) n False
    have "c = content @ take n remaining @ drop n remaining"
      by (simp add: write_loop.simps [of _ _ _ remaining] min.absorb1)
    then show ?thesis by simp
  qed
qed

lemma writeAtomic_cases:
  assumes "\<And>i k n. wrote calls i k = Some n \<Longrightarrow> n \<le> k" and "writeAtomic calls bytes fs = (r, fs')"
  shows "(r = Inr () \<and> target fs' = Some bytes \<and> temporary fs' = None) \<or> (\<exists>e. r = Inl e) \<and> target fs' = target fs"
  using assms(2) write_loop_complete [of "wrote calls" 0 "[]" bytes] assms(1)
  by (auto simp: writeAtomic_def Let_def split: option.splits if_splits prod.splits)


definition ascii_to_wide :: "string \<Rightarrow> wstring option" where
  "ascii_to_wide s = Some (map (\<lambda>c. word_of_nat (of_char c)) s)"

definition wide_to_ascii :: "wstring \<Rightarrow> string option" where
  "wide_to_ascii w = Some (map (\<lambda>c. char_of (unat c)) w)"

text \<open>When Windows writes everything it is asked to, saving succeeds.\<close>

abbreviation whole_writes :: file_calls where
  "whole_writes \<equiv> \<lparr>directory_error = None, opened = True, wrote = \<lambda>i k. Some k, flushed = True, moved = True, deleted = True\<rparr>"

lemma whole_write_saves:
  assumes "validate_config c = Inr ()"
  shows "fst (save_config whole_writes w2mb c fs) = Inr ()"
proof -
  have "snd (write_loop (\<lambda>i k. Some k) i content remaining)" for i content remaining
    by (induction "\<lambda>(i :: nat) (k :: nat). Some k" i content remaining rule: write_loop.induct)
      (subst write_loop.simps, auto simp: write_chunk_def min_def split: if_splits)
  then have "\<not> write_loop (\<lambda>i k. Some k) i content remaining = (t, False)" for i content remaining t
    by (metis snd_conv)
  then show ?thesis using assms by (auto simp: save_config_def writeAtomic_def Let_def split: prod.splits if_splits)
qed


text \<open>Whatever the file holds, \<open>Load\<close> hands out a configuration within the limits of version 1, with
  three buttons in every profile, and unless it says so it is the default one.
\<close>

lemma loaded_config_valid:
  "validate_config (config (load_config mb2w stored)) = Inr () \<and>
   list_all (\<lambda>p. length (profileButtonActions p) = 3) (profiles (config (load_config mb2w stored))) \<and>
   (loaded_from_disk (load_config mb2w stored) \<or> config (load_config mb2w stored) = default_config)"
proof (cases stored)
  case None
  then show ?thesis
    using default_config_valid by (simp add: load_config_def) (simp add: default_config_def blender_buttons)
next
  case (Some json)
  show ?thesis
  proof (cases "bind_result (parseJson json) (parseConfig mb2w)")
    case (Inl e)
    then show ?thesis
      using default_config_valid Some by (simp add: load_config_def) (simp add: default_config_def blender_buttons)
  next
    case (Inr c)
    then obtain root where "parseConfig mb2w root = Inr c" by auto
    then show ?thesis
      using default_config_valid Some Inr parseConfig_valid parseConfig_buttons
      by (auto simp: load_config_def) (simp add: default_config_def blender_buttons)
  qed
qed

end
