(* ===== verification/Process.thy ===== *)
theory Process
  imports Profiles
begin

text \<open>
  \<open>adb/process.h\<close> and \<open>adb/process.cpp\<close>: quoting the arguments of a Windows command line and running a
  child process. The outcome of every call of Windows is a field of \<open>run_calls\<close>; what the model keeps
  of the handles is the order in which they are acquired and released.
\<close>

section \<open>Quoting\<close>

abbreviation w_backslash :: u16 where "w_backslash \<equiv> 92"
abbreviation w_quote :: u16 where "w_quote \<equiv> 34"

definition needs_quotes :: "wstring \<Rightarrow> bool" where
  "needs_quotes argument \<longleftrightarrow> list_ex (\<lambda>c. c = 32 \<or> c = 9 \<or> c = 10 \<or> c = 11 \<or> c = w_quote) argument"

text \<open>The loop over the characters, with the number of backslashes not yet written.\<close>

fun quote_chars :: "nat \<Rightarrow> wstring \<Rightarrow> wstring" where
  "quote_chars backslashes [] = replicate (backslashes * 2) w_backslash"
| "quote_chars backslashes (c # cs) =
     (if c = w_backslash then quote_chars (Suc backslashes) cs
      else if c = w_quote then replicate (backslashes * 2 + 1) w_backslash @ w_quote # quote_chars 0 cs
      else replicate backslashes w_backslash @ c # quote_chars 0 cs)"

definition quoteWindowsArgument :: "wstring \<Rightarrow> wstring" where
  "quoteWindowsArgument argument =
     (if argument = [] then [w_quote, w_quote]
      else if \<not> needs_quotes argument then argument
      else w_quote # quote_chars 0 argument @ [w_quote])"

text \<open>\<open>to_wide\<close> is the conversion of UTF-8, with its fallback to the ANSI code page.\<close>

definition to_wide :: "(string \<Rightarrow> wstring option) \<Rightarrow> (string \<Rightarrow> wstring option) \<Rightarrow> string \<Rightarrow> wstring" where
  "to_wide utf8 acp s =
     (if s = [] then []
      else case utf8 s of
          Some w \<Rightarrow> w
        | None \<Rightarrow> (case acp s of None \<Rightarrow> [] | Some w \<Rightarrow> w))"

definition buildWindowsCommandLine :: "(string \<Rightarrow> wstring) \<Rightarrow> wstring \<Rightarrow> string list \<Rightarrow> wstring" where
  "buildWindowsCommandLine wide executable arguments =
     quoteWindowsArgument executable @ concat (map (\<lambda>a. 32 # quoteWindowsArgument (wide a)) arguments)"

subsection \<open>How Windows splits the arguments\<close>

text \<open>
  The documented rules: blanks separate arguments, a quotation mark opens or closes a quoted part,
  backslashes are literal unless a quotation mark follows, and then two stand for one and an odd one
  makes the mark literal. \<open>cur\<close> is the argument being read and \<open>n\<close> counts the backslashes just read.
\<close>

definition so_far :: "wstring option \<Rightarrow> wstring" where
  "so_far cur = (case cur of None \<Rightarrow> [] | Some w \<Rightarrow> w)"

fun split_arguments :: "wstring option \<Rightarrow> bool \<Rightarrow> nat \<Rightarrow> wstring \<Rightarrow> wstring list" where
  "split_arguments cur quoted n [] = (case cur of None \<Rightarrow> [] | Some w \<Rightarrow> [w @ replicate n w_backslash])"
| "split_arguments cur quoted n (c # cs) =
     (if c = w_backslash then split_arguments (Some (so_far cur)) quoted (Suc n) cs
      else if c = w_quote then
        (if even n then split_arguments (Some (so_far cur @ replicate (n div 2) w_backslash)) (\<not> quoted) 0 cs
         else split_arguments (Some (so_far cur @ replicate (n div 2) w_backslash @ [w_quote])) quoted 0 cs)
      else if (c = 32 \<or> c = 9) \<and> \<not> quoted then
        (case cur of
           None \<Rightarrow> split_arguments None False 0 cs
         | Some w \<Rightarrow> (w @ replicate n w_backslash) # split_arguments None False 0 cs)
      else split_arguments (Some (so_far cur @ replicate n w_backslash @ [c])) quoted 0 cs)"

lemma so_far_Some [simp]: "so_far (Some w) = w"
  by (simp add: so_far_def)

lemma split_backslashes:
  "split_arguments (Some w) q m (replicate n w_backslash @ r) = split_arguments (Some w) q (m + n) r"
  by (induction n arbitrary: m) simp_all

lemma split_quote_chars:
  "split_arguments (Some w) True 0 (quote_chars n a @ w_quote # r) =
     split_arguments (Some (w @ replicate n w_backslash @ a)) False 0 r"
proof (induction n a arbitrary: w rule: quote_chars.induct)
  case (1 n)
  show ?case by (simp add: split_backslashes)
next
  case (2 n c cs)
  show ?case
  proof (cases "c = w_backslash")
    case True
    with 2(1) show ?thesis by (simp add: replicate_app_Cons_same)
  next
    case False
    with 2(2,3) show ?thesis
      by (cases "c = w_quote") (simp_all add: split_backslashes del: replicate.simps(2))
  qed
qed

lemma split_unquoted:
  assumes "\<not> needs_quotes a" and "r = [] \<or> (\<exists>r'. r = 32 # r')"
  shows "split_arguments (Some w) False n (a @ r) = (w @ replicate n w_backslash @ a) # split_arguments None False 0 r"
  using assms(1)
proof (induction a arbitrary: w n)
  case Nil
  with assms(2) show ?case by auto
next
  case (Cons c cs)
  then show ?case by (auto simp: needs_quotes_def replicate_app_Cons_same)
qed

lemma split_quoted:
  assumes "r = [] \<or> (\<exists>r'. r = 32 # r')"
  shows "split_arguments None False 0 (quoteWindowsArgument a @ r) = a # split_arguments None False 0 r"
proof (cases "a = [] \<or> needs_quotes a")
  case True
  have "split_arguments (Some w) False 0 r = w # split_arguments None False 0 r" for w
    using assms by auto
  with True show ?thesis
    using split_quote_chars [of "[]" 0 a r] by (auto simp: quoteWindowsArgument_def so_far_def)
next
  case False
  then obtain c cs where a: "a = c # cs" by (cases a) auto
  with False have "split_arguments None False 0 (a @ r) = split_arguments (Some []) False 0 (a @ r)"
    by (auto simp: so_far_def needs_quotes_def)
  with False split_unquoted [of a r "[]" 0] assms show ?thesis by (simp add: quoteWindowsArgument_def)
qed

text \<open>C24: the command line carries the arguments unchanged: split by the documented rules of Windows,
  what follows the quoted program name is exactly the list of arguments.\<close>

theorem command_line_splits:
  "\<exists>rest. buildWindowsCommandLine wide executable arguments = quoteWindowsArgument executable @ rest \<and>
     split_arguments None False 0 rest = map wide arguments"
proof -
  have "split_arguments None False 0 (concat (map (\<lambda>a. 32 # quoteWindowsArgument (wide a)) arguments)) = map wide arguments"
  proof (induction arguments)
    case (Cons a as)
    have "concat (map (\<lambda>a. 32 # quoteWindowsArgument (wide a)) as) = [] \<or>
        (\<exists>r. concat (map (\<lambda>a. 32 # quoteWindowsArgument (wide a)) as) = 32 # r)"
      by (cases as) auto
    from split_quoted [OF this] Cons show ?case by simp
  qed simp
  then show ?thesis by (simp add: buildWindowsCommandLine_def)
qed

section \<open>Running a process\<close>

record ProcessOptions =
  timeout :: int
  hide_window :: bool

record ProcessResult =
  started :: bool
  timed_out :: bool
  cancelled :: bool
  win32_error :: u32
  exit_code :: u32
  stdout_text :: string
  stderr_text :: string

definition no_result :: ProcessResult where
  "no_result = \<lparr>started = False, timed_out = False, cancelled = False, win32_error = 0, exit_code = 0,
     stdout_text = [], stderr_text = []\<rparr>"

definition succeeded :: "ProcessResult \<Rightarrow> bool" where
  "succeeded r \<longleftrightarrow> started r \<and> \<not> timed_out r \<and> \<not> cancelled r \<and> win32_error r = 0 \<and> exit_code r = 0"

datatype Handle = StdoutRead | StdoutWrite | StderrRead | StderrWrite | ProcessHandle | ThreadHandle | AttributeList
datatype HandleEvent = Acquire Handle | Release Handle

datatype wait_result = WaitObject | WaitFailed u32 | WaitTimeout

text \<open>What one round of the waiting loop sees: the wait, the stop token, and the time since the start.\<close>

record poll =
  waited :: wait_result
  stop_requested :: bool
  elapsed :: int

text \<open>A failed call is \<open>Some\<close> of the error that \<open>GetLastError\<close> reports.\<close>

record run_calls =
  create_stdout_pipe :: "u32 option"
  create_stderr_pipe :: "u32 option"
  inherit_stdout :: "u32 option"
  inherit_stderr :: "u32 option"
  attribute_query_succeeded :: bool
  attribute_query_error :: u32
  attribute_list_size :: nat
  attribute_init :: "u32 option"
  attribute_update :: "u32 option"
  create_process :: "u32 option"
  polls :: "nat \<Rightarrow> poll"
  get_exit_code :: "u32 + u32"
  stdout_read :: string
  stderr_read :: string

datatype wait_end = Exited | WaitBroken u32 | Cancelled | TimedOut

fun wait_loop :: "nat \<Rightarrow> (nat \<Rightarrow> poll) \<Rightarrow> nat \<Rightarrow> int \<Rightarrow> wait_end option" where
  "wait_loop 0 seen i limit = None"
| "wait_loop (Suc f) seen i limit =
     (case waited (seen i) of
        WaitObject \<Rightarrow> Some Exited
      | WaitFailed e \<Rightarrow> Some (WaitBroken e)
      | WaitTimeout \<Rightarrow>
          if stop_requested (seen i) then Some Cancelled
          else if limit \<ge> 0 \<and> elapsed (seen i) \<ge> limit then Some TimedOut
          else wait_loop f seen (Suc i) limit)"

definition close_all :: "Handle list \<Rightarrow> HandleEvent list" where
  "close_all hs = map Release hs"

definition ERROR_INSUFFICIENT_BUFFER :: u32 where "ERROR_INSUFFICIENT_BUFFER = 122"
definition ERROR_INVALID_PARAMETER :: u32 where "ERROR_INVALID_PARAMETER = 87"

text \<open>\<open>Run\<close> from the created process on.\<close>

definition finish_run :: "run_calls \<Rightarrow> wait_end \<Rightarrow> ProcessResult" where
  "finish_run calls ended =
     (let r = (case ended of
            Exited \<Rightarrow> no_result\<lparr>started := True\<rparr>
          | WaitBroken e \<Rightarrow> no_result\<lparr>started := True, win32_error := e\<rparr>
          | Cancelled \<Rightarrow> no_result\<lparr>started := True, cancelled := True\<rparr>
          | TimedOut \<Rightarrow> no_result\<lparr>started := True, timed_out := True\<rparr>);
          r = (if win32_error r = 0
               then (case get_exit_code calls of
                   Inl e \<Rightarrow> r\<lparr>win32_error := e\<rparr>
                 | Inr code \<Rightarrow> r\<lparr>exit_code := code\<rparr>)
               else r)
      in r\<lparr>stdout_text := stdout_read calls, stderr_text := stderr_read calls\<rparr>)"

definition run_created :: "nat \<Rightarrow> run_calls \<Rightarrow> ProcessOptions \<Rightarrow> (ProcessResult \<times> HandleEvent list) option" where
  "run_created fuel calls options =
     map_option (\<lambda>ended. (finish_run calls ended, close_all [ThreadHandle, ProcessHandle, StdoutRead, StderrRead]))
       (wait_loop fuel (polls calls) 0 (timeout options))"

abbreviation failed_run :: "u32 \<Rightarrow> HandleEvent list \<Rightarrow> (ProcessResult \<times> HandleEvent list) option" where
  "failed_run e evs \<equiv> Some (no_result\<lparr>win32_error := e\<rparr>, evs)"

abbreviation all_pipes :: "Handle list" where
  "all_pipes \<equiv> [StdoutRead, StdoutWrite, StderrRead, StderrWrite]"

definition pipes_opened :: "HandleEvent list" where
  "pipes_opened = map Acquire all_pipes"

definition run_pipes :: "nat \<Rightarrow> run_calls \<Rightarrow> ProcessOptions \<Rightarrow> (ProcessResult \<times> HandleEvent list) option" where
  "run_pipes fuel calls options =
     (case (inherit_stdout calls, inherit_stderr calls) of
        (Some e, _) \<Rightarrow> failed_run e (pipes_opened @ close_all all_pipes)
      | (None, Some e) \<Rightarrow> failed_run e (pipes_opened @ close_all all_pipes)
      | (None, None) \<Rightarrow>
          if attribute_query_succeeded calls \<or> attribute_query_error calls \<noteq> ERROR_INSUFFICIENT_BUFFER \<or>
             attribute_list_size calls = 0
          then failed_run (if attribute_query_error calls = 0 then ERROR_INVALID_PARAMETER else attribute_query_error calls)
                 (pipes_opened @ close_all all_pipes)
          else (case attribute_init calls of
              Some e \<Rightarrow> failed_run e (pipes_opened @ close_all all_pipes)
            | None \<Rightarrow> (case attribute_update calls of
                Some e \<Rightarrow> failed_run e (pipes_opened @ [Acquire AttributeList, Release AttributeList] @ close_all all_pipes)
              | None \<Rightarrow>
                  (let evs = pipes_opened @ Acquire AttributeList #
                        (if create_process calls = None then [Acquire ProcessHandle, Acquire ThreadHandle] else []) @
                        [Release AttributeList, Release StdoutWrite, Release StderrWrite]
                   in (case create_process calls of
                        Some e \<Rightarrow> failed_run e (evs @ close_all [StdoutRead, StderrRead])
                      | None \<Rightarrow> map_option (map_prod id ((@) evs)) (run_created fuel calls options))))))"

definition run_process :: "nat \<Rightarrow> run_calls \<Rightarrow> ProcessOptions \<Rightarrow> (ProcessResult \<times> HandleEvent list) option" where
  "run_process fuel calls options =
     (case create_stdout_pipe calls of
        Some e \<Rightarrow> failed_run e []
      | None \<Rightarrow> (case create_stderr_pipe calls of
          Some e \<Rightarrow> failed_run e ([Acquire StdoutRead, Acquire StdoutWrite] @ close_all [StdoutRead, StdoutWrite])
        | None \<Rightarrow> run_pipes fuel calls options))"

subsection \<open>Handles\<close>

text \<open>The handles open after some events, \<open>None\<close> if one is closed that is not open.\<close>

fun open_handles :: "Handle set \<Rightarrow> HandleEvent list \<Rightarrow> Handle set option" where
  "open_handles H [] = Some H"
| "open_handles H (Acquire h # evs) = (if h \<in> H then None else open_handles (insert h H) evs)"
| "open_handles H (Release h # evs) = (if h \<in> H then open_handles (H - {h}) evs else None)"

definition sample_calls :: run_calls where
  "sample_calls = \<lparr>create_stdout_pipe = None, create_stderr_pipe = None, inherit_stdout = None, inherit_stderr = None,
     attribute_query_succeeded = False, attribute_query_error = 122, attribute_list_size = 48, attribute_init = None,
     attribute_update = None, create_process = None,
     polls = \<lambda>i. \<lparr>waited = WaitTimeout, stop_requested = False, elapsed = int i * 50\<rparr>,
     get_exit_code = Inr 1460, stdout_read = ''partial'', stderr_read = []\<rparr>"

text \<open>however the calls of Windows turn out, \<open>Run\<close> closes every handle it has acquired exactly
  once, and none that it has not.\<close>

lemma run_closes_handles:
  assumes "run_process fuel calls options = Some (result, evs)"
  shows "open_handles {} evs = Some {}"
  using assms
  by (auto simp: run_process_def run_pipes_def run_created_def pipes_opened_def close_all_def Let_def
      insert_Diff_if split: option.splits if_splits)

theorem run_closes_handles_witness:
  "\<exists>result evs. run_process 3 sample_calls \<lparr>timeout = 100, hide_window = True\<rparr> = Some (result, evs) \<and>
     timed_out result \<and> length evs = 14 \<and> open_handles {} evs = Some {}"
proof -
  obtain result evs where run: "run_process 3 sample_calls \<lparr>timeout = 100, hide_window = True\<rparr> = Some (result, evs)"
      "timed_out result" "length evs = 14"
    by (simp add: run_process_def run_pipes_def run_created_def finish_run_def sample_calls_def Let_def no_result_def
        pipes_opened_def close_all_def ERROR_INSUFFICIENT_BUFFER_def eval_nat_numeral)
  from run run_closes_handles [OF run(1)] show ?thesis by blast
qed

lemma wait_loop_ends:
  assumes "0 \<le> limit" and "limit \<le> elapsed (seen (i + k))"
  shows "wait_loop (Suc k) seen i limit \<noteq> None"
  using assms(2)
proof (induction k arbitrary: i)
  case 0
  with assms(1) show ?case by (simp split: wait_result.split)
next
  case (Suc k)
  from Suc.IH [of "Suc i"] Suc.prems show ?case by (auto split: wait_result.split)
qed



end
