(* ===== verification/AdbClient.thy ===== *)
theory AdbClient
  imports Process
begin

text \<open>
  \<open>adb/adb_types.h\<close>, \<open>adb/client.h\<close> and \<open>adb/client.cpp\<close>: the session tokens, the command lines given to
  adb, the readers of its output, the choice of the device, and the search for a usable adb. Running
  a program (\<open>IProcessRunner\<close>) is the argument \<open>run\<close>.
\<close>

section \<open>Constants and tokens\<close>

definition kControlPort :: u16 where "kControlPort = 48100"
definition kVideoPort :: u16 where "kVideoPort = 48101"
definition kInputPort :: u16 where "kInputPort = 48102"
definition kClientPackage :: string where "kClientPackage = ''io.paddrawboard.client''"
definition kClientActivity :: string where "kClientActivity = ''.MainActivity''"
definition kSessionTokenIntentExtra :: string where
  "kSessionTokenIntentExtra = ''io.paddrawboard.client.extra.SESSION_TOKEN''"
definition kSessionTokenBytes :: nat where "kSessionTokenBytes = 32"

type_synonym SessionToken = "u8 list"

definition hex_digit :: "u8 \<Rightarrow> char" where
  "hex_digit n = ''0123456789abcdef'' ! unat n"

definition hexNibble :: "char \<Rightarrow> u8 option" where
  "hexNibble value =
     (let v = (of_char value :: nat)
      in if 48 \<le> v \<and> v \<le> 57 then Some (of_nat (v - 48))
         else if 97 \<le> v \<and> v \<le> 102 then Some (of_nat (v - 97 + 10))
         else if 65 \<le> v \<and> v \<le> 70 then Some (of_nat (v - 65 + 10))
         else None)"

definition sessionTokenToHex :: "SessionToken \<Rightarrow> string" where
  "sessionTokenToHex token = concat (map (\<lambda>b. [hex_digit (drop_bit 4 b), hex_digit (b AND 0x0f)]) token)"

fun parse_hex_bytes :: "string \<Rightarrow> SessionToken option" where
  "parse_hex_bytes (h # l # r) =
     (case (hexNibble h, hexNibble l) of
        (Some high, Some low) \<Rightarrow> map_option (\<lambda>bs. (push_bit 4 high OR low) # bs) (parse_hex_bytes r)
      | _ \<Rightarrow> None)"
| "parse_hex_bytes _ = Some []"

definition parseSessionTokenHex :: "string \<Rightarrow> SessionToken option" where
  "parseSessionTokenHex value =
     (if length value \<noteq> kSessionTokenBytes * 2 then None else parse_hex_bytes value)"

lemma hexNibble_digit: "unat n < 16 \<Longrightarrow> hexNibble (hex_digit n) = Some n"
proof -
  have "list_all (\<lambda>n. hexNibble (hex_digit (of_nat n)) = Some (of_nat n)) [0..<16]"
    by (simp add: upt_rec hex_digit_def hexNibble_def)
  moreover assume "unat n < 16"
  then have "unat n \<in> set [0..<16]" by simp
  ultimately have "hexNibble (hex_digit (of_nat (unat n))) = Some (of_nat (unat n))"
    by (simp only: list_all_iff)
  then show ?thesis by simp
qed

lemma nibbles_less: "unat (drop_bit 4 b :: u8) < 16" "unat (b AND 0x0f :: u8) < 16"
proof -
  have b: "unat b < 256" using unsigned_less [of b, where 'a = nat] by simp
  have "unat (drop_bit 4 b) = take_bit 8 (unat b) div 16"
    by (simp only: unsigned_drop_bit_eq) (simp add: drop_bit_eq_div)
  also have "take_bit 8 (unat b) = unat b" using b by (simp add: take_bit_eq_mod)
  finally have "unat (drop_bit 4 b) = unat b div 16" .
  then show "unat (drop_bit 4 b) < 16" using b by simp
  have "unat (b AND 0x0f) = unat b mod 16"
    using unat_and_mask [of b 4] by (simp add: mask_eq_decr_exp)
  then show "unat (b AND 0x0f) < 16" by simp
qed

lemma nibbles_join: "(push_bit 4 (drop_bit 4 b) OR (b AND 0x0f) :: u8) = b"
proof -
  have "b AND 0x0f = take_bit 4 b" by (simp add: take_bit_eq_mask mask_eq_decr_exp)
  moreover have "push_bit 4 (drop_bit 4 b) OR take_bit 4 b = b"
    by (rule bit_word_eqI) (auto simp: bit_simps)
  ultimately show ?thesis by simp
qed

lemma parse_hex_bytes_toHex: "parse_hex_bytes (sessionTokenToHex token) = Some token"
  by (induction token) (simp_all add: sessionTokenToHex_def hexNibble_digit nibbles_less nibbles_join)

text \<open>The token handed to the tablet as text is read back as the same 32 bytes.\<close>

lemma session_token_roundtrip:
  assumes "length token = kSessionTokenBytes"
  shows "parseSessionTokenHex (sessionTokenToHex token) = Some token \<and>
    length (sessionTokenToHex token) = 64 \<and> list_all is_alnum (sessionTokenToHex token)"
proof -
  have len: "length (sessionTokenToHex t) = 2 * length t" for t
    by (induction t) (simp_all add: sessionTokenToHex_def)
  have "list_all (\<lambda>n. is_alnum (hex_digit (of_nat n))) [0..<16]"
    by (simp add: upt_rec hex_digit_def is_alnum_def)
  then have digits: "\<forall>k \<in> set [0..<16]. is_alnum (hex_digit (of_nat k))" by (simp only: list_all_iff)
  have "is_alnum (hex_digit n)" if "unat n < 16" for n
  proof -
    have "unat n \<in> set [0..<16]" using that by simp
    from bspec [OF digits this] show ?thesis by simp
  qed
  then have "list_all is_alnum (sessionTokenToHex t)" for t
    by (induction t) (simp_all add: sessionTokenToHex_def nibbles_less)
  with assms show ?thesis
    by (simp add: parseSessionTokenHex_def parse_hex_bytes_toHex len kSessionTokenBytes_def)
qed

section \<open>Running adb\<close>

record ReverseMapping =
  host_port :: u16
  device_port :: u16

definition default_ports :: "ReverseMapping list" where
  "default_ports = [\<lparr>host_port = kControlPort, device_port = kControlPort\<rparr>,
     \<lparr>host_port = kVideoPort, device_port = kVideoPort\<rparr>, \<lparr>host_port = kInputPort, device_port = kInputPort\<rparr>]"

definition tcp :: "u16 \<Rightarrow> string" where
  "tcp port = ''tcp:'' @ decimal (unat port)"

definition buildListDevicesArguments :: "string list" where
  "buildListDevicesArguments = [''devices'', ''-l'']"

definition buildReverseArguments :: "string \<Rightarrow> ReverseMapping \<Rightarrow> string list" where
  "buildReverseArguments serial mapping = [''-s'', serial, ''reverse'', tcp (host_port mapping), tcp (device_port mapping)]"

definition buildReverseListArguments :: "string \<Rightarrow> string list" where
  "buildReverseListArguments serial = [''-s'', serial, ''reverse'', ''--list'']"

definition buildReverseRemoveArguments :: "string \<Rightarrow> u16 \<Rightarrow> string list" where
  "buildReverseRemoveArguments serial port = [''-s'', serial, ''reverse'', ''--remove'', tcp port]"

definition makeComponent :: string where
  "makeComponent = kClientPackage @ ''/'' @ kClientActivity"

definition buildLaunchArguments :: "string \<Rightarrow> string \<Rightarrow> string list" where
  "buildLaunchArguments serial session_token_hex =
     [''-s'', serial, ''shell'', ''am'', ''start'', ''-S'', ''-n'', makeComponent, ''--es'',
      kSessionTokenIntentExtra, session_token_hex]"

definition buildStopArguments :: "string \<Rightarrow> string list" where
  "buildStopArguments serial = [''-s'', serial, ''shell'', ''am'', ''force-stop'', kClientPackage]"

definition buildRttArguments :: "string \<Rightarrow> string list" where
  "buildRttArguments serial = [''-s'', serial, ''shell'', ''echo'', ''pdb_rtt_probe'']"

definition joinError :: "ProcessResult \<Rightarrow> string" where
  "joinError result =
     (if stderr_text result \<noteq> [] then stderr_text result
      else if stdout_text result \<noteq> [] then stdout_text result
      else if cancelled result then ''ADB command cancelled''
      else if timed_out result then ''ADB command timed out''
      else if win32_error result \<noteq> 0 then ''ADB process launch failed: '' @ decimal (unat (win32_error result))
      else ''ADB command exited with code '' @ decimal (unat (exit_code result)))"

section \<open>The list of devices\<close>

datatype DeviceState = Authorized | Unauthorized | Offline | Bootloader | UnknownDevice

datatype DeviceSelectionStatus =
  SelAuthorized | SelNoDevices | SelUnauthorized | SelOffline | SelMultipleDevices | SelMixedStates
| SelUnknownState | SelCommandFailed

record DeviceInfo =
  serial :: string
  device_state :: DeviceState
  state_text :: string
  attributes :: string

record DeviceListing =
  devices :: "DeviceInfo list"
  status :: DeviceSelectionStatus
  selected :: "DeviceInfo option"
  diagnostics :: string

definition parseDeviceState :: "string \<Rightarrow> DeviceState" where
  "parseDeviceState text =
     (let lower = map to_lower text
      in if lower = ''device'' then Authorized
         else if lower = ''unauthorized'' then Unauthorized
         else if lower = ''offline'' then Offline
         else if lower = ''bootloader'' then Bootloader
         else UnknownDevice)"

definition isStandardAdbEmulator :: "string \<Rightarrow> bool" where
  "isStandardAdbEmulator s = starts_with s ''emulator-''"

definition device_line :: "string \<Rightarrow> DeviceInfo option" where
  "device_line raw =
     (let line = chop_cr raw
      in if line = [] \<or> line = ''List of devices attached'' \<or> starts_with line ''* daemon'' then None
         else (case read_word line of
             None \<Rightarrow> None
           | Some (name, r) \<Rightarrow> (case read_word r of
               None \<Rightarrow> None
             | Some (state, r) \<Rightarrow>
                 Some \<lparr>serial = name, device_state = parseDeviceState state, state_text = state,
                   attributes = (case r of c # r' \<Rightarrow> if c = CHR '' '' then r' else r | [] \<Rightarrow> [])\<rparr>)))"

definition parseDevicesOutput :: "string \<Rightarrow> DeviceListing" where
  "parseDevicesOutput output =
     (let rows = List.map_filter device_line (getlines output);
          physical = filter (\<lambda>d. \<not> isStandardAdbEmulator (serial d)) rows;
          none = \<lparr>devices = rows, status = SelNoDevices, selected = None, diagnostics = []\<rparr>
      in (case physical of
            [] \<Rightarrow> if rows \<noteq> []
                  then none\<lparr>diagnostics := ''Only standard ADB emulator devices are present; waiting for a physical device.''\<rparr>
                  else none
          | [device] \<Rightarrow> (case device_state device of
                Authorized \<Rightarrow> none\<lparr>status := SelAuthorized, selected := Some device\<rparr>
              | Unauthorized \<Rightarrow> none\<lparr>status := SelUnauthorized\<rparr>
              | Offline \<Rightarrow> none\<lparr>status := SelOffline\<rparr>
              | UnknownDevice \<Rightarrow> none\<lparr>status := SelUnknownState\<rparr>
              | Bootloader \<Rightarrow> none\<lparr>status := SelMixedStates\<rparr>)
          | _ \<Rightarrow> none\<lparr>status := SelMultipleDevices\<rparr>))"

definition listDevices :: "(string list \<Rightarrow> ProcessResult) \<Rightarrow> DeviceListing" where
  "listDevices run =
     (let process = run buildListDevicesArguments
      in if \<not> started process \<or> \<not> succeeded process
         then \<lparr>devices = [], status = SelCommandFailed, selected = None, diagnostics = joinError process\<rparr>
         else parseDevicesOutput (stdout_text process))"

definition selectSingleAuthorizedDevice :: "(string list \<Rightarrow> ProcessResult) \<Rightarrow> DeviceListing" where
  "selectSingleAuthorizedDevice run = listDevices run"

text \<open>C26: the session gets a device only if it is the one and only physical device in the list of adb
  and is authorised: then it is the selected one, and in every other case nothing is selected.\<close>

theorem selection_is_unique:
  "selected (selectSingleAuthorizedDevice run) = Some d \<longleftrightarrow>
     succeeded (run buildListDevicesArguments) \<and> device_state d = Authorized \<and>
     filter (\<lambda>d. \<not> isStandardAdbEmulator (serial d)) (devices (selectSingleAuthorizedDevice run)) = [d]"
  by (auto simp: selectSingleAuthorizedDevice_def listDevices_def parseDevicesOutput_def Let_def succeeded_def
      split: list.splits DeviceState.splits)

lemma selected_status: "status (selectSingleAuthorizedDevice run) = SelAuthorized \<longleftrightarrow>
    selected (selectSingleAuthorizedDevice run) \<noteq> None"
  by (auto simp: selectSingleAuthorizedDevice_def listDevices_def parseDevicesOutput_def Let_def
      split: list.splits DeviceState.splits)

section \<open>Reverse mappings\<close>

text \<open>The result of the last command, with the commands that were run.\<close>

fun install_mappings ::
  "(string list \<Rightarrow> ProcessResult) \<Rightarrow> string \<Rightarrow> ReverseMapping list \<Rightarrow> ProcessResult \<Rightarrow> ProcessResult \<times> string list list" where
  "install_mappings run dev [] last_result = (last_result, [])"
| "install_mappings run dev (m # ms) last_result =
     (let arguments = buildReverseArguments dev m; r = run arguments
      in if \<not> succeeded r then (r, [arguments])
         else (let (r', commands) = install_mappings run dev ms r in (r', arguments # commands)))"

definition installReverseMappings ::
  "(string list \<Rightarrow> ProcessResult) \<Rightarrow> string \<Rightarrow> ReverseMapping list \<Rightarrow> ProcessResult \<times> string list list" where
  "installReverseMappings run dev ports = install_mappings run dev ports no_result"

fun remove_mappings ::
  "(string list \<Rightarrow> ProcessResult) \<Rightarrow> string \<Rightarrow> ReverseMapping list \<Rightarrow> ProcessResult \<Rightarrow> ProcessResult \<times> string list list" where
  "remove_mappings run dev [] last_result = (last_result, [])"
| "remove_mappings run dev (m # ms) last_result =
     (let arguments = buildReverseRemoveArguments dev (host_port m);
          (r', commands) = remove_mappings run dev ms (run arguments)
      in (r', arguments # commands))"

definition removeReverseMappings ::
  "(string list \<Rightarrow> ProcessResult) \<Rightarrow> string \<Rightarrow> ReverseMapping list \<Rightarrow> ProcessResult \<times> string list list" where
  "removeReverseMappings run dev ports = remove_mappings run dev ports no_result"

lemma install_succeeded:
  "succeeded (fst (installReverseMappings run dev ports)) \<longleftrightarrow>
     ports \<noteq> [] \<and> list_all (\<lambda>m. succeeded (run (buildReverseArguments dev m))) ports"
proof -
  have "succeeded (fst (install_mappings run dev ports r)) \<longleftrightarrow>
      (if ports = [] then succeeded r else list_all (\<lambda>m. succeeded (run (buildReverseArguments dev m))) ports)" for r
    by (induction ports arbitrary: r) (auto simp: Let_def case_prod_unfold)
  then show ?thesis by (simp add: installReverseMappings_def no_result_def succeeded_def)
qed

lemma install_commands:
  "succeeded (fst (installReverseMappings run dev ports)) \<Longrightarrow>
     snd (installReverseMappings run dev ports) = map (buildReverseArguments dev) ports"
proof -
  have "list_all (\<lambda>m. succeeded (run (buildReverseArguments dev m))) ports \<Longrightarrow>
      snd (install_mappings run dev ports r) = map (buildReverseArguments dev) ports" for r
    by (induction ports arbitrary: r) (auto simp: Let_def case_prod_unfold)
  then show "succeeded (fst (installReverseMappings run dev ports)) \<Longrightarrow>
     snd (installReverseMappings run dev ports) = map (buildReverseArguments dev) ports"
    using install_succeeded [of run dev ports] by (simp add: installReverseMappings_def)
qed

lemma remove_commands:
  "snd (removeReverseMappings run dev ports) = map (\<lambda>m. buildReverseRemoveArguments dev (host_port m)) ports"
proof -
  have "snd (remove_mappings run dev ports r) = map (\<lambda>m. buildReverseRemoveArguments dev (host_port m)) ports" for r
    by (induction ports arbitrary: r) (auto simp: Let_def case_prod_unfold)
  then show ?thesis by (simp add: removeReverseMappings_def)
qed

subsection \<open>The list of mappings\<close>

text \<open>\<open>std::stoul\<close> where \<open>unsigned long\<close> has 32 bits; \<open>None\<close> when it throws.\<close>

definition stoul :: "string \<Rightarrow> nat option" where
  "stoul text =
     (let s = dropWhile is_space text;
          negative = (s \<noteq> [] \<and> hd s = CHR ''-'');
          s = (if s \<noteq> [] \<and> (hd s = CHR ''-'' \<or> hd s = CHR ''+'') then tl s else s);
          digits = takeWhile is_digit s;
          v = decimal_value digits
      in if digits = [] \<or> v \<ge> 2 ^ 32 then None
         else Some (if negative then (2 ^ 32 - v) mod 2 ^ 32 else v))"

definition isPortToken :: "string \<Rightarrow> u16 option" where
  "isPortToken token =
     (if \<not> starts_with token ''tcp:'' then None
      else let number = drop 4 token
        in if number = [] then None
           else (case stoul number of
               None \<Rightarrow> None
             | Some parsed \<Rightarrow> if parsed > 65535 then None else Some (of_nat parsed)))"

function tokens :: "string \<Rightarrow> string list" where
  "tokens s = (case read_word s of None \<Rightarrow> [] | Some (w, r) \<Rightarrow> w # tokens r)"
  by pat_completeness auto
termination
  by (relation "measure length") (auto dest: read_word_less)

declare tokens.simps [simp del]

record ReverseStatus =
  command_succeeded :: bool
  mappings :: "ReverseMapping list"
  raw_output :: string

definition mapping_of_line :: "string \<Rightarrow> ReverseMapping option" where
  "mapping_of_line line =
     (case List.map_filter isPortToken (tokens line) of
        host # device # _ \<Rightarrow> Some \<lparr>host_port = host, device_port = device\<rparr>
      | _ \<Rightarrow> None)"

definition parseReverseStatus :: "string \<Rightarrow> bool \<Rightarrow> ReverseStatus" where
  "parseReverseStatus output ok =
     \<lparr>command_succeeded = ok, mappings = List.map_filter mapping_of_line (getlines output), raw_output = output\<rparr>"

definition queryReverseStatus :: "(string list \<Rightarrow> ProcessResult) \<Rightarrow> string \<Rightarrow> ReverseStatus" where
  "queryReverseStatus run dev =
     (let process = run (buildReverseListArguments dev)
      in parseReverseStatus (stdout_text process @ stderr_text process) (succeeded process))"

lemma tcp_port_token: "isPortToken (tcp p) = Some p"
proof -
  obtain c cs where c: "decimal (unat p) = c # cs" using decimal_not_Nil by (metis neq_Nil_conv)
  have digits: "list_all is_digit (c # cs)" using decimal_digits [of "unat p"] c by simp
  then have start: "\<not> is_space c" "c \<noteq> CHR ''-''" "c \<noteq> CHR ''+''"
    by (auto simp: is_digit_def is_space_def)
  have "takeWhile is_digit (c # cs) = c # cs" using digits by (metis list_all_iff takeWhile_eq_all_conv)
  moreover have "decimal_value (c # cs) = unat p" using decimal_value_decimal [of "unat p"] c by simp
  ultimately have "stoul (c # cs) = Some (unat p)"
    using start unat_u16_le [of p] by (simp add: stoul_def Let_def)
  then show ?thesis
    using unat_u16_le [of p] by (simp add: isPortToken_def tcp_def starts_with_def c)
qed

section \<open>Finding a usable adb\<close>

definition isDigits :: "string \<Rightarrow> bool" where
  "isDigits value = (value \<noteq> [] \<and> list_all is_digit value)"

definition isVersionBase :: "string \<Rightarrow> bool" where
  "isVersionBase value = (let parts = split_on (CHR ''.'') value in length parts = 3 \<and> list_all isDigits parts)"

definition version_of_line :: "string \<Rightarrow> string option" where
  "version_of_line line =
     (let token = drop 8 line;
          base = takeWhile (\<lambda>c. c \<noteq> CHR ''-'') token;
          suffix = drop (length base) token
      in if \<not> isVersionBase base then None
         else if suffix \<noteq> [] \<and> \<not> isDigits (tl suffix) then None
         else Some base)"

definition extractPlatformToolsVersion :: "string \<Rightarrow> string option" where
  "extractPlatformToolsVersion output =
     (case find (\<lambda>line. starts_with line ''Version '') (map chop_cr (split_on (CHR 0x0A) output)) of
        None \<Rightarrow> None
      | Some line \<Rightarrow> version_of_line line)"

type_synonym path = string

record AdbExecutable =
  adb_path :: path
  platform_tools_version :: string
  bundled :: bool

record AdbLocatorOptions =
  executable_directory :: path
  bundled_candidates :: "path list"
  fallback_path :: path
  required_bundled_version :: string

record AdbLocatorResult =
  executable :: "AdbExecutable option"
  locator_diagnostics :: string

definition locatorFailure :: "path \<Rightarrow> string \<Rightarrow> string" where
  "locatorFailure p reason = ''Rejected ADB candidate '' @ [CHR 0x27] @ p @ [CHR 0x27] @ '': '' @ reason @ ''.''"

text \<open>
  The file system and the runner: \<open>regular\<close> tells whether a path is a regular file and \<open>version\<close> is the
  run of a candidate with the argument \<open>version\<close>. The result is the reason for a rejection or the version.
\<close>

definition check_candidate ::
  "(path \<Rightarrow> bool) \<Rightarrow> (path \<Rightarrow> ProcessResult) \<Rightarrow> string \<Rightarrow> path \<Rightarrow> string result" where
  "check_candidate regular version required p =
     (if \<not> regular p then Inl ''the candidate is not a regular file''
      else if \<not> succeeded (version p) then Inl ''the version command failed''
      else (case extractPlatformToolsVersion (stdout_text (version p) @ stderr_text (version p)) of
          None \<Rightarrow> Inl ''the output has no valid platform-tools Version line''
        | Some parsed \<Rightarrow>
            if parsed \<noteq> required then Inl (''reported version '' @ parsed @ '' but required '' @ required)
            else Inr parsed))"

fun try_candidates ::
  "(path \<Rightarrow> bool) \<Rightarrow> (path \<Rightarrow> ProcessResult) \<Rightarrow> string \<Rightarrow> path list \<Rightarrow> string \<Rightarrow> (path \<times> bool) list \<Rightarrow> AdbLocatorResult" where
  "try_candidates regular version required seen diag [] = \<lparr>executable = None, locator_diagnostics = diag\<rparr>"
| "try_candidates regular version required seen diag ((p, b) # cs) =
     (if p = [] \<or> p \<in> set seen then try_candidates regular version required seen diag cs
      else (case check_candidate regular version required p of
          Inl reason \<Rightarrow>
            try_candidates regular version required (p # seen) (diag @ locatorFailure p reason @ [CHR 0x0A]) cs
        | Inr v \<Rightarrow> \<lparr>executable = Some \<lparr>adb_path = p, platform_tools_version = v, bundled = b\<rparr>, locator_diagnostics = diag\<rparr>))"

text \<open>\<open>slash\<close> is the concatenation of paths.\<close>

definition candidates :: "(path \<Rightarrow> path \<Rightarrow> path) \<Rightarrow> AdbLocatorOptions \<Rightarrow> (path \<times> bool) list" where
  "candidates slash options =
     (let root = executable_directory options;
          default_places = [foldl slash root [''tools'', ''adb'', ''36.0.2'', ''adb.exe''],
            foldl slash root [''tools'', ''adb'', ''platform-tools'', ''adb.exe''],
            foldl slash root [''adb'', ''adb.exe''], foldl slash root [''platform-tools'', ''adb.exe'']];
          places = (if bundled_candidates options = [] \<and> root \<noteq> [] then default_places else bundled_candidates options)
      in map (\<lambda>p. (p, True)) places @
         (if fallback_path options \<noteq> [] then [(fallback_path options, False)] else []))"

definition locateWithDiagnostics ::
  "(path \<Rightarrow> path \<Rightarrow> path) \<Rightarrow> (path \<Rightarrow> bool) \<Rightarrow> (path \<Rightarrow> ProcessResult) \<Rightarrow> AdbLocatorOptions \<Rightarrow> AdbLocatorResult" where
  "locateWithDiagnostics slash regular version options =
     try_candidates regular version (required_bundled_version options) [] [] (candidates slash options)"

definition locate ::
  "(path \<Rightarrow> path \<Rightarrow> path) \<Rightarrow> (path \<Rightarrow> bool) \<Rightarrow> (path \<Rightarrow> ProcessResult) \<Rightarrow> AdbLocatorOptions \<Rightarrow> AdbExecutable option" where
  "locate slash regular version options = executable (locateWithDiagnostics slash regular version options)"

text \<open>What makes a candidate usable.\<close>

definition usable :: "(path \<Rightarrow> bool) \<Rightarrow> (path \<Rightarrow> ProcessResult) \<Rightarrow> string \<Rightarrow> path \<Rightarrow> bool" where
  "usable regular version required p \<longleftrightarrow> p \<noteq> [] \<and> regular p \<and> succeeded (version p) \<and>
     extractPlatformToolsVersion (stdout_text (version p) @ stderr_text (version p)) = Some required"

lemma check_candidate_usable:
  "p \<noteq> [] \<Longrightarrow> check_candidate regular version required p = Inr v \<longleftrightarrow> usable regular version required p \<and> v = required"
  by (auto simp: check_candidate_def usable_def split: option.splits)

lemma try_candidates_first:
  assumes "\<And>p. p \<in> set seen \<Longrightarrow> \<not> usable regular version required p"
  shows "executable (try_candidates regular version required seen diag cs) =
    map_option (\<lambda>(p, b). \<lparr>adb_path = p, platform_tools_version = required, bundled = b\<rparr>)
      (find (\<lambda>(p, b). usable regular version required p) cs)"
  using assms
proof (induction regular version required seen diag cs rule: try_candidates.induct)
  case (2 regular version required seen diag p b cs)
  show ?case
  proof (cases "p = [] \<or> p \<in> set seen")
    case True
    with 2(3) have "\<not> usable regular version required p" by (auto simp: usable_def)
    with True 2(1) [OF True] 2(3) show ?thesis by simp
  next
    case False
    show ?thesis
    proof (cases "check_candidate regular version required p")
      case (Inl e)
      then have "\<not> usable regular version required p"
        using False check_candidate_usable [of p regular version required required] by auto
      with 2(2) [OF False Inl] 2(3) Inl False show ?thesis by auto
    next
      case (Inr v)
      with False check_candidate_usable [of p regular version required v] show ?thesis by simp
    qed
  qed
qed simp

text \<open>The adb that is used is the first candidate, bundled ones before the fallback, that is a regular
  file, runs, and reports exactly the required version; none is used only if there is none.\<close>

lemma locate_is_first_usable:
  "locate slash regular version options =
    map_option (\<lambda>(p, b). \<lparr>adb_path = p, platform_tools_version = required_bundled_version options, bundled = b\<rparr>)
      (find (\<lambda>(p, b). usable regular version (required_bundled_version options) p) (candidates slash options))"
  using try_candidates_first [of "[]"] by (simp add: locate_def locateWithDiagnostics_def)

end
