(* ===== verification/Backoff.thy ===== *)
theory Backoff
  imports Prelude
begin

text \<open>
  \<open>adb/backoff.h\<close> and \<open>adb/backoff.cpp\<close>: the delay before the next attempt to connect, and
  \<open>ClientHandshakeWatchdog\<close> of \<open>app/client_handshake_watchdog.h\<close>. Durations are milliseconds, those of a
  policy not negative.
\<close>

record BackoffPolicy =
  initial_delay :: nat
  maximum_delay :: nat
  multiplier :: nat

definition default_policy :: BackoffPolicy where
  "default_policy = \<lparr>initial_delay = 250, maximum_delay = 8000, multiplier = 2\<rparr>"

record ReconnectBackoff =
  policy :: BackoffPolicy
  attempts :: nat

definition reconnect_backoff :: "BackoffPolicy \<Rightarrow> ReconnectBackoff" where
  "reconnect_backoff p =
     (let p = (if multiplier p = 0 then p\<lparr>multiplier := 1\<rparr> else p);
          p = (if maximum_delay p < initial_delay p then p\<lparr>maximum_delay := initial_delay p\<rparr> else p)
      in \<lparr>policy = p, attempts = 0\<rparr>)"

fun delay_loop :: "BackoffPolicy \<Rightarrow> nat \<Rightarrow> nat \<Rightarrow> nat" where
  "delay_loop p delay 0 = min delay (maximum_delay p)"
| "delay_loop p delay (Suc n) =
     (if delay \<ge> maximum_delay p \<or> delay > maximum_delay p div multiplier p then maximum_delay p
      else delay_loop p (delay * multiplier p) n)"

definition delay_for_attempt :: "ReconnectBackoff \<Rightarrow> nat \<Rightarrow> nat" where
  "delay_for_attempt b zero_based_attempt = delay_loop (policy b) (initial_delay (policy b)) zero_based_attempt"

definition backoff_reset :: "ReconnectBackoff \<Rightarrow> ReconnectBackoff" where
  "backoff_reset b = b\<lparr>attempts := 0\<rparr>"

definition next_delay :: "ReconnectBackoff \<Rightarrow> nat" where
  "next_delay b = delay_for_attempt b (if attempts b = 0 then 0 else attempts b - 1)"

definition record_failure :: "ReconnectBackoff \<Rightarrow> ReconnectBackoff" where
  "record_failure b = (if attempts b \<noteq> 2 ^ 64 - 1 then b\<lparr>attempts := attempts b + 1\<rparr> else b)"

lemma delay_loop_closed:
  assumes "1 \<le> multiplier p"
  shows "delay_loop p delay n = min (delay * multiplier p ^ n) (maximum_delay p)"
proof (induction n arbitrary: delay)
  case (Suc n)
  have pow: "1 \<le> multiplier p ^ k" for k using assms by simp
  show ?case
  proof (cases "delay \<ge> maximum_delay p \<or> delay > maximum_delay p div multiplier p")
    case True
    have "maximum_delay p \<le> delay * multiplier p ^ Suc n"
    proof (cases "delay \<ge> maximum_delay p")
      case True
      with pow [of "Suc n"] show ?thesis by (metis le_trans mult.right_neutral mult_le_mono)
    next
      case False
      with True have "maximum_delay p < delay * multiplier p"
        using assms by (simp add: div_less_iff_less_mult)
      with pow [of n] have "maximum_delay p \<le> delay * multiplier p * multiplier p ^ n"
        by (metis le_trans less_imp_le mult.right_neutral mult_le_mono)
      then show ?thesis by (simp add: mult.assoc)
    qed
    with True show ?thesis by auto
  next
    case False
    then show ?thesis by (simp add: Suc mult.assoc)
  qed
qed simp

text \<open>The delay before a retry is the initial delay times the multiplier to the power of the failures
  before it, cut at the maximum; the loop that stops early to avoid an overflow computes exactly that.\<close>

lemma backoff_delay:
  "next_delay (b\<lparr>policy := policy (reconnect_backoff p)\<rparr>) =
    min (initial_delay p * (max 1 (multiplier p)) ^ (attempts b - 1)) (max (initial_delay p) (maximum_delay p))"
proof -
  let ?q = "policy (reconnect_backoff p)"
  have "1 \<le> multiplier ?q" by (simp add: reconnect_backoff_def Let_def)
  moreover have "initial_delay ?q = initial_delay p" "multiplier ?q = max 1 (multiplier p)"
    "maximum_delay ?q = max (initial_delay p) (maximum_delay p)"
    by (auto simp: reconnect_backoff_def Let_def max_def)
  ultimately show ?thesis
    by (simp add: next_delay_def delay_for_attempt_def delay_loop_closed)
qed

lemma next_delay_le: "1 \<le> multiplier (policy b) \<Longrightarrow> next_delay b \<le> maximum_delay (policy b)"
  by (simp add: next_delay_def delay_for_attempt_def delay_loop_closed)

section \<open>Waiting for the client\<close>

text \<open>\<open>Observe\<close> returns whether the client has to be launched again, with the new time since when it waits.\<close>

definition watchdog_observe :: "int \<Rightarrow> bool \<Rightarrow> bool \<Rightarrow> int \<Rightarrow> int option \<Rightarrow> bool \<times> int option" where
  "watchdog_observe timeout adb_connected client_session_active now waiting_since =
     (if \<not> adb_connected \<or> client_session_active then (False, None)
      else (case waiting_since of
          None \<Rightarrow> (False, Some now)
        | Some since \<Rightarrow> if now - since < timeout then (False, Some since) else (True, Some now)))"

text \<open>The observations of a run and what the watchdog answered to each.\<close>

fun watchdog_run :: "int \<Rightarrow> int option \<Rightarrow> (bool \<times> bool \<times> int) list \<Rightarrow> bool list \<times> int option" where
  "watchdog_run timeout w [] = ([], w)"
| "watchdog_run timeout w ((c, a, now) # obs) =
     (let (fired, w) = watchdog_observe timeout c a now w;
          (rest, w) = watchdog_run timeout w obs
      in (fired # rest, w))"

lemma watchdog_append:
  "watchdog_run timeout w (xs @ ys) =
     (let (fired, w) = watchdog_run timeout w xs; (fired', w) = watchdog_run timeout w ys in (fired @ fired', w))"
  by (induction timeout w xs rule: watchdog_run.induct) (auto split: prod.splits)

lemma watchdog_waits:
  assumes "list_all (\<lambda>(c, a, t). c \<and> \<not> a \<and> t - since < timeout) obs"
  shows "watchdog_run timeout (Some since) obs = (replicate (length obs) False, Some since)"
  using assms by (induction obs) (auto simp: watchdog_observe_def)

text \<open>The watchdog fires exactly when the client has been missing for the whole timeout: from the first
  observation without a client it stays silent, and it fires at the first one that is not earlier than
  the timeout.\<close>

lemma watchdog_fires_after_timeout:
  assumes "list_all (\<lambda>(c, a, t). c \<and> \<not> a \<and> t - now < timeout) obs"
    and "timeout \<le> later - now"
  shows "fst (watchdog_run timeout None ((True, False, now) # obs @ [(True, False, later)])) =
    False # replicate (length obs) False @ [True]"
  using assms(2) watchdog_waits [OF assms(1)] by (simp add: watchdog_append watchdog_observe_def)

end
