(* ===== verification/AdbSession.thy ===== *)
theory AdbSession
  imports AdbClient Backoff
begin

text \<open>
  \<open>AdbSession\<close> of \<open>adb/session.h\<close> and \<open>adb/session.cpp\<close>. Several threads call it, so the model is a machine
  whose steps are the sections under the mutex, in any order the threads allow: the thread that connects
  is at a point \<open>pc\<close> of \<open>AttemptConnect\<close> or \<open>Tick\<close>, while \<open>NotifyChannelLoss\<close> and the two sections of \<open>Stop\<close>
  may come between any two of its steps. What the clock, the random generator and adb answer is part of
  the step.
\<close>

section \<open>State\<close>

datatype SessionState = Stopped | Starting | Connected | Reconnecting | Stopping

record Session =
  sess_state :: SessionState
  sess_serial :: string
  last_error :: string
  next_retry :: int
  reconnect_attempt :: nat
  sess_backoff :: ReconnectBackoff
  stop_source_requested :: bool
  shutdown_requested :: bool
  session_token :: "SessionToken option"
  authentication_armed :: bool
  last_health_check :: int

definition session_init :: "BackoffPolicy \<Rightarrow> Session" where
  "session_init p = \<lparr>sess_state = Stopped, sess_serial = [], last_error = [], next_retry = 0, reconnect_attempt = 0,
     sess_backoff = reconnect_backoff p, stop_source_requested = False, shutdown_requested = False,
     session_token = None, authentication_armed = False, last_health_check = 0\<rparr>"

definition health_check_interval :: int where "health_check_interval = 1000"

definition revoke :: "Session \<Rightarrow> Session" where
  "revoke s = s\<lparr>authentication_armed := False, session_token := None\<rparr>"

definition begin_attempt :: "Session \<Rightarrow> Session" where
  "begin_attempt s = (revoke s)\<lparr>sess_state := Starting, stop_source_requested := False\<rparr>"

section \<open>The sections under the mutex\<close>

text \<open>What \<open>Start\<close> and \<open>Tick\<close> decide.\<close>

datatype decision = DoReturn | DoHealthCheck string | DoConnect

definition start_section :: "Session \<Rightarrow> decision \<times> Session" where
  "start_section s =
     (if shutdown_requested s \<or> sess_state s = Connected \<or> sess_state s = Starting \<or> sess_state s = Stopping
      then (DoReturn, s) else (DoConnect, begin_attempt s))"

definition tick_section :: "int \<Rightarrow> Session \<Rightarrow> decision \<times> Session" where
  "tick_section now s =
     (if shutdown_requested s then (DoReturn, s)
      else if sess_state s = Connected then
        (if now < last_health_check s + health_check_interval then (DoReturn, s)
         else (DoHealthCheck (sess_serial s), s\<lparr>last_health_check := now\<rparr>))
      else if sess_state s \<noteq> Reconnecting \<or> now < next_retry s then (DoReturn, s)
      else (DoConnect, begin_attempt s))"

definition reconnect_later :: "int \<Rightarrow> string \<Rightarrow> Session \<Rightarrow> Session" where
  "reconnect_later now error s =
     (let b = record_failure (sess_backoff s)
      in s\<lparr>sess_backoff := b, sess_state := Reconnecting, last_error := error, reconnect_attempt := attempts b,
            next_retry := now + int (next_delay b)\<rparr>)"

definition schedule_reconnect :: "int \<Rightarrow> string \<Rightarrow> Session \<Rightarrow> Session" where
  "schedule_reconnect now error s =
     (if shutdown_requested s then (revoke s)\<lparr>sess_state := Stopped\<rparr>
      else reconnect_later now error (revoke s))"

definition cleanup_remote :: "bool \<Rightarrow> Session \<Rightarrow> string list list" where
  "cleanup_remote stop_android_client s =
     (if sess_serial s = [] then []
      else (if stop_android_client then [buildStopArguments (sess_serial s)] else []) @
        snd (removeReverseMappings (\<lambda>_. no_result) (sess_serial s) default_ports))"

text \<open>\<open>NotifyChannelLoss\<close>, with the commands it then gives to adb.\<close>

definition notify_channel_loss :: "int \<Rightarrow> string \<Rightarrow> Session \<Rightarrow> Session \<times> string list list" where
  "notify_channel_loss now reason s =
     (if shutdown_requested s \<or> sess_state s = Stopped then (s, [])
      else (let s' = reconnect_later now reason (revoke (s\<lparr>stop_source_requested := True\<rparr>))
            in (s', if sess_serial s \<noteq> [] then cleanup_remote True s' else [])))"

text \<open>The first section of \<open>Stop\<close>, \<open>None\<close> when it returns at once, and its second one.\<close>

definition stop_section :: "Session \<Rightarrow> (Session \<times> string list list) option" where
  "stop_section s =
     (if shutdown_requested s \<and> sess_state s = Stopped then None
      else (let s' = (revoke s)\<lparr>shutdown_requested := True, sess_state := Stopping, stop_source_requested := True\<rparr>
            in Some (s', if sess_serial s \<noteq> [] then cleanup_remote True s' else [])))"

definition stopped_section :: "Session \<Rightarrow> Session" where
  "stopped_section s = s\<lparr>sess_state := Stopped, sess_serial := [], next_retry := 0, last_health_check := 0\<rparr>"

definition selection_error :: "DeviceListing \<Rightarrow> string" where
  "selection_error listing =
     (if diagnostics listing \<noteq> [] then diagnostics listing
      else (case status listing of
          SelNoDevices \<Rightarrow> ''no ADB device''
        | SelUnauthorized \<Rightarrow> ''ADB device unauthorized''
        | SelOffline \<Rightarrow> ''ADB device offline''
        | SelMultipleDevices \<Rightarrow> ''multiple ADB devices''
        | SelMixedStates \<Rightarrow> ''ADB device is not ready''
        | SelUnknownState \<Rightarrow> ''unknown ADB device state''
        | SelCommandFailed \<Rightarrow> ''ADB device listing failed''
        | SelAuthorized \<Rightarrow> []))"

definition error_or :: "string \<Rightarrow> ProcessResult \<Rightarrow> string" where
  "error_or fallback r = (if stderr_text r = [] then fallback else stderr_text r)"

text \<open>The comparison of the 32 bytes that always reads all of them.\<close>

definition token_difference :: "u8 list \<Rightarrow> u8 list \<Rightarrow> u8" where
  "token_difference given expected =
     foldl (\<lambda>difference i. difference OR (given ! i XOR expected ! i)) 0 [0..<kSessionTokenBytes]"

definition validateSessionToken :: "Session \<Rightarrow> u8 list \<Rightarrow> bool" where
  "validateSessionToken s given =
     (let launch_is_in_progress = (sess_state s = Starting \<and> authentication_armed s);
          session_is_connected = (sess_state s = Connected \<and> authentication_armed s)
      in (case session_token s of
            None \<Rightarrow> False
          | Some expected \<Rightarrow>
              if \<not> launch_is_in_progress \<and> \<not> session_is_connected \<or> length given \<noteq> kSessionTokenBytes then False
              else token_difference given expected = 0))"

section \<open>The machine\<close>

datatype point = Idle | Selecting | Mapping string | Generating string | Launching string SessionToken | HealthCheck string

record conf =
  sess :: Session
  pc :: point
  stops :: nat
  issued :: "string list list"

type_synonym runner = "string list \<Rightarrow> ProcessResult"

datatype session_event =
    StartCalled
  | TickCalled int
  | Listed runner int
  | Mapped runner int
  | Generated "SessionToken option" int
  | Launched runner int
  | HealthChecked runner int
  | ChannelLoss string int
  | StopBegun
  | StopEnded

definition enter :: "decision \<times> Session \<Rightarrow> conf \<Rightarrow> conf" where
  "enter d c = c\<lparr>sess := snd d, pc := (case fst d of DoReturn \<Rightarrow> Idle | DoHealthCheck ser \<Rightarrow> HealthCheck ser | DoConnect \<Rightarrow> Selecting)\<rparr>"

definition fail_attempt :: "int \<Rightarrow> string \<Rightarrow> conf \<Rightarrow> conf" where
  "fail_attempt now error c = c\<lparr>sess := schedule_reconnect now error (sess c), pc := Idle\<rparr>"

definition issue :: "string list list \<Rightarrow> conf \<Rightarrow> conf" where
  "issue cmds c = c\<lparr>issued := issued c @ cmds\<rparr>"

definition lose_channel :: "int \<Rightarrow> string \<Rightarrow> conf \<Rightarrow> conf" where
  "lose_channel now reason c =
     (let (s, cmds) = notify_channel_loss now reason (sess c) in issue cmds (c\<lparr>sess := s\<rparr>))"

definition listed_step :: "runner \<Rightarrow> int \<Rightarrow> conf \<Rightarrow> conf" where
  "listed_step run now c =
     (let listing = selectSingleAuthorizedDevice run; c = issue [buildListDevicesArguments] c
      in (case selected listing of
            Some d \<Rightarrow> if status listing \<noteq> SelAuthorized then fail_attempt now (selection_error listing) c
                      else c\<lparr>sess := (sess c)\<lparr>sess_serial := serial d\<rparr>, pc := Mapping (serial d)\<rparr>
          | None \<Rightarrow> fail_attempt now (selection_error listing) c))"

definition mapped_step :: "runner \<Rightarrow> int \<Rightarrow> string \<Rightarrow> conf \<Rightarrow> conf" where
  "mapped_step run now ser c =
     (let (r, cmds) = installReverseMappings run ser default_ports; c = issue cmds c
      in if \<not> succeeded r then fail_attempt now (error_or ''ADB reverse setup failed'' r) c
         else c\<lparr>pc := Generating ser\<rparr>)"

definition generated_step :: "SessionToken option \<Rightarrow> int \<Rightarrow> string \<Rightarrow> conf \<Rightarrow> conf" where
  "generated_step generated now ser c =
     (case generated of
        None \<Rightarrow> fail_attempt now ''cryptographic session token generation failed'' c
      | Some token \<Rightarrow>
          if shutdown_requested (sess c) \<or> sess_state (sess c) \<noteq> Starting then c\<lparr>pc := Idle\<rparr>
          else c\<lparr>sess := (sess c)\<lparr>session_token := Some token, authentication_armed := True\<rparr>, pc := Launching ser token\<rparr>)"

definition launched_step :: "runner \<Rightarrow> int \<Rightarrow> string \<Rightarrow> SessionToken \<Rightarrow> conf \<Rightarrow> conf" where
  "launched_step run now ser token c =
     (let arguments = buildLaunchArguments ser (sessionTokenToHex token); r = run arguments; c = issue [arguments] c; s = sess c
      in if \<not> succeeded r then fail_attempt now (error_or ''Android client launch failed'' r) c
         else if shutdown_requested s \<or> sess_state s \<noteq> Starting \<or> \<not> authentication_armed s then c\<lparr>pc := Idle\<rparr>
         else c\<lparr>sess := s\<lparr>sess_state := Connected, last_error := [], next_retry := 0, reconnect_attempt := 0,
                  sess_backoff := backoff_reset (sess_backoff s), last_health_check := now\<rparr>, pc := Idle\<rparr>)"

definition health_step :: "runner \<Rightarrow> int \<Rightarrow> string \<Rightarrow> conf \<Rightarrow> conf" where
  "health_step run now ser c =
     (let listing = selectSingleAuthorizedDevice run; c = (issue [buildListDevicesArguments] c)\<lparr>pc := Idle\<rparr>
      in if status listing \<noteq> SelAuthorized \<or> map_option serial (selected listing) \<noteq> Some ser
         then lose_channel now ''ADB health check failed; reconnecting authorized device'' c
         else c)"

text \<open>\<open>None\<close> where no thread is at the point of the event. A token is an array of 32 bytes.\<close>

fun session_step :: "session_event \<Rightarrow> conf \<Rightarrow> conf option" where
  "session_step StartCalled c = (if pc c = Idle then Some (enter (start_section (sess c)) c) else None)"
| "session_step (TickCalled now) c = (if pc c = Idle then Some (enter (tick_section now (sess c)) c) else None)"
| "session_step (Listed run now) c = (if pc c = Selecting then Some (listed_step run now c) else None)"
| "session_step (Mapped run now) c = (case pc c of Mapping ser \<Rightarrow> Some (mapped_step run now ser c) | _ \<Rightarrow> None)"
| "session_step (Generated generated now) c =
     (case pc c of
        Generating ser \<Rightarrow>
          if pred_option (\<lambda>t. length t = kSessionTokenBytes) generated then Some (generated_step generated now ser c) else None
      | _ \<Rightarrow> None)"
| "session_step (Launched run now) c =
     (case pc c of Launching ser token \<Rightarrow> Some (launched_step run now ser token c) | _ \<Rightarrow> None)"
| "session_step (HealthChecked run now) c =
     (case pc c of HealthCheck ser \<Rightarrow> Some (health_step run now ser c) | _ \<Rightarrow> None)"
| "session_step (ChannelLoss reason now) c = Some (lose_channel now reason c)"
| "session_step StopBegun c =
     (case stop_section (sess c) of
        None \<Rightarrow> Some c
      | Some (s, cmds) \<Rightarrow> Some (issue cmds (c\<lparr>sess := s, stops := Suc (stops c)\<rparr>)))"
| "session_step StopEnded c =
     (if stops c = 0 then None else Some (c\<lparr>sess := stopped_section (sess c), stops := stops c - 1\<rparr>))"

definition conf_init :: "BackoffPolicy \<Rightarrow> conf" where
  "conf_init p = \<lparr>sess = session_init p, pc = Idle, stops = 0, issued = []\<rparr>"

fun session_run :: "session_event list \<Rightarrow> conf \<Rightarrow> conf option" where
  "session_run [] c = Some c"
| "session_run (e # es) c = (case session_step e c of None \<Rightarrow> None | Some c' \<Rightarrow> session_run es c')"

lemma session_run_append:
  "session_run (es @ fs) c = (case session_run es c of None \<Rightarrow> None | Some c' \<Rightarrow> session_run fs c')"
  by (induction es arbitrary: c) (simp_all split: option.split)

lemma session_run_induct [consumes 1, case_names init step]:
  assumes "session_run es c0 = Some c"
    and "P [] c0"
    and "\<And>es e c c'. session_run es c0 = Some c \<Longrightarrow> P es c \<Longrightarrow> session_step e c = Some c' \<Longrightarrow> P (es @ [e]) c'"
  shows "P es c"
  using assms(1)
proof (induction es arbitrary: c rule: rev_induct)
  case Nil
  with assms(2) show ?case by simp
next
  case (snoc e es)
  from snoc.prems obtain d where d: "session_run es c0 = Some d" "session_step e d = Some c"
    by (auto simp: session_run_append split: option.splits)
  from assms(3) [OF d(1) snoc.IH [OF d(1)] d(2)] show ?case .
qed

section \<open>What every reachable state keeps\<close>

definition sess_ok :: "Session \<Rightarrow> bool" where
  "sess_ok s \<longleftrightarrow>
     (authentication_armed s \<longleftrightarrow> session_token s \<noteq> None) \<and>
     (authentication_armed s \<longrightarrow> sess_state s = Starting \<or> sess_state s = Connected) \<and>
     (sess_state s = Connected \<longrightarrow> authentication_armed s) \<and>
     pred_option (\<lambda>t. length t = kSessionTokenBytes) (session_token s) \<and>
     (shutdown_requested s \<longrightarrow> sess_state s = Stopping \<or> sess_state s = Stopped)"

text \<open>Before the token of the attempt is published none is valid, and after it no other one.\<close>

fun early :: "point \<Rightarrow> bool" where
  "early Selecting \<longleftrightarrow> True"
| "early (Mapping ser) \<longleftrightarrow> True"
| "early (Generating ser) \<longleftrightarrow> True"
| "early _ \<longleftrightarrow> False"

definition launch_ok :: "conf \<Rightarrow> bool" where
  "launch_ok c \<longleftrightarrow> (early (pc c) \<longrightarrow> \<not> authentication_armed (sess c)) \<and> (case pc c of
     Launching ser token \<Rightarrow> authentication_armed (sess c) \<longrightarrow> session_token (sess c) = Some token
   | _ \<Rightarrow> True)"

definition stops_ok :: "conf \<Rightarrow> bool" where
  "stops_ok c \<longleftrightarrow> (0 < stops c \<longrightarrow> shutdown_requested (sess c)) \<and>
     (shutdown_requested (sess c) \<and> stops c = 0 \<longrightarrow> sess_state (sess c) = Stopped)"

lemmas section_defs = start_section_def tick_section_def begin_attempt_def reconnect_later_def schedule_reconnect_def
  notify_channel_loss_def stop_section_def stopped_section_def revoke_def

text \<open>One lemma for each section.\<close>

named_theorems sections \<open>what the sections under the mutex keep\<close>

lemma begin_attempt_keeps:
  "\<not> shutdown_requested s \<Longrightarrow> sess_ok (begin_attempt s)"
  by (simp add: section_defs sess_ok_def)

lemma start_keeps [sections]:
  assumes "sess_ok s"
  shows "sess_ok (snd (start_section s))" "shutdown_requested (snd (start_section s)) = shutdown_requested s"
    "shutdown_requested s \<Longrightarrow> snd (start_section s) = s"
  using assms begin_attempt_keeps [of s]
  by (simp_all add: start_section_def) (simp add: begin_attempt_def revoke_def)

lemma tick_keeps [sections]:
  assumes "sess_ok s"
  shows "sess_ok (snd (tick_section now s))" "shutdown_requested (snd (tick_section now s)) = shutdown_requested s"
    "shutdown_requested s \<Longrightarrow> snd (tick_section now s) = s"
  using assms by (auto simp: section_defs sess_ok_def)

lemma schedule_keeps [sections]:
  assumes "sess_ok s"
  shows "sess_ok (schedule_reconnect now e s)" "shutdown_requested (schedule_reconnect now e s) = shutdown_requested s"
    "shutdown_requested s \<Longrightarrow> sess_state (schedule_reconnect now e s) = Stopped"
    "\<not> authentication_armed (schedule_reconnect now e s)"
  using assms by (auto simp: section_defs sess_ok_def Let_def)

lemma notify_keeps [sections]:
  assumes "sess_ok s"
  shows "sess_ok (fst (notify_channel_loss now e s))"
    "shutdown_requested (fst (notify_channel_loss now e s)) = shutdown_requested s"
    "shutdown_requested s \<Longrightarrow> fst (notify_channel_loss now e s) = s"
    "\<not> authentication_armed (fst (notify_channel_loss now e s))"
proof -
  let ?lost = "reconnect_later now e (revoke (s\<lparr>stop_source_requested := True\<rparr>))"
  have lost: "sess_ok ?lost" "shutdown_requested ?lost = shutdown_requested s" "\<not> authentication_armed ?lost"
    if "\<not> shutdown_requested s"
    using that by (simp_all add: reconnect_later_def revoke_def sess_ok_def Let_def)
  have cases: "fst (notify_channel_loss now e s) =
      (if shutdown_requested s \<or> sess_state s = Stopped then s else ?lost)"
    by (simp add: notify_channel_loss_def Let_def)
  show "sess_ok (fst (notify_channel_loss now e s))" using assms lost by (simp add: cases)
  show "shutdown_requested (fst (notify_channel_loss now e s)) = shutdown_requested s"
    using lost by (simp add: cases)
  show "shutdown_requested s \<Longrightarrow> fst (notify_channel_loss now e s) = s" by (simp add: cases)
  have "\<not> authentication_armed s" if "shutdown_requested s \<or> sess_state s = Stopped"
    using assms that by (auto simp: sess_ok_def)
  with lost show "\<not> authentication_armed (fst (notify_channel_loss now e s))" by (simp add: cases)
qed

lemma stop_keeps [sections]:
  assumes "sess_ok s" and "stop_section s = Some (s', cmds)"
  shows "sess_ok s'" "shutdown_requested s'" "\<not> authentication_armed s'"
  using assms by (auto simp: section_defs sess_ok_def Let_def split: if_splits)

lemma stopped_keeps [sections]:
  assumes "sess_ok s" and "shutdown_requested s"
  shows "sess_ok (stopped_section s)" "shutdown_requested (stopped_section s)" "sess_state (stopped_section s) = Stopped"
  using assms by (auto simp: section_defs sess_ok_def)

text \<open>What a step of the machine does to the session: it runs one section, or sets the serial, publishes a token
  or completes the launch.\<close>

inductive session_change :: "session_event \<Rightarrow> conf \<Rightarrow> conf \<Rightarrow> bool" where
  start: "pc c = Idle \<Longrightarrow> sess c' = snd (start_section (sess c)) \<Longrightarrow>
    pc c' = Idle \<or> pc c' = Selecting \<and> \<not> authentication_armed (sess c') \<Longrightarrow>
    stops c' = stops c \<Longrightarrow> session_change StartCalled c c'"
| tick: "pc c = Idle \<Longrightarrow> sess c' = snd (tick_section now (sess c)) \<Longrightarrow> (\<forall>ser token. pc c' \<noteq> Launching ser token) \<Longrightarrow>
    (early (pc c') \<longrightarrow> \<not> authentication_armed (sess c')) \<Longrightarrow>
    stops c' = stops c \<Longrightarrow> session_change (TickCalled now) c c'"
| failed: "sess c' = schedule_reconnect now error (sess c) \<Longrightarrow> pc c' = Idle \<Longrightarrow> stops c' = stops c \<Longrightarrow>
    (\<forall>t n. e \<noteq> ChannelLoss t n) \<Longrightarrow> e \<noteq> StopBegun \<Longrightarrow> session_change e c c'"
| serial: "sess c' = (sess c)\<lparr>sess_serial := ser\<rparr> \<Longrightarrow> pc c' = Mapping ser \<Longrightarrow> pc c = Selecting \<Longrightarrow>
    stops c' = stops c \<Longrightarrow> session_change (Listed run now) c c'"
| same: "sess c' = sess c \<Longrightarrow> (\<forall>ser token. pc c' \<noteq> Launching ser token) \<or> pc c' = pc c \<Longrightarrow> stops c' = stops c \<Longrightarrow>
    (early (pc c') \<longrightarrow> early (pc c)) \<Longrightarrow> (\<forall>t n. e \<noteq> ChannelLoss t n) \<Longrightarrow> e \<noteq> StopBegun \<Longrightarrow> session_change e c c'"
| publish: "\<not> shutdown_requested (sess c) \<Longrightarrow> sess_state (sess c) = Starting \<Longrightarrow> length token = kSessionTokenBytes \<Longrightarrow>
    sess c' = (sess c)\<lparr>session_token := Some token, authentication_armed := True\<rparr> \<Longrightarrow> pc c' = Launching ser token \<Longrightarrow>
    pc c = Generating ser \<Longrightarrow> stops c' = stops c \<Longrightarrow> session_change (Generated (Some token) now) c c'"
| launched: "\<not> shutdown_requested (sess c) \<Longrightarrow> sess_state (sess c) = Starting \<Longrightarrow> authentication_armed (sess c) \<Longrightarrow>
    sess c' = (sess c)\<lparr>sess_state := Connected, last_error := [], next_retry := 0, reconnect_attempt := 0,
      sess_backoff := backoff_reset (sess_backoff (sess c)), last_health_check := now\<rparr> \<Longrightarrow>
    pc c = Launching ser token \<Longrightarrow> pc c' = Idle \<Longrightarrow> stops c' = stops c \<Longrightarrow> session_change (Launched run now) c c'"
| lost: "sess c' = fst (notify_channel_loss now error (sess c)) \<Longrightarrow> pc c' = pc c \<or> pc c' = Idle \<Longrightarrow> stops c' = stops c \<Longrightarrow>
    e \<noteq> StopBegun \<Longrightarrow> session_change e c c'"
| stop: "stop_section (sess c) = Some (sess c', cmds) \<Longrightarrow> pc c' = pc c \<Longrightarrow> stops c' = Suc (stops c) \<Longrightarrow>
    session_change StopBegun c c'"
| stop_again: "stop_section (sess c) = None \<Longrightarrow> c' = c \<Longrightarrow> session_change StopBegun c c'"
| stopped: "stops c \<noteq> 0 \<Longrightarrow> sess c' = stopped_section (sess c) \<Longrightarrow> pc c' = pc c \<Longrightarrow> stops c' = stops c - 1 \<Longrightarrow>
    session_change StopEnded c c'"

lemmas step_defs = enter_def fail_attempt_def issue_def lose_channel_def listed_step_def mapped_step_def
  generated_step_def launched_step_def health_step_def

lemma lose_channel_change:
  "c' = lose_channel now reason d \<Longrightarrow> sess d = sess c \<Longrightarrow> stops d = stops c \<Longrightarrow> pc d = pc c \<or> pc d = Idle \<Longrightarrow>
     e \<noteq> StopBegun \<Longrightarrow> session_change e c c'"
  by (rule session_change.lost [of _ now reason]) (simp_all add: lose_channel_def issue_def split: prod.split)

lemma session_step_change:
  assumes "session_step e c = Some c'"
  shows "session_change e c c'"
proof (cases e)
  case StartCalled
  with assms show ?thesis
    by (auto simp: enter_def start_section_def begin_attempt_def revoke_def split: if_splits intro!: session_change.start)
next
  case (TickCalled now)
  with assms show ?thesis
    by (auto simp: enter_def tick_section_def begin_attempt_def revoke_def split: if_splits decision.splits
        intro!: session_change.tick)
next
  case (Listed run now)
  with assms show ?thesis
    by (auto simp: listed_step_def fail_attempt_def issue_def Let_def split: if_splits option.splits
        intro: session_change.failed session_change.serial)
next
  case (Mapped run now)
  with assms show ?thesis
    by (auto simp: mapped_step_def fail_attempt_def issue_def Let_def split: if_splits point.splits prod.splits
        intro: session_change.failed session_change.same)
next
  case (Generated g now)
  with assms show ?thesis
    by (auto simp: generated_step_def fail_attempt_def split: if_splits point.splits option.splits
        intro: session_change.failed session_change.same session_change.publish)
next
  case (Launched run now)
  with assms show ?thesis
    by (auto simp: launched_step_def fail_attempt_def issue_def Let_def split: if_splits point.splits
        intro: session_change.failed session_change.same session_change.launched)
next
  case (HealthChecked run now)
  with assms obtain ser where c': "c' = health_step run now ser c" by (auto split: point.splits)
  let ?l = "selectSingleAuthorizedDevice run"
  show ?thesis
  proof (cases "status ?l \<noteq> SelAuthorized \<or> map_option serial (selected ?l) \<noteq> Some ser")
    case True
    then show ?thesis
      unfolding HealthChecked
      by (intro lose_channel_change [of _ now "''ADB health check failed; reconnecting authorized device''"
            "(issue [buildListDevicesArguments] c)\<lparr>pc := Idle\<rparr>"])
        (simp_all add: c' health_step_def issue_def Let_def)
  next
    case False
    then have "c' = (issue [buildListDevicesArguments] c)\<lparr>pc := Idle\<rparr>"
      by (auto simp: c' health_step_def Let_def)
    then show ?thesis
      unfolding HealthChecked by (intro session_change.same) (simp_all add: issue_def)
  qed
next
  case (ChannelLoss reason now)
  with assms show ?thesis by (auto intro!: lose_channel_change)
next
  case StopBegun
  with assms show ?thesis
    by (auto simp: issue_def split: option.splits prod.splits intro: session_change.stop session_change.stop_again)
next
  case StopEnded
  with assms show ?thesis by (auto split: if_splits intro: session_change.stopped)
qed

lemma invariants_step:
  assumes "session_change e c c'" and "sess_ok (sess c)" and "launch_ok c" and "stops_ok c"
  shows "sess_ok (sess c') \<and> launch_ok c' \<and> stops_ok c'"
  using assms
proof cases
  case start
  with assms(2-4) sections(1-3) [of "sess c"] show ?thesis
    by (auto simp: launch_ok_def stops_ok_def)
next
  case (tick now)
  with assms(2-4) tick_keeps [of "sess c" now] show ?thesis
    by (auto simp: launch_ok_def stops_ok_def split: point.splits)
next
  case (failed now error)
  with assms(2-4) schedule_keeps [of "sess c" now error] show ?thesis
    by (auto simp: launch_ok_def stops_ok_def)
next
  case (serial ser run now)
  with assms(2-4) show ?thesis by (auto simp: launch_ok_def stops_ok_def sess_ok_def)
next
  case same
  with assms(2-4) show ?thesis by (auto simp: launch_ok_def stops_ok_def split: point.splits)
next
  case (publish token ser now)
  with assms(2-4) show ?thesis by (auto simp: launch_ok_def stops_ok_def sess_ok_def)
next
  case (launched now ser token run)
  with assms(2-4) show ?thesis by (auto simp: launch_ok_def stops_ok_def sess_ok_def)
next
  case (lost now error)
  with assms(2-4) notify_keeps [of "sess c" now error] show ?thesis
    by (auto simp: launch_ok_def stops_ok_def split: point.splits)
next
  case (stop cmds)
  with assms(2-4) stop_keeps [of "sess c" "sess c'" cmds] show ?thesis
    by (auto simp: launch_ok_def stops_ok_def split: point.splits)
next
  case stop_again
  with assms(2-4) show ?thesis by simp
next
  case stopped
  with assms(2-4) stopped_keeps [of "sess c"] show ?thesis
    by (auto simp: launch_ok_def stops_ok_def stopped_section_def split: point.splits)
qed

lemma invariants:
  assumes "session_run es (conf_init p) = Some c"
  shows "sess_ok (sess c) \<and> launch_ok c \<and> stops_ok c"
  using assms
proof (induction rule: session_run_induct)
  case init
  show ?case
    by (simp add: sess_ok_def launch_ok_def stops_ok_def conf_init_def session_init_def)
next
  case (step es e c c')
  with invariants_step [OF session_step_change [OF step.hyps(2)]] show ?case by blast
qed

section \<open>Authentication\<close>

lemma xor_eq_0_iff: "(a :: u8) XOR b = 0 \<longleftrightarrow> a = b"
proof
  assume "a XOR b = 0"
  then have "(a XOR b) XOR b = b" by simp
  then show "a = b" by (simp add: xor.assoc)
qed simp

lemma token_difference_zero:
  assumes "length given = kSessionTokenBytes" and "length expected = kSessionTokenBytes"
  shows "token_difference given expected = 0 \<longleftrightarrow> given = expected"
proof -
  have fold: "foldl (\<lambda>d i. d OR (given ! i XOR expected ! i)) d is = 0 \<longleftrightarrow>
      d = 0 \<and> (\<forall>i \<in> set is. given ! i = expected ! i)" for d :: u8 and "is"
  proof (induction "is" arbitrary: d)
    case (Cons i "is")
    have "d OR (given ! i XOR expected ! i) = 0 \<longleftrightarrow> d = 0 \<and> given ! i = expected ! i"
      by (simp add: or_eq_0_iff xor_eq_0_iff)
    with Cons show ?case by auto
  qed simp
  show ?thesis using assms by (auto simp: token_difference_def fold list_eq_iff_nth_eq)
qed

lemma validate_iff:
  assumes "sess_ok s"
  shows "validateSessionToken s t \<longleftrightarrow> session_token s = Some t"
proof (cases "session_token s")
  case None
  then show ?thesis by (simp add: validateSessionToken_def Let_def)
next
  case (Some expected)
  have len: "length expected = kSessionTokenBytes" and armed: "authentication_armed s"
    using assms Some by (simp_all add: sess_ok_def)
  then have state: "sess_state s = Starting \<or> sess_state s = Connected"
    using assms unfolding sess_ok_def by blast
  have "validateSessionToken s t \<longleftrightarrow> length t = kSessionTokenBytes \<and> token_difference t expected = 0"
    using state armed by (simp only: validateSessionToken_def Let_def Some option.case) auto
  also have "\<dots> \<longleftrightarrow> expected = t"
    using len token_difference_zero [of t expected] by auto
  finally show ?thesis using Some by simp
qed

lemma unarmed_no_token: "sess_ok s \<Longrightarrow> \<not> authentication_armed s \<Longrightarrow> session_token s = None"
  by (simp add: sess_ok_def)

lemma token_after_step:
  assumes "session_change e c c'" and "sess_ok (sess c)" and "session_token (sess c') = Some t"
  shows "(\<exists>now. e = Generated (Some t) now) \<or>
    (session_token (sess c) = Some t \<and> e \<noteq> StopBegun \<and> (\<forall>reason now. e \<noteq> ChannelLoss reason now))"
  using assms
proof cases
  case (lost now error)
  then have "session_token (sess c') = None"
    using unarmed_no_token [OF notify_keeps(1,4) [OF assms(2)]] by simp
  with assms(3) show ?thesis by simp
next
  case (stop cmds)
  then have "session_token (sess c') = None"
    using unarmed_no_token stop_keeps [OF assms(2), of "sess c'" cmds] by blast
  with assms(3) show ?thesis by simp
next
  case stop_again
  then show ?thesis using assms by (auto simp: stop_section_def sess_ok_def Let_def split: if_splits)
next
  case (failed now error)
  then have "session_token (sess c') = None"
    using unarmed_no_token [OF schedule_keeps(1,4) [OF assms(2)]] by simp
  with assms(3) show ?thesis by simp
next
  case start
  then show ?thesis using assms by (auto simp: section_defs split: if_splits)
next
  case (tick now)
  then show ?thesis using assms by (auto simp: section_defs split: if_splits)
qed (use assms in \<open>auto simp: stopped_section_def\<close>)

definition revoking :: "session_event \<Rightarrow> bool" where
  "revoking e \<longleftrightarrow> (case e of StopBegun \<Rightarrow> True | ChannelLoss _ _ \<Rightarrow> True | Generated (Some _) _ \<Rightarrow> True | _ \<Rightarrow> False)"


text \<open>A run of the machine for the witnesses: a tablet with the serial \<open>T1\<close> that answers every command.\<close>

definition good_runner :: runner where
  "good_runner arguments = no_result\<lparr>started := True,
     stdout_text := if arguments = buildListDevicesArguments then ''T1 device'' else []\<rparr>"

lemma good_runner_succeeds [simp]: "succeeded (good_runner a)"
  by (simp add: good_runner_def succeeded_def no_result_def)

lemma good_listing:
  "selected (selectSingleAuthorizedDevice good_runner) =
     Some \<lparr>serial = ''T1'', device_state = Authorized, state_text = ''device'', attributes = []\<rparr>"
  "status (selectSingleAuthorizedDevice good_runner) = SelAuthorized"
proof -
  have row: "device_line ''T1 device'' =
      Some \<lparr>serial = ''T1'', device_state = Authorized, state_text = ''device'', attributes = []\<rparr>"
    by (simp add: device_line_def chop_cr_def starts_with_def read_word_def is_space_def parseDeviceState_def to_lower_def)
  have "listDevices good_runner = parseDevicesOutput ''T1 device''"
    using good_runner_succeeds [of buildListDevicesArguments]
    by (simp add: listDevices_def) (simp add: good_runner_def no_result_def)
  also have "\<dots> = \<lparr>devices = [\<lparr>serial = ''T1'', device_state = Authorized, state_text = ''device'', attributes = []\<rparr>],
      status = SelAuthorized,
      selected = Some \<lparr>serial = ''T1'', device_state = Authorized, state_text = ''device'', attributes = []\<rparr>, diagnostics = []\<rparr>"
    by (simp add: parseDevicesOutput_def getlines_def map_filter_simps row isStandardAdbEmulator_def starts_with_def)
  finally show "selected (selectSingleAuthorizedDevice good_runner) =
     Some \<lparr>serial = ''T1'', device_state = Authorized, state_text = ''device'', attributes = []\<rparr>"
    "status (selectSingleAuthorizedDevice good_runner) = SelAuthorized"
    by (simp_all add: selectSingleAuthorizedDevice_def)
qed

text \<open>C27: a session that waits to reconnect does connect: when the time of the retry has come and adb lists one
  authorised device, accepts the commands and a token is generated, five steps lead to a connected session that
  accepts this token, after exactly the documented commands in their order, and the failures are forgotten.\<close>

theorem retry_connects:
  assumes "pc c = Idle" and "sess_state (sess c) = Reconnecting" and "\<not> shutdown_requested (sess c)"
    and "next_retry (sess c) \<le> now" and "length t = kSessionTokenBytes"
    and "selected (selectSingleAuthorizedDevice run) = Some d"
    and "\<And>m. m \<in> set default_ports \<Longrightarrow> succeeded (run (buildReverseArguments (serial d) m))"
    and "succeeded (run (buildLaunchArguments (serial d) (sessionTokenToHex t)))"
  shows "\<exists>c'. session_run [TickCalled now, Listed run n1, Mapped run n2, Generated (Some t) n3, Launched run n4] c = Some c' \<and>
    sess_state (sess c') = Connected \<and> pc c' = Idle \<and> session_token (sess c') = Some t \<and>
    authentication_armed (sess c') \<and> attempts (sess_backoff (sess c')) = 0 \<and> sess_serial (sess c') = serial d \<and>
    issued c' = issued c @ [buildListDevicesArguments] @ map (buildReverseArguments (serial d)) default_ports @
      [buildLaunchArguments (serial d) (sessionTokenToHex t)]"
proof -
  have status: "status (selectSingleAuthorizedDevice run) = SelAuthorized"
    using assms(6) selected_status by (metis option.distinct(1))
  have "succeeded (fst (installReverseMappings run (serial d) default_ports))"
    using assms(7) by (simp add: install_succeeded list_all_iff) (simp add: default_ports_def)
  then obtain r where installed: "succeeded r"
      "installReverseMappings run (serial d) default_ports = (r, map (buildReverseArguments (serial d)) default_ports)"
    using install_commands [of run "serial d" default_ports] by (metis prod.collapse)
  define c1 where "c1 = enter (DoConnect, begin_attempt (sess c)) c"
  have c1: "session_step (TickCalled now) c = Some c1" "pc c1 = Selecting" "sess c1 = begin_attempt (sess c)"
    "issued c1 = issued c"
    using assms(1-4) by (simp_all add: tick_section_def c1_def enter_def)
  define c2 where "c2 = (issue [buildListDevicesArguments] c1)\<lparr>sess := (begin_attempt (sess c))\<lparr>sess_serial := serial d\<rparr>,
    pc := Mapping (serial d)\<rparr>"
  have c2: "session_step (Listed run n1) c1 = Some c2" "pc c2 = Mapping (serial d)"
    "sess c2 = (begin_attempt (sess c))\<lparr>sess_serial := serial d\<rparr>" "issued c2 = issued c @ [buildListDevicesArguments]"
    using c1 status assms(6) by (simp_all add: listed_step_def c2_def issue_def)
  define c3 where "c3 = (issue (map (buildReverseArguments (serial d)) default_ports) c2)\<lparr>pc := Generating (serial d)\<rparr>"
  have c3: "session_step (Mapped run n2) c2 = Some c3" "pc c3 = Generating (serial d)" "sess c3 = sess c2"
    "issued c3 = issued c2 @ map (buildReverseArguments (serial d)) default_ports"
    using c2 installed by (simp_all add: mapped_step_def c3_def issue_def)
  define c4 where "c4 = c3\<lparr>sess := (sess c3)\<lparr>session_token := Some t, authentication_armed := True\<rparr>,
    pc := Launching (serial d) t\<rparr>"
  have begun: "sess_state (begin_attempt (sess c)) = Starting" "shutdown_requested (begin_attempt (sess c)) = shutdown_requested (sess c)"
    by (simp_all add: begin_attempt_def revoke_def)
  have c4: "session_step (Generated (Some t) n3) c3 = Some c4" "pc c4 = Launching (serial d) t"
    "sess c4 = (sess c3)\<lparr>session_token := Some t, authentication_armed := True\<rparr>" "issued c4 = issued c3"
    using c3 c2(3) assms(3,5) begun by (simp_all add: generated_step_def c4_def)
  have started: "sess_state (sess c4) = Starting" "\<not> shutdown_requested (sess c4)"
    using c4(3) c3(3) c2(3) assms(3) begun by simp_all
  obtain c5 where c5: "session_step (Launched run n4) c4 = Some c5" "pc c5 = Idle"
    "sess c5 = (sess c4)\<lparr>sess_state := Connected, last_error := [], next_retry := 0, reconnect_attempt := 0,
       sess_backoff := backoff_reset (sess_backoff (sess c4)), last_health_check := n4\<rparr>"
    "issued c5 = issued c4 @ [buildLaunchArguments (serial d) (sessionTokenToHex t)]"
    using c4 assms(8) started by (simp add: launched_step_def issue_def)
  show ?thesis
    using c1(1) c2(1) c3(1) c4(1) c5 c4(3,4) c3(3,4) c2(3,4) by (simp add: backoff_reset_def)
qed

lemma shutdown_step:
  assumes "session_change e c c'" and "sess_ok (sess c)"
  shows "shutdown_requested (sess c') \<longleftrightarrow> shutdown_requested (sess c) \<or> e = StopBegun"
  using assms(1)
proof cases
  case start
  then show ?thesis using start_keeps(2) [OF assms(2)] by simp
next
  case (tick now)
  then show ?thesis using tick_keeps(2) [OF assms(2)] by simp
next
  case (failed now error)
  then show ?thesis using schedule_keeps(2) [OF assms(2)] by simp
next
  case (lost now error)
  then show ?thesis using notify_keeps(2) [OF assms(2)] by simp
next
  case (stop cmds)
  then show ?thesis using stop_keeps(2) [OF assms(2)] by simp
next
  case stop_again
  then show ?thesis by (simp add: stop_section_def Let_def split: if_splits)
qed (simp_all add: stopped_section_def)

text \<open>C28: once \<open>Stop\<close> has begun, the session is never connected again and accepts no token, and when all calls of
  \<open>Stop\<close> have returned it is stopped.\<close>

theorem stop_is_final:
  assumes "session_run es (conf_init p) = Some c" and "StopBegun \<in> set es"
  shows "(sess_state (sess c) = Stopping \<and> 0 < stops c \<or> sess_state (sess c) = Stopped) \<and> \<not> validateSessionToken (sess c) t"
proof -
  have "StopBegun \<in> set es \<longrightarrow> shutdown_requested (sess c)"
    using assms(1)
  proof (induction rule: session_run_induct)
    case init
    show ?case by simp
  next
    case (step es e c c')
    have ok: "sess_ok (sess c)" using invariants [OF step.hyps(1)] by simp
    with shutdown_step [OF session_step_change [OF step.hyps(2)]] step.IH show ?case by auto
  qed
  with assms(2) have down: "shutdown_requested (sess c)" by simp
  with invariants [OF assms(1)] validate_iff [of "sess c" t] show ?thesis
    by (auto simp: stops_ok_def sess_ok_def)
qed

section \<open>Witnesses\<close>

definition sample_token :: SessionToken where
  "sample_token = replicate 32 7"

lemma sample_token_length: "length sample_token = kSessionTokenBytes"
  by (simp add: sample_token_def kSessionTokenBytes_def)

text \<open>A failed attempt leaves the session waiting to reconnect.\<close>

definition waiting_conf :: conf where
  "waiting_conf = fail_attempt 0 ''no ADB device'' (conf_init default_policy)"

theorem retry_connects_witness:
  "\<exists>c. session_run [TickCalled 250, Listed good_runner 260, Mapped good_runner 270,
     Generated (Some sample_token) 280, Launched good_runner 290] waiting_conf = Some c \<and> sess_state (sess c) = Connected"
proof -
  have w: "pc waiting_conf = Idle" "sess_state (sess waiting_conf) = Reconnecting"
    "\<not> shutdown_requested (sess waiting_conf)" "next_retry (sess waiting_conf) \<le> 250"
    by (simp_all add: waiting_conf_def fail_attempt_def schedule_reconnect_def reconnect_later_def revoke_def conf_init_def
        session_init_def reconnect_backoff_def default_policy_def record_failure_def next_delay_def delay_for_attempt_def
        Let_def)
  show ?thesis
    using retry_connects [OF w sample_token_length good_listing(1) good_runner_succeeds good_runner_succeeds, of 260 270 280 290]
    by blast
qed

lemma good_run_connects:
  "\<exists>c. session_run [StartCalled, Listed good_runner 10, Mapped good_runner 20, Generated (Some sample_token) 30,
      Launched good_runner 40] (conf_init default_policy) = Some c \<and> session_token (sess c) = Some sample_token"
proof -
  have "succeeded (fst (installReverseMappings good_runner ''T1'' default_ports))"
    by (simp add: install_succeeded list_all_iff) (simp add: default_ports_def)
  then obtain r cmds where "installReverseMappings good_runner ''T1'' default_ports = (r, cmds)" "succeeded r"
    by (cases "installReverseMappings good_runner ''T1'' default_ports") simp
  then show ?thesis
    using good_listing sample_token_length
    by (simp add: conf_init_def session_init_def start_section_def enter_def begin_attempt_def revoke_def listed_step_def
        mapped_step_def generated_step_def launched_step_def issue_def Let_def)
qed


theorem stop_is_final_witness:
  "\<exists>c. session_run [StopBegun, StopEnded, StartCalled] (conf_init default_policy) = Some c \<and>
     \<not> validateSessionToken (sess c) sample_token"
proof -
  have "session_run [StopBegun, StopEnded, StartCalled] (conf_init default_policy) \<noteq> None"
    by (simp add: conf_init_def session_init_def stop_section_def issue_def Let_def)
  then obtain c where c: "session_run [StopBegun, StopEnded, StartCalled] (conf_init default_policy) = Some c" by blast
  from stop_is_final [OF c, of sample_token] c show ?thesis by auto
qed

end
