(* ===== verification/SessionAuth.thy ===== *)
theory SessionAuth
  imports FramedStream AdbSession
begin

text \<open>
  Authentication of the three channels: \<open>app/session_auth.h\<close> and \<open>ReadAuthPreface\<close> of
  \<open>app/desktop_server.cpp\<close>. The clock read in the loop is a function \<open>now\<close> of the state of the socket.
\<close>

datatype AuthChannel = AuthControl | AuthVideo | AuthInput

fun channel_byte :: "AuthChannel \<Rightarrow> u8" where
  "channel_byte AuthControl = 1"
| "channel_byte AuthVideo = 2"
| "channel_byte AuthInput = 3"

definition kAuthMagic :: bytes where
  "kAuthMagic = map byte_of_char ''PDBAUTH1''"

definition kAuthPrefaceBytes :: nat where
  "kAuthPrefaceBytes = length kAuthMagic + 1 + kSessionTokenBytes"

definition buildAuthPreface :: "SessionToken \<Rightarrow> AuthChannel \<Rightarrow> bytes" where
  "buildAuthPreface token channel = kAuthMagic @ [channel_byte channel] @ token"

definition validateAuthPreface :: "bytes \<Rightarrow> SessionToken \<Rightarrow> AuthChannel \<Rightarrow> bool" where
  "validateAuthPreface preface expected channel =
     (if length preface \<noteq> kAuthPrefaceBytes \<or> take (length kAuthMagic) preface \<noteq> kAuthMagic \<or>
        preface ! length kAuthMagic \<noteq> channel_byte channel then False
      else foldl (\<lambda>difference i. difference OR (drop (length kAuthMagic + 1) preface ! i XOR expected ! i))
             0 [0..<kSessionTokenBytes] = 0)"

lemma magic_length [simp]: "length kAuthMagic = 8"
  by (simp add: kAuthMagic_def)

lemma preface_bytes: "kAuthPrefaceBytes = 41"
  by (simp add: kAuthPrefaceBytes_def kSessionTokenBytes_def)

lemma preface_split:
  assumes "length preface = kAuthPrefaceBytes"
  shows "take 8 preface = kAuthMagic \<and> preface ! 8 = channel_byte channel \<and> drop 9 preface = token \<longleftrightarrow>
    preface = buildAuthPreface token channel"
proof -
  have "preface = take 8 preface @ [preface ! 8] @ drop 9 preface"
    using assms id_take_nth_drop [of 8 preface] by (simp add: preface_bytes)
  then show ?thesis by (auto simp: buildAuthPreface_def nth_append)
qed

text \<open>\<open>ValidateAuthPreface\<close>, which compares all 32 bytes of the token without stopping early, accepts exactly
  the preface that \<open>BuildAuthPreface\<close> makes for this token and this channel.\<close>

lemma validate_preface_iff:
  assumes "length expected = kSessionTokenBytes"
  shows "validateAuthPreface preface expected channel \<longleftrightarrow> preface = buildAuthPreface expected channel"
proof (cases "length preface = kAuthPrefaceBytes")
  case False
  then have "preface \<noteq> buildAuthPreface expected channel"
    using assms by (auto simp: buildAuthPreface_def kAuthPrefaceBytes_def)
  with False show ?thesis by (simp add: validateAuthPreface_def)
next
  case True
  then have "length (drop 9 preface) = kSessionTokenBytes" by (simp add: preface_bytes kSessionTokenBytes_def)
  from token_difference_zero [OF this assms]
  have "validateAuthPreface preface expected channel \<longleftrightarrow>
      take 8 preface = kAuthMagic \<and> preface ! 8 = channel_byte channel \<and> drop 9 preface = expected"
    using True by (auto simp: validateAuthPreface_def token_difference_def)
  also have "\<dots> \<longleftrightarrow> preface = buildAuthPreface expected channel" by (rule preface_split [OF True])
  finally show ?thesis .
qed

section \<open>Reading the preface\<close>

text \<open>The loop over the partial reads; \<open>None\<close> when the fuel is used up.\<close>

fun preface_loop ::
  "nat \<Rightarrow> 's reader \<Rightarrow> ('s \<Rightarrow> int) \<Rightarrow> int \<Rightarrow> 's \<Rightarrow> nat \<Rightarrow> bytes \<Rightarrow> ((nat \<times> bytes) result \<times> 's) option" where
  "preface_loop 0 rd now deadline s offset preface = None"
| "preface_loop (Suc fuel) rd now deadline s offset preface =
     (if \<not> (offset < kAuthPrefaceBytes \<and> now s < deadline) then Some (Inr (offset, preface), s)
      else case rd s (kAuthPrefaceBytes - offset) of (result, bs, s') \<Rightarrow>
        if transferred result > kAuthPrefaceBytes - offset
        then Some (Inl ''invalid authentication preface length'', s')
        else let preface' = overlay offset bs preface; offset' = offset + transferred result
          in if ioStatus result = IoOk then
               (if transferred result = 0 then Some (Inr (offset', preface'), s')
                else preface_loop fuel rd now deadline s' offset' preface')
             else if ioStatus result = IoWouldBlock then preface_loop fuel rd now deadline s' offset' preface'
             else Some (Inl (if ioError result = [] then ''authentication preface connection closed'' else ioError result), s'))"

definition kControlHandshakeTimeoutMs :: int where "kControlHandshakeTimeoutMs = 5000"

definition readAuthPreface ::
  "nat \<Rightarrow> 's reader \<Rightarrow> ('s \<Rightarrow> int) \<Rightarrow> Session \<Rightarrow> AuthChannel \<Rightarrow> 's \<Rightarrow> (unit result \<times> 's) option" where
  "readAuthPreface fuel rd now session channel s =
     (case preface_loop fuel rd now (now s + kControlHandshakeTimeoutMs) s 0 (replicate kAuthPrefaceBytes 0) of
        None \<Rightarrow> None
      | Some (Inl e, s') \<Rightarrow> Some (Inl e, s')
      | Some (Inr (offset, preface), s') \<Rightarrow>
          Some (if offset \<noteq> kAuthPrefaceBytes then Inl ''authentication preface timed out''
                else if take (length kAuthMagic) preface \<noteq> kAuthMagic \<or>
                  preface ! length kAuthMagic \<noteq> channel_byte channel then Inl ''unauthenticated local channel''
                else if \<not> validateSessionToken session
                  (take kSessionTokenBytes (drop (length kAuthMagic + 1) preface)) then Inl ''stale or invalid session token''
                else Inr (), s'))"

context byte_stream
begin

lemma preface_loop_reads:
  assumes "preface_loop fuel rd now deadline s offset preface = Some (Inr (offset', preface'), s')"
    and "length preface = kAuthPrefaceBytes" and "offset \<le> kAuthPrefaceBytes"
  shows "length preface' = kAuthPrefaceBytes \<and> offset' \<le> kAuthPrefaceBytes \<and> outgoing s' = outgoing s \<and>
    take offset preface @ incoming s = take offset' preface' @ incoming s'"
  using assms
proof (induction fuel arbitrary: s offset preface)
  case (Suc fuel)
  show ?case
  proof (cases "offset < kAuthPrefaceBytes \<and> now s < deadline")
    case False
    with Suc.prems show ?thesis by auto
  next
    case True
    obtain q bs s1 where q: "rd s (kAuthPrefaceBytes - offset) = (q, bs, s1)" by (metis surj_pair)
    define preface1 where "preface1 = overlay offset bs preface"
    have mv: "transferred q \<le> length bs" "offset + length bs \<le> kAuthPrefaceBytes"
      "incoming s = take (transferred q) bs @ incoming s1" "outgoing s1 = outgoing s"
      using read_moves [OF q] True by auto
    have p1: "length preface1 = kAuthPrefaceBytes"
        "take (offset + transferred q) preface1 @ incoming s1 = take offset preface @ incoming s"
      using overlay_take [of "transferred q" bs offset preface] mv Suc.prems(2) by (simp_all add: preface1_def)
    have le: "\<not> kAuthPrefaceBytes - offset < transferred q" "offset + transferred q \<le> kAuthPrefaceBytes"
      using mv(1,2) by auto
    show ?thesis
    proof (cases "ioStatus q = IoOk \<and> transferred q = 0")
      case True
      with Suc.prems(1) q le \<open>offset < kAuthPrefaceBytes \<and> now s < deadline\<close> p1 mv(4) show ?thesis
        by (auto simp: preface1_def)
    next
      case False
      with Suc.prems(1) q le True have
        rec: "preface_loop fuel rd now deadline s1 (offset + transferred q) preface1 = Some (Inr (offset', preface'), s')"
        by (auto simp: preface1_def Let_def split: if_splits)
      from Suc.IH [OF rec p1(1) le(2)] p1(2) mv(4) show ?thesis by simp
    qed
  qed
qed simp

lemma read_auth_preface:
  assumes "readAuthPreface fuel rd now session channel s = Some (Inr (), s')"
  shows "\<exists>token. incoming s = buildAuthPreface token channel @ incoming s' \<and> validateSessionToken session token \<and>
    outgoing s' = outgoing s"
proof -
  let ?p0 = "replicate kAuthPrefaceBytes (0 :: u8)"
  from assms obtain preface where
    loop: "preface_loop fuel rd now (now s + kControlHandshakeTimeoutMs) s 0 ?p0 = Some (Inr (kAuthPrefaceBytes, preface), s')"
    and ok: "take 8 preface = kAuthMagic" "preface ! 8 = channel_byte channel"
      "validateSessionToken session (take kSessionTokenBytes (drop 9 preface))"
    by (auto simp: readAuthPreface_def split: option.splits sum.splits if_splits)
  from preface_loop_reads [OF loop] have len: "length preface = kAuthPrefaceBytes"
    and inc: "incoming s = preface @ incoming s'" and out: "outgoing s' = outgoing s" by auto
  have "take kSessionTokenBytes (drop 9 preface) = drop 9 preface"
    using len by (simp add: preface_bytes kSessionTokenBytes_def)
  with ok inc out preface_split [OF len, of channel "drop 9 preface"] show ?thesis by auto
qed

end

context winsock
begin

lemma socket_auth_preface:
  assumes "readAuthPreface fuel (socketRead valid recv lastError) now session channel s = Some (Inr (), s')"
  shows "\<exists>token. inbound s = buildAuthPreface token channel @ inbound s' \<and> validateSessionToken session token"
  using socket.read_auth_preface [OF assms] by blast

end

text \<open>C29: a channel is authenticated only by the exact 41 bytes of its preface with a token the session accepts
  at that moment, however the bytes arrive, and nothing behind them is taken from the socket.\<close>

theorem authenticated_channel:
  assumes "winsock recv send inbound outbound"
    and "readAuthPreface fuel (socketRead valid recv lastError) now session channel s = Some (Inr (), s')"
  shows "\<exists>token. inbound s = buildAuthPreface token channel @ inbound s' \<and> validateSessionToken session token"
  by (rule winsock.socket_auth_preface [OF assms])

definition auth_socket :: ScriptedSocket where
  "auth_socket = \<lparr>inbox = buildAuthPreface sample_token AuthVideo @ [9], outbox = [], script = [], lastCode = 0\<rparr>"

definition auth_session :: Session where
  "auth_session = (session_init default_policy)\<lparr>sess_state := Connected, session_token := Some sample_token,
     authentication_armed := True\<rparr>"

lemma auth_session_accepts: "validateSessionToken auth_session sample_token"
proof -
  have "sess_ok auth_session"
    by (simp add: sess_ok_def auth_session_def session_init_def sample_token_length)
  from validate_iff [OF this] show ?thesis by (simp add: auth_session_def)
qed

lemma auth_socket_accepted:
  "\<exists>s'. readAuthPreface 2 (socketRead True scripted_recv lastCode) (\<lambda>s. 0) auth_session AuthVideo auth_socket = Some (Inr (), s')"
proof -
  define p where "p = buildAuthPreface sample_token AuthVideo"
  have len: "length p = 41"
    by (simp add: p_def buildAuthPreface_def sample_token_length) (simp add: kSessionTokenBytes_def)
  define s1 where "s1 = auth_socket\<lparr>inbox := [9], lastCode := - 41\<rparr>"
  have read: "socketRead True scripted_recv lastCode auth_socket 41 = (io IoOk 41 [], p, s1)"
    by (simp add: socketRead_def scripted_recv_def auth_socket_def len s1_def kIntMax_def flip: p_def)
  have "overlay 0 p (replicate 41 0) = p" by (simp add: overlay_def len)
  then have "preface_loop 2 (socketRead True scripted_recv lastCode) (\<lambda>s. 0) 5000 auth_socket 0 (replicate 41 0) =
      Some (Inr (41, p), s1)"
    by (simp add: numeral_2_eq_2 preface_bytes read)
  moreover have "take 8 p = kAuthMagic" "p ! 8 = channel_byte AuthVideo" "take kSessionTokenBytes (drop 9 p) = sample_token"
    using preface_split [of p AuthVideo sample_token] len sample_token_length by (auto simp: p_def preface_bytes)
  ultimately show ?thesis
    using auth_session_accepts
    by (simp add: readAuthPreface_def preface_bytes kControlHandshakeTimeoutMs_def)
qed

theorem authenticated_channel_witness:
  "\<exists>s' token. readAuthPreface 2 (socketRead True scripted_recv lastCode) (\<lambda>s. 0) auth_session AuthVideo auth_socket = Some (Inr (), s') \<and>
     inbox auth_socket = buildAuthPreface token AuthVideo @ inbox s' \<and> validateSessionToken auth_session token"
  using auth_socket_accepted authenticated_channel [OF scripted.winsock_axioms] by metis

end
