(* ===== verification/Loopback.thy ===== *)
theory Loopback
  imports Prelude
begin

text \<open>
  The listeners of \<open>adb/loopback.h\<close> and \<open>adb/loopback.cpp\<close>. The outcomes of the Winsock calls are arguments;
  the model keeps the calls that acquire and release resources of the process as a log.
\<close>

section \<open>Peers\<close>

text \<open>What \<open>getpeername\<close> reports; an IPv4 address in host order, an IPv6 address as its 16 bytes.\<close>

datatype peer = PeerError | PeerIPv4 u32 | PeerIPv6 bytes | PeerOther

definition ipv6_loopback :: bytes where
  "ipv6_loopback = replicate 15 0 @ [1]"

fun isLoopbackPeer :: "peer \<Rightarrow> bool" where
  "isLoopbackPeer PeerError = False"
| "isLoopbackPeer (PeerIPv4 a) = (drop_bit 24 a = 127)"
| "isLoopbackPeer (PeerIPv6 a) = (a = ipv6_loopback)"
| "isLoopbackPeer PeerOther = False"

section \<open>The listener\<close>

type_synonym socket = nat

record Listener =
  listen_socket :: "socket option"
  port :: u16
  winsock_started :: bool

datatype net_event = Startup | Cleanup | SocketOpened socket | SocketClosed socket

definition listener_init :: Listener where
  "listener_init = \<lparr>listen_socket = None, port = 0, winsock_started = False\<rparr>"

definition is_open :: "Listener \<Rightarrow> bool" where
  "is_open l \<longleftrightarrow> listen_socket l \<noteq> None"

definition closeSocket :: "socket option \<Rightarrow> net_event list" where
  "closeSocket s = (case s of None \<Rightarrow> [] | Some h \<Rightarrow> [SocketClosed h])"

definition listener_close :: "Listener \<Rightarrow> Listener \<times> net_event list" where
  "listener_close l = (listener_init,
     closeSocket (listen_socket l) @ (if winsock_started l then [Cleanup] else []))"

definition net_error :: "string \<Rightarrow> int \<Rightarrow> string" where
  "net_error operation code = operation @ '' failed: '' @ to_string code"

text \<open>A failed call is \<open>Inl\<close> of what \<open>WSAGetLastError\<close> reports.\<close>

record open_calls =
  wsa_startup :: "int + unit"
  new_socket :: "int + socket"
  set_exclusive :: "int + unit"
  bind_loopback :: "int + unit"
  listen_call :: "int + unit"

text \<open>A step of \<open>Open\<close> that fails closes everything again.\<close>

definition open_failed :: "string \<Rightarrow> int \<Rightarrow> Listener \<Rightarrow> net_event list \<Rightarrow> unit result \<times> Listener \<times> net_event list" where
  "open_failed operation code l evs = (Inl (net_error operation code), fst (listener_close l), evs @ snd (listener_close l))"

text \<open>The calls after \<open>Close\<close>, which has left the listener empty.\<close>

definition open_closed :: "open_calls \<Rightarrow> u16 \<Rightarrow> unit result \<times> Listener \<times> net_event list" where
  "open_closed calls p =
     (case wsa_startup calls of
        Inl e \<Rightarrow> (Inl (net_error ''WSAStartup'' e), listener_init, [])
      | Inr _ \<Rightarrow> (let l = listener_init\<lparr>winsock_started := True\<rparr>; evs = [Startup]
          in (case new_socket calls of
                Inl e \<Rightarrow> open_failed ''socket'' e l evs
              | Inr h \<Rightarrow> (let l = l\<lparr>listen_socket := Some h\<rparr>; evs = evs @ [SocketOpened h]
                  in (case set_exclusive calls of
                        Inl e \<Rightarrow> open_failed ''setsockopt SO_EXCLUSIVEADDRUSE'' e l evs
                      | Inr _ \<Rightarrow> (case bind_loopback calls of
                          Inl e \<Rightarrow> open_failed ''bind loopback'' e l evs
                        | Inr _ \<Rightarrow> (case listen_call calls of
                            Inl e \<Rightarrow> open_failed ''listen'' e l evs
                          | Inr _ \<Rightarrow> (Inr (), l\<lparr>port := p\<rparr>, evs))))))))"

definition listener_open :: "open_calls \<Rightarrow> u16 \<Rightarrow> Listener \<Rightarrow> unit result \<times> Listener \<times> net_event list" where
  "listener_open calls p l =
     (let (r, l', evs) = open_closed calls p in (r, l', snd (listener_close l) @ evs))"

text \<open>Moving a listener; what is left behind owns nothing.\<close>

definition listener_move :: "Listener \<Rightarrow> Listener \<times> Listener" where
  "listener_move other = (other, listener_init)"

definition listener_assign :: "Listener \<Rightarrow> Listener \<Rightarrow> Listener \<times> Listener \<times> net_event list" where
  "listener_assign l other = (other, listener_init, snd (listener_close l))"

section \<open>Accepting\<close>

datatype AcceptStatus = Accepted | AcceptTimeout | AcceptError

record accept_calls =
  select_result :: "int + nat"
  accept_result :: "int + socket"
  peer_name :: "socket \<Rightarrow> peer"

definition listener_accept ::
  "accept_calls \<Rightarrow> int \<Rightarrow> Listener \<Rightarrow> AcceptStatus \<times> socket option \<times> string option \<times> net_event list" where
  "listener_accept calls timeout_ms l =
     (if \<not> is_open l then (AcceptError, None, Some ''listener is not open'', [])
      else if timeout_ms \<ge> 0 \<and> select_result calls = Inr 0 then (AcceptTimeout, None, None, [])
      else (case (if timeout_ms \<ge> 0 then select_result calls else Inr 1) of
          Inl e \<Rightarrow> (AcceptError, None, Some (net_error ''select'' e), [])
        | Inr _ \<Rightarrow> (case accept_result calls of
            Inl e \<Rightarrow> (AcceptError, None, Some (net_error ''accept'' e), [])
          | Inr h \<Rightarrow>
              if \<not> isLoopbackPeer (peer_name calls h)
              then (AcceptError, None, Some ''rejected non-loopback peer'', [SocketOpened h, SocketClosed h])
              else (Accepted, Some h, None, [SocketOpened h]))))"

section \<open>Resources\<close>

text \<open>What the process holds: the balance of \<open>WSAStartup\<close> and \<open>WSACleanup\<close> and the open sockets.
  \<open>None\<close> when something is released that is not held.\<close>

fun resources :: "nat \<Rightarrow> socket set \<Rightarrow> net_event list \<Rightarrow> (nat \<times> socket set) option" where
  "resources n H [] = Some (n, H)"
| "resources n H (Startup # evs) = resources (Suc n) H evs"
| "resources n H (Cleanup # evs) = (if n = 0 then None else resources (n - 1) H evs)"
| "resources n H (SocketOpened h # evs) = (if h \<in> H then None else resources n (insert h H) evs)"
| "resources n H (SocketClosed h # evs) = (if h \<in> H then resources n (H - {h}) evs else None)"

lemma resources_append:
  "resources n H (xs @ ys) = (case resources n H xs of None \<Rightarrow> None | Some (m, G) \<Rightarrow> resources m G ys)"
  by (induction n H xs rule: resources.induct) auto

definition owned :: "Listener \<Rightarrow> nat \<times> socket set" where
  "owned l = ((if winsock_started l then 1 else 0), set_option (listen_socket l))"

text \<open>The operations of an owner, each with what Windows answers.\<close>

datatype listener_op = OpOpen open_calls u16 | OpClose | OpAssignNew

fun listener_step :: "listener_op \<Rightarrow> Listener \<Rightarrow> Listener \<times> net_event list" where
  "listener_step (OpOpen calls p) l = snd (listener_open calls p l)"
| "listener_step OpClose l = listener_close l"
| "listener_step OpAssignNew l = (let (l', _, evs) = listener_assign l listener_init in (l', evs))"

fun listener_run :: "listener_op list \<Rightarrow> Listener \<Rightarrow> Listener \<times> net_event list" where
  "listener_run [] l = (l, [])"
| "listener_run (op # ops) l =
     (let (l, evs) = listener_step op l; (l, evs') = listener_run ops l in (l, evs @ evs'))"

lemma close_resources:
  "case owned l of (n, H) \<Rightarrow> resources n H (snd (listener_close l)) = Some (0, {})"
  by (cases "listen_socket l") (simp_all add: owned_def listener_close_def closeSocket_def)

lemma owned_init: "owned listener_init = (0, {})"
  by (simp add: owned_def listener_init_def)

lemma open_closed_resources:
  assumes "open_closed calls p = (r, l', evs)"
  shows "resources 0 {} evs = Some (owned l')" and "if r = Inr () then is_open l' \<and> port l' = p else l' = listener_init"
  using assms
  by (auto simp: open_closed_def open_failed_def Let_def owned_def listener_close_def closeSocket_def
      listener_init_def is_open_def split: sum.splits)

lemma open_resources:
  assumes "listener_open calls p l = (r, l', evs)"
  shows "(case owned l of (n, H) \<Rightarrow> resources n H evs = Some (owned l')) \<and>
    (if r = Inr () then is_open l' \<and> port l' = p else l' = listener_init)"
proof -
  obtain tail where t: "open_closed calls p = (r, l', tail)" "evs = snd (listener_close l) @ tail"
    using assms by (auto simp: listener_open_def Let_def split: prod.splits)
  show ?thesis
    using close_resources [of l] open_closed_resources [OF t(1)] by (auto simp: t(2) resources_append)
qed

lemma step_resources:
  assumes "listener_step op l = (l', evs)" and "owned l = (n, H)"
  shows "resources n H evs = Some (owned l')"
proof (cases op)
  case (OpOpen calls p)
  then obtain r where "listener_open calls p l = (r, l', evs)"
    using assms(1) by (cases "listener_open calls p l") simp
  from open_resources [OF this] assms(2) show ?thesis by simp
next
  case OpClose
  with assms close_resources [of l] show ?thesis by (auto simp: listener_close_def owned_init)
next
  case OpAssignNew
  with assms close_resources [of l] show ?thesis by (auto simp: listener_assign_def owned_init)
qed

lemma run_resources:
  "listener_run ops l = (l', evs) \<Longrightarrow> owned l = (n, H) \<Longrightarrow> resources n H evs = Some (owned l')"
proof (induction ops arbitrary: l evs n H)
  case (Cons op ops)
  obtain l1 evs1 evs2 where s: "listener_step op l = (l1, evs1)" "listener_run ops l1 = (l', evs2)" "evs = evs1 @ evs2"
    using Cons.prems(1) by (auto simp: Let_def split: prod.splits)
  obtain m G where o: "owned l1 = (m, G)" by fastforce
  from step_resources [OF s(1) Cons.prems(2)] Cons.IH [OF s(2) o] s(3) o show ?case
    by (simp add: resources_append)
qed auto

text \<open>a listener balances what it takes from Windows: after any sequence of openings (failing at any of
  their five calls), closings and assignments, the process holds exactly what the listener owns, and after
  a closing nothing.\<close>

lemma listener_balanced:
  "case listener_run ops listener_init of (l, evs) \<Rightarrow>
     resources 0 {} evs = Some (owned l) \<and> resources 0 {} (evs @ snd (listener_close l)) = Some (0, {})"
proof -
  obtain l evs where evs: "listener_run ops listener_init = (l, evs)" by fastforce
  from run_resources [OF evs owned_init] have res: "resources 0 {} evs = Some (owned l)" .
  with close_resources [of l] have "resources 0 {} (evs @ snd (listener_close l)) = Some (0, {})"
    by (auto simp: resources_append split: prod.splits)
  with evs res show ?thesis by simp
qed

text \<open>Only peers of this machine are accepted: a socket is handed out exactly when the accepted connection
  comes from 127.0.0.0/8 or from ::1, and every other accepted one is closed again.\<close>

lemma accepts_only_loopback:
  assumes "listener_accept calls timeout_ms l = (st, s, err, evs)"
  shows "(case s of
      Some h \<Rightarrow> st = Accepted \<and> is_open l \<and> accept_result calls = Inr h \<and> evs = [SocketOpened h] \<and>
        ((\<exists>a. peer_name calls h = PeerIPv4 a \<and> drop_bit 24 a = 127) \<or> peer_name calls h = PeerIPv6 ipv6_loopback)
    | None \<Rightarrow> st \<noteq> Accepted \<and> resources 0 {} evs = Some (0, {}))"
proof -
  have "isLoopbackPeer q \<longleftrightarrow> (\<exists>a. q = PeerIPv4 a \<and> drop_bit 24 a = 127) \<or> q = PeerIPv6 ipv6_loopback" for q
    by (cases q) auto
  with assms show ?thesis
    by (auto simp: listener_accept_def split: sum.splits if_splits)
qed

end
