(* ===== verification/InputProbe.thy ===== *)
theory InputProbe
  imports AdbClient
begin

text \<open>
  \<open>adb/input_probe.h\<close> and \<open>adb/input_probe.cpp\<close>: what the output of \<open>getevent -lp\<close> says about the pen. The
  reader of single events (\<open>ParseEventLine\<close>), which only the tests call, is left out.
\<close>

datatype CapabilityAvailability = CapUnknown | CapSupported | CapUnsupported | CapInaccessible

record InputCapabilities =
  cap_pressure :: CapabilityAvailability
  cap_hover :: CapabilityAvailability
  cap_tilt :: CapabilityAvailability
  cap_distance :: CapabilityAvailability
  cap_touch :: CapabilityAvailability
  cap_buttons :: "CapabilityAvailability list"

definition no_capabilities :: InputCapabilities where
  "no_capabilities = \<lparr>cap_pressure = CapUnknown, cap_hover = CapUnknown, cap_tilt = CapUnknown,
     cap_distance = CapUnknown, cap_touch = CapUnknown, cap_buttons = replicate 3 CapUnknown\<rparr>"

definition all_buttons_observable :: "InputCapabilities \<Rightarrow> bool" where
  "all_buttons_observable c = list_all (\<lambda>b. b = CapSupported) (cap_buttons c)"

record InputProbeResult =
  probe_succeeded :: bool
  probe_cancelled :: bool
  permission_denied :: bool
  raw_events_accessible :: bool
  capabilities :: InputCapabilities
  diagnostic_lines :: "string list"

definition probe_init :: InputProbeResult where
  "probe_init = \<lparr>probe_succeeded = False, probe_cancelled = False, permission_denied = False,
     raw_events_accessible = False, capabilities = no_capabilities, diagnostic_lines = []\<rparr>"

definition markSupported :: "CapabilityAvailability \<Rightarrow> CapabilityAvailability" where
  "markSupported c = (if c \<noteq> CapInaccessible then CapSupported else c)"

definition finalizeCapability :: "bool \<Rightarrow> CapabilityAvailability \<Rightarrow> CapabilityAvailability" where
  "finalizeCapability inaccessible c =
     (if c = CapUnknown then (if inaccessible then CapInaccessible else CapUnsupported) else c)"

definition touches :: "char option \<Rightarrow> bool" where
  "touches c = (case c of None \<Rightarrow> False | Some d \<Rightarrow> is_alnum d)"

text \<open>The occurrences of a token that no letter or digit touches, the first character after \<open>left\<close>.\<close>

fun has_token_after :: "char option \<Rightarrow> string \<Rightarrow> string \<Rightarrow> bool" where
  "has_token_after left [] token = False"
| "has_token_after left (c # s) token =
     ((starts_with (c # s) token \<and> \<not> touches left \<and>
       (case drop (length token) (c # s) of [] \<Rightarrow> True | d # _ \<Rightarrow> \<not> is_alnum d)) \<or>
      has_token_after (Some c) s token)"

definition hasToken :: "string \<Rightarrow> string \<Rightarrow> bool" where
  "hasToken text token = has_token_after None text token"

definition denied_line :: "string \<Rightarrow> bool" where
  "denied_line line =
     (let upper = map to_upper line
      in contains upper ''PERMISSION DENIED'' \<or> contains upper ''NOT PERMITTED'' \<or> contains upper ''INACCESSIBLE'' \<or>
         contains upper (''COULDN'' @ [CHR 0x27] @ ''T OPEN'') \<or> contains upper ''FAILED TO OPEN'')"

abbreviation mark_if :: "bool \<Rightarrow> CapabilityAvailability \<Rightarrow> CapabilityAvailability" where
  "mark_if b c \<equiv> (if b then markSupported c else c)"

definition observe_line :: "string \<Rightarrow> InputCapabilities \<Rightarrow> InputCapabilities" where
  "observe_line upper c = \<lparr>
     cap_pressure = mark_if (contains upper ''ABS_PRESSURE'') (cap_pressure c),
     cap_hover = mark_if (contains upper ''ABS_DISTANCE'') (cap_hover c),
     cap_tilt = mark_if (contains upper ''ABS_TILT_X'' \<or> contains upper ''ABS_TILT_Y'') (cap_tilt c),
     cap_distance = mark_if (contains upper ''ABS_DISTANCE'') (cap_distance c),
     cap_touch = mark_if (contains upper ''BTN_TOUCH'' \<or> contains upper ''ABS_MT_POSITION_X'') (cap_touch c),
     cap_buttons = [mark_if (hasToken upper ''BTN_STYLUS'') (cap_buttons c ! 0),
       mark_if (hasToken upper ''BTN_STYLUS2'') (cap_buttons c ! 1),
       mark_if (hasToken upper ''BTN_STYLUS3'') (cap_buttons c ! 2)]\<rparr>"

definition consumeLine :: "InputProbeResult \<Rightarrow> string \<Rightarrow> InputProbeResult" where
  "consumeLine r line =
     (let upper = map to_upper line
      in if denied_line line
         then r\<lparr>permission_denied := True, diagnostic_lines := diagnostic_lines r @ [line]\<rparr>
         else r\<lparr>raw_events_accessible := raw_events_accessible r \<or> contains upper ''ADD DEVICE'' \<or>
                  contains upper ''EVENTS:'' \<or> contains upper ''EV_ABS'',
                capabilities := observe_line upper (capabilities r)\<rparr>)"

definition finish_probe :: "bool \<Rightarrow> bool \<Rightarrow> InputProbeResult \<Rightarrow> InputProbeResult" where
  "finish_probe command_ok was_cancelled r =
     (let r = r\<lparr>probe_succeeded := command_ok, probe_cancelled := was_cancelled\<rparr>;
          final = finalizeCapability (permission_denied r); c = capabilities r
      in if permission_denied r
         then r\<lparr>capabilities := \<lparr>cap_pressure = CapInaccessible, cap_hover = CapInaccessible, cap_tilt = CapInaccessible,
                  cap_distance = CapInaccessible, cap_touch = CapInaccessible,
                  cap_buttons = replicate (length (cap_buttons c)) CapInaccessible\<rparr>,
                raw_events_accessible := False\<rparr>
         else r\<lparr>capabilities := \<lparr>cap_pressure = final (cap_pressure c), cap_hover = final (cap_hover c),
                  cap_tilt = final (cap_tilt c), cap_distance = final (cap_distance c), cap_touch = final (cap_touch c),
                  cap_buttons = map final (cap_buttons c)\<rparr>\<rparr>)"

definition buildFeatureProbeArguments :: "string \<Rightarrow> string list" where
  "buildFeatureProbeArguments dev = [''-s'', dev, ''shell'', ''getevent'', ''-lp'']"

definition probe_lines :: "ProcessResult \<Rightarrow> string list" where
  "probe_lines process = split_on (CHR 0x0A) (stdout_text process) @ split_on (CHR 0x0A) (stderr_text process)"

definition probe :: "(string list \<Rightarrow> ProcessResult) \<Rightarrow> string \<Rightarrow> InputProbeResult" where
  "probe run dev =
     (let process = run (buildFeatureProbeArguments dev)
      in finish_probe (succeeded process) (cancelled process) (foldl consumeLine probe_init (probe_lines process)))"

section \<open>What the probe finds\<close>

text \<open>A token stands in a text with no letter or digit on either side.\<close>

definition stands_in :: "string \<Rightarrow> string \<Rightarrow> bool" where
  "stands_in token text \<longleftrightarrow> (\<exists>a b. text = a @ token @ b \<and> (a = [] \<or> \<not> is_alnum (last a)) \<and> (b = [] \<or> \<not> is_alnum (hd b)))"

lemma starts_with_iff: "starts_with s p \<longleftrightarrow> (\<exists>r. s = p @ r)"
  by (auto simp: starts_with_def) (metis append_take_drop_id)

lemma has_token_after_iff:
  assumes "token \<noteq> []"
  shows "has_token_after left body token \<longleftrightarrow>
    (\<exists>a b. body = a @ token @ b \<and> \<not> touches (if a = [] then left else Some (last a)) \<and>
      (b = [] \<or> \<not> is_alnum (hd b)))"
proof (induction body arbitrary: left)
  case (Cons c s)
  have behind: "(case drop (length token) (c # s) of [] \<Rightarrow> True | d # _ \<Rightarrow> \<not> is_alnum d) \<longleftrightarrow> b = [] \<or> \<not> is_alnum (hd b)"
    if "c # s = token @ b" for b
    unfolding that by (cases b) simp_all
  have here: "starts_with (c # s) token \<and> \<not> touches left \<and>
       (case drop (length token) (c # s) of [] \<Rightarrow> True | d # _ \<Rightarrow> \<not> is_alnum d) \<longleftrightarrow>
      (\<exists>b. c # s = token @ b \<and> \<not> touches left \<and> (b = [] \<or> \<not> is_alnum (hd b)))"
    unfolding starts_with_iff using behind by blast
  have "(\<exists>a b. c # s = a @ token @ b \<and> \<not> touches (if a = [] then left else Some (last a)) \<and>
      (b = [] \<or> \<not> is_alnum (hd b))) \<longleftrightarrow>
    (\<exists>b. c # s = token @ b \<and> \<not> touches left \<and> (b = [] \<or> \<not> is_alnum (hd b))) \<or>
    (\<exists>a b. s = a @ token @ b \<and> \<not> touches (Some (last (c # a))) \<and> (b = [] \<or> \<not> is_alnum (hd b)))"
    (is "?L \<longleftrightarrow> ?R1 \<or> ?R2")
  proof
    assume ?L
    then obtain a b where ab: "c # s = a @ token @ b" "\<not> touches (if a = [] then left else Some (last a))"
      "b = [] \<or> \<not> is_alnum (hd b)" by blast
    show "?R1 \<or> ?R2"
    proof (cases a)
      case Nil
      with ab have "c # s = token @ b \<and> \<not> touches left" by simp
      with ab(3) show ?thesis by blast
    next
      case (Cons d a')
      with ab have "s = a' @ token @ b \<and> \<not> touches (Some (last (c # a')))" by simp
      with ab(3) show ?thesis by blast
    qed
  next
    assume "?R1 \<or> ?R2"
    then show ?L
    proof
      assume ?R1
      then show ?L by (metis append_Nil)
    next
      assume ?R2
      then obtain a b where "s = a @ token @ b" "\<not> touches (Some (last (c # a)))" "b = [] \<or> \<not> is_alnum (hd b)"
        by blast
      then show ?L by (intro exI [of _ "c # a"] exI [of _ b]) simp
    qed
  qed
  moreover have "Some (last (c # a)) = (if a = [] then Some c else Some (last a))" for a by simp
  ultimately show ?case by (simp add: here Cons)
qed (use assms in simp)

lemma hasToken_iff: "token \<noteq> [] \<Longrightarrow> hasToken body token \<longleftrightarrow> stands_in token body"
proof -
  have "\<not> touches (if a = [] then None else Some (last a)) \<longleftrightarrow> a = [] \<or> \<not> is_alnum (last a)" for a
    by (simp add: touches_def)
  then show "token \<noteq> [] \<Longrightarrow> hasToken body token \<longleftrightarrow> stands_in token body"
    using has_token_after_iff [of token None body] by (simp add: hasToken_def stands_in_def)
qed

definition shows_button :: "nat \<Rightarrow> string \<Rightarrow> bool" where
  "shows_button i line \<longleftrightarrow> stands_in ([''BTN_STYLUS'', ''BTN_STYLUS2'', ''BTN_STYLUS3''] ! i) (map to_upper line)"

lemma consume_lines:
  assumes "list_all (\<lambda>b. b \<noteq> CapInaccessible) (cap_buttons (capabilities r))" and "length (cap_buttons (capabilities r)) = 3"
  shows "permission_denied (foldl consumeLine r ls) = (permission_denied r \<or> list_ex denied_line ls) \<and>
    length (cap_buttons (capabilities (foldl consumeLine r ls))) = 3 \<and>
    (\<forall>i < 3. cap_buttons (capabilities (foldl consumeLine r ls)) ! i =
      (if list_ex (\<lambda>l. \<not> denied_line l \<and> shows_button i l) ls then CapSupported else cap_buttons (capabilities r) ! i))"
  using assms
proof (induction ls arbitrary: r)
  case (Cons l ls)
  have three: "i < 3 \<Longrightarrow> i = 0 \<or> i = 1 \<or> i = 2" for i :: nat by linarith
  show ?case
  proof (cases "denied_line l")
    case True
    then have "consumeLine r l = r\<lparr>permission_denied := True, diagnostic_lines := diagnostic_lines r @ [l]\<rparr>"
      by (simp add: consumeLine_def)
    with Cons.IH [of "consumeLine r l"] Cons.prems True show ?thesis by simp
  next
    case False
    define r1 where "r1 = consumeLine r l"
    have c: "permission_denied r1 = permission_denied r" "capabilities r1 = observe_line (map to_upper l) (capabilities r)"
      using False by (simp_all add: r1_def consumeLine_def Let_def)
    have sup: "cap_buttons (capabilities r1) ! i = (if shows_button i l then CapSupported else cap_buttons (capabilities r) ! i)"
      "cap_buttons (capabilities r) ! i \<noteq> CapInaccessible" if "i < 3" for i
      using three [OF that] Cons.prems
      by (auto simp: c observe_line_def shows_button_def hasToken_iff markSupported_def list_all_length)
    then have inv: "list_all (\<lambda>b. b \<noteq> CapInaccessible) (cap_buttons (capabilities r1))" "length (cap_buttons (capabilities r1)) = 3"
      using Cons.prems by (auto simp: list_all_length c observe_line_def)
    from Cons.IH [OF inv] False sup c(1) show ?thesis by (auto simp flip: r1_def)
  qed
qed simp

text \<open>the probe confirms the three pen buttons exactly when no line of the output reports a missing
  permission and each of the three key names stands in some line as a word of its own.\<close>

lemma probe_confirms_buttons:
  "all_buttons_observable (capabilities (probe run dev)) \<longleftrightarrow>
    \<not> list_ex denied_line (probe_lines (run (buildFeatureProbeArguments dev))) \<and>
    list_ex (shows_button 0) (probe_lines (run (buildFeatureProbeArguments dev))) \<and>
    list_ex (shows_button 1) (probe_lines (run (buildFeatureProbeArguments dev))) \<and>
    list_ex (shows_button 2) (probe_lines (run (buildFeatureProbeArguments dev)))"
proof -
  let ?ls = "probe_lines (run (buildFeatureProbeArguments dev))"
  define r where "r = foldl consumeLine probe_init ?ls"
  have init: "list_all (\<lambda>b. b \<noteq> CapInaccessible) (cap_buttons (capabilities probe_init))"
    "length (cap_buttons (capabilities probe_init)) = 3"
    by (simp_all add: probe_init_def no_capabilities_def eval_nat_numeral)
  from consume_lines [OF init, of ?ls] have r: "permission_denied r = list_ex denied_line ?ls"
    "length (cap_buttons (capabilities r)) = 3"
    "i < 3 \<Longrightarrow> cap_buttons (capabilities r) ! i =
      (if list_ex (\<lambda>l. \<not> denied_line l \<and> shows_button i l) ?ls then CapSupported else CapUnknown)" for i
    by (auto simp: r_def probe_init_def no_capabilities_def)
  have all3: "(\<forall>i < 3. P i) \<longleftrightarrow> P 0 \<and> P 1 \<and> P (2 :: nat)" for P
    by (auto simp: eval_nat_numeral less_Suc_eq)
  show ?thesis
  proof (cases "list_ex denied_line ?ls")
    case True
    then show ?thesis
      using r(1,2) by (simp add: probe_def finish_probe_def all_buttons_observable_def Let_def eval_nat_numeral flip: r_def)
  next
    case False
    then have "list_ex (\<lambda>l. \<not> denied_line l \<and> shows_button i l) ?ls \<longleftrightarrow> list_ex (shows_button i) ?ls" for i
      by (auto simp: list_ex_iff)
    moreover have "all_buttons_observable (capabilities (probe run dev)) \<longleftrightarrow>
        (\<forall>i < 3. finalizeCapability False (cap_buttons (capabilities r) ! i) = CapSupported)"
      using False r(1,2)
      by (simp add: probe_def finish_probe_def all_buttons_observable_def list_all_length Let_def flip: r_def)
    ultimately show ?thesis
      using False r(3) by (auto simp: all3 finalizeCapability_def)
  qed
qed

end
