(* ===== verification/Resolution.thy ===== *)
theory Resolution
  imports Prelude FloatArith
begin

text \<open>
  \<open>video/types.h\<close> (\<open>Size\<close>), \<open>video/resolution_ladder.h\<close> and \<open>video/resolution_ladder.cpp\<close>: the size of the
  encoded picture for a monitor and a rung of the ladder, and \<open>AdaptiveResolutionController\<close>, which moves
  between the rungs. Sizes and the count of breaches are 32-bit words, a \<open>SteadyTime\<close> is its nanoseconds
  since the epoch of the clock (0 is \<open>SteadyTime{}\<close>), a duration its microseconds.
\<close>

section \<open>Sizes\<close>

record Size =
  sizeWidth :: u32
  sizeHeight :: u32

definition no_size :: Size where
  "no_size = \<lparr>sizeWidth = 0, sizeHeight = 0\<rparr>"

definition size_valid :: "Size \<Rightarrow> bool" where
  "size_valid s \<longleftrightarrow> sizeWidth s \<noteq> 0 \<and> sizeHeight s \<noteq> 0"

definition longest_edge :: "Size \<Rightarrow> u32" where
  "longest_edge s = max (sizeWidth s) (sizeHeight s)"

definition kLongestEdgeLadder :: "u32 list" where
  "kLongestEdgeLadder = [3200, 2560, 1920]"

definition even_floor :: "u32 \<Rightarrow> u32" where
  "even_floor v = and v (not 1)"

text \<open>The conversion of a double to \<open>std::uint32_t\<close> truncates.\<close>

definition scaled :: "u32 \<Rightarrow> rat \<Rightarrow> u32" where
  "scaled v scale = word_of_int \<lfloor>f64 (of_nat (unat v) * scale)\<rfloor>"

definition ScaleToLongestEdge :: "Size \<Rightarrow> u32 \<Rightarrow> Size" where
  "ScaleToLongestEdge s edge =
     (if \<not> size_valid s then no_size
      else let native_longest = longest_edge s in
        if native_longest \<le> edge
        then \<lparr>sizeWidth = max 2 (even_floor (sizeWidth s)), sizeHeight = max 2 (even_floor (sizeHeight s))\<rparr>
        else let scale = f64 (of_nat (unat edge) / of_nat (unat native_longest)) in
          \<lparr>sizeWidth = max 2 (even_floor (scaled (sizeWidth s) scale)),
           sizeHeight = max 2 (even_floor (scaled (sizeHeight s) scale))\<rparr>)"

definition SelectEncodeResolution :: "Size \<Rightarrow> u32 \<Rightarrow> Size" where
  "SelectEncodeResolution native max_longest_edge =
     (if \<not> size_valid native \<or> max_longest_edge < 2 then no_size
      else if longest_edge native \<le> max_longest_edge then ScaleToLongestEdge native max_longest_edge
      else case List.find (\<lambda>rung. rung \<le> max_longest_edge) kLongestEdgeLadder of
             Some rung \<Rightarrow> ScaleToLongestEdge native rung
           | None \<Rightarrow> no_size)"

definition NextLowerResolution :: "Size \<Rightarrow> Size \<Rightarrow> Size" where
  "NextLowerResolution current native =
     (if \<not> size_valid current \<or> \<not> size_valid native then no_size
      else case List.find (\<lambda>rung. rung < longest_edge current) kLongestEdgeLadder of
             Some rung \<Rightarrow> ScaleToLongestEdge native rung
           | None \<Rightarrow> no_size)"

section \<open>The controller\<close>

datatype ResolutionPolicyAction = PolicyNone | PolicyDowngrade | PolicyUpgrade

record ResolutionPolicyObservation =
  obs_timestamp :: int
  obs_queue_age :: int
  obs_encode_duration :: int
  obs_capture_to_encode :: int
  obs_transport_blocked :: bool

record ResolutionPolicyDecision =
  dec_action :: ResolutionPolicyAction
  dec_max_longest_edge :: u32
  dec_encode_size :: Size
  dec_budget_breached :: bool
  dec_stream_reset :: bool
  dec_breaches :: u32
  dec_stable_duration :: int

record AdaptiveResolutionController =
  native_size :: Size
  current_max :: u32
  initial_max :: u32
  consecutive_breaches :: u32
  stable_since :: int

definition kReleaseBudget :: int where "kReleaseBudget = 50000"
definition kEncodeBudget :: int where "kEncodeBudget = 16666"
definition kStableUpgradeWindow :: int where "kStableUpgradeWindow = 10 * 1000000000"
definition kPersistentBreachSamples :: u32 where "kPersistentBreachSamples = 3"

definition controller_init :: AdaptiveResolutionController where
  "controller_init = \<lparr>native_size = no_size, current_max = 3200, initial_max = 3200,
     consecutive_breaches = 0, stable_since = 0\<rparr>"

definition current_encode_size :: "AdaptiveResolutionController \<Rightarrow> Size" where
  "current_encode_size c = SelectEncodeResolution (native_size c) (current_max c)"

definition ClampRung :: "u32 \<Rightarrow> u32" where
  "ClampRung requested = (case List.find (\<lambda>rung. requested = rung) kLongestEdgeLadder of
     Some rung \<Rightarrow> rung | None \<Rightarrow> 3200)"

definition policy_start :: "u32 \<Rightarrow> AdaptiveResolutionController \<Rightarrow> AdaptiveResolutionController" where
  "policy_start initial_max_longest_edge c =
     c\<lparr>initial_max := ClampRung initial_max_longest_edge, current_max := ClampRung initial_max_longest_edge,
       native_size := no_size, consecutive_breaches := 0, stable_since := 0\<rparr>"

definition SetNativeSize :: "Size \<Rightarrow> AdaptiveResolutionController \<Rightarrow> AdaptiveResolutionController" where
  "SetNativeSize native c =
     (if native = native_size c then c
      else c\<lparr>native_size := native, consecutive_breaches := 0, stable_since := 0\<rparr>)"

definition MakeDecision ::
  "AdaptiveResolutionController \<Rightarrow> ResolutionPolicyAction \<Rightarrow> ResolutionPolicyObservation \<Rightarrow> bool \<Rightarrow>
   ResolutionPolicyDecision" where
  "MakeDecision c action observation breached =
     \<lparr>dec_action = action, dec_max_longest_edge = current_max c, dec_encode_size = current_encode_size c,
      dec_budget_breached = breached, dec_stream_reset = (action \<noteq> PolicyNone),
      dec_breaches = consecutive_breaches c,
      dec_stable_duration =
        (if stable_since c \<noteq> 0 \<and> obs_timestamp observation \<ge> stable_since c
         then (obs_timestamp observation - stable_since c) div 1000000 else 0)\<rparr>"

definition budget_breached :: "ResolutionPolicyObservation \<Rightarrow> bool" where
  "budget_breached ob \<longleftrightarrow>
     obs_transport_blocked ob \<or> obs_queue_age ob > kReleaseBudget \<or>
     obs_capture_to_encode ob > kReleaseBudget \<or> obs_encode_duration ob > kEncodeBudget"

definition Observe ::
  "ResolutionPolicyObservation \<Rightarrow> AdaptiveResolutionController \<Rightarrow>
   ResolutionPolicyDecision \<times> AdaptiveResolutionController" where
  "Observe ob c =
     (let c = (if stable_since c = 0 then c\<lparr>stable_since := obs_timestamp ob\<rparr> else c) in
      if budget_breached ob then
        let c = c\<lparr>consecutive_breaches := consecutive_breaches c + 1, stable_since := obs_timestamp ob\<rparr> in
        if consecutive_breaches c \<ge> kPersistentBreachSamples \<and> current_max c > 1920 then
          let c = c\<lparr>current_max := (if current_max c = 3200 then 2560 else 1920),
                    consecutive_breaches := 0, stable_since := obs_timestamp ob\<rparr>
          in (MakeDecision c PolicyDowngrade ob True, c)
        else (MakeDecision c PolicyNone ob True, c)
      else
        let c = c\<lparr>consecutive_breaches := 0\<rparr> in
        if current_max c < initial_max c \<and> obs_timestamp ob \<ge> stable_since c \<and>
           obs_timestamp ob - stable_since c \<ge> kStableUpgradeWindow then
          let c = c\<lparr>current_max := (if current_max c = 1920 then 2560 else 3200),
                    stable_since := obs_timestamp ob\<rparr>
          in (MakeDecision c PolicyUpgrade ob False, c)
        else (MakeDecision c PolicyNone ob False, c))"

section \<open>What a scaled picture keeps\<close>

lemma and_not_mask: "and v (not (mask n)) = push_bit n (drop_bit n v)" for v :: "'a :: len word"
  by (rule bit_word_eqI) (auto simp: bit_simps)

lemma unat_even_floor: "unat (even_floor v) = 2 * (unat v div 2)"
proof -
  have eq: "even_floor v = v div 2 * 2"
    using and_not_mask [of v 1] by (simp add: even_floor_def push_bit_eq_mult drop_bit_eq_div)
  have half: "unat (v div 2) = unat v div 2" by (simp add: unat_div)
  moreover have "unat v div 2 * 2 < 2 ^ 32"
    using unsigned_less [of v, where 'a = nat] by simp
  ultimately have "unat (v div 2 * 2) = unat (v div 2) * unat (2 :: u32)"
    by (subst unat_mult_lem [symmetric]) simp
  with eq half show ?thesis by simp
qed

lemma round_even_error: "r - 1 / 2 \<le> of_int (round_even r)" "of_int (round_even r) \<le> r + 1 / 2"
  by (auto simp: round_even_def Let_def; linarith)+

lemma quantum_le:
  assumes "0 < x" and "2 powi emin \<le> x * 2 powi (1 - int p)"
  shows "quantum p emin x \<le> x * 2 powi (1 - int p)"
proof -
  have "(2 :: rat) powi (exponent x - int p + 1) = 2 powi exponent x * 2 powi (1 - int p)"
    by (simp add: power_int_add [symmetric] add.commute add.left_commute diff_add_eq algebra_simps)
  also have "\<dots> \<le> x * 2 powi (1 - int p)"
    using exponent_bounds [OF assms(1)] by (intro mult_right_mono) simp_all
  finally show ?thesis using assms by (simp add: quantum_def max_def)
qed

lemma f64_error:
  assumes "1 / 10 ^ 12 \<le> x"
  shows "x - x * 2 powi (-53) \<le> f64 x" "f64 x \<le> x + x * 2 powi (-53)"
proof -
  let ?q = "quantum 53 (- 1074) x"
  have x: "0 < x" using assms by (rule less_le_trans [rotated]) simp
  have "(2 :: rat) powi (- 1074) \<le> 1 / 10 ^ 12 * 2 powi (1 - int 53)"
    by (simp add: power_int_def field_simps)
  also have "\<dots> \<le> x * 2 powi (1 - int 53)" using assms by (intro mult_right_mono) simp_all
  finally have "?q \<le> x * 2 powi (1 - int 53)" using x by (rule quantum_le [rotated])
  moreover have "x * 2 powi (- 52) / 2 = x * 2 powi (- 53)" by (simp add: power_int_def power_divide)
  ultimately have q: "?q / 2 \<le> x * 2 powi (- 53)" by simp
  have pos: "0 < ?q" by (rule quantum_pos)
  have f: "f64 x = ?q * of_int (round_even (x / ?q))" using x by (simp add: f64_def round_fp_def)
  have "x - ?q / 2 = ?q * (x / ?q - 1 / 2)" using pos by (simp add: field_simps)
  also have "\<dots> \<le> f64 x" unfolding f using pos by (intro mult_left_mono round_even_error) simp
  finally show "x - x * 2 powi (-53) \<le> f64 x" using q by linarith
  have "f64 x \<le> ?q * (x / ?q + 1 / 2)"
    unfolding f using pos by (intro mult_left_mono round_even_error) simp
  also have "\<dots> = x + ?q / 2" using pos by (simp add: field_simps)
  finally show "f64 x \<le> x + x * 2 powi (-53)" using q by linarith
qed

lemma f64_le_int: "0 \<le> x \<Longrightarrow> x \<le> of_int n \<Longrightarrow> n \<le> 2 ^ 53 \<Longrightarrow> f64 x \<le> of_int n"
proof -
  assume x: "0 \<le> x" "x \<le> of_int n" and n: "n \<le> 2 ^ 53"
  then have "0 \<le> rat_of_int n" by linarith
  then have "0 \<le> n" by simp
  with x n show ?thesis unfolding f64_def by (intro round_fp_upper) (auto intro!: representable_int)
qed

lemma f64_ge_int: "0 \<le> n \<Longrightarrow> of_int n \<le> x \<Longrightarrow> n \<le> 2 ^ 53 \<Longrightarrow> of_int n \<le> f64 x"
  unfolding f64_def by (rule round_fp_lower) (auto intro!: representable_int)

lemma f64_nonneg: "0 \<le> x \<Longrightarrow> 0 \<le> f64 x"
  unfolding f64_def by (rule round_fp_nonneg) simp

text \<open>The two roundings of a scaled dimension move it by less than a thousandth.\<close>

lemma scaled_close:
  assumes "1 \<le> w" "w \<le> n" and "1920 \<le> r" "r < n" "n < 2 ^ 32"
  defines "q \<equiv> of_nat r / of_nat n :: rat"
  shows "\<bar>f64 (of_nat w * f64 q) - of_nat w * q\<bar> < 1 / 1000" "f64 q \<le> 1"
proof -
  define e :: rat where "e = 2 powi (- 53)"
  have e: "0 < e" "e \<le> 1 / 2 ^ 53" by (simp_all add: e_def power_int_def power_divide)
  have n: "(0 :: rat) < of_nat n" using assms by simp
  have "(1920 :: rat) \<le> of_nat r" "(of_nat n :: rat) \<le> 2 ^ 32"
    using assms by (metis of_nat_le_iff of_nat_numeral)
      (use assms(5) in \<open>metis less_imp_le of_nat_le_iff of_nat_numeral of_nat_power\<close>)
  then have qlow: "1 / 10 ^ 7 \<le> q" unfolding q_def using n by (simp add: field_simps)
  have q1: "q \<le> 1" unfolding q_def using n assms(4) by simp
  have s: "q - q * e \<le> f64 q" "f64 q \<le> q + q * e"
    using f64_error [of q] qlow unfolding e_def by simp_all
  show s1: "f64 q \<le> 1" using f64_le_int [of q 1] q1 qlow by simp
  let ?w = "of_nat w :: rat"
  have w1: "1 \<le> ?w" using assms(1) by simp
  have wn: "?w * q \<le> of_nat r"
    unfolding q_def using assms(2) n mult_right_mono [of ?w "of_nat n" "of_nat r"] by (simp add: field_simps)
  have r32: "(of_nat r :: rat) \<le> 2 ^ 32"
    using assms(4,5) by (metis less_imp_le less_trans of_nat_le_iff of_nat_numeral of_nat_power)
  have wq: "?w * q \<le> 2 ^ 32" using wn r32 by linarith
  have wq0: "1 / 10 ^ 7 \<le> ?w * q"
    using mult_mono [of 1 ?w "1 / 10 ^ 7" q] w1 qlow by simp
  let ?x = "?w * f64 q"
  have x: "?w * q - ?w * q * e \<le> ?x" "?x \<le> ?w * q + ?w * q * e"
    using mult_left_mono [OF s(1), of ?w] mult_left_mono [OF s(2), of ?w] w1
    by (simp_all add: algebra_simps)
  have d: "?w * q * e \<le> 1 / 2 ^ 21"
    using mult_mono [OF wq e(2)] wq0 e(1) by simp
  have d': "?w * q * e \<le> ?w * q / 2"
    using mult_left_mono [of e "1 / 2" "?w * q"] e wq0 by simp
  have half: "?w * q / 2 \<le> ?x" using x(1) d' by linarith
  have "(1 :: rat) / 10 ^ 12 \<le> 1 / 10 ^ 7 / 2" by simp
  also have "\<dots> \<le> ?w * q / 2" using wq0 by (rule divide_right_mono) simp
  finally have x0: "1 / 10 ^ 12 \<le> ?x" using half by (rule order_trans)
  have "(2 :: rat) ^ 32 + 1 / 2 ^ 21 \<le> 2 ^ 33" by simp
  then have x2: "?x \<le> 2 ^ 33" using x(2) d wq by linarith
  have dx: "?x * e \<le> 1 / 2 ^ 20" using mult_mono [OF x2 e(2)] x0 e(1) by simp
  have "?x - ?x * e \<le> f64 ?x" "f64 ?x \<le> ?x + ?x * e"
    using f64_error [OF x0] unfolding e_def by simp_all
  moreover have "(1 :: rat) / 2 ^ 21 + 1 / 2 ^ 20 < 1 / 1000" by simp
  ultimately have "f64 ?x - ?w * q < 1 / 1000" "- (1 / 1000) < f64 ?x - ?w * q"
    using x d dx by linarith+
  then show "\<bar>f64 ?x - ?w * q\<bar> < 1 / 1000" by linarith
qed

lemma int_unat_word_of_int:
  "0 \<le> k \<Longrightarrow> k < 2 ^ 32 \<Longrightarrow> int (unat (word_of_int k :: u32)) = k"
  by (simp add: unsigned_of_int take_bit_int_eq_self)

lemma scaled_floor:
  assumes "1 \<le> w" "w \<le> n" and "1920 \<le> r" "r < n" "n < 2 ^ 32"
    and d: "int d = \<lfloor>f64 (of_nat w * f64 (of_nat r / of_nat n))\<rfloor>"
  shows "d \<le> w" and "d \<le> r" and "d * n \<le> w * r + n" and "w * r < (d + 2) * n"
    and "w = n \<Longrightarrow> r - 1 \<le> d"
proof -
  let ?q = "of_nat r / of_nat n :: rat"
  let ?x = "of_nat w * f64 ?q"
  note close = scaled_close [OF assms(1-5)]
  have "?x \<le> of_int (int w)" using mult_left_mono [OF close(2), of "of_nat w"] by simp
  moreover have x0: "0 \<le> ?x" by (intro mult_nonneg_nonneg f64_nonneg) simp_all
  ultimately have "f64 ?x \<le> of_int (int w)" using assms by (intro f64_le_int) simp_all
  then have "int d \<le> int w" unfolding d by linarith
  then show "d \<le> w" by simp
  have "(of_nat d :: rat) = of_int \<lfloor>f64 ?x\<rfloor>" unfolding d [symmetric] by simp
  with floor_correct [of "f64 ?x"] have D: "of_nat d \<le> f64 ?x" "f64 ?x < of_nat d + 1" by linarith+
  have n: "(0 :: rat) < of_nat n" using assms by simp
  have wr: "of_nat w * ?q * of_nat n = of_nat w * of_nat r" using n by simp
  have 1: "of_nat d < of_nat w * ?q + 1" and 2: "of_nat w * ?q < of_nat d + 2"
    using close(1) D by linarith+
  have "of_nat d * of_nat n \<le> (of_nat w * ?q + 1) * (of_nat n :: rat)"
    using 1 n by (intro mult_right_mono) simp_all
  also have "\<dots> = of_nat w * of_nat r + of_nat n" using wr by (simp add: distrib_right)
  finally have "rat_of_nat (d * n) \<le> of_nat (w * r + n)" by simp
  then show "d * n \<le> w * r + n" by (simp only: of_nat_le_iff)
  have "of_nat w * ?q * of_nat n < (of_nat d + 2) * (of_nat n :: rat)"
    using 2 n by (rule mult_strict_right_mono)
  then have "rat_of_nat (w * r) < of_nat ((d + 2) * n)" unfolding wr by (simp add: algebra_simps)
  then show "w * r < (d + 2) * n" by (simp only: of_nat_less_iff)
  have "of_nat w * ?q \<le> of_nat r"
    using assms(2) n mult_right_mono [of "of_nat w :: rat" "of_nat n" "of_nat r"] by (simp add: field_simps)
  with 1 have "rat_of_nat d < of_nat (r + 1)" by simp
  then show "d \<le> r" unfolding of_nat_less_iff by simp
  show "r - 1 \<le> d" if "w = n"
  proof -
    have "of_nat w * ?q = of_nat r" using that n by simp
    with 2 have "rat_of_nat r < of_nat (d + 2)" by simp
    then show ?thesis unfolding of_nat_less_iff by simp
  qed
qed

text \<open>One dimension, scaled and made even, against the exact ratio.\<close>

definition fits_ratio :: "u32 \<Rightarrow> u32 \<Rightarrow> u32 \<Rightarrow> u32 \<Rightarrow> bool" where
  "fits_ratio v m r d \<longleftrightarrow>
     even (unat d) \<and> 2 \<le> unat d \<and> unat d \<le> unat r \<and> unat d \<le> max 2 (unat v) \<and>
     unat v * unat r < (unat d + 3) * unat m \<and> (2 < unat d \<longrightarrow> unat d * unat m \<le> unat v * unat r + unat m)"

lemma unat_max_2: "unat (max 2 w) = max 2 (unat w)" for w :: u32
  by (simp add: max_def word_le_nat_alt)

lemma scaled_dimension:
  assumes "v \<noteq> 0" "v \<le> m" and "1920 \<le> r" "r < m" "even (unat r)"
  defines "d \<equiv> max 2 (even_floor (scaled v (f64 (of_nat (unat r) / of_nat (unat m)))))"
  shows "fits_ratio v m r d" and "v = m \<Longrightarrow> unat r \<le> unat d + 2"
proof -
  have nat: "1 \<le> unat v" "unat v \<le> unat m" "1920 \<le> unat r" "unat r < unat m" "unat m < 2 ^ 32"
    using assms unsigned_less [of m, where 'a = nat]
    by (simp_all add: word_le_nat_alt word_less_nat_alt unat_gt_0 Suc_le_eq)
  let ?x = "of_nat (unat v) * f64 (of_nat (unat r) / of_nat (unat m) :: rat)"
  have x0: "0 \<le> ?x"
    by (intro mult_nonneg_nonneg f64_nonneg divide_nonneg_nonneg of_nat_0_le_iff)
  define k where "k = nat \<lfloor>f64 ?x\<rfloor>"
  have k: "int k = \<lfloor>f64 ?x\<rfloor>" unfolding k_def using f64_nonneg [OF x0] by simp
  note f = scaled_floor [OF nat k]
  have "k < 2 ^ 32" using f(1) nat by linarith
  then have "unat (scaled v (f64 (of_nat (unat r) / of_nat (unat m)))) = k"
    unfolding scaled_def k [symmetric] by (simp add: unat_of_nat take_bit_nat_eq_self)
  then have d: "unat d = max 2 (2 * (k div 2))" by (simp add: d_def unat_max_2 unat_even_floor)
  have "unat v * unat r < (k + 2) * unat m" by (rule f(4))
  also have "\<dots> \<le> (unat d + 3) * unat m" unfolding d by (intro mult_right_mono) simp_all
  finally have low: "unat v * unat r < (unat d + 3) * unat m" .
  have "unat d * unat m \<le> unat v * unat r + unat m" if "2 < unat d"
  proof -
    have "unat d \<le> k" using that d by (auto simp: max_def split: if_splits)
    then have "unat d * unat m \<le> k * unat m" by (rule mult_right_mono) simp
    with f(3) show ?thesis by linarith
  qed
  with low d f(1,2) nat show "fits_ratio v m r d" by (auto simp: fits_ratio_def max_def)
  show "unat r \<le> unat d + 2" if "v = m"
    using f(5) that assms(5) d by (auto simp: max_def elim!: evenE)
qed

text \<open>What \<open>SelectEncodeResolution\<close> promises for a monitor and a limit of at least the lowest rung.\<close>

definition rung_for :: "u32 \<Rightarrow> u32" where
  "rung_for m = (if 3200 \<le> m then 3200 else if 2560 \<le> m then 2560 else 1920)"

definition dropped_pixel :: "u32 \<Rightarrow> u32 \<Rightarrow> bool" where
  "dropped_pixel v d \<longleftrightarrow> unat d = max 2 (2 * (unat v div 2))"

lemma find_rung: "1920 \<le> m \<Longrightarrow> List.find (\<lambda>rung. rung \<le> m) kLongestEdgeLadder = Some (rung_for m)"
  by (simp add: kLongestEdgeLadder_def rung_for_def)

lemma rung_for_facts:
  "1920 \<le> m \<Longrightarrow> rung_for m \<le> m" "1920 \<le> rung_for m" "even (unat (rung_for m))"
  by (auto simp: rung_for_def)

lemma select_scaled:
  assumes "size_valid native" and "1920 \<le> m" and "m < longest_edge native"
  shows "SelectEncodeResolution native m = ScaleToLongestEdge native (rung_for m)"
    and "\<not> longest_edge native \<le> rung_for m" and "\<not> longest_edge native \<le> m"
proof -
  have "2 \<le> m" using assms(2) by (rule order_trans [rotated]) simp
  then show "SelectEncodeResolution native m = ScaleToLongestEdge native (rung_for m)"
    using assms by (simp add: SelectEncodeResolution_def find_rung not_less not_le [symmetric])
  show "\<not> longest_edge native \<le> m" using assms(3) by (simp add: not_le)
  have "rung_for m < longest_edge native" using rung_for_facts(1) [OF assms(2)] assms(3) by (rule le_less_trans)
  then show "\<not> longest_edge native \<le> rung_for m" by (simp add: not_le)
qed

lemma select_encode_resolution:
  assumes "size_valid native" and "1920 \<le> m"
  shows "if longest_edge native \<le> m
     then dropped_pixel (sizeWidth native) (sizeWidth (SelectEncodeResolution native m)) \<and>
          dropped_pixel (sizeHeight native) (sizeHeight (SelectEncodeResolution native m))
     else fits_ratio (sizeWidth native) (longest_edge native) (rung_for m)
            (sizeWidth (SelectEncodeResolution native m)) \<and>
          fits_ratio (sizeHeight native) (longest_edge native) (rung_for m)
            (sizeHeight (SelectEncodeResolution native m)) \<and>
          unat (rung_for m) \<le> unat (longest_edge (SelectEncodeResolution native m)) + 2"
proof (cases "longest_edge native \<le> m")
  case True
  moreover have "2 \<le> m" using assms(2) by (rule order_trans [rotated]) simp
  ultimately show ?thesis using assms(1)
    by (simp add: SelectEncodeResolution_def ScaleToLongestEdge_def dropped_pixel_def unat_max_2
        unat_even_floor not_less not_le [symmetric])
next
  case False
  then have less: "m < longest_edge native" by simp
  note sel = select_scaled [OF assms less]
  have rung: "1920 \<le> rung_for m" "rung_for m < longest_edge native" "even (unat (rung_for m))"
    using rung_for_facts sel(2) by (auto simp: not_le)
  have nz: "sizeWidth native \<noteq> 0" "sizeHeight native \<noteq> 0"
    and le: "sizeWidth native \<le> longest_edge native" "sizeHeight native \<le> longest_edge native"
    using assms(1) by (simp_all add: size_valid_def longest_edge_def)
  have scale: "ScaleToLongestEdge native (rung_for m) =
      (let s = f64 (of_nat (unat (rung_for m)) / of_nat (unat (longest_edge native))) in
        \<lparr>sizeWidth = max 2 (even_floor (scaled (sizeWidth native) s)),
         sizeHeight = max 2 (even_floor (scaled (sizeHeight native) s))\<rparr>)"
    unfolding ScaleToLongestEdge_def using assms(1) sel(2) by (simp add: Let_def)
  note w = scaled_dimension [OF nz(1) le(1) rung] and h = scaled_dimension [OF nz(2) le(2) rung]
  have "sizeWidth native = longest_edge native \<or> sizeHeight native = longest_edge native"
    by (auto simp: longest_edge_def max_def)
  then have "unat (rung_for m) \<le> unat (longest_edge (ScaleToLongestEdge native (rung_for m))) + 2"
    using w(2) h(2) unfolding scale
    by (auto simp: longest_edge_def [of "Size.make _ _"] longest_edge_def Let_def word_le_nat_alt max_def)
  with w(1) h(1) False show ?thesis unfolding sel(1) scale by (simp add: Let_def)
qed

text \<open>C30: A valid monitor size encodes, for every limit of at least the lowest rung, at a picture with both
  sides even and at least two. A monitor inside the limit keeps its size but for an odd last line. A larger
  one is scaled to the highest rung of the ladder inside the limit, in double arithmetic: no side exceeds
  the rung or the monitor, the longest edge is at most two pixels short of the rung, and each side is within
  three pixels of the exact ratio.\<close>

theorem encode_resolution_fits:
  assumes "size_valid native" and "1920 \<le> m"
  shows "if longest_edge native \<le> m
     then dropped_pixel (sizeWidth native) (sizeWidth (SelectEncodeResolution native m)) \<and>
          dropped_pixel (sizeHeight native) (sizeHeight (SelectEncodeResolution native m))
     else fits_ratio (sizeWidth native) (longest_edge native) (rung_for m)
            (sizeWidth (SelectEncodeResolution native m)) \<and>
          fits_ratio (sizeHeight native) (longest_edge native) (rung_for m)
            (sizeHeight (SelectEncodeResolution native m)) \<and>
          unat (rung_for m) \<le> unat (longest_edge (SelectEncodeResolution native m)) + 2"
  by (rule select_encode_resolution [OF assms])

lemma encode_resolution_fits_witness:
  "fits_ratio 3840 3840 2560 (sizeWidth (SelectEncodeResolution \<lparr>sizeWidth = 3840, sizeHeight = 2160\<rparr> 3000))"
  using encode_resolution_fits [of "\<lparr>sizeWidth = 3840, sizeHeight = 2160\<rparr>" 3000]
  by (simp add: size_valid_def longest_edge_def max_def rung_for_def)

text \<open>What every use of the ladder needs: even sides of at least two that do not exceed the limit.\<close>

lemma selected_size_bounds:
  assumes "size_valid native" and "1920 \<le> m"
  shows "even (unat (sizeWidth (SelectEncodeResolution native m)))" "2 \<le> unat (sizeWidth (SelectEncodeResolution native m))"
    "unat (sizeWidth (SelectEncodeResolution native m)) \<le> unat m"
    "even (unat (sizeHeight (SelectEncodeResolution native m)))" "2 \<le> unat (sizeHeight (SelectEncodeResolution native m))"
    "unat (sizeHeight (SelectEncodeResolution native m)) \<le> unat m"
proof -
  have m: "1920 \<le> unat m" using assms(2) by (simp add: word_le_nat_alt)
  have le: "unat (sizeWidth native) \<le> unat (longest_edge native)" "unat (sizeHeight native) \<le> unat (longest_edge native)"
    by (auto simp: longest_edge_def max_def word_le_nat_alt)
  have r: "unat (rung_for m) \<le> unat m" using rung_for_facts(1) [OF assms(2)] by (simp add: word_le_nat_alt)
  note s = select_encode_resolution [OF assms]
  show "even (unat (sizeWidth (SelectEncodeResolution native m)))" "2 \<le> unat (sizeWidth (SelectEncodeResolution native m))"
    "unat (sizeWidth (SelectEncodeResolution native m)) \<le> unat m"
    "even (unat (sizeHeight (SelectEncodeResolution native m)))" "2 \<le> unat (sizeHeight (SelectEncodeResolution native m))"
    "unat (sizeHeight (SelectEncodeResolution native m)) \<le> unat m"
    using s m le r by (auto simp: dropped_pixel_def fits_ratio_def word_le_nat_alt max_def split: if_splits)
qed

section \<open>A run of the policy\<close>

datatype policy_event = SizeReported Size | Observed ResolutionPolicyObservation

primrec policy_run :: "policy_event list \<Rightarrow> AdaptiveResolutionController \<Rightarrow> AdaptiveResolutionController" where
  "policy_run [] c = c"
| "policy_run (e # es) c = policy_run es
     (case e of SizeReported native \<Rightarrow> SetNativeSize native c | Observed ob \<Rightarrow> snd (Observe ob c))"

lemma policy_run_append: "policy_run (es @ fs) c = policy_run fs (policy_run es c)"
  by (induction es arbitrary: c) (simp_all)

primrec observations :: "policy_event list \<Rightarrow> ResolutionPolicyObservation list" where
  "observations [] = []"
| "observations (e # es) = (case e of SizeReported _ \<Rightarrow> [] | Observed ob \<Rightarrow> [ob]) @ observations es"

lemma observations_append [simp]: "observations (es @ fs) = observations es @ observations fs"
  by (induction es) simp_all

text \<open>The timestamps come from one steady clock.\<close>

definition steady :: "ResolutionPolicyObservation list \<Rightarrow> bool" where
  "steady obs \<longleftrightarrow> sorted (map obs_timestamp obs) \<and> list_all (\<lambda>ob. 0 < obs_timestamp ob) obs"

definition trailing :: "ResolutionPolicyObservation list \<Rightarrow> nat" where
  "trailing obs = length (takeWhile budget_breached (rev obs))"

text \<open>The state of the controller after the observations \<open>obs\<close>.\<close>

definition policy_inv :: "u32 \<Rightarrow> ResolutionPolicyObservation list \<Rightarrow> AdaptiveResolutionController \<Rightarrow> bool" where
  "policy_inv m obs c \<longleftrightarrow>
     initial_max c = ClampRung m \<and> current_max c \<in> {1920, 2560, 3200} \<and> current_max c \<le> initial_max c \<and>
     unat (consecutive_breaches c) \<le> trailing obs \<and>
     (stable_since c \<noteq> 0 \<longrightarrow>
        (\<forall>ob \<in> set obs. budget_breached ob \<longrightarrow> obs_timestamp ob \<le> stable_since c) \<and>
        (\<exists>ob \<in> set obs. obs_timestamp ob = stable_since c))"

lemma ClampRung_cases: "ClampRung m \<in> {1920, 2560, 3200}"
  by (simp add: ClampRung_def kLongestEdgeLadder_def)

lemma policy_inv_start: "policy_inv m [] (policy_start m c)"
  using ClampRung_cases [of m] by (auto simp: policy_inv_def policy_start_def trailing_def)

lemma policy_inv_size: "policy_inv m obs c \<Longrightarrow> policy_inv m obs (SetNativeSize s c)"
  by (auto simp: policy_inv_def SetNativeSize_def)

lemma unat_Suc_le: "unat (w + 1) \<le> Suc (unat w)" for w :: u32
  by (simp add: unat_word_ariths)

lemma trailing_snoc: "trailing (obs @ [ob]) = (if budget_breached ob then Suc (trailing obs) else 0)"
  by (simp add: trailing_def)

text \<open>What one observation does.\<close>

lemma Observe_cases [consumes 1, case_names downgrade breach upgrade clean]:
  assumes "Observe ob c = (d, c')"
  obtains "budget_breached ob" "3 \<le> consecutive_breaches c + 1" "1920 < current_max c"
      "dec_action d = PolicyDowngrade"
      "c' = c\<lparr>current_max := (if current_max c = 3200 then 2560 else 1920), consecutive_breaches := 0,
              stable_since := obs_timestamp ob\<rparr>"
  | "budget_breached ob" "dec_action d = PolicyNone"
      "c' = c\<lparr>consecutive_breaches := consecutive_breaches c + 1, stable_since := obs_timestamp ob\<rparr>"
  | "\<not> budget_breached ob" "current_max c < initial_max c" "stable_since c \<noteq> 0"
      "kStableUpgradeWindow \<le> obs_timestamp ob - stable_since c" "dec_action d = PolicyUpgrade"
      "c' = c\<lparr>current_max := (if current_max c = 1920 then 2560 else 3200), consecutive_breaches := 0,
              stable_since := obs_timestamp ob\<rparr>"
  | "\<not> budget_breached ob" "dec_action d = PolicyNone"
      "c' = c\<lparr>consecutive_breaches := 0,
              stable_since := (if stable_since c = 0 then obs_timestamp ob else stable_since c)\<rparr>"
proof -
  note defs = Observe_def Let_def MakeDecision_def kPersistentBreachSamples_def
  let ?low = "3 \<le> consecutive_breaches c + 1 \<and> 1920 < current_max c"
  let ?up = "current_max c < initial_max c \<and> stable_since c \<noteq> 0 \<and>
             kStableUpgradeWindow \<le> obs_timestamp ob - stable_since c"
  consider "budget_breached ob" ?low | "budget_breached ob" "\<not> ?low" | "\<not> budget_breached ob" ?up
    | "\<not> budget_breached ob" "\<not> ?up" by blast
  then show thesis
  proof cases
    case 1
    have "dec_action d = PolicyDowngrade \<and>
      c' = c\<lparr>current_max := (if current_max c = 3200 then 2560 else 1920), consecutive_breaches := 0,
             stable_since := obs_timestamp ob\<rparr>"
      using assms 1 by (cases "stable_since c = 0") (auto simp: defs)
    with 1 show thesis by (intro that(1)) simp_all
  next
    case 2
    have "dec_action d = PolicyNone \<and>
      c' = c\<lparr>consecutive_breaches := consecutive_breaches c + 1, stable_since := obs_timestamp ob\<rparr>"
      using assms 2 by (cases "stable_since c = 0") (auto simp: defs)
    with 2 show thesis by (intro that(2)) simp_all
  next
    case 3
    have "0 < kStableUpgradeWindow" by (simp add: kStableUpgradeWindow_def)
    then have "dec_action d = PolicyUpgrade \<and>
      c' = c\<lparr>current_max := (if current_max c = 1920 then 2560 else 3200), consecutive_breaches := 0,
             stable_since := obs_timestamp ob\<rparr>"
      using assms 3 by (auto simp: defs)
    with 3 show thesis by (intro that(3)) simp_all
  next
    case 4
    have "0 < kStableUpgradeWindow" by (simp add: kStableUpgradeWindow_def)
    then have "dec_action d = PolicyNone \<and>
      c' = c\<lparr>consecutive_breaches := 0,
             stable_since := (if stable_since c = 0 then obs_timestamp ob else stable_since c)\<rparr>"
      using assms 4 by (cases "stable_since c = 0") (auto simp: defs split: if_splits)
    with 4 show thesis by (intro that(4)) simp_all
  qed
qed

lemma policy_inv_observe:
  assumes inv: "policy_inv m obs c" and st: "steady (obs @ [ob])" and "Observe ob c = (d, c')"
  shows "policy_inv m (obs @ [ob]) c'"
proof -
  have last: "\<forall>o' \<in> set (obs @ [ob]). obs_timestamp o' \<le> obs_timestamp ob"
    using st by (auto simp: steady_def sorted_append)
  have ladder: "current_max c \<in> {1920, 2560, 3200}" "initial_max c = ClampRung m" "current_max c \<le> initial_max c"
    and br: "unat (consecutive_breaches c) \<le> trailing obs"
    using inv unfolding policy_inv_def by blast+
  have clamp: "ClampRung m \<in> {1920, 2560, 3200}" by (rule ClampRung_cases)
  from assms(3) show ?thesis
  proof (cases rule: Observe_cases)
    case downgrade
    with last ladder clamp show ?thesis by (auto simp: policy_inv_def)
  next
    case breach
    have "unat (consecutive_breaches c + 1) \<le> Suc (trailing obs)"
      using unat_Suc_le [of "consecutive_breaches c"] br by simp
    with breach last ladder show ?thesis by (auto simp: policy_inv_def trailing_snoc)
  next
    case upgrade
    with last ladder clamp show ?thesis by (auto simp: policy_inv_def)
  next
    case clean
    with inv last ladder show ?thesis by (auto simp: policy_inv_def)
  qed
qed

lemma steady_prefix: "steady (xs @ ys) \<Longrightarrow> steady xs"
  by (simp add: steady_def sorted_append)

lemma policy_inv_run:
  "steady (observations es) \<Longrightarrow> policy_inv m (observations es) (policy_run es (policy_start m c))"
proof (induction es rule: rev_induct)
  case Nil
  then show ?case by (simp add: policy_inv_start)
next
  case (snoc e es)
  then have inv: "policy_inv m (observations es) (policy_run es (policy_start m c))"
    by (simp add: steady_prefix)
  show ?case
  proof (cases e)
    case (SizeReported s)
    with inv show ?thesis by (simp add: policy_run_append policy_inv_size)
  next
    case (Observed ob)
    obtain d c' where "Observe ob (policy_run es (policy_start m c)) = (d, c')" by fastforce
    with policy_inv_observe [OF inv _ this] snoc.prems Observed show ?thesis
      by (simp add: policy_run_append)
  qed
qed

text \<open>The last observations.\<close>

lemma takeWhile_take: "n \<le> length (takeWhile P xs) \<Longrightarrow> list_all P (take n xs)"
proof (induction xs arbitrary: n)
  case (Cons a xs)
  then show ?case by (cases n) (auto split: if_splits)
qed simp

lemma trailing_take: "n \<le> trailing obs \<Longrightarrow> list_all budget_breached (take n (rev obs))"
  unfolding trailing_def by (rule takeWhile_take)


definition over_budget_at :: "int \<Rightarrow> ResolutionPolicyObservation" where
  "over_budget_at t = \<lparr>obs_timestamp = t, obs_queue_age = 60000, obs_encode_duration = 0,
     obs_capture_to_encode = 0, obs_transport_blocked = False\<rparr>"


end
