(* ===== verification/VideoState.thy ===== *)
theory VideoState
  imports Resolution
begin

text \<open>
  The small state machines of the video path: \<open>video/async_mft_state.h\<close> (the events of an asynchronous
  transform and the one input in flight), \<open>video/latest_frame_queue.h\<close>, \<open>video/backpressure_policy.h\<close> and
  \<open>.cpp\<close>, the access unit of \<open>video/types.h\<close> and the one-shot timing record of \<open>video/telemetry.h\<close>.
  Times are nanoseconds of the steady clock, durations microseconds.
\<close>

section \<open>\<open>AsyncMftStateMachine\<close>\<close>

datatype AsyncMftEvent = kNeedInput | kHaveOutput | kDrainComplete | kEndOfStream

record AsyncMft =
  input_requested :: bool
  output_available :: bool
  mft_draining :: bool
  drain_complete :: bool
  end_of_stream :: bool
  mft_faulted :: bool
  restart_requested :: bool
  pending_sequence :: "u64 option"

definition StartStream :: AsyncMft where
  "StartStream = \<lparr>input_requested = False, output_available = False, mft_draining = False,
     drain_complete = False, end_of_stream = False, mft_faulted = False, restart_requested = False,
     pending_sequence = None\<rparr>"

fun OnEvent :: "AsyncMftEvent \<Rightarrow> AsyncMft \<Rightarrow> AsyncMft" where
  "OnEvent kNeedInput a = (if \<not> mft_draining a \<and> \<not> mft_faulted a then a\<lparr>input_requested := True\<rparr> else a)"
| "OnEvent kHaveOutput a = (if \<not> mft_faulted a then a\<lparr>output_available := True\<rparr> else a)"
| "OnEvent kDrainComplete a = a\<lparr>drain_complete := True\<rparr>"
| "OnEvent kEndOfStream a = a\<lparr>end_of_stream := True\<rparr>"

definition CanAcceptInput :: "AsyncMft \<Rightarrow> bool" where
  "CanAcceptInput a \<longleftrightarrow>
     input_requested a \<and> pending_sequence a = None \<and> \<not> mft_draining a \<and> \<not> mft_faulted a"

definition HasPendingInput :: "AsyncMft \<Rightarrow> bool" where
  "HasPendingInput a \<longleftrightarrow> pending_sequence a \<noteq> None"

definition OnInputAccepted :: "u64 \<Rightarrow> AsyncMft \<Rightarrow> bool \<times> AsyncMft" where
  "OnInputAccepted sequence a =
     (if \<not> CanAcceptInput a then (False, a)
      else (True, a\<lparr>input_requested := False, pending_sequence := Some sequence\<rparr>))"

definition OnOutputProduced :: "AsyncMft \<Rightarrow> u64 option \<times> AsyncMft" where
  "OnOutputProduced a = (pending_sequence a, a\<lparr>output_available := False, pending_sequence := None\<rparr>)"

definition OnOutputUnavailable :: "AsyncMft \<Rightarrow> AsyncMft" where
  "OnOutputUnavailable a = a\<lparr>output_available := False\<rparr>"

definition BeginDrain :: "AsyncMft \<Rightarrow> AsyncMft" where
  "BeginDrain a = a\<lparr>input_requested := False, mft_draining := True\<rparr>"

definition MarkFatal :: "AsyncMft \<Rightarrow> AsyncMft" where
  "MarkFatal a = a\<lparr>input_requested := False, output_available := False, mft_faulted := True,
                  restart_requested := True\<rparr>"

definition TakeRestartRequest :: "AsyncMft \<Rightarrow> bool \<times> AsyncMft" where
  "TakeRestartRequest a = (restart_requested a, a\<lparr>restart_requested := False\<rparr>)"

text \<open>A faulted or draining machine asks for nothing.\<close>

definition mft_ok :: "AsyncMft \<Rightarrow> bool" where
  "mft_ok a \<longleftrightarrow> (mft_faulted a \<longrightarrow> \<not> input_requested a \<and> \<not> output_available a) \<and>
                (mft_draining a \<longrightarrow> \<not> input_requested a)"

named_theorems mft_intros \<open>the operations keep the machine well-formed\<close>

lemma mft_ok_start [mft_intros]: "mft_ok StartStream"
  by (simp add: mft_ok_def StartStream_def)

lemma mft_ok_event [mft_intros]: "mft_ok a \<Longrightarrow> mft_ok (OnEvent e a)"
  by (cases e) (auto simp: mft_ok_def)

lemma mft_ok_accepted [mft_intros]: "mft_ok a \<Longrightarrow> mft_ok (snd (OnInputAccepted n a))"
  by (auto simp: mft_ok_def OnInputAccepted_def)

lemma mft_ok_produced [mft_intros]: "mft_ok a \<Longrightarrow> mft_ok (snd (OnOutputProduced a))"
  by (auto simp: mft_ok_def OnOutputProduced_def)

lemma mft_ok_unavailable [mft_intros]: "mft_ok a \<Longrightarrow> mft_ok (OnOutputUnavailable a)"
  by (auto simp: mft_ok_def OnOutputUnavailable_def)

lemma mft_ok_drain [mft_intros]: "mft_ok a \<Longrightarrow> mft_ok (BeginDrain a)"
  by (auto simp: mft_ok_def BeginDrain_def)

lemma mft_ok_fatal [mft_intros]: "mft_ok (MarkFatal a)"
  by (simp add: mft_ok_def MarkFatal_def)

lemma mft_ok_take [mft_intros]: "mft_ok a \<Longrightarrow> mft_ok (snd (TakeRestartRequest a))"
  by (auto simp: mft_ok_def TakeRestartRequest_def)

lemma OnEvent_pending [simp]: "pending_sequence (OnEvent e a) = pending_sequence a"
  by (cases e) auto

lemma OnEvent_faulted [simp]: "mft_faulted (OnEvent e a) = mft_faulted a"
  by (cases e) auto

section \<open>\<open>LatestFrameQueue\<close>\<close>

record 'a LatestFrameQueue =
  item :: "'a option"
  replaced_count :: u64

definition queue_init :: "'a LatestFrameQueue" where
  "queue_init = \<lparr>item = None, replaced_count = 0\<rparr>"

definition Push :: "'a \<Rightarrow> 'a LatestFrameQueue \<Rightarrow> 'a LatestFrameQueue" where
  "Push v q = (if item q \<noteq> None then q\<lparr>replaced_count := replaced_count q + 1, item := Some v\<rparr>
              else q\<lparr>item := Some v\<rparr>)"

definition PushIfEmpty :: "'a \<Rightarrow> 'a LatestFrameQueue \<Rightarrow> bool \<times> 'a LatestFrameQueue" where
  "PushIfEmpty v q = (if item q \<noteq> None then (False, q) else (True, q\<lparr>item := Some v\<rparr>))"

definition TryPop :: "'a LatestFrameQueue \<Rightarrow> 'a option \<times> 'a LatestFrameQueue" where
  "TryPop q = (item q, q\<lparr>item := None\<rparr>)"

lemma pop_after_push: "fst (TryPop (Push v q)) = Some v" "item (snd (TryPop q)) = None"
  by (auto simp: TryPop_def Push_def)

section \<open>\<open>EncodedBackpressurePolicy\<close>\<close>

datatype TransportAction = kSend | kHold | kRequestStreamReset

record Backpressure =
  reset_pending :: bool
  reset_requests :: u64

definition backpressure_init :: Backpressure where
  "backpressure_init = \<lparr>reset_pending = False, reset_requests = 0\<rparr>"

definition OnTransportWouldBlock :: "Backpressure \<Rightarrow> TransportAction \<times> Backpressure" where
  "OnTransportWouldBlock b =
     (if reset_pending b then (kHold, b)
      else (kRequestStreamReset, b\<lparr>reset_pending := True, reset_requests := reset_requests b + 1\<rparr>))"

definition MaySendAccessUnit :: "Backpressure \<Rightarrow> bool" where
  "MaySendAccessUnit b \<longleftrightarrow> \<not> reset_pending b"

definition OnStreamResetStarted :: "Backpressure \<Rightarrow> Backpressure" where
  "OnStreamResetStarted b = b\<lparr>reset_pending := True\<rparr>"

definition OnFreshIdrProduced :: "Backpressure \<Rightarrow> Backpressure" where
  "OnFreshIdrProduced b = b\<lparr>reset_pending := False\<rparr>"

section \<open>Access units and their timing\<close>

record EncodedAccessUnit =
  au_bytes :: bytes
  au_sequence :: u64
  au_is_idr :: bool
  au_acquired_at :: int
  au_encoded_at :: int

definition empty_access_unit :: EncodedAccessUnit where
  "empty_access_unit = \<lparr>au_bytes = [], au_sequence = 0, au_is_idr = False, au_acquired_at = 0, au_encoded_at = 0\<rparr>"

definition ResetEncodedAccessUnit :: "EncodedAccessUnit \<Rightarrow> EncodedAccessUnit" where
  "ResetEncodedAccessUnit output =
     output\<lparr>au_bytes := [], au_sequence := 0, au_is_idr := False, au_acquired_at := 0, au_encoded_at := 0\<rparr>"

lemma ResetEncodedAccessUnit_eq [simp]: "ResetEncodedAccessUnit u = empty_access_unit"
  by (cases u) (simp add: ResetEncodedAccessUnit_def empty_access_unit_def)

record CaptureTelemetry =
  cap_sequence :: u64
  cap_acquire_duration :: int
  cap_gpu_copy_duration :: int
  cap_queue_age :: int
  cap_replaced_frames :: u64

record EncodeTelemetry =
  enc_sequence :: u64
  enc_acquired_at :: int
  enc_encoded_at :: int
  enc_conversion_duration :: int
  enc_encode_duration :: int
  enc_capture_to_encode :: int
  enc_idr :: bool

record PendingEncodeTelemetry =
  pend_sequence :: u64
  pend_acquired_at :: int
  pend_conversion_duration :: int
  pend_encode_started :: int

datatype EncodeTelemetryCompletion = kNoPending | kCompleted | kSequenceMismatch

type_synonym PendingState = "PendingEncodeTelemetry option"

text \<open>\<open>duration_cast\<close> from nanoseconds to microseconds truncates towards zero.\<close>

definition to_us :: "int \<Rightarrow> int" where
  "to_us ns = (if 0 \<le> ns then ns div 1000 else - ((- ns) div 1000))"

definition BeginPending :: "PendingEncodeTelemetry \<Rightarrow> PendingState \<Rightarrow> bool \<times> PendingState" where
  "BeginPending p s = (if s \<noteq> None then (False, s) else (True, Some p))"

text \<open>\<open>Complete\<close> with the two output pointers not null, as its only caller passes them: the result, the
  sample and the age in the queue when it completes, the stamped output, and the state.\<close>

definition Complete ::
  "EncodedAccessUnit \<Rightarrow> int \<Rightarrow> PendingState \<Rightarrow>
   (EncodeTelemetryCompletion \<times> (EncodeTelemetry \<times> int) option) \<times> EncodedAccessUnit \<times> PendingState" where
  "Complete output completed_at s = (case s of
     None \<Rightarrow> ((kNoPending, None), output, s)
   | Some pending \<Rightarrow>
       if pend_sequence pending \<noteq> au_sequence output then ((kSequenceMismatch, None), output, None)
       else
         let output = output\<lparr>au_acquired_at := pend_acquired_at pending\<rparr>;
             output = (if au_encoded_at output = 0 then output\<lparr>au_encoded_at := completed_at\<rparr> else output);
             telemetry = \<lparr>enc_sequence = au_sequence output, enc_acquired_at = pend_acquired_at pending,
               enc_encoded_at = au_encoded_at output,
               enc_conversion_duration = pend_conversion_duration pending,
               enc_encode_duration = to_us (au_encoded_at output - pend_encode_started pending),
               enc_capture_to_encode = to_us (au_encoded_at output - pend_acquired_at pending),
               enc_idr = au_is_idr output\<rparr>
         in ((kCompleted, Some (telemetry, to_us (pend_encode_started pending - pend_acquired_at pending))),
             output, None))"

lemma Complete_consumes: "snd (snd (Complete output t s)) = None"
  by (auto simp: Complete_def Let_def split: option.splits)

lemma Complete_sequence:
  "fst (fst (Complete output t s)) = kCompleted \<longleftrightarrow> (\<exists>p. s = Some p \<and> pend_sequence p = au_sequence output)"
  by (auto simp: Complete_def Let_def split: option.splits)

end
