(* ===== verification/H264Policy.thy ===== *)
theory H264Policy
  imports VideoState "HOL-Library.List_Lexorder"
begin

text \<open>
  The pure functions of \<open>video/h264_encoder.h\<close> and the two at the head of \<open>video/h264_encoder.cpp\<close>: what an
  \<open>HRESULT\<close> of \<open>ProcessOutput\<close> calls for, when samples are reused, the order of the stream set-up, the
  preference among candidate encoders and the search for an IDR unit. The codes and flags of Windows are
  the values of its SDK headers. A pointer is an address, \<open>None\<close> when it is null.
\<close>

section \<open>\<open>HRESULT\<close>\<close>

type_synonym HRESULT = i32

definition SUCCEEDED :: "HRESULT \<Rightarrow> bool" where "SUCCEEDED hr \<longleftrightarrow> 0 \<le> sint hr"
definition FAILED :: "HRESULT \<Rightarrow> bool" where "FAILED hr \<longleftrightarrow> sint hr < 0"

abbreviation S_OK :: HRESULT where "S_OK \<equiv> 0"
abbreviation S_FALSE :: HRESULT where "S_FALSE \<equiv> 1"
definition E_NOTIMPL :: HRESULT where "E_NOTIMPL = 0x80004001"
definition E_NOINTERFACE :: HRESULT where "E_NOINTERFACE = 0x80004002"
definition E_POINTER :: HRESULT where "E_POINTER = 0x80004003"
definition E_FAIL :: HRESULT where "E_FAIL = 0x80004005"
definition E_UNEXPECTED :: HRESULT where "E_UNEXPECTED = 0x8000FFFF"
definition E_HANDLE :: HRESULT where "E_HANDLE = 0x80070006"
definition E_INVALIDARG :: HRESULT where "E_INVALIDARG = 0x80070057"
definition E_WIN32_NOT_SUPPORTED :: HRESULT where "E_WIN32_NOT_SUPPORTED = 0x80070032"
definition E_WIN32_PROC_NOT_FOUND :: HRESULT where "E_WIN32_PROC_NOT_FOUND = 0x8007007F"
definition E_WIN32_TIMEOUT :: HRESULT where "E_WIN32_TIMEOUT = 0x800705B4"
definition MF_E_NOT_INITIALIZED :: HRESULT where "MF_E_NOT_INITIALIZED = 0xC00D36B6"
definition MF_E_NOTACCEPTING :: HRESULT where "MF_E_NOTACCEPTING = 0xC00D36B5"
definition MF_E_INVALIDMEDIATYPE :: HRESULT where "MF_E_INVALIDMEDIATYPE = 0xC00D36B4"
definition MF_E_NO_MORE_TYPES :: HRESULT where "MF_E_NO_MORE_TYPES = 0xC00D36B9"
definition MF_E_ATTRIBUTENOTFOUND :: HRESULT where "MF_E_ATTRIBUTENOTFOUND = 0xC00D36E6"
definition MF_E_TOPO_CODEC_NOT_FOUND :: HRESULT where "MF_E_TOPO_CODEC_NOT_FOUND = 0xC00D5212"
definition MF_E_NO_EVENTS_AVAILABLE :: HRESULT where "MF_E_NO_EVENTS_AVAILABLE = 0xC00D3E80"
definition MF_E_TRANSFORM_STREAM_CHANGE :: HRESULT where "MF_E_TRANSFORM_STREAM_CHANGE = 0xC00D6D61"
definition MF_E_TRANSFORM_NEED_MORE_INPUT :: HRESULT where "MF_E_TRANSFORM_NEED_MORE_INPUT = 0xC00D6D72"
definition kErrFrameFormatUnsupported :: HRESULT where "kErrFrameFormatUnsupported = 0x80040502"

lemmas hresults = E_NOTIMPL_def E_NOINTERFACE_def E_POINTER_def E_FAIL_def E_UNEXPECTED_def E_HANDLE_def
  E_INVALIDARG_def E_WIN32_NOT_SUPPORTED_def E_WIN32_PROC_NOT_FOUND_def E_WIN32_TIMEOUT_def
  MF_E_NOT_INITIALIZED_def MF_E_NOTACCEPTING_def MF_E_INVALIDMEDIATYPE_def MF_E_NO_MORE_TYPES_def
  MF_E_ATTRIBUTENOTFOUND_def MF_E_TOPO_CODEC_NOT_FOUND_def MF_E_NO_EVENTS_AVAILABLE_def MF_E_TRANSFORM_STREAM_CHANGE_def
  MF_E_TRANSFORM_NEED_MORE_INPUT_def kErrFrameFormatUnsupported_def

lemma FAILED_codes [simp]:
  "FAILED E_POINTER" "FAILED E_FAIL" "FAILED E_UNEXPECTED" "FAILED E_HANDLE" "FAILED E_INVALIDARG"
  "FAILED E_NOINTERFACE" "FAILED MF_E_NOTACCEPTING" "FAILED MF_E_NOT_INITIALIZED"
  "FAILED MF_E_TRANSFORM_NEED_MORE_INPUT" "FAILED MF_E_TRANSFORM_STREAM_CHANGE"
  "FAILED E_WIN32_TIMEOUT" "FAILED E_WIN32_PROC_NOT_FOUND" "FAILED MF_E_TOPO_CODEC_NOT_FOUND"
  "FAILED kErrFrameFormatUnsupported" "\<not> FAILED 0" "\<not> FAILED 1"
  by (simp_all add: FAILED_def hresults)

lemma SUCCEEDED_iff [simp]: "SUCCEEDED hr \<longleftrightarrow> \<not> FAILED hr"
  by (auto simp: SUCCEEDED_def FAILED_def)

section \<open>Configuration and candidates\<close>

record H264EncoderConfig =
  cfg_size :: Size
  cfg_frame_rate :: u32
  cfg_bitrate :: u32

definition config_for :: "Size \<Rightarrow> H264EncoderConfig" where
  "config_for s = \<lparr>cfg_size = s, cfg_frame_rate = 60, cfg_bitrate = 80000000\<rparr>"

text \<open>\<open>wchar_t\<close> is an unsigned 16-bit unit.\<close>

record Candidate =
  cand_name :: "u16 list"
  cand_index :: u32
  cand_setup_status :: HRESULT
  cand_benchmark_status :: HRESULT
  cand_latency :: int
  cand_measured_frames :: u32
  cand_asynchronous :: bool
  cand_adapter_scoped :: bool
  cand_usable :: bool

definition PreferH264EncoderCandidate :: "Candidate \<Rightarrow> Candidate \<Rightarrow> bool" where
  "PreferH264EncoderCandidate candidate current =
     (if \<not> cand_usable candidate \<or> \<not> cand_adapter_scoped candidate then False
      else if \<not> cand_usable current \<or> \<not> cand_adapter_scoped current then True
      else if cand_latency candidate \<noteq> cand_latency current then cand_latency candidate < cand_latency current
      else if cand_name candidate \<noteq> cand_name current then cand_name candidate < cand_name current
      else cand_index candidate < cand_index current)"

definition eligible :: "Candidate \<Rightarrow> bool" where
  "eligible c \<longleftrightarrow> cand_usable c \<and> cand_adapter_scoped c"

lemma prefer_irrefl: "\<not> PreferH264EncoderCandidate c c"
  by (simp add: PreferH264EncoderCandidate_def)

lemma prefer_trans:
  "PreferH264EncoderCandidate a b \<Longrightarrow> PreferH264EncoderCandidate b c \<Longrightarrow> PreferH264EncoderCandidate a c"
  by (auto simp: PreferH264EncoderCandidate_def split: if_splits)

lemma prefer_total:
  "eligible a \<Longrightarrow> eligible b \<Longrightarrow> cand_index a \<noteq> cand_index b \<Longrightarrow>
   PreferH264EncoderCandidate a b \<or> PreferH264EncoderCandidate b a"
  by (auto simp: PreferH264EncoderCandidate_def eligible_def)

section \<open>Decisions about samples and results\<close>

definition IsOptionalH264CodecApiPropertyFailure :: "HRESULT \<Rightarrow> bool" where
  "IsOptionalH264CodecApiPropertyFailure hr \<longleftrightarrow>
     hr = E_INVALIDARG \<or> hr = E_NOTIMPL \<or> hr = E_NOINTERFACE \<or> hr = E_WIN32_NOT_SUPPORTED"

definition kMaxH264EncoderOutputStreamChanges :: u32 where "kMaxH264EncoderOutputStreamChanges = 4"
definition kMaxH264EncoderEmptyOutputRetries :: u32 where "kMaxH264EncoderEmptyOutputRetries = 4"

datatype H264EncoderOutputAction = kConsumeOutput | kNeedMoreInput | kRetryOutput | kRenegotiateOutput | kFail
datatype H264OutputSampleDisposition = kNone | kSameAsCaller | kReplacement
datatype H264InputSampleCacheAction = kReuse | kRebuild | kRejectInFlight

definition DecideH264InputSampleCacheAction ::
  "nat option \<Rightarrow> nat option \<Rightarrow> bool \<Rightarrow> bool \<Rightarrow> bool \<Rightarrow> H264InputSampleCacheAction" where
  "DecideH264InputSampleCacheAction cached_texture_identity frame_texture_identity sample_ready
     input_in_flight mft_does_not_addref_input =
     (if input_in_flight then kRejectInFlight
      else if \<not> mft_does_not_addref_input \<or> \<not> sample_ready \<or>
              cached_texture_identity \<noteq> frame_texture_identity then kRebuild
      else kReuse)"

definition ClassifyH264OutputSample :: "nat option \<Rightarrow> nat option \<Rightarrow> H264OutputSampleDisposition" where
  "ClassifyH264OutputSample caller_sample returned_sample =
     (if returned_sample = None then kNone
      else if returned_sample = caller_sample then kSameAsCaller
      else kReplacement)"

definition MFT_OUTPUT_DATA_BUFFER_FORMAT_CHANGE :: u32 where "MFT_OUTPUT_DATA_BUFFER_FORMAT_CHANGE = 0x100"
definition MFT_OUTPUT_DATA_BUFFER_STREAM_END :: u32 where "MFT_OUTPUT_DATA_BUFFER_STREAM_END = 0x200"
definition MFT_OUTPUT_DATA_BUFFER_NO_SAMPLE :: u32 where "MFT_OUTPUT_DATA_BUFFER_NO_SAMPLE = 0x300"

definition H264OutputContainsSample :: "u32 \<Rightarrow> bool" where
  "H264OutputContainsSample output_buffer_status \<longleftrightarrow>
     and output_buffer_status MFT_OUTPUT_DATA_BUFFER_NO_SAMPLE = 0"

definition ClassifyH264EncoderOutputStatus :: "HRESULT \<Rightarrow> u32 \<Rightarrow> u32 \<Rightarrow> H264EncoderOutputAction" where
  "ClassifyH264EncoderOutputStatus hr output_buffer_status completed_stream_changes =
     (if SUCCEEDED hr then kConsumeOutput
      else if hr = MF_E_TRANSFORM_NEED_MORE_INPUT then kNeedMoreInput
      else if hr = MF_E_TRANSFORM_STREAM_CHANGE \<and>
              completed_stream_changes < kMaxH264EncoderOutputStreamChanges then
        (let mask = or MFT_OUTPUT_DATA_BUFFER_FORMAT_CHANGE MFT_OUTPUT_DATA_BUFFER_STREAM_END;
             stream_status = and output_buffer_status mask in
         if stream_status = MFT_OUTPUT_DATA_BUFFER_FORMAT_CHANGE then kRenegotiateOutput else kRetryOutput)
      else kFail)"

definition ShouldRetryEmptyH264EncoderOutput :: "bool \<Rightarrow> u32 \<Rightarrow> bool" where
  "ShouldRetryEmptyH264EncoderOutput has_sample completed_empty_output_retries \<longleftrightarrow>
     \<not> has_sample \<and> completed_empty_output_retries < kMaxH264EncoderEmptyOutputRetries"

section \<open>The order of the stream set-up\<close>

datatype H264EncoderStreamSetupStep =
  kSetD3DManager | kConfigureCodecApi | kSetOutputType | kSetInputType | kBeginStreaming | kStartOfStream

fun step_number :: "H264EncoderStreamSetupStep \<Rightarrow> u8" where
  "step_number kSetD3DManager = 0"
| "step_number kConfigureCodecApi = 1"
| "step_number kSetOutputType = 2"
| "step_number kSetInputType = 3"
| "step_number kBeginStreaming = 4"
| "step_number kStartOfStream = 5"

definition Advance :: "H264EncoderStreamSetupStep \<Rightarrow> u8 \<Rightarrow> bool \<times> u8" where
  "Advance step next_step = (if step_number step \<noteq> next_step then (False, next_step) else (True, next_step + 1))"

definition setup_complete :: "u8 \<Rightarrow> bool" where
  "setup_complete next_step \<longleftrightarrow> next_step = step_number kStartOfStream + 1"

definition media_types_configured :: "u8 \<Rightarrow> bool" where
  "media_types_configured next_step \<longleftrightarrow> step_number kBeginStreaming \<le> next_step"

section \<open>The search for an IDR unit\<close>

text \<open>The inner loop: where the first NAL header at or after the start code searched from stands, or the size.\<close>

function find_nal_header :: "bytes \<Rightarrow> nat \<Rightarrow> nat" where
  "find_nal_header bs index =
     (if index + 2 < length bs then
        if bs ! index \<noteq> 0 \<or> bs ! (index + 1) \<noteq> 0 then find_nal_header bs (index + 1)
        else if bs ! (index + 2) = 1 then index + 3
        else if index + 3 < length bs \<and> bs ! (index + 2) = 0 \<and> bs ! (index + 3) = 1 then index + 4
        else find_nal_header bs (index + 1)
      else length bs)"
  by pat_completeness auto
termination by (relation "measure (\<lambda>(bs, index). length bs - index)") auto

declare find_nal_header.simps [simp del]

definition idr_header :: "u8 \<Rightarrow> bool" where
  "idr_header b \<longleftrightarrow> and b 0x80 = 0 \<and> and b 0x1f = 5"

lemma find_nal_header_bounds: "find_nal_header bs k \<le> length bs \<and> (find_nal_header bs k < length bs \<longrightarrow> k < find_nal_header bs k)"
  by (induction bs k rule: find_nal_header.induct) (subst (1 2 3) find_nal_header.simps, auto)

function contains_idr :: "bytes \<Rightarrow> nat \<Rightarrow> bool" where
  "contains_idr bs search_from =
     (if search_from < length bs then
        let nal_header = find_nal_header bs search_from in
        if nal_header = length bs then False
        else if idr_header (bs ! nal_header) then True
        else contains_idr bs (nal_header + 1)
      else False)"
  by pat_completeness auto
termination
proof (relation "measure (\<lambda>(bs, k). length bs - k)")
  fix bs :: bytes and k h
  assume "k < length bs" "h = find_nal_header bs k" "h \<noteq> length bs"
  then have "k < h" "h < length bs" using find_nal_header_bounds [of bs k] by auto
  then show "((bs, h + 1), bs, k) \<in> measure (\<lambda>(bs, k). length bs - k)" by simp
qed simp

declare contains_idr.simps [simp del]

definition AnnexBAccessUnitContainsIdr :: "bytes \<Rightarrow> bool" where
  "AnnexBAccessUnitContainsIdr access_unit = contains_idr access_unit 0"

text \<open>Annex B: the three-byte start code, and the header of a NAL unit after it.\<close>

definition start_code :: "bytes \<Rightarrow> nat \<Rightarrow> bool" where
  "start_code bs i \<longleftrightarrow> i + 3 < length bs \<and> bs ! i = 0 \<and> bs ! (i + 1) = 0 \<and> bs ! (i + 2) = 1"

definition has_idr_unit :: "bytes \<Rightarrow> bool" where
  "has_idr_unit bs \<longleftrightarrow> (\<exists>i < length bs. start_code bs i \<and> idr_header (bs ! (i + 3)))"

text \<open>The inner loop stops at the first start code.\<close>

lemma find_nal_header_first:
  obtains "find_nal_header bs k = length bs" "\<And>j. k \<le> j \<Longrightarrow> \<not> start_code bs j"
  | i where "find_nal_header bs k = i + 3" "k \<le> i" "start_code bs i" "\<And>j. k \<le> j \<Longrightarrow> j < i \<Longrightarrow> \<not> start_code bs j"
proof (induction bs k arbitrary: thesis rule: find_nal_header.induct)
  case (1 bs index)
  note unfold = find_nal_header.simps [of bs index]
  have next_index: thesis
    if eq: "find_nal_header bs index = find_nal_header bs (index + 1)" and no: "\<not> start_code bs index"
      and IH: "\<And>thesis. \<lbrakk>\<lbrakk>find_nal_header bs (index + 1) = length bs;
          \<And>j. index + 1 \<le> j \<Longrightarrow> \<not> start_code bs j\<rbrakk> \<Longrightarrow> thesis;
        \<And>i. \<lbrakk>find_nal_header bs (index + 1) = i + 3; index + 1 \<le> i; start_code bs i;
          \<And>j. \<lbrakk>index + 1 \<le> j; j < i\<rbrakk> \<Longrightarrow> \<not> start_code bs j\<rbrakk> \<Longrightarrow> thesis\<rbrakk> \<Longrightarrow> thesis"
  proof (rule IH)
    assume "find_nal_header bs (index + 1) = length bs" "\<And>j. index + 1 \<le> j \<Longrightarrow> \<not> start_code bs j"
    then show thesis using eq no "1.prems"(1) by (metis Suc_eq_plus1 le_antisym not_less_eq_eq)
  next
    fix i
    assume "find_nal_header bs (index + 1) = i + 3" "index + 1 \<le> i" "start_code bs i"
      "\<And>j. index + 1 \<le> j \<Longrightarrow> j < i \<Longrightarrow> \<not> start_code bs j"
    then show thesis using eq no "1.prems"(2) [of i]
      by (metis Suc_eq_plus1 Suc_leD le_antisym not_less_eq_eq)
  qed
  show thesis
  proof (cases "index + 2 < length bs")
    case False
    then show thesis using unfold by (intro "1.prems"(1)) (auto simp: start_code_def)
  next
    case in_range: True
    show thesis
    proof (cases "bs ! index \<noteq> 0 \<or> bs ! (index + 1) \<noteq> 0")
      case True
      show thesis
        by (rule next_index [OF _ _ "1.IH"(1) [OF in_range True]])
          (use in_range True unfold in \<open>auto simp: start_code_def\<close>)
    next
      case zeros: False
      show thesis
      proof (cases "bs ! (index + 2) = 1")
        case one: True
        show thesis
        proof (cases "index + 3 < length bs")
          case True
          with one zeros in_range unfold show thesis
            by (intro "1.prems"(2) [of index]) (auto simp: start_code_def)
        next
          case False
          with one zeros in_range unfold have "find_nal_header bs index = length bs" by simp
          then show thesis using False by (intro "1.prems"(1)) (auto simp: start_code_def)
        qed
      next
        case not_one: False
        show thesis
        proof (cases "index + 3 < length bs \<and> bs ! (index + 2) = 0 \<and> bs ! (index + 3) = 1")
          case four: True
          then have h: "find_nal_header bs index = (index + 1) + 3" using in_range zeros not_one unfold by simp
          have no: "\<not> start_code bs index" using not_one by (simp add: start_code_def)
          show thesis
          proof (cases "index + 4 < length bs")
            case True
            then have "start_code bs (index + 1)"
              using four zeros by (simp add: start_code_def numeral_eq_Suc)
            moreover have "\<not> start_code bs j" if "index \<le> j" "j < index + 1" for j
              using that no by (metis Suc_eq_plus1 le_antisym less_Suc_eq_le)
            ultimately show thesis using h by (intro "1.prems"(2) [of "index + 1"]) auto
          next
            case False
            with four h have "find_nal_header bs index = length bs" by simp
            moreover have "\<not> start_code bs j" if "index \<le> j" for j
              using that no False four by (cases "j = index") (auto simp: start_code_def)
            ultimately show thesis by (intro "1.prems"(1))
          qed
        next
          case False
          show thesis
            by (rule next_index [OF _ _ "1.IH"(2) [OF in_range zeros not_one False]])
              (use in_range zeros not_one False unfold in \<open>auto simp: start_code_def\<close>)
        qed
      qed
    qed
  qed
qed

lemma contains_idr_iff:
  assumes "\<And>i. start_code bs i \<Longrightarrow> bs ! (i + 3) \<noteq> 0"
  shows "contains_idr bs k \<longleftrightarrow> (\<exists>i \<ge> k. start_code bs i \<and> idr_header (bs ! (i + 3)))"
  using assms
proof (induction bs k rule: contains_idr.induct)
  case (1 bs k)
  note unfold = contains_idr.simps [of bs k]
  show ?case
  proof (cases "k < length bs")
    case False
    then show ?thesis using unfold by (auto simp: start_code_def)
  next
    case in_range: True
    show ?thesis
    proof (cases rule: find_nal_header_first [of bs k])
      case 1
      then show ?thesis using unfold by auto
    next
      case (2 i)
      have less: "i + 3 < length bs" using 2(3) by (simp add: start_code_def)
      show ?thesis
      proof (cases "idr_header (bs ! (i + 3))")
        case True
        with 2 less in_range unfold show ?thesis by auto
      next
        case False
        have step: "contains_idr bs k = contains_idr bs (i + 3 + 1)"
          using unfold in_range 2(1) False less by simp
        have "contains_idr bs (i + 3 + 1) \<longleftrightarrow> (\<exists>j \<ge> i + 3 + 1. start_code bs j \<and> idr_header (bs ! (j + 3)))"
          using "1.IH" [OF in_range 2(1) [symmetric]] less False "1.prems" by simp
        also have "\<dots> \<longleftrightarrow> (\<exists>j \<ge> k. start_code bs j \<and> idr_header (bs ! (j + 3)))"
        proof (safe)
          fix j
          assume j: "k \<le> j" "start_code bs j" "idr_header (bs ! (j + 3))"
          have "i \<le> j" using 2(4) j by (metis not_less)
          moreover have "j \<noteq> i" using j False by auto
          moreover have "j \<noteq> i + 1" "j \<noteq> i + 2"
            using 2(3) j(2) by (auto simp: start_code_def numeral_eq_Suc)
          moreover have "j \<noteq> i + 3" using "1.prems" 2(3) j(2) by (auto simp: start_code_def)
          ultimately show "\<exists>j \<ge> i + 3 + 1. start_code bs j \<and> idr_header (bs ! (j + 3))"
            using j by (intro exI [of _ j]) auto
        next
          fix j
          assume "i + 3 + 1 \<le> j" "start_code bs j" "idr_header (bs ! (j + 3))"
          then show "\<exists>j \<ge> k. start_code bs j \<and> idr_header (bs ! (j + 3))"
            using 2(2) by (intro exI [of _ j]) auto
        qed
        finally show ?thesis using step by simp
      qed
    qed
  qed
qed

lemma contains_idr_sound: "contains_idr bs k \<Longrightarrow> \<exists>i. start_code bs i \<and> idr_header (bs ! (i + 3))"
proof (induction bs k rule: contains_idr.induct)
  case (1 bs k)
  note unfold = contains_idr.simps [of bs k]
  show ?case
  proof (cases rule: find_nal_header_first [of bs k])
    case 1
    then show ?thesis using "1.prems" unfold by (auto split: if_splits)
  next
    case (2 i)
    have k: "k < length bs" using "1.prems" unfold by (auto split: if_splits)
    have less: "i + 3 < length bs" using 2(3) by (simp add: start_code_def)
    show ?thesis
    proof (cases "idr_header (bs ! (i + 3))")
      case True
      with 2 show ?thesis by blast
    next
      case False
      then have "contains_idr bs (i + 3 + 1)" using "1.prems" unfold 2(1) k less by simp
      with "1.IH" [OF k 2(1) [symmetric]] less False show ?thesis by simp
    qed
  qed
qed

text \<open>C32: The search reports an IDR unit only when a three-byte start code is followed by a header of type five
  with a clear forbidden bit. It finds every such unit in an access unit none of whose NAL headers is the
  byte zero, which no unit of H.264 has.\<close>

theorem annexb_search_correct:
  "(AnnexBAccessUnitContainsIdr bs \<longrightarrow> has_idr_unit bs) \<and>
   (list_all (\<lambda>i. start_code bs i \<longrightarrow> bs ! (i + 3) \<noteq> 0) [0..<length bs] \<longrightarrow> has_idr_unit bs \<longrightarrow>
      AnnexBAccessUnitContainsIdr bs)"
proof -
  have len: "i < length bs" if "start_code bs i" for i using that by (simp add: start_code_def)
  have "\<And>i. start_code bs i \<Longrightarrow> bs ! (i + 3) \<noteq> 0"
    if "list_all (\<lambda>i. start_code bs i \<longrightarrow> bs ! (i + 3) \<noteq> 0) [0..<length bs]"
    using that len by (auto simp: list_all_iff)
  then show ?thesis
    using contains_idr_sound [of bs 0] contains_idr_iff [of bs 0] len
    unfolding AnnexBAccessUnitContainsIdr_def has_idr_unit_def by auto
qed

lemma annexb_search_correct_witness: "AnnexBAccessUnitContainsIdr [0, 0, 0, 1, 0x09, 0x10, 0, 0, 1, 0x65, 0x88]"
proof -
  let ?bs = "[0, 0, 0, 1, 0x09, 0x10, 0, 0, 1, 0x65, 0x88] :: bytes"
  have "list_all (\<lambda>i. start_code ?bs i \<longrightarrow> ?bs ! (i + 3) \<noteq> 0) [0..<length ?bs]"
    by (simp add: upt_rec start_code_def)
  moreover have "start_code ?bs 6 \<and> idr_header (?bs ! (6 + 3))" by (simp add: start_code_def idr_header_def)
  then have "has_idr_unit ?bs" unfolding has_idr_unit_def by (intro exI [of _ 6]) simp
  ultimately show ?thesis using annexb_search_correct [of ?bs] by blast
qed

text \<open>A start code that begins in the header byte just examined is skipped.\<close>

lemma annexb_overlapping_start_code:
  "has_idr_unit [0, 0, 1, 0, 0, 1, 0x65] \<and> \<not> AnnexBAccessUnitContainsIdr [0, 0, 1, 0, 0, 1, 0x65]"
proof -
  have "start_code [0, 0, 1, 0, 0, 1, 0x65] 3 \<and> idr_header ([0, 0, 1, 0, 0, 1, 0x65] ! (3 + 3))"
    by (simp add: start_code_def idr_header_def)
  then have "has_idr_unit [0, 0, 1, 0, 0, 1, 0x65]" unfolding has_idr_unit_def by (intro exI [of _ 3]) simp
  then show ?thesis
    by (simp add: AnnexBAccessUnitContainsIdr_def contains_idr.simps find_nal_header.simps idr_header_def)
qed

end
