(* ===== verification/H264Encoder.thy ===== *)
theory H264Encoder
  imports H264Policy
begin

text \<open>
  \<open>HardwareH264Encoder\<close> of \<open>video/h264_encoder.h\<close> and \<open>video/h264_encoder.cpp\<close>: setting a transform up, feeding
  it a frame, its events, taking its output, resetting and shutting it down. What Media Foundation and
  Direct3D answer to the calls of one operation is an argument of it, a record with one field a call (a
  function of the number of retries where the call is in the retry loop, a list where it is repeated until
  it reports no more), so that every theorem holds for all the answers the hardware can give. COM objects
  are present or absent, or known by their address where the code compares addresses.
\<close>

section \<open>The state\<close>

record Encoder =
  he_device :: bool
  he_transform :: "nat option"
  he_events :: bool
  he_input_sample :: bool
  he_input_identity :: "nat option"
  he_in_flight :: bool
  he_sample_reuse :: bool
  he_texture_reuse :: bool
  he_caller_sample :: "nat option"
  he_caller_capacity :: u32
  he_config :: H264EncoderConfig
  he_name :: "u16 list"
  he_async :: AsyncMft
  he_asynchronous :: bool
  he_fatal_restart :: bool
  he_stream_changes :: u32
  he_renegotiated :: bool
  he_last_fatal :: HRESULT
  he_mf_started :: bool
  he_diagnostics :: "Candidate list"
  he_latency :: int
  he_adapter_diagnostic :: string
  he_stage :: string

definition encoder_init :: Encoder where
  "encoder_init = \<lparr>he_device = False, he_transform = None, he_events = False, he_input_sample = False,
     he_input_identity = None, he_in_flight = False, he_sample_reuse = False, he_texture_reuse = False,
     he_caller_sample = None, he_caller_capacity = 0, he_config = config_for no_size, he_name = [],
     he_async = StartStream, he_asynchronous = False, he_fatal_restart = False, he_stream_changes = 0,
     he_renegotiated = False, he_last_fatal = S_OK, he_mf_started = False, he_diagnostics = [],
     he_latency = 0, he_adapter_diagnostic = [], he_stage = ''none''\<rparr>"

definition initialized :: "Encoder \<Rightarrow> bool" where
  "initialized e \<longleftrightarrow> he_transform e \<noteq> None"

definition encoder_has_pending :: "Encoder \<Rightarrow> bool" where
  "encoder_has_pending e \<longleftrightarrow> he_asynchronous e \<and> HasPendingInput (he_async e)"

definition pending_input_sequence :: "Encoder \<Rightarrow> u64 option" where
  "pending_input_sequence e = (if he_asynchronous e then pending_sequence (he_async e) else None)"

definition can_reuse_input_texture :: "Encoder \<Rightarrow> bool" where
  "can_reuse_input_texture e \<longleftrightarrow> he_asynchronous e \<and> he_texture_reuse e"

definition CanAcceptFrame :: "Encoder \<Rightarrow> bool" where
  "CanAcceptFrame e \<longleftrightarrow> he_transform e \<noteq> None \<and> (\<not> he_asynchronous e \<or> CanAcceptInput (he_async e))"

definition MarkAsyncFatal :: "HRESULT \<Rightarrow> Encoder \<Rightarrow> HRESULT \<times> Encoder" where
  "MarkAsyncFatal failure e =
     (failure, e\<lparr>he_async := MarkFatal (he_async e), he_fatal_restart := True,
                 he_last_fatal := (if FAILED failure then failure else E_FAIL)\<rparr>)"

definition TakeFatalRestartRequest :: "Encoder \<Rightarrow> bool \<times> Encoder" where
  "TakeFatalRestartRequest e =
     (let e = (if he_asynchronous e then e\<lparr>he_async := snd (TakeRestartRequest (he_async e))\<rparr> else e)
      in (he_fatal_restart e, e\<lparr>he_fatal_restart := False\<rparr>))"

definition ReleaseInputSampleObjects :: "Encoder \<Rightarrow> Encoder" where
  "ReleaseInputSampleObjects e = e\<lparr>he_input_sample := False, he_input_identity := None\<rparr>"

definition ClearInputSample :: "Encoder \<Rightarrow> Encoder" where
  "ClearInputSample e = ReleaseInputSampleObjects (e\<lparr>he_in_flight := False\<rparr>)"

definition ClearCallerOutputSample :: "Encoder \<Rightarrow> Encoder" where
  "ClearCallerOutputSample e = e\<lparr>he_caller_sample := None, he_caller_capacity := 0\<rparr>"

text \<open>A sequence of calls, each with the stage it is recorded under, up to the first that fails.\<close>

fun run_calls :: "(string option \<times> HRESULT) list \<Rightarrow> Encoder \<Rightarrow> HRESULT \<times> Encoder" where
  "run_calls [] e = (S_OK, e)"
| "run_calls ((stage, hr) # calls) e =
     (let e = (case stage of Some s \<Rightarrow> e\<lparr>he_stage := s\<rparr> | None \<Rightarrow> e)
      in if FAILED hr then (hr, e) else run_calls calls e)"

section \<open>Events\<close>

datatype MediaEventType = MEError | METransformNeedInput | METransformHaveOutput
  | METransformDrainComplete | MEEndOfStream | OtherEvent

record EventAnswer =
  ev_get :: HRESULT
  ev_present :: bool
  ev_type_result :: HRESULT
  ev_type :: MediaEventType
  ev_status_result :: HRESULT
  ev_status :: HRESULT

definition deliver_event :: "MediaEventType \<Rightarrow> AsyncMft \<Rightarrow> AsyncMft" where
  "deliver_event type a = (case type of
     METransformNeedInput \<Rightarrow> OnEvent kNeedInput a
   | METransformHaveOutput \<Rightarrow> OnEvent kHaveOutput a
   | METransformDrainComplete \<Rightarrow> OnEvent kDrainComplete a
   | MEEndOfStream \<Rightarrow> OnEvent kEndOfStream a
   | _ \<Rightarrow> a)"

text \<open>The answers of \<open>GetEvent\<close>; after the last it reports that no event is available.\<close>

fun pump_loop :: "EventAnswer list \<Rightarrow> Encoder \<Rightarrow> HRESULT \<times> Encoder" where
  "pump_loop [] e = (S_OK, e)"
| "pump_loop (a # answers) e =
     (if ev_get a = MF_E_NO_EVENTS_AVAILABLE then (S_OK, e)
      else if FAILED (ev_get a) then MarkAsyncFatal (ev_get a) e
      else if \<not> ev_present a then MarkAsyncFatal E_UNEXPECTED e
      else if FAILED (ev_type_result a) then MarkAsyncFatal (ev_type_result a) e
      else if FAILED (ev_status_result a) then MarkAsyncFatal (ev_status_result a) e
      else if ev_type a = MEError then MarkAsyncFatal (if FAILED (ev_status a) then ev_status a else E_FAIL) e
      else if FAILED (ev_status a) then MarkAsyncFatal (ev_status a) e
      else pump_loop answers (e\<lparr>he_async := deliver_event (ev_type a) (he_async e)\<rparr>))"

definition PumpAsyncEvents :: "EventAnswer list \<Rightarrow> Encoder \<Rightarrow> HRESULT \<times> Encoder" where
  "PumpAsyncEvents answers e =
     (if \<not> he_asynchronous e then (S_OK, e)
      else if \<not> he_events e then MarkAsyncFatal E_NOINTERFACE e
      else pump_loop answers e)"

section \<open>Samples\<close>

record InputAnswers =
  in_query :: HRESULT
  in_identity :: nat
  in_surface :: HRESULT
  in_create :: HRESULT
  in_add :: HRESULT
  in_time :: HRESULT
  in_duration :: HRESULT

text \<open>The frame is a texture that is there: the only caller has checked it.\<close>

definition EnsureInputSample :: "InputAnswers \<Rightarrow> Encoder \<Rightarrow> HRESULT \<times> Encoder" where
  "EnsureInputSample ans e =
     (if FAILED (in_query ans) then (in_query ans, ClearInputSample e)
      else
        let action = DecideH264InputSampleCacheAction (he_input_identity e) (Some (in_identity ans))
              (he_input_sample e) (he_in_flight e) (he_sample_reuse e)
        in case action of
          kRejectInFlight \<Rightarrow> (MF_E_NOTACCEPTING, e)
        | kReuse \<Rightarrow>
            let hr = (if SUCCEEDED (in_time ans) then in_duration ans else in_time ans)
            in (hr, if FAILED hr then ClearInputSample e else e)
        | kRebuild \<Rightarrow>
            (case run_calls [(None, in_surface ans), (None, in_create ans), (None, in_add ans),
                             (None, in_time ans), (None, in_duration ans)] (ClearInputSample e) of
               (hr, e) \<Rightarrow> if FAILED hr then (hr, e)
                 else (S_OK, e\<lparr>he_input_identity := Some (in_identity ans), he_input_sample := True\<rparr>)))"

record OutputAnswer =
  out_info :: HRESULT
  out_info_flags :: u32
  out_info_size :: u32
  out_buffer :: HRESULT
  out_sample :: HRESULT
  out_add :: HRESULT
  out_sample_address :: nat
  out_set_length :: HRESULT
  out_result :: HRESULT
  out_status :: u32
  out_returned :: "nat option"
  out_contiguous :: HRESULT
  out_lock :: HRESULT
  out_bytes :: bytes
  out_clean_point_result :: HRESULT
  out_clean_point :: u32
  out_now :: int

definition EnsureCallerOutputSample :: "OutputAnswer \<Rightarrow> u32 \<Rightarrow> Encoder \<Rightarrow> HRESULT \<times> Encoder" where
  "EnsureCallerOutputSample ans cb_size e =
     (let cb_size = (if cb_size = 0 then 1 else cb_size) in
      if he_caller_sample e \<noteq> None \<and> he_caller_capacity e \<ge> cb_size then (S_OK, e)
      else case run_calls [(None, out_buffer ans), (None, out_sample ans), (None, out_add ans)]
                  (ClearCallerOutputSample e) of
        (hr, e) \<Rightarrow> if FAILED hr then (hr, e)
          else (S_OK, e\<lparr>he_caller_capacity := cb_size, he_caller_sample := Some (out_sample_address ans)\<rparr>))"

section \<open>Taking an output\<close>

definition MFT_OUTPUT_STREAM_PROVIDES_SAMPLES :: u32 where "MFT_OUTPUT_STREAM_PROVIDES_SAMPLES = 0x100"
definition MFT_INPUT_STREAM_DOES_NOT_ADDREF :: u32 where "MFT_INPUT_STREAM_DOES_NOT_ADDREF = 0x100"
definition MFT_INPUT_STREAM_HOLDS_BUFFERS :: u32 where "MFT_INPUT_STREAM_HOLDS_BUFFERS = 0x8"

record TypeAnswer =
  ty_get :: HRESULT
  ty_present :: bool
  ty_major_result :: HRESULT
  ty_subtype_result :: HRESULT
  ty_h264_video :: bool
  ty_size_result :: HRESULT
  ty_size :: Size
  ty_rate_result :: HRESULT
  ty_rate :: "u32 \<times> u32"
  ty_restore :: "HRESULT list"
  ty_set :: HRESULT

text \<open>The types the transform offers, in order; after the last it reports that there are no more.
  \<open>ty_restore\<close> are the results of the five calls that restore the configured attributes.\<close>

fun renegotiate_loop :: "TypeAnswer list \<Rightarrow> HRESULT \<Rightarrow> Encoder \<Rightarrow> HRESULT \<times> Encoder" where
  "renegotiate_loop [] last_error e = (last_error, e\<lparr>he_stage := ''stream_change_get_output_type''\<rparr>)"
| "renegotiate_loop (a # answers) last_error e =
     (let e = e\<lparr>he_stage := ''stream_change_get_output_type''\<rparr> in
      if ty_get a = MF_E_NO_MORE_TYPES then (last_error, e)
      else if FAILED (ty_get a) then (ty_get a, e)
      else if \<not> ty_present a then renegotiate_loop answers E_UNEXPECTED e
      else if FAILED (ty_major_result a) \<or> FAILED (ty_subtype_result a) \<or> \<not> ty_h264_video a
      then renegotiate_loop answers last_error e
      else if SUCCEEDED (ty_size_result a) \<and> ty_size a \<noteq> cfg_size (he_config e)
      then renegotiate_loop answers last_error e
      else if FAILED (ty_size_result a) \<and> ty_size_result a \<noteq> MF_E_ATTRIBUTENOTFOUND
      then renegotiate_loop answers (ty_size_result a) e
      else if SUCCEEDED (ty_rate_result a) \<and> ty_rate a \<noteq> (cfg_frame_rate (he_config e), 1)
      then renegotiate_loop answers last_error e
      else if FAILED (ty_rate_result a) \<and> ty_rate_result a \<noteq> MF_E_ATTRIBUTENOTFOUND
      then renegotiate_loop answers (ty_rate_result a) e
      else case run_calls (map (\<lambda>hr. (None, hr)) (ty_restore a)) e of (hr, e) \<Rightarrow>
        if FAILED hr then renegotiate_loop answers hr e
        else
          let e = e\<lparr>he_stage := ''stream_change_set_output_type''\<rparr> in
          if SUCCEEDED (ty_set a) then (S_OK, ClearCallerOutputSample e)
          else renegotiate_loop answers (ty_set a) e)"

definition RenegotiateOutputType :: "TypeAnswer list \<Rightarrow> Encoder \<Rightarrow> HRESULT \<times> Encoder" where
  "RenegotiateOutputType answers e =
     (if he_transform e = None then (MF_E_NOT_INITIALIZED, e)
      else renegotiate_loop answers MF_E_INVALIDMEDIATYPE e)"

text \<open>The caller's sample of one iteration: \<open>None\<close> when the transform provides the samples.\<close>

definition prepare_caller_sample :: "OutputAnswer \<Rightarrow> Encoder \<Rightarrow> HRESULT \<times> nat option \<times> Encoder" where
  "prepare_caller_sample ans e =
     (if and (out_info_flags ans) MFT_OUTPUT_STREAM_PROVIDES_SAMPLES = 0 then
        case EnsureCallerOutputSample ans (out_info_size ans) e of (hr, e) \<Rightarrow>
          if FAILED hr then (hr, None, e)
          else if FAILED (out_set_length ans) then (out_set_length ans, None, ClearCallerOutputSample e)
          else (S_OK, he_caller_sample e, e)
      else (S_OK, None, ClearCallerOutputSample e))"

definition output_stage :: "Encoder \<Rightarrow> string" where
  "output_stage e =
     (if he_stream_changes e = 0 then ''process_output''
      else if he_renegotiated e then ''process_output_after_stream_change_renegotiate''
      else ''process_output_after_stream_change_retry'')"

text \<open>The sample is copied out. A failure drops the caller's sample.\<close>

definition consume_sample ::
  "OutputAnswer \<Rightarrow> u64 \<Rightarrow> EncodedAccessUnit \<Rightarrow> Encoder \<Rightarrow> HRESULT \<times> EncodedAccessUnit \<times> Encoder" where
  "consume_sample ans sequence output e =
     (if FAILED (out_contiguous ans) then (out_contiguous ans, output, ClearCallerOutputSample e)
      else if FAILED (out_lock ans) then (out_lock ans, output, ClearCallerOutputSample e)
      else
        let clean_point_idr = (SUCCEEDED (out_clean_point_result ans) \<and> out_clean_point ans \<noteq> 0) in
        (S_OK,
         output\<lparr>au_bytes := out_bytes ans,
                au_is_idr := (clean_point_idr \<or> AnnexBAccessUnitContainsIdr (out_bytes ans)),
                au_sequence := sequence, au_encoded_at := out_now ans\<rparr>, e))"

text \<open>One iteration: \<open>Inl\<close> its return, \<open>Inr\<close> the encoder with which the loop goes on.\<close>

definition take_output ::
  "OutputAnswer \<Rightarrow> TypeAnswer list \<Rightarrow> u64 \<Rightarrow> u32 \<Rightarrow> EncodedAccessUnit \<Rightarrow> Encoder \<Rightarrow>
   (HRESULT \<times> EncodedAccessUnit \<times> Encoder) + Encoder" where
  "take_output ans types sequence retries output e =
     (let e = e\<lparr>he_stage := ''get_output_stream_info''\<rparr> in
      if FAILED (out_info ans) then Inl (out_info ans, output, ClearCallerOutputSample e)
      else case prepare_caller_sample ans e of (hr, caller_sample, e) \<Rightarrow>
        if FAILED hr then Inl (hr, output, e)
        else
          let e = e\<lparr>he_stage := output_stage e\<rparr>;
              hr = out_result ans;
              sample_disposition = ClassifyH264OutputSample caller_sample (out_returned ans)
          in case ClassifyH264EncoderOutputStatus hr (out_status ans) (he_stream_changes e) of
            kNeedMoreInput \<Rightarrow> Inl (S_FALSE, output, e\<lparr>he_stream_changes := 0, he_renegotiated := False\<rparr>)
          | kRetryOutput \<Rightarrow>
              let e = ClearCallerOutputSample e
              in Inl (S_FALSE, output,
                      e\<lparr>he_renegotiated := False, he_stream_changes := he_stream_changes e + 1\<rparr>)
          | kRenegotiateOutput \<Rightarrow>
              let e = ClearCallerOutputSample e in
              if he_asynchronous e then (case MarkAsyncFatal hr e of (hr, e) \<Rightarrow> Inl (hr, output, e))
              else (case RenegotiateOutputType types e of (hr, e) \<Rightarrow>
                if FAILED hr then Inl (hr, output, e)
                else Inl (S_FALSE, output,
                          e\<lparr>he_renegotiated := True, he_stream_changes := he_stream_changes e + 1\<rparr>))
          | kFail \<Rightarrow> Inl (hr, output, ClearCallerOutputSample e)
          | kConsumeOutput \<Rightarrow>
              let e = e\<lparr>he_stream_changes := 0, he_renegotiated := False\<rparr>;
                  produced = (H264OutputContainsSample (out_status ans) \<and>
                    (if sample_disposition = kReplacement then out_returned ans else caller_sample) \<noteq> None)
              in if \<not> produced \<and> he_asynchronous e then Inl (S_FALSE, output, e)
                 else if ShouldRetryEmptyH264EncoderOutput produced retries then Inr e
                 else if \<not> produced then
                   Inl (E_UNEXPECTED, output,
                        ClearCallerOutputSample (e\<lparr>he_stage := ''process_output_missing_sample''\<rparr>))
                 else Inl (consume_sample ans sequence output e))"

lemma retry_only_below_limit:
  "take_output ans types sequence retries output e = Inr e' \<Longrightarrow>
   retries < kMaxH264EncoderEmptyOutputRetries \<and> \<not> he_asynchronous e'"
  by (auto simp: take_output_def ShouldRetryEmptyH264EncoderOutput_def Let_def
      split: if_splits prod.splits H264EncoderOutputAction.splits)

function process_output_loop ::
  "(nat \<Rightarrow> OutputAnswer) \<Rightarrow> TypeAnswer list \<Rightarrow> u64 \<Rightarrow> u32 \<Rightarrow> EncodedAccessUnit \<Rightarrow> Encoder \<Rightarrow>
   HRESULT \<times> EncodedAccessUnit \<times> Encoder" where
  "process_output_loop answers types sequence retries output e =
     (case take_output (answers (unat retries)) types sequence retries output e of
        Inl result \<Rightarrow> result
      | Inr e \<Rightarrow> process_output_loop answers types sequence (retries + 1) output e)"
  by pat_completeness auto

termination
proof (relation "measure (\<lambda>(_, _, _, retries, _). 5 - unat retries)")
  fix answers types sequence and retries :: u32 and u e e'
  assume "take_output (answers (unat retries)) types sequence retries u e = Inr e'"
  then have "unat retries < 4"
    using retry_only_below_limit by (auto simp: kMaxH264EncoderEmptyOutputRetries_def word_less_nat_alt)
  moreover from this have "unat (retries + 1) = Suc (unat retries)" by (simp add: unat_word_ariths)
  ultimately show "((answers, types, sequence, retries + 1, u, e'), answers, types, sequence, retries, u, e)
      \<in> measure (\<lambda>(_, _, _, retries, _). 5 - unat retries)" by simp
qed simp

declare process_output_loop.simps [simp del]

definition ProcessOutput ::
  "(nat \<Rightarrow> OutputAnswer) \<Rightarrow> TypeAnswer list \<Rightarrow> u64 \<Rightarrow> EncodedAccessUnit \<Rightarrow> Encoder \<Rightarrow>
   HRESULT \<times> EncodedAccessUnit \<times> Encoder" where
  "ProcessOutput answers types sequence output e = process_output_loop answers types sequence 0 output e"

section \<open>Polling and encoding\<close>

record PollAnswers =
  poll_events :: "EventAnswer list"
  poll_outputs :: "nat \<Rightarrow> OutputAnswer"
  poll_types :: "TypeAnswer list"

definition ProcessAsyncOutput ::
  "PollAnswers \<Rightarrow> EncodedAccessUnit \<Rightarrow> Encoder \<Rightarrow> HRESULT \<times> EncodedAccessUnit \<times> Encoder" where
  "ProcessAsyncOutput ans output e =
     (if \<not> output_available (he_async e) then (S_FALSE, output, e)
      else case pending_sequence (he_async e) of
        None \<Rightarrow> (case MarkAsyncFatal E_UNEXPECTED e of (hr, e) \<Rightarrow> (hr, output, e))
      | Some sequence \<Rightarrow>
          (case ProcessOutput (poll_outputs ans) (poll_types ans) sequence output e of (hr, output, e) \<Rightarrow>
             if hr = MF_E_TRANSFORM_NEED_MORE_INPUT \<or> hr = S_FALSE
             then (S_FALSE, output, e\<lparr>he_async := OnOutputUnavailable (he_async e)\<rparr>)
             else if FAILED hr then
               (case MarkAsyncFatal hr (ClearInputSample e) of (hr, e) \<Rightarrow> (hr, output, e))
             else case OnOutputProduced (he_async e) of (produced, a) \<Rightarrow>
               let e = e\<lparr>he_async := a\<rparr> in
               if produced = None then
                 (case MarkAsyncFatal E_UNEXPECTED (ClearInputSample e) of (hr, e) \<Rightarrow> (hr, output, e))
               else (S_OK, output, e\<lparr>he_in_flight := False\<rparr>)))"

definition Poll ::
  "PollAnswers \<Rightarrow> EncodedAccessUnit \<Rightarrow> Encoder \<Rightarrow> HRESULT \<times> EncodedAccessUnit \<times> Encoder" where
  "Poll ans output e =
     (let output = ResetEncodedAccessUnit output in
      if he_transform e = None then (MF_E_NOT_INITIALIZED, output, e)
      else if \<not> he_asynchronous e then (S_FALSE, output, e)
      else if mft_faulted (he_async e) then (he_last_fatal e, output, e)
      else case PumpAsyncEvents (poll_events ans) e of (hr, e) \<Rightarrow>
        if FAILED hr then (hr, output, e) else ProcessAsyncOutput ans output e)"

record EncodeAnswers =
  enc_frame_matches :: bool
  enc_events :: "EventAnswer list"
  enc_input :: InputAnswers
  enc_process_input :: HRESULT
  enc_poll :: PollAnswers

definition encode_async ::
  "EncodeAnswers \<Rightarrow> u64 \<Rightarrow> EncodedAccessUnit \<Rightarrow> Encoder \<Rightarrow> HRESULT \<times> EncodedAccessUnit \<times> Encoder" where
  "encode_async ans sequence output e =
     (case PumpAsyncEvents (enc_events ans) e of (hr, e) \<Rightarrow>
        if FAILED hr then (hr, output, e)
        else if \<not> CanAcceptInput (he_async e) then (MF_E_NOTACCEPTING, output, e)
        else case EnsureInputSample (enc_input ans) e of (hr, e) \<Rightarrow>
          if FAILED hr then (hr, output, e)
          else
            let e = e\<lparr>he_stage := ''async_process_input''\<rparr>; hr = enc_process_input ans in
            if FAILED hr then
              let e = ClearInputSample e in
              if hr \<noteq> MF_E_NOTACCEPTING then (case MarkAsyncFatal hr e of (hr, e) \<Rightarrow> (hr, output, e))
              else (hr, output, e)
            else case OnInputAccepted sequence (he_async e) of (accepted, a) \<Rightarrow>
              let e = e\<lparr>he_async := a\<rparr> in
              if \<not> accepted then
                (case MarkAsyncFatal E_UNEXPECTED (ClearInputSample e) of (hr, e) \<Rightarrow> (hr, output, e))
              else
                let e = e\<lparr>he_in_flight := True\<rparr>;
                    e = (if \<not> he_sample_reuse e then ReleaseInputSampleObjects e else e)
                in Poll (enc_poll ans) output e)"

definition encode_sync ::
  "EncodeAnswers \<Rightarrow> u64 \<Rightarrow> EncodedAccessUnit \<Rightarrow> Encoder \<Rightarrow> HRESULT \<times> EncodedAccessUnit \<times> Encoder" where
  "encode_sync ans sequence output e =
     (case EnsureInputSample (enc_input ans) e of (hr, e) \<Rightarrow>
        if FAILED hr then (hr, output, e)
        else
          let e = e\<lparr>he_stage := ''sync_process_input''\<rparr>; hr = enc_process_input ans in
          if FAILED hr then (hr, output, (ClearInputSample e)\<lparr>he_fatal_restart := True\<rparr>)
          else
            let e = (if \<not> he_sample_reuse e then ReleaseInputSampleObjects e else e);
                e = e\<lparr>he_stage := ''sync_process_output''\<rparr>
            in case ProcessOutput (poll_outputs (enc_poll ans)) (poll_types (enc_poll ans)) sequence output e of
              (hr, output, e) \<Rightarrow>
                if FAILED hr \<and> hr \<noteq> MF_E_TRANSFORM_NEED_MORE_INPUT
                then (hr, output, (ClearInputSample e)\<lparr>he_fatal_restart := True\<rparr>)
                else (hr, output, e))"

definition Encode ::
  "EncodeAnswers \<Rightarrow> u64 \<Rightarrow> EncodedAccessUnit \<Rightarrow> Encoder \<Rightarrow> HRESULT \<times> EncodedAccessUnit \<times> Encoder" where
  "Encode ans sequence output e =
     (if he_transform e = None \<or> \<not> he_device e then (E_POINTER, output, e)
      else
        let output = ResetEncodedAccessUnit output in
        if \<not> enc_frame_matches ans then (kErrFrameFormatUnsupported, output, e)
        else if he_asynchronous e then encode_async ans sequence output e
        else encode_sync ans sequence output e)"

section \<open>Shutting down\<close>

record ShutdownAnswers =
  sd_end_of_stream :: HRESULT
  sd_drain :: HRESULT
  sd_events :: "EventAnswer list"

definition BeginAsyncShutdown :: "ShutdownAnswers \<Rightarrow> Encoder \<Rightarrow> Encoder" where
  "BeginAsyncShutdown ans e =
     (if \<not> he_asynchronous e \<or> he_transform e = None then e
      else
        let e = e\<lparr>he_async := BeginDrain (he_async e)\<rparr> in
        if SUCCEEDED (sd_end_of_stream ans) \<and> SUCCEEDED (sd_drain ans)
        then snd (PumpAsyncEvents (sd_events ans) e) else e)"

definition drained :: "ShutdownAnswers \<Rightarrow> Encoder \<Rightarrow> Encoder" where
  "drained ans e = (if he_transform e \<noteq> None \<and> he_asynchronous e then BeginAsyncShutdown ans e else e)"

definition ShutdownCurrentCandidate :: "ShutdownAnswers \<Rightarrow> Encoder \<Rightarrow> Encoder" where
  "ShutdownCurrentCandidate ans e =
     (let e = ClearCallerOutputSample (ClearInputSample (drained ans e)) in
      e\<lparr>he_events := False, he_transform := None, he_name := [], he_asynchronous := False,
        he_sample_reuse := False, he_texture_reuse := False, he_async := StartStream,
        he_fatal_restart := False, he_stream_changes := 0, he_renegotiated := False, he_last_fatal := S_OK\<rparr>)"

definition Shutdown :: "ShutdownAnswers \<Rightarrow> Encoder \<Rightarrow> Encoder" where
  "Shutdown ans e =
     (let e = ClearCallerOutputSample (ClearInputSample (drained ans e)) in
      e\<lparr>he_events := False, he_transform := None, he_device := False, he_name := [],
        he_config := config_for no_size, he_async := StartStream, he_asynchronous := False,
        he_sample_reuse := False, he_texture_reuse := False, he_fatal_restart := False,
        he_stream_changes := 0, he_renegotiated := False, he_last_fatal := S_OK, he_mf_started := False\<rparr>)"

section \<open>Setting a transform up\<close>

record CodecAnswers =
  co_query :: HRESULT
  co_cbr :: HRESULT
  co_bitrate :: HRESULT
  co_b_frames :: HRESULT
  co_low_latency :: HRESULT
  co_legacy :: HRESULT

definition ConfigureCodecApi :: "CodecAnswers \<Rightarrow> Encoder \<Rightarrow> HRESULT \<times> Encoder" where
  "ConfigureCodecApi ans e =
     (case run_calls [(None, co_query ans), (Some ''codec_rate_control_cbr'', co_cbr ans),
                      (Some ''codec_mean_bitrate'', co_bitrate ans)] e of
        (hr, e) \<Rightarrow> if FAILED hr then (hr, e)
          else
            let e = e\<lparr>he_stage := ''codec_b_frame_count''\<rparr>; hr = co_b_frames ans in
            if FAILED hr \<and> \<not> IsOptionalH264CodecApiPropertyFailure hr then (hr, e)
            else
              let e = (if FAILED hr then e\<lparr>he_stage := ''codec_b_frame_count_default''\<rparr> else e);
                  e = e\<lparr>he_stage := ''codec_low_latency_mode''\<rparr>
              in if SUCCEEDED (co_low_latency ans) then (S_OK, e)
                 else (co_legacy ans, e\<lparr>he_stage := ''codec_low_latency_legacy''\<rparr>))"

text \<open>\<open>su_types\<close> are the results of the calls that build the two media types, in their order.\<close>

record SetupAnswers =
  su_types :: "HRESULT list"
  su_d3d :: HRESULT
  su_codec :: CodecAnswers
  su_output :: HRESULT
  su_input :: HRESULT
  su_info :: HRESULT
  su_info_flags :: u32
  su_begin :: HRESULT
  su_start :: HRESULT
  su_events :: "EventAnswer list"

definition build_types :: "SetupAnswers \<Rightarrow> Encoder \<Rightarrow> HRESULT \<times> Encoder" where
  "build_types ans e = run_calls (map (\<lambda>hr. (None, hr)) (su_types ans)) e"

definition read_stream_info :: "SetupAnswers \<Rightarrow> Encoder \<Rightarrow> Encoder" where
  "read_stream_info ans e =
     (let have = SUCCEEDED (su_info ans) in
      e\<lparr>he_sample_reuse := have \<and> and (su_info_flags ans) MFT_INPUT_STREAM_DOES_NOT_ADDREF \<noteq> 0,
        he_texture_reuse := have \<and> and (su_info_flags ans) MFT_INPUT_STREAM_HOLDS_BUFFERS = 0\<rparr>)"

definition restart_async :: "Encoder \<Rightarrow> Encoder" where
  "restart_async e = (if he_asynchronous e then e\<lparr>he_async := StartStream, he_last_fatal := S_OK\<rparr> else e)"

definition ConfigureTransform :: "SetupAnswers \<Rightarrow> Encoder \<Rightarrow> HRESULT \<times> Encoder" where
  "ConfigureTransform ans e =
     (case build_types ans e of (hr, e) \<Rightarrow> if FAILED hr then (hr, e)
      else case run_calls [(Some ''configure_set_d3d_manager'', su_d3d ans)] e of (hr, e) \<Rightarrow>
        if FAILED hr then (hr, e)
      else case ConfigureCodecApi (su_codec ans) (e\<lparr>he_stage := ''configure_codec_api''\<rparr>) of (hr, e) \<Rightarrow>
        if FAILED hr then (hr, e)
      else case run_calls [(Some ''configure_set_output'', su_output ans),
                           (Some ''configure_set_input'', su_input ans)] e of (hr, e) \<Rightarrow>
        if FAILED hr then (hr, e)
      else case run_calls [(Some ''configure_begin_streaming'', su_begin ans),
                           (Some ''configure_start_stream'', su_start ans)]
                  (restart_async (read_stream_info ans e)) of (hr, e) \<Rightarrow>
        if FAILED hr then (hr, e)
        else if he_asynchronous e then PumpAsyncEvents (su_events ans) e else (S_OK, e))"

text \<open>Each step of the formal set-up is taken only in its turn.\<close>

fun formal_steps ::
  "(H264EncoderStreamSetupStep \<times> (Encoder \<Rightarrow> HRESULT \<times> Encoder)) list \<Rightarrow> u8 \<Rightarrow> Encoder \<Rightarrow>
   HRESULT \<times> u8 \<times> Encoder" where
  "formal_steps [] next_step e = (S_OK, next_step, e)"
| "formal_steps ((step, action) # steps) next_step e =
     (case Advance step next_step of (advanced, next_step) \<Rightarrow>
        if \<not> advanced then (E_UNEXPECTED, next_step, e)
        else case action e of (hr, e) \<Rightarrow>
          if FAILED hr then (hr, next_step, e) else formal_steps steps next_step e)"

definition ReconfigureSelectedTransformForStream :: "SetupAnswers \<Rightarrow> Encoder \<Rightarrow> HRESULT \<times> Encoder" where
  "ReconfigureSelectedTransformForStream ans e =
     (if he_transform e = None then (MF_E_NOT_INITIALIZED, e)
      else case build_types ans (restart_async e) of (hr, e) \<Rightarrow> if FAILED hr then (hr, e)
      else case formal_steps
          [(kSetD3DManager, run_calls [(Some ''formal_set_d3d_manager'', su_d3d ans)]),
           (kConfigureCodecApi, \<lambda>e. ConfigureCodecApi (su_codec ans) (e\<lparr>he_stage := ''formal_codec_api''\<rparr>)),
           (kSetOutputType, run_calls [(Some ''formal_set_output'', su_output ans)]),
           (kSetInputType, \<lambda>e. case run_calls [(Some ''formal_set_input'', su_input ans)] e of (hr, e) \<Rightarrow>
              if FAILED hr then (hr, e) else (hr, read_stream_info ans e)),
           (kBeginStreaming, run_calls [(None, su_begin ans)]),
           (kStartOfStream, run_calls [(None, su_start ans)])] 0 e of (hr, next_step, e) \<Rightarrow>
        if FAILED hr then (hr, e)
        else if \<not> setup_complete next_step \<or> \<not> media_types_configured next_step then (E_UNEXPECTED, e)
        else if he_asynchronous e then PumpAsyncEvents (su_events ans) e else (S_OK, e))"

record ResetAnswers =
  rs_setup :: SetupAnswers
  rs_query :: HRESULT
  rs_key_frame :: HRESULT
  rs_events :: "EventAnswer list"

definition PerformFormalStreamReset :: "ResetAnswers \<Rightarrow> Encoder \<Rightarrow> HRESULT \<times> Encoder" where
  "PerformFormalStreamReset ans e =
     (if he_transform e = None then (MF_E_NOT_INITIALIZED, e)
      else
        let e = (ClearCallerOutputSample (ClearInputSample e))\<lparr>he_stage := ''formal_stream_reconfigure''\<rparr>;
            failed = (\<lambda>hr e. if he_asynchronous e then MarkAsyncFatal hr e else (hr, e))
        in case ReconfigureSelectedTransformForStream (rs_setup ans) e of (hr, e) \<Rightarrow>
          if FAILED hr then failed hr e
          else if FAILED (rs_query ans) then failed (rs_query ans) e
          else if FAILED (rs_key_frame ans) then failed (rs_key_frame ans) e
          else
            let e = e\<lparr>he_fatal_restart := False\<rparr> in
            if he_asynchronous e then PumpAsyncEvents (rs_events ans) e else (S_OK, e))"

end
