(* ===== verification/H264Select.thy ===== *)
theory H264Select
  imports H264Encoder
begin

text \<open>
  \<open>HardwareH264Encoder::Initialize\<close> and \<open>ResetAndRequestIdr\<close> of \<open>video/h264_encoder.cpp\<close>: every candidate of
  the capture adapter is configured and measured, the preferred one is kept, and its stream is set up
  again. The measurement itself, \<open>BenchmarkCurrentCandidate\<close>, is modelled in \<open>H264Benchmark\<close> and an answer here: its result, the latency it
  measured, and the encoder fields it leaves behind. So is the text of the adapter's description.
\<close>

section \<open>Diagnostics\<close>

definition hex_char :: "nat \<Rightarrow> char" where
  "hex_char n = ''0123456789abcdef'' ! n"

fun to_hex :: "nat \<Rightarrow> string" where
  "to_hex n = (if n < 16 then [hex_char n] else to_hex (n div 16) @ [hex_char (n mod 16)])"

declare to_hex.simps [simp del]

definition hex32 :: "u32 \<Rightarrow> string" where
  "hex32 w = to_hex (unat w)"

record AdapterDescription =
  ad_text :: string
  ad_luid_high :: u32
  ad_luid_low :: u32
  ad_vendor :: u32

definition FormatAdapterDiagnostic :: "AdapterDescription \<Rightarrow> string \<Rightarrow> HRESULT \<Rightarrow> string" where
  "FormatAdapterDiagnostic description enumeration_result status =
     ''adapter_scoped_enumeration='' @ enumeration_result @ '';adapter_desc='' @ ad_text description @
     '';adapter_luid=0x'' @ hex32 (ad_luid_high description) @ '':'' @ hex32 (ad_luid_low description) @
     '';vendor_id=0x'' @ hex32 (ad_vendor description) @ '';hr=0x'' @ hex32 status"

definition FormatUnavailableAdapterDiagnostic :: "string \<Rightarrow> HRESULT \<Rightarrow> string" where
  "FormatUnavailableAdapterDiagnostic result status =
     ''adapter_scoped_enumeration='' @ result @
     '';adapter_desc=<unavailable>;adapter_luid=<unavailable>;vendor_id=<unavailable>;hr=0x'' @ hex32 status"

section \<open>The candidates\<close>

record CandidateAnswer =
  ca_name :: "u16 list"
  ca_activate :: HRESULT
  ca_address :: nat
  ca_async :: bool
  ca_events :: HRESULT
  ca_unlock :: HRESULT
  ca_setup :: SetupAnswers
  ca_benchmark :: HRESULT
  ca_latency :: int
  ca_frames :: u32
  ca_left :: Encoder
  ca_shutdown :: ShutdownAnswers

text \<open>The measurement feeds frames and takes outputs: it changes nothing else of the encoder.\<close>

definition after_benchmark :: "Encoder \<Rightarrow> Encoder \<Rightarrow> Encoder" where
  "after_benchmark left e = e\<lparr>he_input_sample := he_input_sample left, he_input_identity := he_input_identity left,
     he_in_flight := he_in_flight left, he_caller_sample := he_caller_sample left,
     he_caller_capacity := he_caller_capacity left, he_async := he_async left,
     he_fatal_restart := he_fatal_restart left, he_stream_changes := he_stream_changes left,
     he_renegotiated := he_renegotiated left, he_last_fatal := he_last_fatal left, he_stage := he_stage left\<rparr>"

record Best =
  best_address :: nat
  best_events :: bool
  best_diagnostics :: Candidate

record Selection =
  sel_encoder :: Encoder
  sel_last_error :: HRESULT
  sel_best :: "Best option"

definition new_candidate :: "nat \<Rightarrow> CandidateAnswer \<Rightarrow> Candidate" where
  "new_candidate index ans = \<lparr>cand_name = ca_name ans, cand_index = of_nat index, cand_setup_status = S_OK,
     cand_benchmark_status = S_OK, cand_latency = 0, cand_measured_frames = 0, cand_asynchronous = False,
     cand_adapter_scoped = True, cand_usable = False\<rparr>"

definition push_diagnostics :: "Candidate \<Rightarrow> Encoder \<Rightarrow> Encoder" where
  "push_diagnostics c e = e\<lparr>he_diagnostics := he_diagnostics e @ [c]\<rparr>"

definition reject_candidate :: "Candidate \<Rightarrow> HRESULT \<Rightarrow> Selection \<Rightarrow> Selection" where
  "reject_candidate c hr s =
     s\<lparr>sel_encoder := push_diagnostics (c\<lparr>cand_setup_status := hr, cand_benchmark_status := hr\<rparr>) (sel_encoder s),
       sel_last_error := hr\<rparr>"

text \<open>The result of looking for the event generator and unlocking an asynchronous transform.\<close>

definition unlock_result :: "CandidateAnswer \<Rightarrow> HRESULT" where
  "unlock_result ans = (if \<not> ca_async ans then S_OK
     else if SUCCEEDED (ca_events ans) then ca_unlock ans else ca_events ans)"

definition measured :: "CandidateAnswer \<Rightarrow> Candidate \<Rightarrow> Candidate" where
  "measured ans c = c\<lparr>cand_benchmark_status := ca_benchmark ans,
     cand_latency := (if SUCCEEDED (ca_benchmark ans) then ca_latency ans else 0),
     cand_measured_frames := (if SUCCEEDED (ca_benchmark ans) then ca_frames ans else 0),
     cand_usable := SUCCEEDED (ca_benchmark ans)\<rparr>"

definition try_encoder :: "nat \<Rightarrow> CandidateAnswer \<Rightarrow> Selection \<Rightarrow> Selection" where
  "try_encoder index ans s =
     (let c = new_candidate index ans in
      if FAILED (ca_activate ans) then reject_candidate c (ca_activate ans) s
      else if FAILED (unlock_result ans) then reject_candidate c (unlock_result ans) s
      else
        let e = (sel_encoder s)\<lparr>he_transform := Some (ca_address ans), he_events := ca_async ans,
                   he_asynchronous := ca_async ans, he_name := ca_name ans, he_stage := ''candidate_configure''\<rparr>;
            c = c\<lparr>cand_asynchronous := ca_async ans\<rparr>
        in case ConfigureTransform (ca_setup ans) e of (hr, e) \<Rightarrow>
          let c = c\<lparr>cand_setup_status := hr\<rparr> in
          if FAILED hr then
            s\<lparr>sel_encoder := ShutdownCurrentCandidate (ca_shutdown ans)
                 (push_diagnostics (c\<lparr>cand_benchmark_status := hr\<rparr>) e),
              sel_last_error := hr\<rparr>
          else
            let e = after_benchmark (ca_left ans) (e\<lparr>he_stage := ''candidate_benchmark''\<rparr>);
                c = measured ans c;
                e = push_diagnostics c e
            in if FAILED (ca_benchmark ans) then
                 s\<lparr>sel_encoder := ShutdownCurrentCandidate (ca_shutdown ans) e,
                   sel_last_error := ca_benchmark ans\<rparr>
               else if (case sel_best s of None \<Rightarrow> True
                        | Some b \<Rightarrow> PreferH264EncoderCandidate c (best_diagnostics b)) then
                 s\<lparr>sel_encoder := e\<lparr>he_transform := None, he_events := False\<rparr>,
                   sel_best := Some \<lparr>best_address = ca_address ans, best_events = he_events e,
                                     best_diagnostics = c\<rparr>\<rparr>
               else s\<lparr>sel_encoder := ShutdownCurrentCandidate (ca_shutdown ans) e\<rparr>)"

fun try_encoders :: "nat \<Rightarrow> CandidateAnswer list \<Rightarrow> Selection \<Rightarrow> Selection" where
  "try_encoders index [] s = s"
| "try_encoders index (ans # answers) s = try_encoders (index + 1) answers (try_encoder index ans s)"

section \<open>\<open>Initialize\<close> and \<open>ResetAndRequestIdr\<close>\<close>

record InitAnswers =
  ia_first_shutdown :: ShutdownAnswers
  ia_adapter :: HRESULT
  ia_description :: AdapterDescription
  ia_startup :: HRESULT
  ia_manager :: HRESULT
  ia_manager_reset :: HRESULT
  ia_attributes :: HRESULT
  ia_blob :: HRESULT
  ia_enum2 :: bool
  ia_enum :: HRESULT
  ia_candidates :: "CandidateAnswer list"
  ia_formal :: ResetAnswers
  ia_last_shutdown :: ShutdownAnswers

definition config_accepted :: "bool \<Rightarrow> H264EncoderConfig \<Rightarrow> bool" where
  "config_accepted device config \<longleftrightarrow>
     device \<and> size_valid (cfg_size config) \<and> and (sizeWidth (cfg_size config)) 1 = 0 \<and>
     and (sizeHeight (cfg_size config)) 1 = 0 \<and> cfg_frame_rate config = 60 \<and>
     \<not> cfg_bitrate config < 20000000 \<and> \<not> cfg_bitrate config > 120000000"

text \<open>A step of the enumeration failed: the diagnostic says how, and everything is released.\<close>

definition enumeration_failed ::
  "InitAnswers \<Rightarrow> string \<Rightarrow> string \<Rightarrow> HRESULT \<Rightarrow> Encoder \<Rightarrow> HRESULT \<times> Encoder" where
  "enumeration_failed ans stage how hr e =
     (let d = FormatAdapterDiagnostic (ia_description ans) how hr
      in (hr, Shutdown (ia_last_shutdown ans) (e\<lparr>he_adapter_diagnostic := d, he_stage := stage @ ''/'' @ d\<rparr>)))"

definition select_encoder :: "InitAnswers \<Rightarrow> Encoder \<Rightarrow> HRESULT \<times> Encoder" where
  "select_encoder ans e =
     (let e = e\<lparr>he_adapter_diagnostic := FormatAdapterDiagnostic (ia_description ans) ''success'' S_OK\<rparr>;
          stage = ''enumerate_adapter_scoped_hardware_mft''
      in if ia_candidates ans = [] then enumeration_failed ans stage ''empty'' MF_E_TOPO_CODEC_NOT_FOUND e
      else
        let s = try_encoders 0 (ia_candidates ans)
              \<lparr>sel_encoder = e, sel_last_error = MF_E_TOPO_CODEC_NOT_FOUND, sel_best = None\<rparr>;
            e = sel_encoder s
        in case sel_best s of
          None \<Rightarrow> enumeration_failed ans ''adapter_scoped_hardware_mft_no_usable_candidate''
                    ''no_usable_candidate'' (sel_last_error s) e
        | Some b \<Rightarrow>
            let e = e\<lparr>he_transform := Some (best_address b), he_events := best_events b,
                      he_asynchronous := cand_asynchronous (best_diagnostics b),
                      he_name := cand_name (best_diagnostics b),
                      he_latency := cand_latency (best_diagnostics b), he_async := StartStream\<rparr>
            in case PerformFormalStreamReset (ia_formal ans) e of (hr, e) \<Rightarrow>
              if FAILED hr then (hr, Shutdown (ia_last_shutdown ans) e) else (S_OK, e))"

definition Initialize :: "InitAnswers \<Rightarrow> bool \<Rightarrow> H264EncoderConfig \<Rightarrow> Encoder \<Rightarrow> HRESULT \<times> Encoder" where
  "Initialize ans device config e =
     (let e = e\<lparr>he_stage := ''initialize_validation''\<rparr> in
      if \<not> config_accepted device config then (E_INVALIDARG, e)
      else
        let e = (Shutdown (ia_first_shutdown ans) e)\<lparr>he_diagnostics := [], he_latency := 0,
                  he_adapter_diagnostic := [], he_stage := ''query_capture_adapter''\<rparr>;
            hr = ia_adapter ans
        in if FAILED hr then
          (let d = FormatUnavailableAdapterDiagnostic ''failed'' hr in
           (hr, Shutdown (ia_last_shutdown ans)
                 (e\<lparr>he_adapter_diagnostic := d, he_stage := ''query_capture_adapter/'' @ d\<rparr>)))
        else
          let e = e\<lparr>he_adapter_diagnostic := FormatAdapterDiagnostic (ia_description ans) ''pending'' S_OK,
                    he_stage := ''mf_startup''\<rparr>;
              hr = ia_startup ans
          in if FAILED hr then (hr, e)
          else
            let e = e\<lparr>he_mf_started := True, he_device := True, he_config := config\<rparr> in
            case run_calls [(Some ''create_dxgi_device_manager'', ia_manager ans),
                            (Some ''reset_dxgi_device_manager'', ia_manager_reset ans)] e of (hr, e) \<Rightarrow>
            if FAILED hr then (hr, Shutdown (ia_last_shutdown ans) e)
            else if FAILED (ia_attributes ans) then
              enumeration_failed ans ''create_adapter_scope_attributes'' ''failed'' (ia_attributes ans) e
            else if FAILED (ia_blob ans) then
              enumeration_failed ans ''set_adapter_scope_luid'' ''failed'' (ia_blob ans) e
            else
              let stage = ''enumerate_adapter_scoped_hardware_mft''; e = e\<lparr>he_stage := stage\<rparr> in
              if \<not> ia_enum2 ans then enumeration_failed ans stage ''unavailable'' E_WIN32_PROC_NOT_FOUND e
              else if FAILED (ia_enum ans) then enumeration_failed ans stage ''failed'' (ia_enum ans) e
              else select_encoder ans e)"

record FullReset =
  fr_shutdown :: ShutdownAnswers
  fr_initialize :: InitAnswers
  fr_formal :: ResetAnswers

definition ResetAndRequestIdr :: "FullReset \<Rightarrow> Encoder \<Rightarrow> HRESULT \<times> Encoder" where
  "ResetAndRequestIdr ans e =
     (if he_transform e = None then (MF_E_NOT_INITIALIZED, e)
      else if he_asynchronous e
      then Initialize (fr_initialize ans) (he_device e) (he_config e) (Shutdown (fr_shutdown ans) e)
      else PerformFormalStreamReset (fr_formal ans) e)"

end
