(* ===== verification/H264Trace.thy ===== *)
theory H264Trace
  imports H264Select "HOL-Library.Sublist"
begin

text \<open>
  What every operation of \<open>HardwareH264Encoder\<close> keeps, whatever the hardware answers: at most one input is
  in flight, its texture is not touched meanwhile, and an output is labelled with its own input; the runs
  of the encoder; and how many answers of the transform taking an output consumes.
\<close>

section \<open>The part of the state the properties are about\<close>

record Core =
  core_transform :: bool
  core_asynchronous :: bool
  core_in_flight :: bool
  core_async :: AsyncMft
  core_last_fatal :: HRESULT

definition core :: "Encoder \<Rightarrow> Core" where
  "core e = \<lparr>core_transform = initialized e, core_asynchronous = he_asynchronous e,
     core_in_flight = he_in_flight e, core_async = he_async e, core_last_fatal = he_last_fatal e\<rparr>"

definition core_ok :: "Core \<Rightarrow> bool" where
  "core_ok c \<longleftrightarrow> mft_ok (core_async c) \<and>
     (\<not> core_in_flight c \<or> core_asynchronous c \<and> pending_sequence (core_async c) \<noteq> None) \<and>
     (core_in_flight c \<or> \<not> core_asynchronous c \<or> pending_sequence (core_async c) = None \<or>
        mft_faulted (core_async c)) \<and>
     (\<not> mft_faulted (core_async c) \<or> FAILED (core_last_fatal c))"

definition in_transit :: "Core \<Rightarrow> u64 list" where
  "in_transit c = (if core_asynchronous c then (case pending_sequence (core_async c) of None \<Rightarrow> [] | Some n \<Rightarrow> [n])
                   else [])"

definition core_fatal :: "HRESULT \<Rightarrow> Core \<Rightarrow> Core" where
  "core_fatal hr c = c\<lparr>core_async := MarkFatal (core_async c),
                       core_last_fatal := (if FAILED hr then hr else E_FAIL)\<rparr>"

lemma MarkFatal_pending [simp]:
  "pending_sequence (MarkFatal a) = pending_sequence a" "mft_faulted (MarkFatal a)"
  by (simp_all add: MarkFatal_def)

lemma core_fatal_ok: "core_ok c \<Longrightarrow> core_ok (core_fatal hr c)"
  by (cases c) (simp add: core_ok_def core_fatal_def mft_ok_fatal)

lemma core_fatal_cleared: "core_ok c \<Longrightarrow> core_ok (core_fatal hr (c\<lparr>core_in_flight := False\<rparr>))"
  by (cases c) (simp add: core_ok_def core_fatal_def mft_ok_fatal)

lemma core_fatal_transit [simp]:
  "in_transit (core_fatal hr c) = in_transit c" "in_transit (c\<lparr>core_in_flight := b\<rparr>) = in_transit c"
  "core_asynchronous (core_fatal hr c) = core_asynchronous c"
  "core_transform (core_fatal hr c) = core_transform c"
  by (simp_all add: in_transit_def core_fatal_def)

lemma core_MarkAsyncFatal [simp]: "core (snd (MarkAsyncFatal hr e)) = core_fatal hr (core e)" "fst (MarkAsyncFatal hr e) = hr"
  by (simp_all add: MarkAsyncFatal_def core_def core_fatal_def initialized_def)

lemma MarkAsyncFatal_pair: "MarkAsyncFatal hr e = (hr', e') \<Longrightarrow> hr' = hr \<and> core e' = core_fatal hr (core e)"
  using core_MarkAsyncFatal [of hr e] by simp

lemma core_simps [simp]:
  "core (e\<lparr>he_stage := s\<rparr>) = core e" "core (e\<lparr>he_stream_changes := n\<rparr>) = core e"
  "core (e\<lparr>he_renegotiated := b\<rparr>) = core e" "core (e\<lparr>he_caller_sample := cs\<rparr>) = core e"
  "core (e\<lparr>he_caller_capacity := w\<rparr>) = core e" "core (e\<lparr>he_input_sample := b\<rparr>) = core e"
  "core (e\<lparr>he_input_identity := i\<rparr>) = core e" "core (e\<lparr>he_fatal_restart := b\<rparr>) = core e"
  "core (e\<lparr>he_sample_reuse := b\<rparr>) = core e" "core (e\<lparr>he_texture_reuse := b\<rparr>) = core e"
  "core (e\<lparr>he_in_flight := b\<rparr>) = (core e)\<lparr>core_in_flight := b\<rparr>"
  "core (e\<lparr>he_async := a\<rparr>) = (core e)\<lparr>core_async := a\<rparr>"
  "core (e\<lparr>he_diagnostics := d\<rparr>) = core e" "core (e\<lparr>he_latency := l\<rparr>) = core e"
  "core (e\<lparr>he_adapter_diagnostic := t\<rparr>) = core e" "core (e\<lparr>he_name := nm\<rparr>) = core e"
  "core (e\<lparr>he_mf_started := b\<rparr>) = core e" "core (e\<lparr>he_device := b\<rparr>) = core e"
  "core (e\<lparr>he_config := cfg\<rparr>) = core e" "core (e\<lparr>he_events := b\<rparr>) = core e"
  "core (ClearCallerOutputSample e) = core e" "core (ReleaseInputSampleObjects e) = core e"
  "core (ClearInputSample e) = (core e)\<lparr>core_in_flight := False\<rparr>"
  by (simp_all add: core_def initialized_def ClearCallerOutputSample_def ReleaseInputSampleObjects_def ClearInputSample_def)

lemma core_fields [simp]:
  "core_transform (core e) \<longleftrightarrow> initialized e" "core_asynchronous (core e) = he_asynchronous e"
  "core_in_flight (core e) = he_in_flight e" "core_async (core e) = he_async e"
  "core_last_fatal (core e) = he_last_fatal e"
  by (simp_all add: core_def)

lemma core_run_calls [simp]: "core (snd (run_calls calls e)) = core e"
proof (induction calls arbitrary: e)
  case (Cons c calls)
  then show ?case by (cases c) (auto simp: Let_def split: option.splits)
qed simp

lemma run_calls_core: "run_calls calls e = (hr, e') \<Longrightarrow> core e' = core e"
  using core_run_calls [of calls e] by simp

lemma run_calls_result: "run_calls calls e = (hr, e') \<Longrightarrow> hr = S_OK \<or> FAILED hr"
proof (induction calls arbitrary: e)
  case (Cons c calls)
  then show ?case by (cases c) (auto simp: Let_def split: option.splits if_splits)
qed simp

section \<open>Events\<close>

text \<open>What events do: they may ask for input or announce output, or mark the stream fatal.\<close>

definition pumped :: "Core \<Rightarrow> Core \<Rightarrow> bool" where
  "pumped c c' \<longleftrightarrow> core_transform c' = core_transform c \<and> core_asynchronous c' = core_asynchronous c \<and>
     core_in_flight c' = core_in_flight c \<and> in_transit c' = in_transit c \<and> (core_ok c \<longrightarrow> core_ok c')"

lemma pumped_refl [simp]: "pumped c c"
  by (simp add: pumped_def)

lemma pumped_trans: "pumped a b \<Longrightarrow> pumped b c \<Longrightarrow> pumped a c"
  by (simp add: pumped_def)

lemma pumped_fatal [simp]: "pumped c (core_fatal hr c)"
  by (simp add: pumped_def core_fatal_ok) (simp add: core_fatal_def)

lemma deliver_event_pending [simp]:
  "pending_sequence (deliver_event t a) = pending_sequence a" "mft_faulted (deliver_event t a) = mft_faulted a"
  by (cases t; simp add: deliver_event_def)+

lemma mft_ok_deliver [mft_intros]: "mft_ok a \<Longrightarrow> mft_ok (deliver_event t a)"
  by (cases t) (simp_all add: deliver_event_def mft_ok_event del: OnEvent.simps)

lemma pumped_event: "pumped c (c\<lparr>core_async := deliver_event t (core_async c)\<rparr>)"
  by (cases c) (simp add: pumped_def in_transit_def core_ok_def mft_ok_deliver)

lemma pump_loop_core:
  "pump_loop answers e = (hr, e') \<Longrightarrow> pumped (core e) (core e') \<and> (hr = S_OK \<or> FAILED hr)"
proof (induction answers arbitrary: e)
  case (Cons a answers)
  show ?case
  proof (cases "pump_loop (a # answers) e = pump_loop answers (e\<lparr>he_async := deliver_event (ev_type a) (he_async e)\<rparr>)")
    case True
    then have "pump_loop answers (e\<lparr>he_async := deliver_event (ev_type a) (he_async e)\<rparr>) = (hr, e')"
      using Cons.prems by simp
    from Cons.IH [OF this] show ?thesis
      using pumped_event [of "core e" "ev_type a"] by (simp add: pumped_def)
  next
    case False
    then have "(hr, e') = (S_OK, e) \<or> (\<exists>f. FAILED f \<and> MarkAsyncFatal f e = (hr, e'))"
      using Cons.prems by (simp split: if_splits) (metis FAILED_codes(2,3))+
    then show ?thesis by (auto dest: MarkAsyncFatal_pair)
  qed
qed simp

lemma PumpAsyncEvents_core:
  "PumpAsyncEvents answers e = (hr, e') \<Longrightarrow> pumped (core e) (core e') \<and> (hr = S_OK \<or> FAILED hr)"
  by (auto simp: PumpAsyncEvents_def dest!: MarkAsyncFatal_pair pump_loop_core split: if_splits)

section \<open>Outputs\<close>

lemma renegotiate_core: "renegotiate_loop answers err e = (hr, e') \<Longrightarrow> core e' = core e"
proof (induction answers arbitrary: err e)
  case (Cons a answers)
  then show ?case
    by (simp add: Let_def case_prod_unfold split: if_splits) auto
qed auto

lemma RenegotiateOutputType_core: "RenegotiateOutputType answers e = (hr, e') \<Longrightarrow> core e' = core e"
  by (auto simp: RenegotiateOutputType_def dest: renegotiate_core split: if_splits)

lemma EnsureCallerOutputSample_core: "EnsureCallerOutputSample ans n e = (hr, e') \<Longrightarrow> core e' = core e"
  by (auto simp: EnsureCallerOutputSample_def Let_def split: if_splits prod.splits dest!: run_calls_core)

lemma prepare_caller_sample_core: "prepare_caller_sample ans e = (hr, cs, e') \<Longrightarrow> core e' = core e"
  by (auto simp: prepare_caller_sample_def split: if_splits prod.splits dest!: EnsureCallerOutputSample_core)

text \<open>How one iteration, and the whole of \<open>ProcessOutput\<close>, may change the encoder.\<close>

definition output_effect :: "u64 \<Rightarrow> Core \<Rightarrow> EncodedAccessUnit \<Rightarrow> HRESULT \<times> EncodedAccessUnit \<times> Encoder \<Rightarrow> bool" where
  "output_effect sequence c u r \<longleftrightarrow> (case r of (hr, u', e') \<Rightarrow>
     (core e' = c \<and> (hr = S_OK \<or> hr = S_FALSE \<or> FAILED hr) \<and>
        (if hr = S_OK then au_sequence u' = sequence else u' = u)) \<or>
     (hr = MF_E_TRANSFORM_STREAM_CHANGE \<and> core_asynchronous c \<and> core e' = core_fatal hr c \<and> u' = u))"

lemma output_effect_failed: "FAILED hr \<Longrightarrow> core e' = c \<Longrightarrow> output_effect s c u (hr, u, e')"
  by (auto simp: output_effect_def)

lemma output_effect_none: "core e' = c \<Longrightarrow> output_effect s c u (1, u, e')"
  by (simp add: output_effect_def)

lemma output_effect_fatal:
  "he_asynchronous e \<Longrightarrow> core e = c \<Longrightarrow> MarkAsyncFatal MF_E_TRANSFORM_STREAM_CHANGE e = (hr, e') \<Longrightarrow>
   output_effect s c u (hr, u, e')"
  by (auto simp: output_effect_def core_def dest!: MarkAsyncFatal_pair)

lemma consume_sample_effect: "core e = c \<Longrightarrow> output_effect s c u (consume_sample ans s u e)"
  by (auto simp: consume_sample_def output_effect_def Let_def)

lemma renegotiate_only_on_change:
  "ClassifyH264EncoderOutputStatus hr st n = kRenegotiateOutput \<Longrightarrow> hr = MF_E_TRANSFORM_STREAM_CHANGE"
  "ClassifyH264EncoderOutputStatus hr st n = kFail \<Longrightarrow> FAILED hr"
  by (auto simp: ClassifyH264EncoderOutputStatus_def Let_def split: if_splits)

lemma take_output_effect:
  "(case take_output ans types sequence retries u e of
      Inl r \<Rightarrow> output_effect sequence (core e) u r
    | Inr e' \<Rightarrow> core e' = core e)"
proof -
  let ?e0 = "e\<lparr>he_stage := ''get_output_stream_info''\<rparr>"
  obtain hr cs e1 where prep: "prepare_caller_sample ans ?e0 = (hr, cs, e1)" by (metis prod_cases3)
  then have c1: "core e1 = core e" using prepare_caller_sample_core [OF prep] by simp
  show ?thesis
  proof (cases "FAILED (out_info ans) \<or> FAILED hr")
    case True
    with prep c1 show ?thesis by (auto simp: take_output_def Let_def intro: output_effect_failed)
  next
    case False
    note start = prep False
    show ?thesis
    proof (cases "ClassifyH264EncoderOutputStatus (out_result ans) (out_status ans) (he_stream_changes e1)")
      case kConsumeOutput
      with start c1 show ?thesis
        by (auto simp: take_output_def Let_def intro!: output_effect_none output_effect_failed consume_sample_effect)
    next
      case kNeedMoreInput
      with start c1 show ?thesis by (auto simp: take_output_def Let_def intro!: output_effect_none)
    next
      case kRetryOutput
      with start c1 show ?thesis by (auto simp: take_output_def Let_def intro!: output_effect_none)
    next
      case kFail
      with start c1 renegotiate_only_on_change(2) [OF kFail] show ?thesis
        by (auto simp: take_output_def Let_def intro!: output_effect_failed)
    next
      case kRenegotiateOutput
      let ?e2 = "ClearCallerOutputSample (e1\<lparr>he_stage := output_stage e1\<rparr>)"
      have c2: "core ?e2 = core e" using c1 by simp
      have hr: "out_result ans = MF_E_TRANSFORM_STREAM_CHANGE" by (rule renegotiate_only_on_change(1) [OF kRenegotiateOutput])
      show ?thesis
      proof (cases "he_asynchronous ?e2")
        case True
        obtain hr' e3 where m: "MarkAsyncFatal (out_result ans) ?e2 = (hr', e3)" by fastforce
        with output_effect_fatal [OF True c2, of hr' e3] hr have "output_effect sequence (core e) u (hr', u, e3)" by simp
        with start m True kRenegotiateOutput show ?thesis by (simp add: take_output_def Let_def)
      next
        case False
        obtain hr' e3 where r: "RenegotiateOutputType types ?e2 = (hr', e3)" by fastforce
        then have "core e3 = core e" using RenegotiateOutputType_core c2 by metis
        with start r False kRenegotiateOutput show ?thesis
          by (auto simp: take_output_def Let_def intro!: output_effect_none output_effect_failed)
      qed
    qed
  qed
qed

lemma process_output_loop_effect:
  "output_effect sequence (core e) u (process_output_loop answers types sequence retries u e)"
proof (induction answers types sequence retries u e rule: process_output_loop.induct)
  case (1 answers types sequence retries u e)
  let ?r = "take_output (answers (unat retries)) types sequence retries u e"
  note effect = take_output_effect [where ans = "answers (unat retries)" and types = types
      and sequence = sequence and retries = retries and u = u and e = e]
  show ?case
  proof (cases ?r)
    case (Inl r)
    with effect show ?thesis by (subst process_output_loop.simps) simp
  next
    case (Inr e')
    with effect "1.IH" [OF Inr] show ?thesis by (subst process_output_loop.simps) simp
  qed
qed

lemma ProcessOutput_effect: "output_effect sequence (core e) u (ProcessOutput answers types sequence u e)"
  unfolding ProcessOutput_def by (rule process_output_loop_effect)

section \<open>Polling and encoding\<close>

lemma core_async_update: "core (e\<lparr>he_async := a\<rparr>) = core e\<lparr>core_async := a\<rparr>"
  by simp

text \<open>What \<open>Poll\<close> may do: deliver the input in flight, or nothing.\<close>

definition polled :: "Core \<Rightarrow> HRESULT \<Rightarrow> EncodedAccessUnit \<Rightarrow> Core \<Rightarrow> bool" where
  "polled c hr u c' \<longleftrightarrow> core_ok c' \<and> core_transform c' = core_transform c \<and>
     core_asynchronous c' = core_asynchronous c \<and> (hr = S_OK \<or> hr = S_FALSE \<or> FAILED hr) \<and>
     (if hr = S_OK then core_asynchronous c \<and> in_transit c = [au_sequence u] \<and> in_transit c' = [] \<and> \<not> core_in_flight c'
      else in_transit c' = in_transit c)"

lemma polled_nothing:
  "pumped c c' \<Longrightarrow> core_ok c \<Longrightarrow> hr = S_FALSE \<or> FAILED hr \<Longrightarrow> polled c hr u c'"
  by (auto simp: pumped_def polled_def)

lemma polled_fatal: "core_ok c \<Longrightarrow> FAILED hr \<Longrightarrow> polled c hr u (core_fatal hr' (c\<lparr>core_in_flight := False\<rparr>))"
  by (auto simp: polled_def core_fatal_cleared)

lemma polled_pumped: "pumped c c1 \<Longrightarrow> polled c1 hr u c2 \<Longrightarrow> polled c hr u c2"
  by (auto simp: pumped_def polled_def)

lemma pumped_unavailable: "pumped c (c\<lparr>core_async := OnOutputUnavailable (core_async c)\<rparr>)"
  using mft_ok_unavailable [of "core_async c"]
  by (cases c) (simp add: pumped_def in_transit_def core_ok_def OnOutputUnavailable_def)

lemma polled_done:
  assumes "core_ok c" and "core_asynchronous c" and "pending_sequence (core_async c) = Some (au_sequence u)"
  shows "polled c S_OK u (c\<lparr>core_async := snd (OnOutputProduced (core_async c)), core_in_flight := False\<rparr>)"
  using assms mft_ok_produced [of "core_async c"]
  by (cases c) (simp add: polled_def core_ok_def in_transit_def OnOutputProduced_def)

lemma core_fatal_twice: "core_fatal hr ((core_fatal hr c)\<lparr>core_in_flight := False\<rparr>) = core_fatal hr (c\<lparr>core_in_flight := False\<rparr>)"
  by (cases c) (simp add: core_fatal_def MarkFatal_def)

lemma ProcessAsyncOutput_polled:
  assumes "core_ok (core e)" and "he_asynchronous e" and "ProcessAsyncOutput ans u e = (hr, u', e')"
  shows "polled (core e) hr u' (core e')"
proof (cases "output_available (he_async e)")
  case False
  with assms show ?thesis by (auto simp: ProcessAsyncOutput_def intro!: polled_nothing)
next
  case True
  show ?thesis
  proof (cases "pending_sequence (he_async e)")
    case None
    with assms True show ?thesis
      by (auto simp: ProcessAsyncOutput_def split: prod.splits intro!: polled_nothing dest!: MarkAsyncFatal_pair)
  next
    case (Some n)
    obtain hr1 u1 e1 where out: "ProcessOutput (poll_outputs ans) (poll_types ans) n u e = (hr1, u1, e1)"
      by (metis prod_cases3)
    have eff: "output_effect n (core e) u (hr1, u1, e1)" unfolding out [symmetric] by (rule ProcessOutput_effect)
    show ?thesis
    proof (cases "hr1 = MF_E_TRANSFORM_NEED_MORE_INPUT \<or> hr1 = S_FALSE")
      case need: True
      then have c1: "core e1 = core e" using eff by (auto simp: output_effect_def hresults)
      moreover have "he_async e1 = he_async e" using arg_cong [OF c1, of core_async] by simp
      ultimately show ?thesis using assms True Some out need pumped_unavailable [of "core e"]
        by (auto simp: ProcessAsyncOutput_def intro!: polled_nothing)
    next
      case False
      show ?thesis
      proof (cases "FAILED hr1")
        case True
        have "core e1 = core e \<or> core e1 = core_fatal hr1 (core e)" using eff by (auto simp: output_effect_def)
        then have "core_fatal hr1 (core (ClearInputSample e1)) = core_fatal hr1 ((core e)\<lparr>core_in_flight := False\<rparr>)"
          by (auto simp: core_fatal_twice)
        moreover have "hr = hr1 \<and> core e' = core_fatal hr1 (core (ClearInputSample e1))"
          using assms(3) \<open>output_available (he_async e)\<close> Some out False True
          by (auto simp: ProcessAsyncOutput_def split: prod.splits dest!: MarkAsyncFatal_pair)
        ultimately show ?thesis using polled_fatal [OF assms(1) True] by simp
      next
        case ok: False
        with False eff have S: "hr1 = S_OK" "core e1 = core e" "au_sequence u1 = n"
          by (auto simp: output_effect_def)
        have async1: "he_async e1 = he_async e" using arg_cong [OF S(2), of core_async] by simp
        have "hr = S_OK \<and> u' = u1 \<and>
            core e' = (core e)\<lparr>core_async := snd (OnOutputProduced (he_async e)), core_in_flight := False\<rparr>"
          using assms(3) True Some out False ok S async1
          by (auto simp: ProcessAsyncOutput_def OnOutputProduced_def)
        with polled_done [of "core e" u1] assms(1,2) Some S show ?thesis by simp
      qed
    qed
  qed
qed

lemma Poll_polled:
  assumes "core_ok (core e)" and "Poll ans u e = (hr, u', e')"
  shows "polled (core e) hr u' (core e')"
proof -
  consider "he_transform e = None" | "he_transform e \<noteq> None" "\<not> he_asynchronous e"
    | "he_transform e \<noteq> None" "he_asynchronous e" "mft_faulted (he_async e)"
    | "he_transform e \<noteq> None" "he_asynchronous e" "\<not> mft_faulted (he_async e)" by blast
  then show ?thesis
  proof cases
    case 4
    obtain hr1 e1 where pump: "PumpAsyncEvents (poll_events ans) e = (hr1, e1)" by fastforce
    then have p: "pumped (core e) (core e1)" "hr1 = S_OK \<or> FAILED hr1" using PumpAsyncEvents_core by blast+
    show ?thesis
    proof (cases "FAILED hr1")
      case True
      with assms 4 pump p show ?thesis by (auto simp: Poll_def intro!: polled_nothing)
    next
      case False
      then have "ProcessAsyncOutput ans empty_access_unit e1 = (hr, u', e')"
        using assms(2) 4 pump by (simp add: Poll_def)
      moreover have "core_ok (core e1)" "he_asynchronous e1"
        using p assms(1) 4 by (simp_all add: pumped_def)
      ultimately show ?thesis using p(1) ProcessAsyncOutput_polled polled_pumped by blast
    qed
  qed (use assms in \<open>auto simp: Poll_def core_ok_def intro!: polled_nothing\<close>)
qed

lemma EnsureInputSample_core:
  assumes "EnsureInputSample ans e = (hr, e')"
  shows "core e' = core e \<or> core e' = (core e)\<lparr>core_in_flight := False\<rparr> \<and> (\<not> he_in_flight e \<or> FAILED (in_query ans))"
    and "FAILED (in_query ans) \<Longrightarrow> FAILED hr"
  using assms
  by (auto simp: EnsureInputSample_def DecideH264InputSampleCacheAction_def Let_def
      split: if_splits prod.splits dest!: run_calls_core)

text \<open>With no input in flight the flag is already clear.\<close>

lemma clear_in_flight_ok:
  "core_ok c \<Longrightarrow> pending_sequence (core_async c) = None \<Longrightarrow> c\<lparr>core_in_flight := False\<rparr> = c"
  by (cases c) (auto simp: core_ok_def)

lemma core_accept:
  assumes "core_ok c" and "core_asynchronous c" and "CanAcceptInput (core_async c)"
  shows "core_ok (c\<lparr>core_async := snd (OnInputAccepted n (core_async c)), core_in_flight := True\<rparr>)"
    and "in_transit (c\<lparr>core_async := snd (OnInputAccepted n (core_async c)), core_in_flight := True\<rparr>) = [n]"
    and "in_transit c = []" and "fst (OnInputAccepted n (core_async c))"
  using assms mft_ok_accepted [of "core_async c" n]
  by (cases c; simp add: core_ok_def in_transit_def OnInputAccepted_def CanAcceptInput_def)+

text \<open>What \<open>Encode\<close> may do with the frame \<open>n\<close>.\<close>

definition encoded :: "Core \<Rightarrow> u64 \<Rightarrow> HRESULT \<Rightarrow> EncodedAccessUnit \<Rightarrow> Core \<Rightarrow> bool" where
  "encoded c n hr u c' \<longleftrightarrow> core_ok c' \<and> core_transform c' = core_transform c \<and>
     core_asynchronous c' = core_asynchronous c \<and> (hr = S_OK \<or> hr = S_FALSE \<or> FAILED hr) \<and>
     (if hr = S_OK then au_sequence u = n \<and> in_transit c = [] \<and> in_transit c' = []
      else in_transit c' = in_transit c \<or> in_transit c = [] \<and> in_transit c' = [n])"

lemma encoded_failed: "pumped c c' \<Longrightarrow> core_ok c \<Longrightarrow> FAILED hr \<Longrightarrow> encoded c n hr u c'"
  by (auto simp: encoded_def pumped_def)

lemma encoded_pumped: "pumped c c1 \<Longrightarrow> encoded c1 n hr u c2 \<Longrightarrow> encoded c n hr u c2"
  by (auto simp: encoded_def pumped_def split: if_splits)

lemma pumped_cleared:
  "core_ok c \<Longrightarrow> pending_sequence (core_async c) = None \<Longrightarrow> pumped c (c\<lparr>core_in_flight := False\<rparr>)"
  by (simp add: clear_in_flight_ok)

lemma encode_accepted:
  assumes ok: "core_ok (core e)" and a: "he_asynchronous e" and can: "CanAcceptInput (he_async e)"
    and e1: "core e1 = (core e)\<lparr>core_async := snd (OnInputAccepted n (he_async e)), core_in_flight := True\<rparr>"
    and poll: "Poll ans u e1 = (hr, u', e')"
  shows "encoded (core e) n hr u' (core e')"
proof -
  have acc: "core_ok (core e1)" "in_transit (core e1) = [n]" "in_transit (core e) = []"
    using core_accept [OF ok] a can unfolding e1 by simp_all
  have "core_transform (core e1) = core_transform (core e)" "core_asynchronous (core e1) = core_asynchronous (core e)"
    unfolding e1 by simp_all
  with Poll_polled [OF acc(1) poll] acc show ?thesis by (auto simp: polled_def encoded_def split: if_splits)
qed

lemma encode_async_encoded:
  assumes "core_ok (core e)" and "he_asynchronous e" and "encode_async ans n u e = (hr, u', e')"
  shows "encoded (core e) n hr u' (core e')"
proof -
  obtain hr1 e1 where pump: "PumpAsyncEvents (enc_events ans) e = (hr1, e1)" by fastforce
  then have p: "pumped (core e) (core e1)" "hr1 = S_OK \<or> FAILED hr1" using PumpAsyncEvents_core by blast+
  then have ok1: "core_ok (core e1)" and as1: "he_asynchronous e1" using assms(1,2) by (simp_all add: pumped_def)
  show ?thesis
  proof (cases "FAILED hr1 \<or> \<not> CanAcceptInput (he_async e1)")
    case True
    with assms pump p show ?thesis by (auto simp: encode_async_def intro!: encoded_failed split: if_splits)
  next
    case False
    then have can: "CanAcceptInput (he_async e1)" and none: "pending_sequence (core_async (core e1)) = None"
      by (simp_all add: CanAcceptInput_def)
    obtain hr2 e2 where ens: "EnsureInputSample (enc_input ans) e1 = (hr2, e2)" by fastforce
    have c2: "core e2 = core e1" using EnsureInputSample_core(1) [OF ens] clear_in_flight_ok [OF ok1 none] by auto
    then have same: "he_async e2 = he_async e1" "he_asynchronous e2 = he_asynchronous e1"
      by (metis core_fields(4), metis core_fields(2))
    let ?e3 = "e2\<lparr>he_stage := ''async_process_input''\<rparr>"
    have "encoded (core e1) n hr u' (core e')"
    proof (cases "FAILED hr2")
      case True
      then have "hr = hr2 \<and> core e' = core e1" using assms(3) pump False ens c2 by (simp add: encode_async_def)
      with True ok1 show ?thesis by (auto intro!: encoded_failed)
    next
      case sample: False
      show ?thesis
      proof (cases "FAILED (enc_process_input ans)")
        case True
        have clear: "core (ClearInputSample ?e3) = core e1" using c2 clear_in_flight_ok [OF ok1 none] by simp
        have "hr = enc_process_input ans \<and> (core e' = core e1 \<or> core e' = core_fatal hr (core e1))"
          using assms(3) pump False ens sample True clear
          by (auto simp: encode_async_def Let_def split: if_splits prod.splits dest!: MarkAsyncFatal_pair)
        with True ok1 show ?thesis by (auto intro!: encoded_failed)
      next
        case fed: False
        let ?e4 = "?e3\<lparr>he_async := snd (OnInputAccepted n (he_async e1)), he_in_flight := True\<rparr>"
        let ?e5 = "if \<not> he_sample_reuse e2 then ReleaseInputSampleObjects ?e4 else ?e4"
        have "fst (OnInputAccepted n (he_async e1))" using can by (simp add: OnInputAccepted_def)
        then have poll: "Poll (enc_poll ans) u ?e5 = (hr, u', e')"
          using assms(3) pump False ens sample fed same
          by (simp add: encode_async_def Let_def case_prod_unfold)
        have "core ?e5 = (core e1)\<lparr>core_async := snd (OnInputAccepted n (he_async e1)), core_in_flight := True\<rparr>"
          using c2 by simp
        from encode_accepted [OF ok1 as1 can this poll] show ?thesis .
      qed
    qed
    with p(1) show ?thesis by (rule encoded_pumped)
  qed
qed

lemma encode_sync_encoded:
  assumes ok: "core_ok (core e)" and sync: "\<not> he_asynchronous e" and "encode_sync ans n u e = (hr, u', e')"
  shows "encoded (core e) n hr u' (core e')"
proof -
  have idle: "\<not> he_in_flight e" using ok sync by (auto simp: core_ok_def)
  then have clear: "(core e)\<lparr>core_in_flight := False\<rparr> = core e" by (cases "core e") (metis core_fields(3) Core.update_convs(3) Core.select_convs(3))
  have none: "in_transit (core e) = []" using sync by (simp add: in_transit_def)
  obtain hr1 e1 where ens: "EnsureInputSample (enc_input ans) e = (hr1, e1)" by fastforce
  have c1: "core e1 = core e" using EnsureInputSample_core(1) [OF ens] clear by auto
  let ?e2 = "e1\<lparr>he_stage := ''sync_process_input''\<rparr>"
  have keep: "encoded (core e) n hr u' (core e')" if "core e' = core e" "hr = S_FALSE \<or> FAILED hr"
    using that ok by (auto simp: encoded_def)
  show ?thesis
  proof (cases "FAILED hr1 \<or> FAILED (enc_process_input ans)")
    case True
    with assms(3) ens c1 clear have "core e' = core e \<and> FAILED hr"
      by (auto simp: encode_sync_def Let_def split: if_splits)
    with keep show ?thesis by blast
  next
    case False
    let ?e3 = "(if \<not> he_sample_reuse ?e2 then ReleaseInputSampleObjects ?e2 else ?e2)\<lparr>he_stage := ''sync_process_output''\<rparr>"
    have c3: "core ?e3 = core e" using c1 by simp
    obtain hr2 u2 e4 where out:
      "ProcessOutput (poll_outputs (enc_poll ans)) (poll_types (enc_poll ans)) n u ?e3 = (hr2, u2, e4)"
      by (metis prod_cases3)
    have "output_effect n (core ?e3) u (hr2, u2, e4)" unfolding out [symmetric] by (rule ProcessOutput_effect)
    then have "output_effect n (core e) u (hr2, u2, e4)" unfolding c3 .
    then have eff: "core e4 = core e" "hr2 = S_OK \<or> hr2 = S_FALSE \<or> FAILED hr2" "hr2 = S_OK \<longrightarrow> au_sequence u2 = n"
      using sync by (auto simp: output_effect_def split: if_splits)
    have res: "hr = hr2 \<and> u' = u2 \<and> core e' = core e"
      using assms(3) ens False out eff(1) clear by (auto simp: encode_sync_def Let_def split: if_splits)
    show ?thesis
    proof (cases "hr2 = S_OK")
      case True
      with res eff ok none show ?thesis by (simp add: encoded_def)
    next
      case False
      with res eff keep show ?thesis by blast
    qed
  qed
qed

lemma Encode_encoded:
  assumes "core_ok (core e)" and "Encode ans n u e = (hr, u', e')"
  shows "encoded (core e) n hr u' (core e')"
proof (cases "he_transform e = None \<or> \<not> he_device e \<or> \<not> enc_frame_matches ans")
  case True
  with assms have "core e' = core e \<and> FAILED hr" by (auto simp: Encode_def split: if_splits)
  with assms(1) show ?thesis by (auto intro!: encoded_failed)
next
  case False
  with assms encode_async_encoded encode_sync_encoded show ?thesis
    by (cases "he_asynchronous e") (auto simp: Encode_def)
qed

section \<open>Setting up and resetting\<close>

text \<open>Nothing is in transit before or after a set-up.\<close>

definition quiet :: "Core \<Rightarrow> bool" where
  "quiet c \<longleftrightarrow> core_ok c \<and> in_transit c = []"

definition calm :: "Core \<Rightarrow> Core \<Rightarrow> bool" where
  "calm c c' \<longleftrightarrow> (\<not> quiet c \<or> quiet c') \<and> core_transform c' = core_transform c \<and>
                 core_asynchronous c' = core_asynchronous c"

lemma calm_refl [simp]: "calm c c"
  by (simp add: calm_def)

lemma calm_trans: "calm a b \<Longrightarrow> calm b c \<Longrightarrow> calm a c"
  by (auto simp: calm_def)

lemma pumped_calm: "pumped c c' \<Longrightarrow> calm c c'"
  by (auto simp: pumped_def calm_def quiet_def)

lemma pump_calm: "PumpAsyncEvents answers e = (hr, e') \<Longrightarrow> calm (core e) (core e')"
  using PumpAsyncEvents_core pumped_calm by blast

lemma restart_core:
  "core (restart_async e) =
     (if he_asynchronous e then (core e)\<lparr>core_async := StartStream, core_last_fatal := S_OK\<rparr> else core e)"
  by (simp add: restart_async_def core_def initialized_def)

lemma restart_calm: "calm (core e) (core (restart_async e))"
proof -
  have "quiet (c\<lparr>core_async := StartStream, core_last_fatal := S_OK\<rparr>)" if "quiet c" for c
    using that mft_ok_start
    by (cases c) (auto simp: quiet_def core_ok_def in_transit_def StartStream_def split: option.splits)
  then show ?thesis unfolding restart_core by (simp add: calm_def)
qed

lemma read_stream_info_core [simp]: "core (read_stream_info ans e) = core e"
  by (simp add: read_stream_info_def Let_def)

lemma ConfigureCodecApi_core: "ConfigureCodecApi ans e = (hr, e') \<Longrightarrow> core e' = core e"
  by (auto simp: ConfigureCodecApi_def Let_def split: if_splits prod.splits dest!: run_calls_core)

lemma ConfigureTransform_calm:
  assumes "ConfigureTransform ans e = (hr, e')"
  shows "calm (core e) (core e')"
proof -
  obtain h1 e1 where 1: "build_types ans e = (h1, e1)" by fastforce
  obtain h2 e2 where 2: "run_calls [(Some ''configure_set_d3d_manager'', su_d3d ans)] e1 = (h2, e2)" by fastforce
  obtain h3 e3 where 3: "ConfigureCodecApi (su_codec ans) (e2\<lparr>he_stage := ''configure_codec_api''\<rparr>) = (h3, e3)" by fastforce
  obtain h4 e4 where 4: "run_calls [(Some ''configure_set_output'', su_output ans),
      (Some ''configure_set_input'', su_input ans)] e3 = (h4, e4)" by fastforce
  obtain h5 e5 where 5: "run_calls [(Some ''configure_begin_streaming'', su_begin ans),
      (Some ''configure_start_stream'', su_start ans)] (restart_async (read_stream_info ans e4)) = (h5, e5)" by fastforce
  have same: "core e1 = core e" "core e2 = core e1" "core e3 = core e2" "core e4 = core e3"
    using run_calls_core [OF 1 [unfolded build_types_def]] run_calls_core [OF 2] ConfigureCodecApi_core [OF 3]
      run_calls_core [OF 4] by simp_all
  have c5: "calm (core e) (core e5)"
    using restart_calm [of "read_stream_info ans e4"] run_calls_core [OF 5] same by simp
  have "e' = e1 \<or> e' = e2 \<or> e' = e3 \<or> e' = e4 \<or> e' = e5 \<or> PumpAsyncEvents (su_events ans) e5 = (hr, e')"
    using assms 1 2 3 4 5 by (auto simp: ConfigureTransform_def split: if_splits)
  then show ?thesis using same c5 pump_calm calm_trans by (metis calm_refl)
qed

lemma formal_steps_core:
  assumes "list_all (\<lambda>(_, action). \<forall>e. core (snd (action e)) = core e) steps"
    and "formal_steps steps n e = (hr, n', e')"
  shows "core e' = core e"
  using assms
proof (induction steps arbitrary: n e)
  case (Cons s steps)
  obtain step action where s: "s = (step, action)" by fastforce
  obtain h e1 where act: "action e = (h, e1)" by fastforce
  have "core e1 = core e" using Cons.prems(1) act s by simp (metis snd_conv)
  with Cons act s show ?case by (auto simp: Advance_def split: if_splits)
qed simp

lemma Reconfigure_calm:
  assumes "ReconfigureSelectedTransformForStream ans e = (hr, e')"
  shows "calm (core e) (core e')"
proof (cases "he_transform e = None")
  case True
  with assms show ?thesis by (simp add: ReconfigureSelectedTransformForStream_def)
next
  case False
  let ?steps = "[(kSetD3DManager, run_calls [(Some ''formal_set_d3d_manager'', su_d3d ans)]),
           (kConfigureCodecApi, \<lambda>e. ConfigureCodecApi (su_codec ans) (e\<lparr>he_stage := ''formal_codec_api''\<rparr>)),
           (kSetOutputType, run_calls [(Some ''formal_set_output'', su_output ans)]),
           (kSetInputType, \<lambda>e. case run_calls [(Some ''formal_set_input'', su_input ans)] e of (hr, e) \<Rightarrow>
              if FAILED hr then (hr, e) else (hr, read_stream_info ans e)),
           (kBeginStreaming, run_calls [(None, su_begin ans)]),
           (kStartOfStream, run_calls [(None, su_start ans)])]"
  obtain h1 e1 where 1: "build_types ans (restart_async e) = (h1, e1)" by fastforce
  obtain h2 n e2 where 2: "formal_steps ?steps 0 e1 = (h2, n, e2)" by (rule prod_cases3)
  have "core (snd (ConfigureCodecApi (su_codec ans) (e\<lparr>he_stage := s\<rparr>))) = core e" for e s
    using ConfigureCodecApi_core [OF surjective_pairing] by simp
  moreover have "core (snd (case run_calls c e of (hr, e) \<Rightarrow>
              if FAILED hr then (hr, e) else (hr, read_stream_info ans e))) = core e" for c e
    using core_run_calls [of c e] by (simp add: case_prod_unfold)
  ultimately have "list_all (\<lambda>(_, action). \<forall>e. core (snd (action e)) = core e) ?steps"
    by (simp only: list.pred_inject prod.case core_run_calls simp_thms)
  then have c2: "core e2 = core e1" using formal_steps_core 2 by blast
  have c1: "calm (core e) (core e1)"
    using restart_calm [of e] run_calls_core [OF 1 [unfolded build_types_def]] by simp
  have "e' = e1 \<or> e' = e2 \<or> PumpAsyncEvents (su_events ans) e2 = (hr, e')"
    using assms False 1 2 by (auto simp: ReconfigureSelectedTransformForStream_def split: if_splits)
  then show ?thesis using c1 c2 pump_calm calm_trans by metis
qed

lemma fatal_calm: "MarkAsyncFatal hr e = (hr', e') \<Longrightarrow> calm (core e) (core e')"
  using pumped_calm [OF pumped_fatal] by (auto dest: MarkAsyncFatal_pair)

lemma PerformFormalStreamReset_calm:
  assumes "PerformFormalStreamReset ans e = (hr, e')" and "he_transform e \<noteq> None"
  shows "calm ((core e)\<lparr>core_in_flight := False\<rparr>) (core e')"
proof -
  let ?e0 = "(ClearCallerOutputSample (ClearInputSample e))\<lparr>he_stage := ''formal_stream_reconfigure''\<rparr>"
  obtain h1 e1 where 1: "ReconfigureSelectedTransformForStream (rs_setup ans) ?e0 = (h1, e1)" by fastforce
  have c1: "calm ((core e)\<lparr>core_in_flight := False\<rparr>) (core e1)" using Reconfigure_calm [OF 1] by simp
  have "e' = e1 \<or> (\<exists>h. MarkAsyncFatal h e1 = (hr, e')) \<or> core e' = core e1 \<or>
        (\<exists>e2. core e2 = core e1 \<and> PumpAsyncEvents (rs_events ans) e2 = (hr, e'))"
    using assms 1 by (auto simp: PerformFormalStreamReset_def Let_def split: if_splits)
  then show ?thesis using c1 fatal_calm pump_calm calm_trans by metis
qed

definition released :: Core where
  "released = \<lparr>core_transform = False, core_asynchronous = False, core_in_flight = False,
     core_async = StartStream, core_last_fatal = S_OK\<rparr>"

lemma Shutdown_core [simp]: "core (Shutdown ans e) = released"
  by (simp add: Shutdown_def Let_def core_def released_def initialized_def)
    (simp add: ClearCallerOutputSample_def ClearInputSample_def ReleaseInputSampleObjects_def)

lemma quiet_released [simp]: "quiet released"
  using mft_ok_start by (simp add: quiet_def released_def core_ok_def in_transit_def StartStream_def)

lemma quiet_StartStream: "core_async c = StartStream \<Longrightarrow> quiet (c\<lparr>core_in_flight := False\<rparr>)"
  using mft_ok_start by (cases c) (simp add: quiet_def core_ok_def in_transit_def StartStream_def)

lemma enumeration_failed_core [simp]: "core (snd (enumeration_failed ans stage how hr e)) = released"
  by (simp add: enumeration_failed_def Let_def)

lemma select_encoder_quiet: "select_encoder ans e = (hr, e') \<Longrightarrow> quiet (core e')"
proof -
  assume sel: "select_encoder ans e = (hr, e')"
  let ?e1 = "e\<lparr>he_adapter_diagnostic := FormatAdapterDiagnostic (ia_description ans) ''success'' S_OK\<rparr>"
  let ?s = "try_encoders 0 (ia_candidates ans)
      \<lparr>sel_encoder = ?e1, sel_last_error = MF_E_TOPO_CODEC_NOT_FOUND, sel_best = None\<rparr>"
  show ?thesis
  proof (cases "ia_candidates ans = [] \<or> sel_best ?s = None")
    case True
    then have "core (snd (select_encoder ans e)) = released" by (auto simp: select_encoder_def Let_def)
    then show ?thesis using sel by simp
  next
    case False
    then obtain b where b: "sel_best ?s = Some b" by blast
    let ?e2 = "(sel_encoder ?s)\<lparr>he_transform := Some (best_address b), he_events := best_events b,
        he_asynchronous := cand_asynchronous (best_diagnostics b), he_name := cand_name (best_diagnostics b),
        he_latency := cand_latency (best_diagnostics b), he_async := StartStream\<rparr>"
    obtain h3 e3 where f: "PerformFormalStreamReset (ia_formal ans) ?e2 = (h3, e3)" by fastforce
    have "calm ((core ?e2)\<lparr>core_in_flight := False\<rparr>) (core e3)"
      by (rule PerformFormalStreamReset_calm [OF f]) simp
    moreover have "quiet ((core ?e2)\<lparr>core_in_flight := False\<rparr>)" by (rule quiet_StartStream) simp
    ultimately have "quiet (core e3)" by (simp add: calm_def)
    moreover have "e' = e3 \<or> e' = Shutdown (ia_last_shutdown ans) e3"
      using sel b False f by (auto simp: select_encoder_def Let_def split: if_splits)
    ultimately show ?thesis by auto
  qed
qed

text \<open>After \<open>Initialize\<close> nothing is in transit, unless it refused its arguments.\<close>

lemma Initialize_quiet:
  assumes "Initialize ans device config e = (hr, e')"
  shows "core e' = core e \<and> \<not> config_accepted device config \<or> quiet (core e')"
proof (cases "config_accepted device config")
  case False
  with assms show ?thesis by (auto simp: Initialize_def)
next
  case True
  let ?r = "Initialize ans device config e"
  have "quiet (core (snd (select_encoder ans x)))" for x
    using select_encoder_quiet [of ans x] by (metis prod.collapse)
  then have "quiet (core (snd ?r))"
    using True by (simp add: Initialize_def Let_def case_prod_unfold)
  then show ?thesis using assms by simp
qed

lemma ResetAndRequestIdr_quiet:
  assumes "core_ok (core e)" and "ResetAndRequestIdr ans e = (hr, e')"
  shows "core e' = core e \<or> quiet (core e')"
proof -
  consider "he_transform e = None" | "he_transform e \<noteq> None" "he_asynchronous e"
    | "he_transform e \<noteq> None" "\<not> he_asynchronous e" by blast
  then show ?thesis
  proof cases
    case 2
    then have "Initialize (fr_initialize ans) (he_device e) (he_config e) (Shutdown (fr_shutdown ans) e) = (hr, e')"
      using assms by (auto simp: ResetAndRequestIdr_def)
    from Initialize_quiet [OF this] show ?thesis by auto
  next
    case 3
    then have f: "PerformFormalStreamReset (fr_formal ans) e = (hr, e')"
      using assms by (auto simp: ResetAndRequestIdr_def)
    have "core_ok ((core e)\<lparr>core_in_flight := False\<rparr>)" using assms(1) 3 by (cases "core e") (auto simp: core_ok_def core_def)
    then have "quiet ((core e)\<lparr>core_in_flight := False\<rparr>)" using 3 by (simp add: quiet_def in_transit_def)
    with PerformFormalStreamReset_calm [OF f 3(1)] show ?thesis by (simp add: calm_def)
  qed (use assms in \<open>simp add: ResetAndRequestIdr_def\<close>)
qed

lemma TakeFatalRestartRequest_core:
  "TakeFatalRestartRequest e = (b, e') \<Longrightarrow> core_ok (core e) \<Longrightarrow> pumped (core e) (core e')"
proof -
  assume t: "TakeFatalRestartRequest e = (b, e')" and ok: "core_ok (core e)"
  have "core e' = core e \<or> core e' = (core e)\<lparr>core_async := snd (TakeRestartRequest (he_async e))\<rparr>"
    using t by (auto simp: TakeFatalRestartRequest_def Let_def)
  moreover have "pumped c (c\<lparr>core_async := snd (TakeRestartRequest (core_async c))\<rparr>)" for c
    using mft_ok_take [of "core_async c"]
    by (cases c) (simp add: pumped_def in_transit_def core_ok_def TakeRestartRequest_def)
  ultimately show ?thesis by (metis core_fields(4) pumped_refl)
qed

section \<open>Runs of the encoder\<close>

datatype encoder_op =
    EncInitialize InitAnswers bool H264EncoderConfig
  | EncShutdown ShutdownAnswers
  | EncPoll PollAnswers EncodedAccessUnit
  | EncEncode EncodeAnswers u64 EncodedAccessUnit
  | EncTakeRestart
  | EncReset FullReset

definition label_if_ok :: "HRESULT \<Rightarrow> EncodedAccessUnit \<Rightarrow> u64 list" where
  "label_if_ok hr u = (if hr = S_OK then [au_sequence u] else [])"

text \<open>One operation: the sequence numbers of the frames it offers to the encoder, the labels of the access
  units it returns, and the encoder.\<close>

fun encoder_step :: "encoder_op \<Rightarrow> Encoder \<Rightarrow> u64 list \<times> u64 list \<times> Encoder" where
  "encoder_step (EncInitialize ans device config) e = ([], [], snd (Initialize ans device config e))"
| "encoder_step (EncShutdown ans) e = ([], [], Shutdown ans e)"
| "encoder_step (EncPoll ans u) e = (case Poll ans u e of (hr, u, e) \<Rightarrow> ([], label_if_ok hr u, e))"
| "encoder_step (EncEncode ans n u) e = (case Encode ans n u e of (hr, u, e) \<Rightarrow> ([n], label_if_ok hr u, e))"
| "encoder_step EncTakeRestart e = ([], [], snd (TakeFatalRestartRequest e))"
| "encoder_step (EncReset ans) e = ([], [], snd (ResetAndRequestIdr ans e))"

fun encoder_run :: "encoder_op list \<Rightarrow> Encoder \<Rightarrow> u64 list \<times> u64 list \<times> Encoder" where
  "encoder_run [] e = ([], [], e)"
| "encoder_run (x # xs) e =
     (case encoder_step x e of (i, out, e) \<Rightarrow>
      case encoder_run xs e of (is, outs, e) \<Rightarrow> (i @ is, out @ outs, e))"

text \<open>How one operation moves the labels.\<close>

lemma encoder_step_labels:
  assumes "core_ok (core e)" and "encoder_step x e = (i, out, e')"
  shows "core_ok (core e') \<and> (subseq (out @ in_transit (core e')) (in_transit (core e) @ i))"
proof (cases x)
  case (EncInitialize ans device config)
  then have r: "Initialize ans device config e = (fst (Initialize ans device config e), e')"
    and "i = []" "out = []" using assms(2) by (auto simp: prod_eq_iff)
  then show ?thesis using Initialize_quiet [OF r] assms(1) by (auto simp: quiet_def)
next
  case (EncShutdown ans)
  then show ?thesis using assms quiet_released by (auto simp: quiet_def)
next
  case (EncPoll ans u)
  then obtain hr u' where p: "Poll ans u e = (hr, u', e')" "i = []" "out = label_if_ok hr u'"
    using assms(2) by (auto split: prod.splits)
  with Poll_polled [OF assms(1) p(1)] show ?thesis by (auto simp: polled_def label_if_ok_def split: if_splits)
next
  case (EncEncode ans n u)
  then obtain hr u' where p: "Encode ans n u e = (hr, u', e')" "i = [n]" "out = label_if_ok hr u'"
    using assms(2) by (auto split: prod.splits)
  with Encode_encoded [OF assms(1) p(1)] show ?thesis
    by (auto simp: encoded_def label_if_ok_def split: if_splits)
next
  case EncTakeRestart
  then have "TakeFatalRestartRequest e = (fst (TakeFatalRestartRequest e), e')" "i = []" "out = []"
    using assms(2) by (auto simp: prod_eq_iff)
  with TakeFatalRestartRequest_core assms(1) show ?thesis by (metis append_Nil append_Nil2 pumped_def subseq_order.order_refl)
next
  case (EncReset ans)
  then have r: "ResetAndRequestIdr ans e = (fst (ResetAndRequestIdr ans e), e')"
    and "i = []" "out = []" using assms(2) by (auto simp: prod_eq_iff)
  then show ?thesis using ResetAndRequestIdr_quiet [OF assms(1) r] assms(1) by (auto simp: quiet_def)
qed

lemma encoder_run_labels:
  "core_ok (core e) \<Longrightarrow> encoder_run xs e = (is, outs, e') \<Longrightarrow>
   core_ok (core e') \<and> subseq (outs @ in_transit (core e')) (in_transit (core e) @ is)"
proof (induction xs arbitrary: e "is" outs)
  case (Cons x xs)
  obtain i out e1 where step: "encoder_step x e = (i, out, e1)" by (rule prod_cases3)
  obtain is1 outs1 where rest: "encoder_run xs e1 = (is1, outs1, e')" and eq: "is = i @ is1" "outs = out @ outs1"
    using Cons.prems(2) step by (auto split: prod.splits)
  have 1: "core_ok (core e1)" "subseq (out @ in_transit (core e1)) (in_transit (core e) @ i)"
    using encoder_step_labels [OF Cons.prems(1) step] by blast+
  then have 2: "core_ok (core e')" "subseq (outs1 @ in_transit (core e')) (in_transit (core e1) @ is1)"
    using Cons.IH rest by blast+
  have "subseq (out @ outs1 @ in_transit (core e')) (out @ in_transit (core e1) @ is1)"
    using 2(2) by (rule list_emb_append_mono [OF subseq_order.order_refl])
  also have "subseq \<dots> ((in_transit (core e) @ i) @ is1)"
    using list_emb_append_mono [OF 1(2) subseq_order.order_refl, of is1] by simp
  finally show ?case using 2(1) eq by simp
qed simp

lemma core_init: "core encoder_init = released"
  by (simp add: core_def encoder_init_def released_def initialized_def)


text \<open>A driver that answers everything well: one synchronous encoder, and one IDR picture.\<close>

definition fine_codec :: CodecAnswers where
  "fine_codec = \<lparr>co_query = 0, co_cbr = 0, co_bitrate = 0, co_b_frames = 0, co_low_latency = 0, co_legacy = 0\<rparr>"

definition fine_setup :: SetupAnswers where
  "fine_setup = \<lparr>su_types = [], su_d3d = 0, su_codec = fine_codec, su_output = 0, su_input = 0, su_info = 0,
     su_info_flags = 0, su_begin = 0, su_start = 0, su_events = []\<rparr>"

definition fine_shutdown :: ShutdownAnswers where
  "fine_shutdown = \<lparr>sd_end_of_stream = 0, sd_drain = 0, sd_events = []\<rparr>"

definition fine_candidate :: CandidateAnswer where
  "fine_candidate = \<lparr>ca_name = [65], ca_activate = 0, ca_address = 1, ca_async = False, ca_events = 0,
     ca_unlock = 0, ca_setup = fine_setup, ca_benchmark = 0, ca_latency = 900, ca_frames = 3,
     ca_left = encoder_init, ca_shutdown = fine_shutdown\<rparr>"

definition fine_init :: InitAnswers where
  "fine_init = \<lparr>ia_first_shutdown = fine_shutdown, ia_adapter = 0,
     ia_description = \<lparr>ad_text = ''GPU'', ad_luid_high = 0, ad_luid_low = 1, ad_vendor = 2\<rparr>,
     ia_startup = 0, ia_manager = 0, ia_manager_reset = 0, ia_attributes = 0, ia_blob = 0, ia_enum2 = True,
     ia_enum = 0, ia_candidates = [fine_candidate],
     ia_formal = \<lparr>rs_setup = fine_setup, rs_query = 0, rs_key_frame = 0, rs_events = []\<rparr>,
     ia_last_shutdown = fine_shutdown\<rparr>"

definition fine_output :: OutputAnswer where
  "fine_output = \<lparr>out_info = 0, out_info_flags = 0x100, out_info_size = 0, out_buffer = 0, out_sample = 0,
     out_add = 0, out_sample_address = 5, out_set_length = 0, out_result = 0, out_status = 0,
     out_returned = Some 6, out_contiguous = 0, out_lock = 0, out_bytes = [0, 0, 1, 0x65],
     out_clean_point_result = 0, out_clean_point = 1, out_now = 10\<rparr>"

definition fine_encode :: EncodeAnswers where
  "fine_encode = \<lparr>enc_frame_matches = True, enc_events = [],
     enc_input = \<lparr>in_query = 0, in_identity = 3, in_surface = 0, in_create = 0, in_add = 0, in_time = 0,
                  in_duration = 0\<rparr>,
     enc_process_input = 0,
     enc_poll = \<lparr>poll_events = [], poll_outputs = (\<lambda>_. fine_output), poll_types = []\<rparr>\<rparr>"

lemmas fine_defs = fine_codec_def fine_setup_def fine_shutdown_def fine_candidate_def fine_init_def
  fine_output_def fine_encode_def

lemmas initialize_defs = Initialize_def config_accepted_def config_for_def size_valid_def Let_def select_encoder_def
  try_encoder_def unlock_result_def new_candidate_def ConfigureTransform_def build_types_def
  ConfigureCodecApi_def restart_async_def read_stream_info_def measured_def push_diagnostics_def
  after_benchmark_def PerformFormalStreamReset_def ReconfigureSelectedTransformForStream_def Advance_def
  setup_complete_def media_types_configured_def Shutdown_def drained_def encoder_init_def
  ClearCallerOutputSample_def ClearInputSample_def ReleaseInputSampleObjects_def

definition fine_encoder :: Encoder where
  "fine_encoder = snd (Initialize fine_init True (config_for \<lparr>sizeWidth = 1920, sizeHeight = 1080\<rparr>) encoder_init)"

lemma fine_encoder_facts:
  "fst (Initialize fine_init True (config_for \<lparr>sizeWidth = 1920, sizeHeight = 1080\<rparr>) encoder_init) = S_OK"
  "he_transform fine_encoder = Some 1" "he_device fine_encoder" "\<not> he_asynchronous fine_encoder"
  "he_stream_changes fine_encoder = 0" "\<not> he_in_flight fine_encoder" "he_input_sample fine_encoder = False"
  "map cand_name (he_diagnostics fine_encoder) = [[65]]"
  by (simp_all add: fine_encoder_def initialize_defs fine_defs)

lemma fine_encode_result:
  "encoder_step (EncEncode fine_encode 7 u) fine_encoder =
     ([7], [7], snd (snd (Encode fine_encode 7 u fine_encoder)))"
  by (simp add: Encode_def fine_encoder_facts encode_sync_def fine_defs EnsureInputSample_def
      DecideH264InputSampleCacheAction_def ProcessOutput_def process_output_loop.simps take_output_def
      prepare_caller_sample_def MFT_OUTPUT_STREAM_PROVIDES_SAMPLES_def ClassifyH264EncoderOutputStatus_def
      ClassifyH264OutputSample_def H264OutputContainsSample_def ShouldRetryEmptyH264EncoderOutput_def
      consume_sample_def Let_def ClearInputSample_def ReleaseInputSampleObjects_def
      ClearCallerOutputSample_def label_if_ok_def)


section \<open>The number of calls\<close>

lemma take_output_async: "he_asynchronous e \<Longrightarrow> take_output ans types sequence retries u e = Inr e' \<Longrightarrow> False"
  using take_output_effect [of sequence e u ans types retries] retry_only_below_limit [of ans types sequence retries u e e']
  by simp (metis core_fields(2))

lemma output_loop_answers:
  assumes "\<And>i. i < 5 \<Longrightarrow> answers i = answers' i" and "unat retries \<le> 4"
  shows "process_output_loop answers types sequence retries u e = process_output_loop answers' types sequence retries u e"
  using assms
proof (induction answers types sequence retries u e rule: process_output_loop.induct)
  case (1 answers types sequence retries u e)
  have same: "answers (unat retries) = answers' (unat retries)" using "1.prems" by simp
  show ?case
  proof (cases "take_output (answers (unat retries)) types sequence retries u e")
    case (Inl r)
    with same show ?thesis by (simp add: process_output_loop.simps [of answers] process_output_loop.simps [of answers'])
  next
    case (Inr e')
    have less: "unat retries < 4"
      using retry_only_below_limit [OF Inr] by (simp add: kMaxH264EncoderEmptyOutputRetries_def word_less_nat_alt)
    then have "unat (retries + 1) \<le> 4" by (simp add: unat_word_ariths)
    from "1.IH" [OF Inr "1.prems"(1) this] Inr same show ?thesis
      by (simp add: process_output_loop.simps [of answers types sequence retries]
          process_output_loop.simps [of answers' types sequence retries])
  qed
qed

text \<open>C34: Taking an output asks the transform at most five times, and an asynchronous one exactly as often as it
  announced output, once: whatever it would answer to later calls makes no difference.\<close>

theorem output_calls_bounded:
  assumes "if he_asynchronous e then answers 0 = answers' 0 else list_all (\<lambda>i. answers i = answers' i) [0..<5]"
  shows "ProcessOutput answers types sequence u e = ProcessOutput answers' types sequence u e"
proof (cases "he_asynchronous e")
  case True
  then have same: "answers 0 = answers' 0" using assms by simp
  obtain r where "take_output (answers 0) types sequence 0 u e = Inl r"
    using take_output_async [OF True] by (cases "take_output (answers 0) types sequence 0 u e") blast+
  then show ?thesis using same
    by (simp add: ProcessOutput_def process_output_loop.simps [of answers] process_output_loop.simps [of answers'])
next
  case False
  with assms have "\<And>i. i < 5 \<Longrightarrow> answers i = answers' i" by (simp add: list_all_iff)
  then show ?thesis unfolding ProcessOutput_def by (rule output_loop_answers) simp_all
qed

lemma output_calls_bounded_witness:
  "ProcessOutput (\<lambda>i. if i < 5 then fine_output\<lparr>out_status := 0x300\<rparr> else fine_output) [] 9 empty_access_unit fine_encoder =
   ProcessOutput (\<lambda>i. fine_output\<lparr>out_status := 0x300\<rparr>) [] 9 empty_access_unit fine_encoder"
  by (rule output_calls_bounded) (simp add: fine_encoder_facts upt_rec)

end
