(* ===== verification/H264Choice.thy ===== *)
theory H264Choice
  imports H264Trace
begin

text \<open>
  The two outcomes of \<open>HardwareH264Encoder::Initialize\<close>: the transform it keeps is the preferred one among
  those it could configure and measure, or everything it acquired is released.
\<close>

section \<open>The encoder that is kept\<close>

text \<open>What the set-up of a stream leaves alone.\<close>

definition labels :: "Encoder \<Rightarrow> Candidate list \<times> u16 list \<times> bool \<times> int" where
  "labels e = (he_diagnostics e, he_name e, he_asynchronous e, he_latency e)"

lemma labels_simps [simp]:
  "labels (e\<lparr>he_stage := s\<rparr>) = labels e" "labels (e\<lparr>he_async := a\<rparr>) = labels e"
  "labels (e\<lparr>he_fatal_restart := b\<rparr>) = labels e" "labels (e\<lparr>he_last_fatal := h\<rparr>) = labels e"
  "labels (ClearCallerOutputSample e) = labels e" "labels (ClearInputSample e) = labels e"
  "labels (read_stream_info si e) = labels e" "labels (restart_async e) = labels e"
  "labels (snd (MarkAsyncFatal h e)) = labels e"
  by (simp_all add: labels_def ClearCallerOutputSample_def ClearInputSample_def ReleaseInputSampleObjects_def
      read_stream_info_def Let_def restart_async_def MarkAsyncFatal_def)

lemma labels_run_calls [simp]: "labels (snd (run_calls calls e)) = labels e"
proof (induction calls arbitrary: e)
  case (Cons c calls)
  then show ?case by (cases c) (auto simp: Let_def split: option.splits)
qed simp

lemma labels_pump_loop [simp]: "labels (snd (pump_loop answers e)) = labels e"
  by (induction answers arbitrary: e) simp_all

lemma labels_pump [simp]: "labels (snd (PumpAsyncEvents answers e)) = labels e"
  by (simp add: PumpAsyncEvents_def)

lemma labels_codec [simp]: "labels (snd (ConfigureCodecApi ans e)) = labels e"
  by (simp add: ConfigureCodecApi_def Let_def case_prod_unfold)

lemma labels_configure [simp]: "labels (snd (ConfigureTransform ans e)) = labels e"
  by (simp add: ConfigureTransform_def build_types_def case_prod_unfold del: run_calls.simps)

lemma labels_reconfigure [simp]: "labels (snd (ReconfigureSelectedTransformForStream ans e)) = labels e"
  by (simp add: ReconfigureSelectedTransformForStream_def build_types_def case_prod_unfold Advance_def
      del: run_calls.simps)

lemma labels_formal [simp]: "labels (snd (PerformFormalStreamReset ans e)) = labels e"
  by (simp add: PerformFormalStreamReset_def Let_def case_prod_unfold)

lemma diagnostics_shutdown [simp]: "he_diagnostics (ShutdownCurrentCandidate ans e) = he_diagnostics e"
proof -
  have "he_diagnostics (BeginAsyncShutdown ans x) = he_diagnostics x" for x
    using labels_pump [of "sd_events ans"] by (auto simp: BeginAsyncShutdown_def Let_def labels_def)
  then show ?thesis
    by (simp add: ShutdownCurrentCandidate_def Let_def drained_def ClearCallerOutputSample_def
        ClearInputSample_def ReleaseInputSampleObjects_def)
qed

text \<open>The candidates tried so far, and the best of them.\<close>

definition selection_ok :: "Selection \<Rightarrow> bool" where
  "selection_ok s \<longleftrightarrow> FAILED (sel_last_error s) \<and>
     (case sel_best s of
        None \<Rightarrow> list_all (\<lambda>d. \<not> eligible d) (he_diagnostics (sel_encoder s))
      | Some b \<Rightarrow> best_diagnostics b \<in> set (he_diagnostics (sel_encoder s)) \<and> eligible (best_diagnostics b) \<and>
          list_all (\<lambda>d. \<not> PreferH264EncoderCandidate d (best_diagnostics b)) (he_diagnostics (sel_encoder s)))"

lemma ineligible_not_preferred: "\<not> eligible d \<Longrightarrow> \<not> PreferH264EncoderCandidate d c"
  by (simp add: eligible_def PreferH264EncoderCandidate_def)

lemma selection_ok_rejected:
  assumes "selection_ok s" and "\<not> eligible c" and "FAILED hr"
    and "he_diagnostics e = he_diagnostics (sel_encoder s) @ [c]"
  shows "selection_ok (s\<lparr>sel_encoder := e, sel_last_error := hr\<rparr>)"
  using assms ineligible_not_preferred by (auto simp: selection_ok_def split: option.splits)

lemma selection_ok_better:
  assumes "selection_ok s" and "eligible c"
    and "case sel_best s of None \<Rightarrow> True | Some b \<Rightarrow> PreferH264EncoderCandidate c (best_diagnostics b)"
    and "he_diagnostics e = he_diagnostics (sel_encoder s) @ [c]" and "best_diagnostics b = c"
  shows "selection_ok (s\<lparr>sel_encoder := e, sel_best := Some b\<rparr>)"
  using assms ineligible_not_preferred prefer_trans prefer_irrefl
  by (auto simp: selection_ok_def list_all_iff split: option.splits)

lemma selection_ok_worse:
  assumes "selection_ok s" and "sel_best s = Some b" and "\<not> PreferH264EncoderCandidate c (best_diagnostics b)"
    and "he_diagnostics e = he_diagnostics (sel_encoder s) @ [c]"
  shows "selection_ok (s\<lparr>sel_encoder := e\<rparr>)"
  using assms by (auto simp: selection_ok_def)

lemma try_encoder_ok:
  assumes "selection_ok s"
  shows "selection_ok (try_encoder index ans s)"
proof -
  let ?c = "new_candidate index ans"
  show ?thesis
  proof (cases "FAILED (ca_activate ans) \<or> FAILED (unlock_result ans)")
    case True
    have "selection_ok (reject_candidate ?c hr s)" if "FAILED hr" for hr
      unfolding reject_candidate_def push_diagnostics_def
      by (rule selection_ok_rejected [OF assms _ that]) (simp_all add: new_candidate_def eligible_def)
    with True show ?thesis by (auto simp: try_encoder_def Let_def)
  next
    case False
    let ?e = "(sel_encoder s)\<lparr>he_transform := Some (ca_address ans), he_events := ca_async ans,
        he_asynchronous := ca_async ans, he_name := ca_name ans, he_stage := ''candidate_configure''\<rparr>"
    let ?c1 = "?c\<lparr>cand_asynchronous := ca_async ans\<rparr>"
    obtain hr e1 where conf: "ConfigureTransform (ca_setup ans) ?e = (hr, e1)" by fastforce
    then have d1: "he_diagnostics e1 = he_diagnostics (sel_encoder s)"
      using labels_configure [of "ca_setup ans" ?e] by (simp add: labels_def)
    let ?c2 = "?c1\<lparr>cand_setup_status := hr\<rparr>"
    let ?e2 = "push_diagnostics (measured ans ?c2) (after_benchmark (ca_left ans) (e1\<lparr>he_stage := ''candidate_benchmark''\<rparr>))"
    have d2: "he_diagnostics ?e2 = he_diagnostics (sel_encoder s) @ [measured ans ?c2]"
      by (simp add: push_diagnostics_def after_benchmark_def d1)
    have el: "eligible (measured ans ?c2) \<longleftrightarrow> \<not> FAILED (ca_benchmark ans)"
      by (simp add: eligible_def measured_def new_candidate_def)
    consider "FAILED hr" | "\<not> FAILED hr" "FAILED (ca_benchmark ans)"
      | "\<not> FAILED hr" "\<not> FAILED (ca_benchmark ans)"
        "case sel_best s of None \<Rightarrow> True | Some b \<Rightarrow> PreferH264EncoderCandidate (measured ans ?c2) (best_diagnostics b)"
      | b where "\<not> FAILED hr" "\<not> FAILED (ca_benchmark ans)" "sel_best s = Some b"
        "\<not> PreferH264EncoderCandidate (measured ans ?c2) (best_diagnostics b)"
      by (cases "sel_best s") auto
    then show ?thesis
    proof cases
      case 1
      have "selection_ok (s\<lparr>sel_encoder := ShutdownCurrentCandidate (ca_shutdown ans)
            (push_diagnostics (?c2\<lparr>cand_benchmark_status := hr\<rparr>) e1), sel_last_error := hr\<rparr>)"
        by (rule selection_ok_rejected [OF assms _ 1])
          (simp_all add: push_diagnostics_def d1 new_candidate_def eligible_def)
      with 1 False conf show ?thesis by (simp add: try_encoder_def Let_def)
    next
      case 2
      have "selection_ok (s\<lparr>sel_encoder := ShutdownCurrentCandidate (ca_shutdown ans) ?e2,
            sel_last_error := ca_benchmark ans\<rparr>)"
        by (rule selection_ok_rejected [OF assms _ 2(2)]) (use el 2 d2 in simp_all)
      with 2 False conf show ?thesis by (simp add: try_encoder_def Let_def)
    next
      case 3
      let ?b = "\<lparr>best_address = ca_address ans, best_events = he_events ?e2, best_diagnostics = measured ans ?c2\<rparr>"
      have "selection_ok (s\<lparr>sel_encoder := ?e2\<lparr>he_transform := None, he_events := False\<rparr>, sel_best := Some ?b\<rparr>)"
        by (rule selection_ok_better [OF assms _ 3(3)]) (use el 3 d2 in simp_all)
      with 3 False conf show ?thesis by (simp add: try_encoder_def Let_def)
    next
      case 4
      have "selection_ok (s\<lparr>sel_encoder := ShutdownCurrentCandidate (ca_shutdown ans) ?e2\<rparr>)"
        by (rule selection_ok_worse [OF assms 4(3,4)]) (use d2 in simp)
      with 4 False conf show ?thesis by (simp add: try_encoder_def Let_def)
    qed
  qed
qed

lemma try_encoders_ok: "selection_ok s \<Longrightarrow> selection_ok (try_encoders index answers s)"
  by (induction answers arbitrary: index s) (simp_all add: try_encoder_ok)

text \<open>The two outcomes of \<open>Initialize\<close>.\<close>

definition best_kept :: "Encoder \<Rightarrow> bool" where
  "best_kept e \<longleftrightarrow> list_ex (\<lambda>c. eligible c \<and> he_name e = cand_name c \<and> he_asynchronous e = cand_asynchronous c \<and>
     he_latency e = cand_latency c \<and> list_all (\<lambda>d. \<not> PreferH264EncoderCandidate d c) (he_diagnostics e))
     (he_diagnostics e)"

definition all_released :: "Encoder \<Rightarrow> bool" where
  "all_released e \<longleftrightarrow> he_transform e = None \<and> \<not> he_device e \<and> \<not> he_events e \<and> \<not> he_mf_started e \<and>
     he_caller_sample e = None \<and> \<not> he_input_sample e"

definition initialize_outcome :: "HRESULT \<times> Encoder \<Rightarrow> bool" where
  "initialize_outcome r \<longleftrightarrow> (case r of (hr, e) \<Rightarrow>
     if hr = S_OK then initialized e \<and> best_kept e else FAILED hr \<and> all_released e)"

lemma all_released_shutdown [simp]: "all_released (Shutdown ans e)"
  by (simp add: all_released_def Shutdown_def Let_def ClearCallerOutputSample_def ClearInputSample_def
      ReleaseInputSampleObjects_def)

lemma failed_outcome: "FAILED hr \<Longrightarrow> all_released e \<Longrightarrow> initialize_outcome (hr, e)"
  by (auto simp: initialize_outcome_def)

lemma enumeration_failed_outcome: "FAILED hr \<Longrightarrow> initialize_outcome (enumeration_failed ans stage how hr e)"
  by (simp add: enumeration_failed_def Let_def failed_outcome)

lemma select_encoder_outcome:
  assumes "he_diagnostics e = []"
  shows "initialize_outcome (select_encoder ans e)"
proof (cases "ia_candidates ans = []")
  case True
  then show ?thesis by (simp add: select_encoder_def Let_def enumeration_failed_outcome)
next
  case False
  let ?e1 = "e\<lparr>he_adapter_diagnostic := FormatAdapterDiagnostic (ia_description ans) ''success'' S_OK\<rparr>"
  let ?s = "try_encoders 0 (ia_candidates ans)
      \<lparr>sel_encoder = ?e1, sel_last_error = MF_E_TOPO_CODEC_NOT_FOUND, sel_best = None\<rparr>"
  have ok: "selection_ok ?s"
    by (rule try_encoders_ok) (simp add: selection_ok_def assms)
  show ?thesis
  proof (cases "sel_best ?s")
    case None
    have "FAILED (sel_last_error ?s)" using ok by (simp add: selection_ok_def)
    with None False show ?thesis by (simp add: select_encoder_def Let_def enumeration_failed_outcome)
  next
    case (Some b)
    let ?e2 = "(sel_encoder ?s)\<lparr>he_transform := Some (best_address b), he_events := best_events b,
        he_asynchronous := cand_asynchronous (best_diagnostics b), he_name := cand_name (best_diagnostics b),
        he_latency := cand_latency (best_diagnostics b), he_async := StartStream\<rparr>"
    obtain h3 e3 where f: "PerformFormalStreamReset (ia_formal ans) ?e2 = (h3, e3)" by fastforce
    then have lab: "labels e3 = labels ?e2" using labels_formal [of "ia_formal ans" ?e2] by simp
    have "calm ((core ?e2)\<lparr>core_in_flight := False\<rparr>) (core e3)"
      by (rule PerformFormalStreamReset_calm [OF f]) simp
    then have init: "initialized e3" by (simp add: calm_def initialized_def)
    have "best_kept e3"
      using lab ok Some by (auto simp: best_kept_def labels_def selection_ok_def list_ex_iff)
    then have "initialize_outcome (if FAILED h3 then (h3, Shutdown (ia_last_shutdown ans) e3) else (S_OK, e3))"
      using init by (simp add: initialize_outcome_def)
    with f Some False show ?thesis by (simp add: select_encoder_def Let_def)
  qed
qed



end
