(* ===== verification/H264Benchmark.thy ===== *)
theory H264Benchmark
  imports H264Choice "HOL-Library.Signed_Division"
begin

text \<open>
  \<open>HardwareH264Encoder::BenchmarkCurrentCandidate\<close> of \<open>video/h264_encoder.cpp\<close>: one frame to warm up and three to
  measure are put through a candidate, and the median of the three latencies is its latency. The readings of the clock
  (in ns) and the answers of the hardware are arguments; a list of answers that ends while a loop still waits is the
  result \<open>None\<close>. What a measurement does to the encoder is what \<open>Initialize\<close> takes as the answer of a candidate.
\<close>

section \<open>The measurement\<close>

definition HRESULT_TIMEOUT :: HRESULT where "HRESULT_TIMEOUT = 0x800705B4"
definition kWarmupFrames :: nat where "kWarmupFrames = 1"
definition kMeasuredFrames :: nat where "kMeasuredFrames = 3"
definition kFrameDeadline :: int where "kFrameDeadline = 250 * 10 ^ 6"

record WaitAnswer =
  wa_events :: "EventAnswer list"
  wa_now :: int

record OutputWait =
  ow_now :: int
  ow_poll :: PollAnswers

record FrameAnswers =
  fa_waiting_since :: int
  fa_waits :: "WaitAnswer list"
  fa_started :: int
  fa_encode :: EncodeAnswers
  fa_outputs :: "OutputWait list"
  fa_ended :: int

text \<open>The loop that waits until the transform accepts a frame; \<open>Inl\<close> is the return of the function.\<close>

fun accept_wait :: "int \<Rightarrow> WaitAnswer list \<Rightarrow> Encoder \<Rightarrow> ((HRESULT + unit) \<times> Encoder) option" where
  "accept_wait deadline [] e = None"
| "accept_wait deadline (a # answers) e =
     (case (if he_asynchronous e then PumpAsyncEvents (wa_events a) e else (S_OK, e)) of (hr, e) \<Rightarrow>
        if FAILED hr then Some (Inl hr, e)
        else if CanAcceptFrame e then Some (Inr (), e)
        else if wa_now a \<ge> deadline then Some (Inl HRESULT_TIMEOUT, e)
        else accept_wait deadline answers e)"

text \<open>The loop that waits for the output of a frame.\<close>

fun output_wait ::
  "u64 \<Rightarrow> int \<Rightarrow> OutputWait list \<Rightarrow> HRESULT \<Rightarrow> EncodedAccessUnit \<Rightarrow> Encoder \<Rightarrow>
   ((HRESULT + EncodedAccessUnit) \<times> Encoder) option" where
  "output_wait sequence deadline answers hr u e =
     (if hr = S_OK then Some (Inr u, e)
      else if hr = MF_E_NOTACCEPTING then Some (Inl hr, e)
      else case answers of
        [] \<Rightarrow> None
      | a # answers \<Rightarrow>
          if ow_now a \<ge> deadline then Some (Inl HRESULT_TIMEOUT, e)
          else
            case (if he_asynchronous e then Poll (ow_poll a) u (e\<lparr>he_stage := ''benchmark_poll''\<rparr>)
                  else ProcessOutput (poll_outputs (ow_poll a)) (poll_types (ow_poll a)) sequence u
                         (e\<lparr>he_stage := ''benchmark_process_output''\<rparr>)) of (hr, u, e) \<Rightarrow>
              if FAILED hr \<and> hr \<noteq> S_FALSE then Some (Inl hr, e)
              else output_wait sequence deadline answers hr u e)"

declare output_wait.simps [simp del]

text \<open>A \<open>duration_cast\<close> truncates.\<close>

definition benchmark_frame :: "nat \<Rightarrow> FrameAnswers \<Rightarrow> Encoder \<Rightarrow> ((HRESULT + int) \<times> Encoder) option" where
  "benchmark_frame frame ans e =
     (case accept_wait (fa_waiting_since ans + kFrameDeadline) (fa_waits ans) e of
        None \<Rightarrow> None
      | Some (Inl hr, e) \<Rightarrow> Some (Inl hr, e)
      | Some (Inr _, e) \<Rightarrow>
          (case Encode (fa_encode ans) (of_nat frame + 1) empty_access_unit (e\<lparr>he_stage := ''benchmark_encode''\<rparr>) of
             (hr, u, e) \<Rightarrow>
               if FAILED hr \<and> hr \<noteq> MF_E_NOTACCEPTING then Some (Inl hr, e)
               else (case output_wait (of_nat frame + 1) (fa_started ans + kFrameDeadline) (fa_outputs ans) hr u e of
                   None \<Rightarrow> None
                 | Some (Inl hr, e) \<Rightarrow> Some (Inl hr, e)
                 | Some (Inr u, e) \<Rightarrow>
                     if au_bytes u = [] then Some (Inl E_FAIL, e)
                     else Some (Inr ((fa_ended ans - fa_started ans) sdiv 1000), e))))"

fun benchmark_frames ::
  "nat \<Rightarrow> FrameAnswers list \<Rightarrow> int list \<Rightarrow> Encoder \<Rightarrow> ((HRESULT + int list) \<times> Encoder) option" where
  "benchmark_frames frame [] samples e = Some (Inr samples, e)"
| "benchmark_frames frame (ans # answers) samples e =
     (case benchmark_frame frame ans e of
        None \<Rightarrow> None
      | Some (Inl hr, e) \<Rightarrow> Some (Inl hr, e)
      | Some (Inr sample, e) \<Rightarrow>
          benchmark_frames (frame + 1) answers (if frame \<ge> kWarmupFrames then samples @ [sample] else samples) e)"

record BenchmarkAnswers =
  be_texture :: HRESULT
  be_frames :: "nat \<Rightarrow> FrameAnswers"

text \<open>The result, and the latency in us with the number of frames when they are written.\<close>

definition BenchmarkCurrentCandidate ::
  "BenchmarkAnswers \<Rightarrow> bool \<Rightarrow> Encoder \<Rightarrow> (HRESULT \<times> (int \<times> u32) option \<times> Encoder) option" where
  "BenchmarkCurrentCandidate ans device e =
     (if \<not> device \<or> he_transform e = None then Some (E_POINTER, None, e)
      else
        let e = e\<lparr>he_stage := ''benchmark_create_nv12_texture''\<rparr> in
        if FAILED (be_texture ans) then Some (be_texture ans, None, e)
        else case benchmark_frames 0 (map (be_frames ans) [0 ..< kWarmupFrames + kMeasuredFrames]) [] e of
          None \<Rightarrow> None
        | Some (Inl hr, e) \<Rightarrow> Some (hr, None, e)
        | Some (Inr samples, e) \<Rightarrow>
            if samples = [] then Some (E_FAIL, None, e)
            else Some (S_OK, Some (sort samples ! (length samples div 2), of_nat (length samples)), e))"

section \<open>What it measures\<close>

lemma codes_failed [simp]: "FAILED HRESULT_TIMEOUT" "FAILED E_FAIL" "FAILED E_POINTER" "FAILED MF_E_NOTACCEPTING"
  by (simp_all add: FAILED_def HRESULT_TIMEOUT_def) code_simp+

lemma accept_wait_failed: "accept_wait deadline answers e = Some (Inl hr, e') \<Longrightarrow> FAILED hr"
  by (induction deadline answers e rule: accept_wait.induct) (auto split: if_splits prod.splits)

lemma output_wait_failed: "output_wait sequence deadline answers hr u e = Some (Inl hr', e') \<Longrightarrow> FAILED hr'"
proof (induction answers arbitrary: hr u e)
  case Nil
  then show ?case by (subst (asm) output_wait.simps) (auto split: if_splits)
next
  case (Cons a answers)
  from Cons(2) show ?case
    by (subst (asm) output_wait.simps) (auto split: if_splits prod.splits dest: Cons(1))
qed

lemma benchmark_frame_failed: "benchmark_frame frame ans e = Some (Inl hr, e') \<Longrightarrow> FAILED hr"
  by (auto simp: benchmark_frame_def split: option.splits sum.splits prod.splits if_splits
      dest: accept_wait_failed output_wait_failed)

lemma benchmark_frames_result:
  "benchmark_frames frame answers samples e = Some (r, e') \<Longrightarrow>
   case r of Inl hr \<Rightarrow> FAILED hr
   | Inr samples' \<Rightarrow> length samples' = length samples + length (filter (\<lambda>k. kWarmupFrames \<le> k) [frame ..< frame + length answers])"
proof (induction frame answers samples e rule: benchmark_frames.induct)
  case (1 frame samples e)
  then show ?case by auto
next
  case (2 frame ans answers samples e)
  show ?case
  proof (cases "benchmark_frame frame ans e")
    case None
    with 2(2) show ?thesis by simp
  next
    case (Some q)
    obtain q1 e1 where q: "q = (q1, e1)" by fastforce
    show ?thesis
    proof (cases q1)
      case (Inl hr)
      with 2(2) Some q benchmark_frame_failed show ?thesis by auto
    next
      case (Inr sample)
      have "[frame ..< frame + length (ans # answers)] = frame # [frame + 1 ..< frame + 1 + length answers]"
        by (subst upt_conv_Cons) simp_all
      with 2 Some q Inr show ?thesis by (auto split: sum.splits)
    qed
  qed
qed

text \<open>A measurement that succeeds has measured exactly three frames, and its latency is the middle one.\<close>

lemma benchmark_success:
  assumes "BenchmarkCurrentCandidate ans device e = Some (hr, r, e')" and "SUCCEEDED hr"
  shows "hr = S_OK \<and> (\<exists>samples. length samples = 3 \<and> r = Some (sort samples ! 1, 3))"
proof -
  have ok: "\<not> FAILED hr" using assms(2) by (simp add: SUCCEEDED_def FAILED_def)
  define e0 where "e0 = e\<lparr>he_stage := ''benchmark_create_nv12_texture''\<rparr>"
  define fs where "fs = map (be_frames ans) [0 ..< kWarmupFrames + kMeasuredFrames]"
  have start: "device \<and> he_transform e \<noteq> None \<and> \<not> FAILED (be_texture ans)"
    using assms(1) ok by (auto simp: BenchmarkCurrentCandidate_def Let_def split: if_splits)
  obtain q e1 where q: "benchmark_frames 0 fs [] e0 = Some (q, e1)"
    using assms(1) start by (auto simp: BenchmarkCurrentCandidate_def e0_def fs_def split: option.splits)
  show ?thesis
  proof (cases q)
    case (Inl hr')
    from start obtain v where "he_transform e = Some v" by auto
    with Inl q start assms(1) have "hr = hr'" by (simp add: BenchmarkCurrentCandidate_def Let_def fs_def [symmetric] e0_def [symmetric])
    with benchmark_frames_result [OF q] Inl ok show ?thesis by simp
  next
    case (Inr samples)
    have "length samples = 3"
      using benchmark_frames_result [OF q] Inr
      by (simp add: fs_def kWarmupFrames_def kMeasuredFrames_def upt_rec [of 0] upt_rec [of "Suc 0"] upt_rec [of "Suc (Suc 0)"] upt_rec)
    moreover from this have "samples \<noteq> []" by auto
    ultimately have "hr = S_OK \<and> r = Some (sort samples ! 1, 3)"
      using q Inr start assms(1)
      by (cases "he_transform e"; auto simp: BenchmarkCurrentCandidate_def Let_def fs_def [symmetric] e0_def [symmetric])
    with \<open>length samples = 3\<close> show ?thesis by blast
  qed
qed

text \<open>Once the clock is past the deadline both loops have returned.\<close>

lemma accept_wait_returns:
  "a \<in> set answers \<Longrightarrow> deadline \<le> wa_now a \<Longrightarrow> accept_wait deadline answers e \<noteq> None"
  by (induction deadline answers e rule: accept_wait.induct) (auto split: prod.split)

lemma output_wait_returns:
  "a \<in> set answers \<Longrightarrow> deadline \<le> ow_now a \<Longrightarrow> output_wait sequence deadline answers hr u e \<noteq> None"
proof (induction answers arbitrary: hr u e)
  case (Cons a' answers)
  obtain hr1 u1 e1 where step: "(if he_asynchronous e then Poll (ow_poll a') u (e\<lparr>he_stage := ''benchmark_poll''\<rparr>)
      else ProcessOutput (poll_outputs (ow_poll a')) (poll_types (ow_poll a')) sequence u
             (e\<lparr>he_stage := ''benchmark_process_output''\<rparr>)) = (hr1, u1, e1)"
    by (metis prod.exhaust)
  show ?case using Cons.IH [of hr1 u1 e1] Cons.prems by (subst output_wait.simps) (auto simp: step)
qed simp

section \<open>What it leaves\<close>

text \<open>The fields that no operation on frames touches.\<close>

definition setting :: "Encoder \<Rightarrow> bool \<times> nat option \<times> bool \<times> bool \<times> bool \<times> H264EncoderConfig \<times> u16 list \<times> bool \<times> bool \<times>
    Candidate list \<times> int \<times> string" where
  "setting e = (he_device e, he_transform e, he_events e, he_sample_reuse e, he_texture_reuse e, he_config e, he_name e,
     he_asynchronous e, he_mf_started e, he_diagnostics e, he_latency e, he_adapter_diagnostic e)"

lemma setting_updates [simp]:
  "setting (e\<lparr>he_input_sample := a\<rparr>) = setting e" "setting (e\<lparr>he_input_identity := b\<rparr>) = setting e"
  "setting (e\<lparr>he_in_flight := c\<rparr>) = setting e" "setting (e\<lparr>he_caller_sample := d\<rparr>) = setting e"
  "setting (e\<lparr>he_caller_capacity := f\<rparr>) = setting e" "setting (e\<lparr>he_async := g\<rparr>) = setting e"
  "setting (e\<lparr>he_fatal_restart := h\<rparr>) = setting e" "setting (e\<lparr>he_stream_changes := i\<rparr>) = setting e"
  "setting (e\<lparr>he_renegotiated := j\<rparr>) = setting e" "setting (e\<lparr>he_last_fatal := k\<rparr>) = setting e"
  "setting (e\<lparr>he_stage := l\<rparr>) = setting e"
  by (simp_all add: setting_def)

lemma same_setting: "setting e' = setting e \<Longrightarrow> after_benchmark e' e = e'"
  by (cases e, cases e') (simp add: setting_def after_benchmark_def)

lemma setting_helpers [simp]:
  "setting (ReleaseInputSampleObjects e) = setting e" "setting (ClearInputSample e) = setting e"
  "setting (ClearCallerOutputSample e) = setting e"
  by (simp_all add: ReleaseInputSampleObjects_def ClearInputSample_def ClearCallerOutputSample_def)

lemma setting_fatal: "MarkAsyncFatal hr e = (hr', e') \<Longrightarrow> setting e' = setting e"
  by (auto simp: MarkAsyncFatal_def)

lemma setting_after_calls [simp]: "setting (snd (run_calls calls e)) = setting e"
  by (induction calls e rule: run_calls.induct) (simp_all add: Let_def split: option.split)

lemma setting_run_calls: "run_calls calls e = (hr, e') \<Longrightarrow> setting e' = setting e"
  using setting_after_calls [of calls e] by simp

lemma setting_pump: "PumpAsyncEvents answers e = (hr, e') \<Longrightarrow> setting e' = setting e"
proof -
  have "pump_loop answers e = (hr, e') \<Longrightarrow> setting e' = setting e" for e
    by (induction answers e rule: pump_loop.induct) (auto split: if_splits dest: setting_fatal)
  then show "PumpAsyncEvents answers e = (hr, e') \<Longrightarrow> setting e' = setting e"
    by (auto simp: PumpAsyncEvents_def split: if_splits dest: setting_fatal)
qed

lemma setting_input: "EnsureInputSample ans e = (hr, e') \<Longrightarrow> setting e' = setting e"
  by (auto simp: EnsureInputSample_def Let_def split: if_splits prod.splits H264InputSampleCacheAction.splits
      dest!: setting_run_calls)

lemma setting_caller: "prepare_caller_sample ans e = (hr, c, e') \<Longrightarrow> setting e' = setting e"
  by (auto simp: prepare_caller_sample_def EnsureCallerOutputSample_def Let_def split: if_splits prod.splits
      dest!: setting_run_calls)

lemma setting_renegotiate: "RenegotiateOutputType answers e = (hr, e') \<Longrightarrow> setting e' = setting e"
proof -
  have "setting (snd (renegotiate_loop answers last_error e)) = setting e" for last_error e
    by (induction answers arbitrary: last_error e) (simp_all add: Let_def case_prod_unfold)
  then show "RenegotiateOutputType answers e = (hr, e') \<Longrightarrow> setting e' = setting e"
    by (metis RenegotiateOutputType_def prod.sel(2))
qed

lemma setting_take_output:
  "(case take_output ans types sequence retries u e of Inl (hr, u', e') \<Rightarrow> setting e' | Inr e' \<Rightarrow> setting e') = setting e"
proof -
  obtain hr c e1 where prep: "prepare_caller_sample ans (e\<lparr>he_stage := ''get_output_stream_info''\<rparr>) = (hr, c, e1)"
    by (metis prod_cases3)
  then have e1: "setting e1 = setting e" using setting_caller by fastforce
  show ?thesis
  proof (cases "FAILED (out_info ans) \<or> FAILED hr")
    case True
    with prep e1 show ?thesis by (auto simp: take_output_def Let_def)
  next
    case False
    show ?thesis
    proof (cases "ClassifyH264EncoderOutputStatus (out_result ans) (out_status ans) (he_stream_changes e1)")
      case kConsumeOutput
      with prep False e1 show ?thesis by (auto simp: take_output_def consume_sample_def Let_def)
    next
      case kRenegotiateOutput
      let ?e2 = "ClearCallerOutputSample (e1\<lparr>he_stage := output_stage e1\<rparr>)"
      obtain hr' e3 where m: "MarkAsyncFatal (out_result ans) ?e2 = (hr', e3)" by fastforce
      obtain hr'' e4 where r: "RenegotiateOutputType types ?e2 = (hr'', e4)" by fastforce
      have "setting e3 = setting e" "setting e4 = setting e" using setting_fatal [OF m] setting_renegotiate [OF r] e1 by simp_all
      with prep False m r kRenegotiateOutput show ?thesis by (simp add: take_output_def Let_def)
    qed (use prep False e1 in \<open>simp_all add: take_output_def Let_def\<close>)
  qed
qed

lemma setting_process_output: "ProcessOutput answers types sequence u e = (hr, u', e') \<Longrightarrow> setting e' = setting e"
proof -
  have "process_output_loop answers types sequence retries u e = (hr, u', e') \<Longrightarrow> setting e' = setting e" for retries u e
  proof (induction answers types sequence retries u e rule: process_output_loop.induct)
    case (1 answers types sequence retries u e)
    from 1(2) setting_take_output [of "answers (unat retries)" types sequence retries u e] show ?case
      by (subst (asm) process_output_loop.simps) (auto split: sum.splits dest: 1(1))
  qed
  then show "ProcessOutput answers types sequence u e = (hr, u', e') \<Longrightarrow> setting e' = setting e"
    by (simp add: ProcessOutput_def)
qed

lemma setting_poll: "Poll ans u e = (hr, u', e') \<Longrightarrow> setting e' = setting e"
  by (auto simp: Poll_def ProcessAsyncOutput_def Let_def split: if_splits prod.splits option.splits
      dest!: setting_pump setting_process_output setting_fatal)

lemma setting_encode: "Encode ans sequence u e = (hr, u', e') \<Longrightarrow> setting e' = setting e"
  by (auto simp: Encode_def encode_async_def encode_sync_def Let_def split: if_splits prod.splits option.splits
      dest!: setting_pump setting_input setting_process_output setting_fatal setting_poll)

lemma setting_accept_wait: "accept_wait deadline answers e = Some (r, e') \<Longrightarrow> setting e' = setting e"
  by (induction deadline answers e rule: accept_wait.induct) (auto split: if_splits prod.splits dest!: setting_pump)

lemma setting_output_wait: "output_wait sequence deadline answers hr u e = Some (r, e') \<Longrightarrow> setting e' = setting e"
proof (induction answers arbitrary: hr u e)
  case Nil
  then show ?case by (subst (asm) output_wait.simps) (auto split: if_splits)
next
  case (Cons a answers)
  from Cons(2) show ?case
    by (subst (asm) output_wait.simps)
      (auto split: if_splits prod.splits dest!: setting_poll setting_process_output dest: Cons(1))
qed

lemma setting_benchmark_frame: "benchmark_frame frame ans e = Some (r, e') \<Longrightarrow> setting e' = setting e"
  by (auto simp: benchmark_frame_def split: option.splits sum.splits prod.splits if_splits
      dest!: setting_accept_wait setting_encode setting_output_wait)

lemma setting_benchmark_frames: "benchmark_frames frame answers samples e = Some (r, e') \<Longrightarrow> setting e' = setting e"
  by (induction frame answers samples e rule: benchmark_frames.induct)
    (auto split: option.splits sum.splits prod.splits dest!: setting_benchmark_frame)

text \<open>The encoder \<open>Initialize\<close> goes on with after a measurement is the one the measurement leaves: taking it for an
  answer of the candidate loses nothing.\<close>

lemma benchmark_is_answer:
  assumes "BenchmarkCurrentCandidate ans device e = Some (hr, r, e')"
  shows "after_benchmark e' e = e'"
proof (rule same_setting)
  show "setting e' = setting e"
    using assms by (auto simp: BenchmarkCurrentCandidate_def Let_def split: if_splits option.splits sum.splits
        dest!: setting_benchmark_frames)
qed

end
