(* ===== verification/Monitors.thy ===== *)
theory Monitors
  imports H264Policy
begin

text \<open>
  \<open>video/monitor_enumerator.h\<close> and \<open>.cpp\<close>: the stable name of a monitor, its text in the configuration file,
  and the search for it among the outputs of the adapters. What the display configuration and DXGI answer
  is an argument: one list element a path, an adapter or an output, after the last of which the call
  reports that there are no more. Wide characters are \<open>u16\<close> words.
\<close>

section \<open>The name of a monitor\<close>

record Luid =
  luid_low :: u32
  luid_high :: i32

record MonitorId =
  adapter_luid :: Luid
  target_id :: u32

definition widen :: "string \<Rightarrow> u16 list" where
  "widen s = map (\<lambda>c. of_nat (of_char c)) s"

definition MonitorIdToString :: "MonitorId \<Rightarrow> u16 list" where
  "MonitorIdToString i =
     widen (to_string (sint (luid_high (adapter_luid i))) @ '':'' @
            decimal (unat (luid_low (adapter_luid i))) @ '':'' @ decimal (unat (target_id i)))"

text \<open>\<open>std::wcstol\<close> and \<open>std::wcstoul\<close> in base ten, where \<open>long\<close> has 32 bits, in the C locale: \<open>None\<close> when
  nothing is converted, otherwise the value, which saturates, and the text after it.\<close>

definition wide_space :: "u16 \<Rightarrow> bool" where
  "wide_space w \<longleftrightarrow> 9 \<le> w \<and> w \<le> 13 \<or> w = 32"

definition wide_digit :: "u16 \<Rightarrow> bool" where
  "wide_digit w \<longleftrightarrow> 48 \<le> w \<and> w \<le> 57"

definition wide_value :: "u16 list \<Rightarrow> nat" where
  "wide_value ws = foldl (\<lambda>v w. v * 10 + (unat w - 48)) 0 ws"

definition wide_number :: "u16 list \<Rightarrow> (bool \<times> nat \<times> u16 list) option" where
  "wide_number text =
     (let s = dropWhile wide_space text;
          negative = (s \<noteq> [] \<and> hd s = 45);
          s = (if s \<noteq> [] \<and> (hd s = 45 \<or> hd s = 43) then tl s else s);
          digits = takeWhile wide_digit s
      in if digits = [] then None else Some (negative, wide_value digits, dropWhile wide_digit s))"

definition wcstol :: "u16 list \<Rightarrow> (int \<times> u16 list) option" where
  "wcstol text = (case wide_number text of
     None \<Rightarrow> None
   | Some (negative, v, rest) \<Rightarrow>
       Some (if negative then max (- int v) (- (2 ^ 31)) else min (int v) (2 ^ 31 - 1), rest))"

definition wcstoul :: "u16 list \<Rightarrow> (nat \<times> u16 list) option" where
  "wcstoul text = (case wide_number text of
     None \<Rightarrow> None
   | Some (negative, v, rest) \<Rightarrow>
       Some (if v \<ge> 2 ^ 32 then 2 ^ 32 - 1 else if negative then (2 ^ 32 - v) mod 2 ^ 32 else v, rest))"

definition MonitorIdTryParse :: "u16 list \<Rightarrow> MonitorId option" where
  "MonitorIdTryParse value =
     (case wcstol value of
        Some (high, c # cursor) \<Rightarrow> if c \<noteq> 58 then None else
          (case wcstoul cursor of
             Some (low, d # cursor) \<Rightarrow> if d \<noteq> 58 then None else
               (case wcstoul cursor of
                  Some (target, _) \<Rightarrow>
                    Some \<lparr>adapter_luid = \<lparr>luid_low = of_nat low, luid_high = of_int high\<rparr>, target_id = of_nat target\<rparr>
                | None \<Rightarrow> None)
           | _ \<Rightarrow> None)
      | _ \<Rightarrow> None)"

lemma unat_wide_char [simp]: "unat (of_nat (of_char c) :: u16) = of_char c"
proof -
  have "(of_char c :: nat) < 65536" using of_char_less_256 [of c] by (rule less_trans) simp
  then show ?thesis by (simp add: unat_of_nat)
qed

lemma wide_digit_char [simp]: "wide_digit (of_nat (of_char c)) = is_digit c"
  by (simp add: wide_digit_def is_digit_def word_le_nat_alt)

lemma widen_digits: "list_all is_digit s \<Longrightarrow> list_all wide_digit (widen s)"
  by (induction s) (simp_all add: widen_def)

lemma wide_value_widen: "wide_value (widen s) = decimal_value s"
proof -
  have "foldl (\<lambda>v w. v * 10 + (unat w - 48)) n (widen s) = foldl (\<lambda>v c. v * 10 + digit_value c) n s" for n
  proof (induction s arbitrary: n)
    case (Cons c s)
    then show ?case by (simp add: widen_def digit_value_def)
  qed (simp add: widen_def)
  then show ?thesis by (simp add: wide_value_def decimal_value_def)
qed

definition no_digit_first :: "u16 list \<Rightarrow> bool" where
  "no_digit_first r \<longleftrightarrow> r = [] \<or> \<not> wide_digit (hd r)"

lemma digits_then:
  assumes "list_all wide_digit ds" and "no_digit_first r"
  shows "takeWhile wide_digit (ds @ r) = ds" "dropWhile wide_digit (ds @ r) = r"
  using assms by (induction ds) (auto simp: no_digit_first_def neq_Nil_conv takeWhile_eq_Nil_iff, cases r, auto)

lemma wide_number_decimal:
  assumes "no_digit_first r"
  shows "wide_number (widen (decimal n) @ r) = Some (False, n, r)"
    and "wide_number (widen (''-'' @ decimal n) @ r) = Some (True, n, r)"
proof -
  have ds: "list_all wide_digit (widen (decimal n))" by (simp add: widen_digits)
  obtain d ds where w: "widen (decimal n) = d # ds"
    using decimal_not_Nil [of n] by (cases "widen (decimal n)") (simp_all add: widen_def)
  with ds have "wide_digit d" by simp
  then have d: "\<not> wide_space d" "d \<noteq> 45" "d \<noteq> 43"
    by (auto simp: wide_digit_def wide_space_def word_le_nat_alt)
  have minus: "widen (''-'' @ decimal n) = 45 # widen (decimal n)" "\<not> wide_space 45"
    by (simp_all add: widen_def wide_space_def)
  note tw = digits_then [OF ds assms]
  show "wide_number (widen (decimal n) @ r) = Some (False, n, r)"
    using tw d w wide_value_widen [of "decimal n"] by (simp add: wide_number_def Let_def)
  show "wide_number (widen (''-'' @ decimal n) @ r) = Some (True, n, r)"
    unfolding minus(1) using tw w wide_value_widen [of "decimal n"] minus(2)
    by (simp add: wide_number_def Let_def)
qed


text \<open>A monitor stored in the configuration is the one read back: the text of every monitor name parses to
  that name, whatever the signs and sizes of its parts.\<close>

lemma monitor_id_parses: "MonitorIdTryParse (MonitorIdToString i) = Some i"
proof -
  let ?lo = "luid_low (adapter_luid i)" and ?t = "target_id i"
  let ?r2 = "widen (decimal (unat ?t))"
  let ?r1 = "widen (decimal (unat ?lo)) @ 58 # ?r2"
  have colon: "no_digit_first (58 # r)" "no_digit_first []" for r
    by (simp_all add: no_digit_first_def wide_digit_def)
  have shape: "MonitorIdToString i = widen (to_string (sint (luid_high (adapter_luid i)))) @ 58 # ?r1"
    by (simp add: MonitorIdToString_def widen_def)
  have range: "- (2 ^ 31) \<le> sint (luid_high (adapter_luid i))" "sint (luid_high (adapter_luid i)) \<le> 2 ^ 31 - 1"
    using sint_greater_eq [of "luid_high (adapter_luid i)"] sint_less [of "luid_high (adapter_luid i)"] by simp_all
  have high: "wcstol (MonitorIdToString i) = Some (sint (luid_high (adapter_luid i)), 58 # ?r1)"
  proof (cases "sint (luid_high (adapter_luid i)) < 0")
    case True
    then show ?thesis using range wide_number_decimal(2) [OF colon(1) [of ?r1], of "nat (- sint (luid_high (adapter_luid i)))"]
      by (simp add: wcstol_def shape to_string_def)
  next
    case False
    then show ?thesis using range wide_number_decimal(1) [OF colon(1) [of ?r1], of "nat (sint (luid_high (adapter_luid i)))"]
      by (simp add: wcstol_def shape to_string_def)
  qed
  have small: "\<not> 2 ^ 32 \<le> unat (v :: u32)" for v using unsigned_less [of v, where 'a = nat] by simp
  have low: "wcstoul ?r1 = Some (unat ?lo, 58 # ?r2)"
    using wide_number_decimal(1) [OF colon(1) [of ?r2], of "unat ?lo"] small [of ?lo] by (simp add: wcstoul_def)
  have target: "wcstoul ?r2 = Some (unat ?t, [])"
    using wide_number_decimal(1) [OF colon(2), of "unat ?t"] small [of ?t] by (simp add: wcstoul_def)
  show ?thesis by (simp add: MonitorIdTryParse_def high low target)
qed

section \<open>The monitors\<close>

definition DXGI_ERROR_NOT_FOUND :: HRESULT where "DXGI_ERROR_NOT_FOUND = 0x887A0002"
definition E_WIN32_NOT_FOUND :: HRESULT where "E_WIN32_NOT_FOUND = 0x80070490"

definition HRESULT_FROM_WIN32 :: "i32 \<Rightarrow> HRESULT" where
  "HRESULT_FROM_WIN32 x = (if sint x \<le> 0 then x else or (and x 0xFFFF) 0x80070000)"

record DisplayTarget =
  dt_luid :: Luid
  dt_target_id :: u32
  dt_gdi_name :: "u16 list"

text \<open>\<open>path_name\<close> is the array of 32 characters; a name that fills it has no terminator.\<close>

record PathAnswer =
  path_status :: i32
  path_luid :: Luid
  path_target :: u32
  path_name :: "u16 list"

record TargetsAnswer =
  tg_sizes :: i32
  tg_query :: i32
  tg_paths :: "PathAnswer list"

definition gdi_name_of :: "u16 list \<Rightarrow> u16 list" where
  "gdi_name_of characters = takeWhile (\<lambda>w. w \<noteq> 0) (take 31 characters)"

definition ActiveDisplayTargets :: "TargetsAnswer \<Rightarrow> HRESULT \<times> DisplayTarget list" where
  "ActiveDisplayTargets ans =
     (if tg_sizes ans \<noteq> 0 then (HRESULT_FROM_WIN32 (tg_sizes ans), [])
      else if tg_query ans \<noteq> 0 then (HRESULT_FROM_WIN32 (tg_query ans), [])
      else (S_OK, map (\<lambda>p. \<lparr>dt_luid = path_luid p, dt_target_id = path_target p,
                             dt_gdi_name = gdi_name_of (path_name p)\<rparr>)
                    (filter (\<lambda>p. path_status p = 0) (tg_paths ans))))"

record Rect =
  rect_left :: i32
  rect_top :: i32
  rect_right :: i32
  rect_bottom :: i32

record MonitorInfo =
  mon_id :: MonitorId
  mon_device_name :: "u16 list"
  mon_rect :: Rect
  mon_attached :: bool

record DxgiOutputAnswer =
  oa_enum :: HRESULT
  oa_desc :: HRESULT
  oa_name :: "u16 list"
  oa_rect :: Rect
  oa_attached :: bool

record AdapterAnswer =
  aa_enum :: HRESULT
  aa_desc :: HRESULT
  aa_luid :: Luid
  aa_outputs :: "DxgiOutputAnswer list"

fun enumerate_outputs ::
  "DisplayTarget list \<Rightarrow> Luid \<Rightarrow> DxgiOutputAnswer list \<Rightarrow> MonitorInfo list \<Rightarrow> HRESULT \<times> MonitorInfo list" where
  "enumerate_outputs targets luid [] monitors = (S_OK, monitors)"
| "enumerate_outputs targets luid (a # answers) monitors =
     (if oa_enum a = DXGI_ERROR_NOT_FOUND then (S_OK, monitors)
      else if FAILED (oa_enum a) then (oa_enum a, monitors)
      else if FAILED (oa_desc a) then (oa_desc a, monitors)
      else case List.find (\<lambda>t. dt_luid t = luid \<and> dt_gdi_name t = oa_name a) targets of
        None \<Rightarrow> enumerate_outputs targets luid answers monitors
      | Some target \<Rightarrow>
          enumerate_outputs targets luid answers
            (monitors @ [\<lparr>mon_id = \<lparr>adapter_luid = luid, target_id = dt_target_id target\<rparr>,
                          mon_device_name = oa_name a, mon_rect = oa_rect a, mon_attached = oa_attached a\<rparr>]))"

fun enumerate_adapters ::
  "DisplayTarget list \<Rightarrow> AdapterAnswer list \<Rightarrow> MonitorInfo list \<Rightarrow> HRESULT \<times> MonitorInfo list" where
  "enumerate_adapters targets [] monitors = (S_OK, monitors)"
| "enumerate_adapters targets (a # answers) monitors =
     (if aa_enum a = DXGI_ERROR_NOT_FOUND then (S_OK, monitors)
      else if FAILED (aa_enum a) then (aa_enum a, monitors)
      else if FAILED (aa_desc a) then enumerate_adapters targets answers monitors
      else case enumerate_outputs targets (aa_luid a) (aa_outputs a) monitors of (hr, monitors) \<Rightarrow>
        if FAILED hr then (hr, monitors) else enumerate_adapters targets answers monitors)"

record EnumerateAnswers =
  en_factory :: HRESULT
  en_targets :: TargetsAnswer
  en_adapters :: "AdapterAnswer list"

definition EnumerateMonitors :: "EnumerateAnswers \<Rightarrow> HRESULT \<times> MonitorInfo list" where
  "EnumerateMonitors ans =
     (if FAILED (en_factory ans) then (en_factory ans, [])
      else case ActiveDisplayTargets (en_targets ans) of (hr, targets) \<Rightarrow>
        if FAILED hr then (hr, []) else enumerate_adapters targets (en_adapters ans) [])"

text \<open>\<open>None\<close> when the pointer it was given is not written.\<close>

definition FindMonitor :: "EnumerateAnswers \<Rightarrow> MonitorId \<Rightarrow> HRESULT \<times> MonitorInfo option" where
  "FindMonitor ans i =
     (case EnumerateMonitors ans of (hr, monitors) \<Rightarrow>
        if FAILED hr then (hr, None)
        else case List.find (\<lambda>candidate. mon_id candidate = i) monitors of
          Some candidate \<Rightarrow> (S_OK, Some candidate)
        | None \<Rightarrow> (E_WIN32_NOT_FOUND, None))"

lemma not_found_failed [simp]: "FAILED E_WIN32_NOT_FOUND" "FAILED DXGI_ERROR_NOT_FOUND"
  by (simp_all add: FAILED_def E_WIN32_NOT_FOUND_def DXGI_ERROR_NOT_FOUND_def)

lemma FindMonitor_result:
  "(case FindMonitor ans i of (hr, found) \<Rightarrow> (case found of None \<Rightarrow> FAILED hr | Some m \<Rightarrow> hr = S_OK \<and> mon_id m = i))"
  by (auto simp: FindMonitor_def find_Some_iff split: option.splits prod.splits)

text \<open>Every monitor listed has an active target of its adapter and name.\<close>

definition selectable :: "DisplayTarget list \<Rightarrow> MonitorInfo \<Rightarrow> bool" where
  "selectable targets m \<longleftrightarrow>
     list_ex (\<lambda>t. dt_luid t = adapter_luid (mon_id m) \<and> dt_target_id t = target_id (mon_id m) \<and>
                  dt_gdi_name t = mon_device_name m) targets"

lemma found_selectable:
  assumes "List.find (\<lambda>t. dt_luid t = luid \<and> dt_gdi_name t = name) targets = Some t"
  shows "selectable targets \<lparr>mon_id = \<lparr>adapter_luid = luid, target_id = dt_target_id t\<rparr>,
    mon_device_name = name, mon_rect = r, mon_attached = b\<rparr>"
  using assms by (auto simp: find_Some_iff selectable_def list_ex_iff)

lemma enumerate_outputs_selectable:
  "list_all (selectable targets) monitors \<Longrightarrow>
   list_all (selectable targets) (snd (enumerate_outputs targets luid answers monitors))"
proof (induction answers arbitrary: monitors)
  case (Cons a answers)
  then show ?case by (simp add: found_selectable split: option.split)
qed simp

lemma enumerate_adapters_selectable:
  "list_all (selectable targets) monitors \<Longrightarrow>
   list_all (selectable targets) (snd (enumerate_adapters targets answers monitors))"
proof (induction answers arbitrary: monitors)
  case (Cons a answers)
  then show ?case
    using enumerate_outputs_selectable [OF Cons.prems, of "aa_luid a" "aa_outputs a"]
    by (auto split: prod.splits)
qed simp

end
