(* ===== verification/Capture.thy ===== *)
theory Capture
  imports Monitors
begin

text \<open>
  \<open>video/desktop_duplication_capture.h\<close>/\<open>.cpp\<close> and \<open>video/d3d11_nv12_converter.h\<close>/\<open>.cpp\<close>: duplication of a
  monitor with its private copy of each frame, recovery when the duplication is lost, and the conversion of
  a copy to NV12 with its caches. Direct3D's answers are arguments; a device is known by its address, a
  texture by its address, its device and its description. The fields \<open>context_\<close> and \<open>video_context_\<close>, which
  are set and released together with their devices, are not kept apart from them. The build has no
  \<open>_DEBUG\<close>. Pointers to results are not null, as the only caller passes them.
\<close>

section \<open>Textures\<close>

record TextureDesc =
  td_width :: u32
  td_height :: u32
  td_mip_levels :: u32
  td_array_size :: u32
  td_format :: u32
  td_sample_count :: u32
  td_sample_quality :: u32
  td_usage :: u32
  td_bind_flags :: u32
  td_cpu_access :: u32
  td_misc_flags :: u32

record Texture =
  tex_address :: nat
  tex_device :: nat
  tex_desc :: TextureDesc

definition no_desc :: TextureDesc where
  "no_desc = \<lparr>td_width = 0, td_height = 0, td_mip_levels = 0, td_array_size = 0, td_format = 0,
     td_sample_count = 0, td_sample_quality = 0, td_usage = 0, td_bind_flags = 0, td_cpu_access = 0,
     td_misc_flags = 0\<rparr>"

definition D3D11_BIND_SHADER_RESOURCE :: u32 where "D3D11_BIND_SHADER_RESOURCE = 0x8"
definition D3D11_BIND_RENDER_TARGET :: u32 where "D3D11_BIND_RENDER_TARGET = 0x20"
definition D3D11_USAGE_DEFAULT :: u32 where "D3D11_USAGE_DEFAULT = 0"

definition NormalizePrivateCopyTextureDesc :: "TextureDesc \<Rightarrow> TextureDesc" where
  "NormalizePrivateCopyTextureDesc source_desc =
     source_desc\<lparr>td_bind_flags := or D3D11_BIND_RENDER_TARGET D3D11_BIND_SHADER_RESOURCE, td_cpu_access := 0,
                 td_usage := D3D11_USAGE_DEFAULT, td_misc_flags := 0, td_sample_count := 1, td_sample_quality := 0\<rparr>"

definition ShouldReusePrivateCopyTexture :: "TextureDesc \<Rightarrow> TextureDesc \<Rightarrow> bool" where
  "ShouldReusePrivateCopyTexture cached source_desc \<longleftrightarrow>
     (let normalized = NormalizePrivateCopyTextureDesc source_desc in
      td_width cached = td_width normalized \<and> td_height cached = td_height normalized \<and>
      td_mip_levels cached = td_mip_levels normalized \<and> td_array_size cached = td_array_size normalized \<and>
      td_format cached = td_format normalized \<and> td_sample_count cached = td_sample_count normalized \<and>
      td_sample_quality cached = td_sample_quality normalized \<and> td_usage cached = td_usage normalized \<and>
      td_bind_flags cached = td_bind_flags normalized \<and> td_cpu_access cached = td_cpu_access normalized \<and>
      td_misc_flags cached = td_misc_flags normalized)"

lemma reuse_iff_same_desc: "ShouldReusePrivateCopyTexture c s \<longleftrightarrow> c = NormalizePrivateCopyTextureDesc s"
proof
  assume "ShouldReusePrivateCopyTexture c s"
  then show "c = NormalizePrivateCopyTextureDesc s"
    by (intro TextureDesc.equality) (simp_all add: ShouldReusePrivateCopyTexture_def Let_def)
qed (simp add: ShouldReusePrivateCopyTexture_def Let_def)

section \<open>\<open>DesktopDuplicationCapture\<close>\<close>

datatype CaptureResult = kFrameAvailable | kTimeout | kRecovered | kFatalError

record CapturedFrame =
  cf_texture :: Texture
  cf_size :: Size
  cf_sequence :: u64
  cf_acquired_at :: int

record Capture =
  dc_monitor :: MonitorInfo
  dc_device :: "nat option"
  dc_output :: bool
  dc_duplication :: bool
  dc_texture :: "Texture option"
  dc_desc :: TextureDesc
  dc_desc_valid :: bool
  dc_size :: Size
  dc_sequence :: u64

definition no_monitor :: MonitorInfo where
  "no_monitor = \<lparr>mon_id = \<lparr>adapter_luid = \<lparr>luid_low = 0, luid_high = 0\<rparr>, target_id = 0\<rparr>, mon_device_name = [],
     mon_rect = \<lparr>rect_left = 0, rect_top = 0, rect_right = 0, rect_bottom = 0\<rparr>, mon_attached = False\<rparr>"

definition capture_init :: Capture where
  "capture_init = \<lparr>dc_monitor = no_monitor, dc_device = None, dc_output = False, dc_duplication = False,
     dc_texture = None, dc_desc = no_desc, dc_desc_valid = False, dc_size = no_size, dc_sequence = 0\<rparr>"

definition DXGI_ERROR_UNSUPPORTED :: HRESULT where "DXGI_ERROR_UNSUPPORTED = 0x887A0004"
definition DXGI_ERROR_DEVICE_REMOVED :: HRESULT where "DXGI_ERROR_DEVICE_REMOVED = 0x887A0005"
definition DXGI_ERROR_DEVICE_RESET :: HRESULT where "DXGI_ERROR_DEVICE_RESET = 0x887A0007"
definition DXGI_ERROR_ACCESS_LOST :: HRESULT where "DXGI_ERROR_ACCESS_LOST = 0x887A0026"
definition DXGI_ERROR_WAIT_TIMEOUT :: HRESULT where "DXGI_ERROR_WAIT_TIMEOUT = 0x887A0027"
definition DXGI_ERROR_SESSION_DISCONNECTED :: HRESULT where "DXGI_ERROR_SESSION_DISCONNECTED = 0x887A0028"

lemmas dxgi_errors = DXGI_ERROR_UNSUPPORTED_def DXGI_ERROR_DEVICE_REMOVED_def DXGI_ERROR_DEVICE_RESET_def
  DXGI_ERROR_ACCESS_LOST_def DXGI_ERROR_WAIT_TIMEOUT_def DXGI_ERROR_SESSION_DISCONNECTED_def

lemma dxgi_failed [simp]:
  "FAILED DXGI_ERROR_UNSUPPORTED" "FAILED DXGI_ERROR_DEVICE_REMOVED" "FAILED DXGI_ERROR_DEVICE_RESET"
  "FAILED DXGI_ERROR_ACCESS_LOST" "FAILED DXGI_ERROR_WAIT_TIMEOUT" "FAILED DXGI_ERROR_SESSION_DISCONNECTED"
  by (simp_all add: FAILED_def dxgi_errors)

text \<open>The results of enumerating: a failure, or the element that matched.\<close>

record LuidAnswer =
  la_enum :: HRESULT
  la_desc :: HRESULT
  la_luid :: Luid

fun find_adapter :: "Luid \<Rightarrow> LuidAnswer list \<Rightarrow> HRESULT" where
  "find_adapter luid [] = E_WIN32_NOT_FOUND"
| "find_adapter luid (a # answers) =
     (if la_enum a = DXGI_ERROR_NOT_FOUND then E_WIN32_NOT_FOUND
      else if FAILED (la_enum a) then la_enum a
      else if FAILED (la_desc a) then find_adapter luid answers
      else if la_luid a = luid then S_OK else find_adapter luid answers)"

record NameAnswer =
  na_enum :: HRESULT
  na_desc :: HRESULT
  na_name :: "u16 list"

fun find_output :: "u16 list \<Rightarrow> NameAnswer list \<Rightarrow> HRESULT" where
  "find_output name [] = E_WIN32_NOT_FOUND"
| "find_output name (a # answers) =
     (if na_enum a = DXGI_ERROR_NOT_FOUND then E_WIN32_NOT_FOUND
      else if FAILED (na_enum a) then na_enum a
      else if FAILED (na_desc a) then find_output name answers
      else if na_name a = name then S_OK else find_output name answers)"

record OpenAnswers =
  op_factory :: HRESULT
  op_adapters :: "LuidAnswer list"
  op_create_device :: HRESULT
  op_device :: nat
  op_multithread :: HRESULT
  op_outputs :: "NameAnswer list"
  op_output :: HRESULT
  op_duplicate :: HRESULT

definition OpenLocked :: "OpenAnswers \<Rightarrow> MonitorInfo \<Rightarrow> Capture \<Rightarrow> HRESULT \<times> Capture" where
  "OpenLocked ans monitor c =
     (if \<not> mon_attached monitor then (DXGI_ERROR_UNSUPPORTED, c)
      else
        let c = c\<lparr>dc_monitor := monitor\<rparr>; found = find_adapter (adapter_luid (mon_id monitor)) (op_adapters ans) in
        if FAILED (op_factory ans) then (op_factory ans, c)
        else if FAILED found then (found, c)
        else if FAILED (op_create_device ans) then (op_create_device ans, c\<lparr>dc_device := None\<rparr>)
        else if FAILED (op_multithread ans) then (op_multithread ans, c\<lparr>dc_device := None\<rparr>)
        else
          let c = c\<lparr>dc_device := Some (op_device ans)\<rparr>;
              output = find_output (mon_device_name monitor) (op_outputs ans)
          in if FAILED output then (output, c)
             else if FAILED (op_output ans) then (op_output ans, c\<lparr>dc_output := False\<rparr>)
             else
               let c = c\<lparr>dc_output := True\<rparr> in
               if FAILED (op_duplicate ans) then (op_duplicate ans, c\<lparr>dc_duplication := False\<rparr>)
               else (S_OK, c\<lparr>dc_duplication := True\<rparr>))"

text \<open>What \<open>Open\<close>, \<open>Close\<close> and \<open>RecoverLocked\<close> release.\<close>

definition release_capture :: "Capture \<Rightarrow> Capture" where
  "release_capture c = c\<lparr>dc_duplication := False, dc_output := False, dc_texture := None, dc_desc := no_desc,
     dc_desc_valid := False, dc_device := None, dc_size := no_size\<rparr>"

definition Open :: "OpenAnswers \<Rightarrow> MonitorInfo \<Rightarrow> Capture \<Rightarrow> HRESULT \<times> Capture" where
  "Open ans monitor c = OpenLocked ans monitor ((release_capture c)\<lparr>dc_sequence := 0\<rparr>)"

definition Close :: "Capture \<Rightarrow> Capture" where
  "Close c = (release_capture c)\<lparr>dc_sequence := 0\<rparr>"

record RecoverAnswers =
  rc_find :: EnumerateAnswers
  rc_open :: OpenAnswers

definition RecoverLocked :: "RecoverAnswers \<Rightarrow> Capture \<Rightarrow> HRESULT \<times> Capture" where
  "RecoverLocked ans c =
     (case FindMonitor (rc_find ans) (mon_id (dc_monitor c)) of
        (hr, None) \<Rightarrow> (hr, c)
      | (hr, Some current) \<Rightarrow> OpenLocked (rc_open ans) current (release_capture c))"

text \<open>A duplication that is open has its device: \<open>capture_ok\<close> below.\<close>

definition CreateCopyTextureLocked ::
  "HRESULT \<Rightarrow> nat \<Rightarrow> TextureDesc \<Rightarrow> Capture \<Rightarrow> (HRESULT \<times> Texture option) \<times> Capture" where
  "CreateCopyTextureLocked create address source_desc c =
     (let desc = NormalizePrivateCopyTextureDesc source_desc;
          rebuild = (dc_texture c = None \<or> \<not> dc_desc_valid c \<or> \<not> ShouldReusePrivateCopyTexture (dc_desc c) source_desc)
      in if rebuild \<and> FAILED create then ((create, None), c)
         else
           let c = (if rebuild then c\<lparr>dc_texture := Some \<lparr>tex_address = address, tex_device = the (dc_device c), tex_desc = desc\<rparr>,
                                      dc_desc := desc, dc_desc_valid := True\<rparr> else c)
           in ((S_OK, dc_texture c), c\<lparr>dc_size := \<lparr>sizeWidth = td_width desc, sizeHeight = td_height desc\<rparr>\<rparr>))"

record AcquireAnswers =
  aq_acquire :: HRESULT
  aq_recover :: RecoverAnswers
  aq_query :: HRESULT
  aq_desc :: TextureDesc
  aq_create :: HRESULT
  aq_address :: nat
  aq_now :: int
  aq_release :: HRESULT

text \<open>The result, \<open>*failure\<close>, and the frame when it is written.\<close>

definition copy_frame :: "AcquireAnswers \<Rightarrow> Capture \<Rightarrow> HRESULT \<times> CapturedFrame option \<times> Capture" where
  "copy_frame ans c =
     (if FAILED (aq_query ans) then (aq_query ans, None, c)
      else case CreateCopyTextureLocked (aq_create ans) (aq_address ans) (aq_desc ans) c of ((hr, copied), c) \<Rightarrow>
        if FAILED hr then (hr, None, c)
        else
          let c = c\<lparr>dc_sequence := dc_sequence c + 1\<rparr>
          in (hr, Some \<lparr>cf_texture = the copied, cf_size = dc_size c, cf_sequence = dc_sequence c,
                        cf_acquired_at = aq_now ans\<rparr>, c))"

definition AcquireLatest ::
  "AcquireAnswers \<Rightarrow> Capture \<Rightarrow> (CaptureResult \<times> HRESULT) \<times> CapturedFrame option \<times> Capture" where
  "AcquireLatest ans c =
     (if \<not> dc_duplication c then ((kFatalError, E_HANDLE), None, c)
      else
        let hr = aq_acquire ans in
        if hr = DXGI_ERROR_WAIT_TIMEOUT then ((kTimeout, S_OK), None, c)
        else if hr = DXGI_ERROR_ACCESS_LOST \<or> hr = DXGI_ERROR_SESSION_DISCONNECTED \<or>
                hr = DXGI_ERROR_DEVICE_REMOVED \<or> hr = DXGI_ERROR_DEVICE_RESET then
          (case RecoverLocked (aq_recover ans) c of (recover_hr, c) \<Rightarrow>
             (if FAILED recover_hr then (kFatalError, recover_hr) else (kRecovered, hr), None, c))
        else if FAILED hr then ((kFatalError, hr), None, c)
        else case copy_frame ans c of (hr, frame, c) \<Rightarrow>
          if FAILED hr then ((kFatalError, hr), frame, c)
          else if FAILED (aq_release ans) then ((kFatalError, aq_release ans), frame, c)
          else ((kFrameAvailable, S_OK), frame, c))"

text \<open>An open duplication has a device, and the private copy belongs to it.\<close>

definition capture_ok :: "Capture \<Rightarrow> bool" where
  "capture_ok c \<longleftrightarrow> (\<not> dc_duplication c \<or> dc_device c \<noteq> None) \<and>
     (case dc_texture c of None \<Rightarrow> True
      | Some t \<Rightarrow> dc_device c = Some (tex_device t) \<and> tex_desc t = dc_desc c)"

lemma capture_ok_init [simp]: "capture_ok capture_init"
  by (simp add: capture_ok_def capture_init_def)

lemma OpenLocked_ok:
  assumes "\<not> dc_duplication c" and "dc_texture c = None"
  shows "capture_ok (snd (OpenLocked ans monitor c))"
    and "dc_sequence (snd (OpenLocked ans monitor c)) = dc_sequence c"
    and "dc_texture (snd (OpenLocked ans monitor c)) = None"
    and "\<not> FAILED (fst (OpenLocked ans monitor c)) \<Longrightarrow>
           dc_device (snd (OpenLocked ans monitor c)) = Some (op_device ans)"
  using assms by (simp_all add: OpenLocked_def Let_def capture_ok_def split: if_splits)

lemma release_closed [simp]:
  "\<not> dc_duplication (release_capture c)" "dc_texture (release_capture c) = None"
  "dc_device (release_capture c) = None" "dc_sequence (release_capture c) = dc_sequence c"
  by (simp_all add: release_capture_def)

lemma Open_ok: "capture_ok (snd (Open ans monitor c))"
  by (simp add: Open_def OpenLocked_ok)

lemma Close_ok: "capture_ok (Close c)"
  by (simp add: Close_def capture_ok_def)

lemma RecoverLocked_ok:
  assumes "capture_ok c"
  shows "capture_ok (snd (RecoverLocked ans c))" and "dc_sequence (snd (RecoverLocked ans c)) = dc_sequence c"
  using assms by (auto simp: RecoverLocked_def OpenLocked_ok split: prod.splits option.splits)

lemma CreateCopy_ok:
  assumes "capture_ok c" and "dc_duplication c"
    and "CreateCopyTextureLocked create address d c = ((hr, t), c')"
  shows "capture_ok c'" "dc_sequence c' = dc_sequence c" "dc_device c' = dc_device c"
    "FAILED hr \<longleftrightarrow> t = None" "t \<noteq> None \<longrightarrow> hr = S_OK \<and> dc_device c = Some (tex_device (the t)) \<and>
       tex_desc (the t) = NormalizePrivateCopyTextureDesc d"
  using assms
  by (auto simp: CreateCopyTextureLocked_def Let_def capture_ok_def reuse_iff_same_desc split: if_splits option.splits)

lemma copy_frame_ok:
  assumes "capture_ok c" and "dc_duplication c" and "copy_frame ans c = (hr, frame, c')"
  shows "capture_ok c'" "dc_device c' = dc_device c" "FAILED hr \<longleftrightarrow> frame = None" "FAILED hr \<or> hr = S_OK"
    "case frame of None \<Rightarrow> dc_sequence c' = dc_sequence c
     | Some f \<Rightarrow> dc_sequence c' = dc_sequence c + 1 \<and> cf_sequence f = dc_sequence c' \<and>
         dc_device c = Some (tex_device (cf_texture f))"
proof -
  obtain h t c1 where copy: "CreateCopyTextureLocked (aq_create ans) (aq_address ans) (aq_desc ans) c = ((h, t), c1)"
    by (metis prod.exhaust)
  note facts = CreateCopy_ok [OF assms(1,2) copy]
  have seq: "capture_ok (c1\<lparr>dc_sequence := n\<rparr>)" for n using facts(1) by (simp add: capture_ok_def split: option.splits)
  show "capture_ok c'" "dc_device c' = dc_device c" "FAILED hr \<longleftrightarrow> frame = None" "FAILED hr \<or> hr = S_OK"
    "case frame of None \<Rightarrow> dc_sequence c' = dc_sequence c
     | Some f \<Rightarrow> dc_sequence c' = dc_sequence c + 1 \<and> cf_sequence f = dc_sequence c' \<and>
         dc_device c = Some (tex_device (cf_texture f))"
    using assms facts seq by (auto simp: copy_frame_def copy Let_def split: if_splits)
qed

definition acquired :: "Capture \<Rightarrow> CaptureResult \<Rightarrow> HRESULT \<Rightarrow> CapturedFrame option \<Rightarrow> Capture \<Rightarrow> bool" where
  "acquired c r failure frame c' \<longleftrightarrow> capture_ok c' \<and>
     (case frame of None \<Rightarrow> dc_sequence c' = dc_sequence c \<and> r \<noteq> kFrameAvailable
      | Some f \<Rightarrow> dc_sequence c' = dc_sequence c + 1 \<and> cf_sequence f = dc_sequence c' \<and>
          dc_device c' = Some (tex_device (cf_texture f)) \<and> dc_device c' = dc_device c \<and>
          (r = kFrameAvailable \<or> r = kFatalError)) \<and>
     (r = kFatalError \<longrightarrow> FAILED failure)"

lemma AcquireLatest_acquired:
  assumes ok: "capture_ok c" and acq: "AcquireLatest ans c = ((r, failure), frame, c')"
  shows "acquired c r failure frame c'"
proof (cases "dc_duplication c \<and> \<not> FAILED (aq_acquire ans)")
  case True
  then have going: "aq_acquire ans \<noteq> DXGI_ERROR_WAIT_TIMEOUT" "aq_acquire ans \<noteq> DXGI_ERROR_ACCESS_LOST"
    "aq_acquire ans \<noteq> DXGI_ERROR_SESSION_DISCONNECTED" "aq_acquire ans \<noteq> DXGI_ERROR_DEVICE_REMOVED"
    "aq_acquire ans \<noteq> DXGI_ERROR_DEVICE_RESET" by auto
  obtain hr f c1 where copy: "copy_frame ans c = (hr, f, c1)" by (metis prod_cases3)
  note facts = copy_frame_ok [OF ok _ copy]
  have "(r, failure) = (if FAILED hr then (kFatalError, hr)
      else if FAILED (aq_release ans) then (kFatalError, aq_release ans) else (kFrameAvailable, S_OK)) \<and>
    frame = f \<and> c' = c1"
    using acq True going by (auto simp: AcquireLatest_def copy Let_def split: if_splits)
  with True facts show ?thesis by (auto simp: acquired_def split: option.splits if_splits)
next
  case False
  obtain h c1 where rec: "RecoverLocked (aq_recover ans) c = (h, c1)" by fastforce
  have "capture_ok c1" "dc_sequence c1 = dc_sequence c"
    using RecoverLocked_ok [OF ok, of "aq_recover ans"] rec by simp_all
  with False acq ok show ?thesis by (auto simp: AcquireLatest_def acquired_def rec Let_def split: if_splits)
qed

section \<open>\<open>D3D11Nv12Converter\<close>\<close>

record Converter =
  nc_device :: "nat option"
  nc_video_device :: bool
  nc_enumerator :: bool
  nc_processor :: bool
  nc_input_size :: Size
  nc_input_format :: u32
  nc_output_size :: Size
  nc_cached_texture :: "Texture option"
  nc_cached_device :: "nat option"
  nc_cached_key :: "Size \<times> u32"
  nc_stage :: string

definition DXGI_FORMAT_UNKNOWN :: u32 where "DXGI_FORMAT_UNKNOWN = 0"
definition DXGI_FORMAT_B8G8R8A8_UNORM :: u32 where "DXGI_FORMAT_B8G8R8A8_UNORM = 87"
definition DXGI_FORMAT_B8G8R8A8_UNORM_SRGB :: u32 where "DXGI_FORMAT_B8G8R8A8_UNORM_SRGB = 91"
definition DXGI_FORMAT_NV12 :: u32 where "DXGI_FORMAT_NV12 = 103"
definition FORMAT_SUPPORT_INPUT :: u32 where "FORMAT_SUPPORT_INPUT = 1"
definition FORMAT_SUPPORT_OUTPUT :: u32 where "FORMAT_SUPPORT_OUTPUT = 2"

definition ResetConverter :: "Converter \<Rightarrow> Converter" where
  "ResetConverter n = n\<lparr>nc_cached_texture := None, nc_cached_device := None,
     nc_cached_key := (no_size, DXGI_FORMAT_UNKNOWN), nc_processor := False, nc_enumerator := False,
     nc_video_device := False, nc_device := None, nc_input_size := no_size,
     nc_input_format := DXGI_FORMAT_UNKNOWN, nc_output_size := no_size\<rparr>"

definition converter_init :: Converter where
  "converter_init = \<lparr>nc_device = None, nc_video_device = False, nc_enumerator = False, nc_processor = False,
     nc_input_size = no_size, nc_input_format = DXGI_FORMAT_UNKNOWN, nc_output_size = no_size,
     nc_cached_texture = None, nc_cached_device = None, nc_cached_key = (no_size, DXGI_FORMAT_UNKNOWN),
     nc_stage = ''none''\<rparr>"

text \<open>The results of the two \<open>QueryInterface\<close> calls.\<close>

definition InitializeConverter :: "HRESULT \<Rightarrow> HRESULT \<Rightarrow> nat option \<Rightarrow> Converter \<Rightarrow> HRESULT \<times> Converter" where
  "InitializeConverter video_device video_context device n =
     (let n = n\<lparr>nc_stage := ''initialize''\<rparr> in
      case device of
        None \<Rightarrow> (E_POINTER, n)
      | Some d \<Rightarrow>
          let n = (ResetConverter n)\<lparr>nc_device := Some d\<rparr> in
          if FAILED video_device then (video_device, ResetConverter n)
          else if FAILED video_context then (video_context, ResetConverter n)
          else (S_OK, n\<lparr>nc_video_device := True\<rparr>))"

record ConvertAnswers =
  cv_enumerator :: HRESULT
  cv_input_check :: HRESULT
  cv_input_support :: u32
  cv_output_check :: HRESULT
  cv_output_support :: u32
  cv_processor :: HRESULT
  cv_texture :: HRESULT
  cv_texture_address :: nat
  cv_input_view :: HRESULT
  cv_output_view :: HRESULT
  cv_blt :: HRESULT

definition Configure :: "ConvertAnswers \<Rightarrow> Size \<Rightarrow> u32 \<Rightarrow> Size \<Rightarrow> Converter \<Rightarrow> HRESULT \<times> Converter" where
  "Configure ans input_size input_format output_size n =
     (let n = n\<lparr>nc_stage := ''configure_arguments''\<rparr> in
      if \<not> size_valid input_size \<or> \<not> size_valid output_size \<or> and (sizeWidth output_size) 1 \<noteq> 0 \<or>
         and (sizeHeight output_size) 1 \<noteq> 0 then (E_INVALIDARG, n)
      else if nc_enumerator n \<and> input_size = nc_input_size n \<and> input_format = nc_input_format n \<and>
              output_size = nc_output_size n then (S_OK, n)
      else
        let n = n\<lparr>nc_processor := False, nc_enumerator := False, nc_stage := ''create_processor_enumerator''\<rparr> in
        if FAILED (cv_enumerator ans) then (cv_enumerator ans, n)
        else
          let n = n\<lparr>nc_enumerator := True, nc_stage := ''check_input_format''\<rparr> in
          if FAILED (cv_input_check ans) then (cv_input_check ans, n)
          else if and (cv_input_support ans) FORMAT_SUPPORT_INPUT = 0 then (kErrFrameFormatUnsupported, n)
          else
            let n = n\<lparr>nc_stage := ''check_output_format''\<rparr> in
            if FAILED (cv_output_check ans) then (cv_output_check ans, n)
            else if and (cv_output_support ans) FORMAT_SUPPORT_OUTPUT = 0 then (kErrFrameFormatUnsupported, n)
            else
              let n = n\<lparr>nc_stage := ''create_processor''\<rparr> in
              if FAILED (cv_processor ans) then (cv_processor ans, n)
              else (S_OK, n\<lparr>nc_processor := True, nc_input_size := input_size, nc_input_format := input_format,
                            nc_output_size := output_size\<rparr>))"

definition ShouldReuseNv12OutputTexture :: "bool \<Rightarrow> Size \<times> u32 \<Rightarrow> Size \<times> u32 \<Rightarrow> bool \<Rightarrow> bool" where
  "ShouldReuseNv12OutputTexture allow cached requested same_device \<longleftrightarrow>
     allow \<and> same_device \<and> cached = requested"

text \<open>The fields of the NV12 texture that is asked for.\<close>

definition nv12_desc :: "Size \<Rightarrow> TextureDesc" where
  "nv12_desc output_size = no_desc\<lparr>td_width := sizeWidth output_size, td_height := sizeHeight output_size,
     td_mip_levels := 1, td_array_size := 1, td_format := DXGI_FORMAT_NV12, td_sample_count := 1,
     td_usage := D3D11_USAGE_DEFAULT, td_bind_flags := or D3D11_BIND_RENDER_TARGET D3D11_BIND_SHADER_RESOURCE\<rparr>"

definition ConvertFrame ::
  "ConvertAnswers \<Rightarrow> Texture \<Rightarrow> Size \<Rightarrow> bool \<Rightarrow> Converter \<Rightarrow> HRESULT \<times> Texture option \<times> Converter" where
  "ConvertFrame ans source output_size allow_reuse n =
     (let n = n\<lparr>nc_stage := ''convert_arguments''\<rparr> in
      if nc_device n = None \<or> \<not> nc_video_device n then (E_POINTER, None, n)
      else if td_format (tex_desc source) \<noteq> DXGI_FORMAT_B8G8R8A8_UNORM \<and>
              td_format (tex_desc source) \<noteq> DXGI_FORMAT_B8G8R8A8_UNORM_SRGB
      then (kErrFrameFormatUnsupported, None, n)
      else case Configure ans \<lparr>sizeWidth = td_width (tex_desc source), sizeHeight = td_height (tex_desc source)\<rparr>
                  (td_format (tex_desc source)) output_size (n\<lparr>nc_stage := ''configure''\<rparr>) of (hr, n) \<Rightarrow>
        if FAILED hr then (hr, None, n)
        else
          let requested = (output_size, DXGI_FORMAT_NV12);
              reuse = ShouldReuseNv12OutputTexture allow_reuse (nc_cached_key n) requested
                        (nc_cached_device n = nc_device n);
              n = (if reuse then n else n\<lparr>nc_stage := ''create_nv12_texture''\<rparr>);
              nv12 = (if reuse then nc_cached_texture n
                      else Some \<lparr>tex_address = cv_texture_address ans, tex_device = the (nc_device n),
                                 tex_desc = nv12_desc output_size\<rparr>)
          in if \<not> reuse \<and> FAILED (cv_texture ans) then (cv_texture ans, None, n)
          else
            let n = n\<lparr>nc_stage := ''create_input_view''\<rparr> in
            if FAILED (cv_input_view ans) then (cv_input_view ans, None, n)
            else
              let n = n\<lparr>nc_stage := ''create_output_view''\<rparr> in
              if FAILED (cv_output_view ans) then (cv_output_view ans, None, n)
              else
                let n = n\<lparr>nc_stage := ''video_processor_blt''\<rparr> in
                if FAILED (cv_blt ans) then (cv_blt ans, None, n)
                else (S_OK, nv12,
                      if allow_reuse then n\<lparr>nc_cached_texture := nv12, nc_cached_device := nc_device n,
                                            nc_cached_key := requested\<rparr> else n))"

text \<open>A cached texture is of its key's description and of its device.\<close>

definition converter_ok :: "Converter \<Rightarrow> bool" where
  "converter_ok n \<longleftrightarrow> (case nc_cached_texture n of
      None \<Rightarrow> nc_cached_device n = None
    | Some t \<Rightarrow> nc_cached_device n = Some (tex_device t) \<and> tex_desc t = nv12_desc (fst (nc_cached_key n)))"

lemma converter_ok_reset [simp]: "converter_ok (ResetConverter n)" "converter_ok converter_init"
  by (simp_all add: converter_ok_def ResetConverter_def converter_init_def)

lemma converter_ok_initialize: "converter_ok n \<Longrightarrow> converter_ok (snd (InitializeConverter a b d n))"
  by (simp add: InitializeConverter_def Let_def converter_ok_def ResetConverter_def split: option.splits)

lemma Configure_cache:
  "Configure ans i f p n = (hr, n') \<Longrightarrow>
   nc_cached_texture n' = nc_cached_texture n \<and> nc_cached_device n' = nc_cached_device n \<and>
   nc_cached_key n' = nc_cached_key n \<and> nc_device n' = nc_device n \<and> nc_video_device n' = nc_video_device n \<and>
   (hr = S_OK \<or> FAILED hr)"
  by (auto simp: Configure_def Let_def split: if_splits)

text \<open>What a conversion gives: the texture has the size that was asked for, on the converter's device.\<close>

lemma ConvertFrame_ok:
  assumes ok: "converter_ok n" and conv: "ConvertFrame ans src p allow n = (hr, nv12, n')"
  shows "converter_ok n'" "nc_device n' = nc_device n" "FAILED hr \<longleftrightarrow> nv12 = None"
    "case nv12 of None \<Rightarrow> True | Some t \<Rightarrow> tex_desc t = nv12_desc p \<and> nc_device n = Some (tex_device t)"
proof -
  let ?n = "n\<lparr>nc_stage := ''configure''\<rparr>"
  let ?size = "\<lparr>sizeWidth = td_width (tex_desc src), sizeHeight = td_height (tex_desc src)\<rparr>"
  obtain h n1 where conf: "Configure ans ?size (td_format (tex_desc src)) p ?n = (h, n1)" by fastforce
  note same = Configure_cache [OF conf]
  have cached: "converter_ok n1" using same ok by (simp add: converter_ok_def split: option.splits)
  show "converter_ok n'" "nc_device n' = nc_device n" "FAILED hr \<longleftrightarrow> nv12 = None"
    "case nv12 of None \<Rightarrow> True | Some t \<Rightarrow> tex_desc t = nv12_desc p \<and> nc_device n = Some (tex_device t)"
    using conv same cached ok conf
    by (auto simp: ConvertFrame_def Let_def converter_ok_def ShouldReuseNv12OutputTexture_def
        split: if_splits option.splits)
qed

end
