(* ===== verification/VideoPipeline.thy ===== *)
theory VideoPipeline
  imports H264Trace Capture
begin

text \<open>
  \<open>video/video_pipeline.h\<close> and \<open>video/video_pipeline.cpp\<close>: capture, the one-slot queue of raw frames,
  conversion, the hardware encoder, the timing of the frame in flight, the resolution policy and transport
  backpressure, composed as \<open>VideoPipeline\<close> composes them. The answers of the hardware and the readings of
  the clock during one call are its argument; \<open>vp_calls\<close> records what the telemetry sink was told. The
  presentation time handed to the encoder only reaches Media Foundation and is left out.
\<close>

section \<open>Decisions of the video loop\<close>

datatype VideoLoopAfterEncodeAction = kSendOutput | kCapture | kLoopFail

definition DecideVideoLoopAfterInitialEncode :: "HRESULT \<Rightarrow> VideoLoopAfterEncodeAction" where
  "DecideVideoLoopAfterInitialEncode encode_result =
     (if encode_result = S_OK then kSendOutput else if encode_result = S_FALSE then kCapture else kLoopFail)"

definition ShouldEncodeAfterCapture :: "HRESULT \<Rightarrow> bool" where
  "ShouldEncodeAfterCapture capture_result \<longleftrightarrow> capture_result = S_OK"

definition ShouldAttemptDesktopCapture :: "bool \<Rightarrow> bool" where
  "ShouldAttemptDesktopCapture has_pending_encode \<longleftrightarrow> \<not> has_pending_encode"

definition HasInFlightEncodeState :: "bool \<Rightarrow> bool \<Rightarrow> bool" where
  "HasInFlightEncodeState encoder_pending telemetry_pending \<longleftrightarrow> encoder_pending \<or> telemetry_pending"

definition ShouldYieldAfterPendingEncodeNoProgress :: "HRESULT \<Rightarrow> HRESULT \<Rightarrow> bool \<Rightarrow> bool" where
  "ShouldYieldAfterPendingEncodeNoProgress initial_encode_result capture_result skipped \<longleftrightarrow>
     initial_encode_result = S_FALSE \<and> capture_result = S_FALSE \<and> skipped"

section \<open>The state\<close>

record ResolutionPolicyTelemetry =
  rpt_timestamp :: int
  rpt_native_size :: Size
  rpt_encode_size :: Size
  rpt_max_longest_edge :: u32
  rpt_queue_age :: int
  rpt_encode_duration :: int
  rpt_capture_to_encode :: int
  rpt_breaches :: u32
  rpt_stable_duration :: int
  rpt_transport_blocked :: bool
  rpt_budget_breached :: bool
  rpt_action :: ResolutionPolicyAction
  rpt_stream_reset :: bool

datatype SinkCall = OnCapture CaptureTelemetry | OnEncode EncodeTelemetry | OnStreamResetRequested
  | OnEncoderSelected "u16 list" bool | OnResolutionPolicy ResolutionPolicyTelemetry

record Pipeline =
  vp_capture :: Capture
  vp_converter :: Converter
  vp_encoder :: Encoder
  vp_frames :: "CapturedFrame LatestFrameQueue"
  vp_backpressure :: Backpressure
  vp_policy :: AdaptiveResolutionController
  vp_encode_size :: Size
  vp_policy_reset_pending :: bool
  vp_pending :: PendingState
  vp_telemetry :: bool
  vp_stage :: string
  vp_calls :: "SinkCall list"

definition pipeline_init :: Pipeline where
  "pipeline_init = \<lparr>vp_capture = capture_init, vp_converter = converter_init, vp_encoder = encoder_init,
     vp_frames = queue_init, vp_backpressure = backpressure_init, vp_policy = controller_init,
     vp_encode_size = no_size, vp_policy_reset_pending = False, vp_pending = None, vp_telemetry = False,
     vp_stage = ''none'', vp_calls = []\<rparr>"

definition notify :: "SinkCall \<Rightarrow> Pipeline \<Rightarrow> Pipeline" where
  "notify call p = (if vp_telemetry p then p\<lparr>vp_calls := vp_calls p @ [call]\<rparr> else p)"

definition HasInFlightEncode :: "Pipeline \<Rightarrow> bool" where
  "HasInFlightEncode p \<longleftrightarrow> HasInFlightEncodeState (encoder_has_pending (vp_encoder p)) (vp_pending p \<noteq> None)"

section \<open>Starting and stopping\<close>

definition Stop :: "ShutdownAnswers \<Rightarrow> Pipeline \<Rightarrow> Pipeline" where
  "Stop ans p = p\<lparr>vp_pending := None, vp_encoder := Shutdown ans (vp_encoder p),
     vp_converter := ResetConverter (vp_converter p), vp_capture := Close (vp_capture p),
     vp_frames := snd (TryPop (vp_frames p)), vp_encode_size := no_size,
     vp_policy := policy_start 3200 (vp_policy p), vp_policy_reset_pending := False,
     vp_telemetry := False, vp_stage := ''none''\<rparr>"

record StartAnswers =
  st_shutdown :: ShutdownAnswers
  st_open :: OpenAnswers
  st_rejected :: ShutdownAnswers

definition Start :: "StartAnswers \<Rightarrow> MonitorInfo \<Rightarrow> u32 \<Rightarrow> bool \<Rightarrow> Pipeline \<Rightarrow> HRESULT \<times> Pipeline" where
  "Start ans monitor max_longest_edge telemetry p =
     (let p = (Stop (st_shutdown ans) p)\<lparr>vp_stage := ''capture_open'', vp_telemetry := telemetry\<rparr> in
      case Open (st_open ans) monitor (vp_capture p) of (hr, c) \<Rightarrow>
        let p = p\<lparr>vp_capture := c\<rparr> in
        if FAILED hr then (hr, p)
        else if max_longest_edge \<noteq> 3200 \<and> max_longest_edge \<noteq> 2560 \<and> max_longest_edge \<noteq> 1920
        then (E_INVALIDARG, Stop (st_rejected ans) p)
        else (S_OK, p\<lparr>vp_policy := policy_start max_longest_edge (vp_policy p),
                      vp_policy_reset_pending := False, vp_stage := ''none''\<rparr>))"

section \<open>The resolution policy and the encoder's reset\<close>

definition ResetEncoder :: "FullReset \<Rightarrow> bool \<Rightarrow> Pipeline \<Rightarrow> HRESULT \<times> Pipeline" where
  "ResetEncoder ans notify_telemetry p =
     (let p = p\<lparr>vp_pending := None, vp_stage := ''encoder_reset''\<rparr> in
      case ResetAndRequestIdr ans (vp_encoder p) of (hr, e) \<Rightarrow>
        let p = p\<lparr>vp_encoder := e\<rparr> in
        (hr, if SUCCEEDED hr \<and> notify_telemetry then notify OnStreamResetRequested p else p))"

definition policy_telemetry ::
  "ResolutionPolicyObservation \<Rightarrow> ResolutionPolicyDecision \<Rightarrow> Pipeline \<Rightarrow> ResolutionPolicyTelemetry" where
  "policy_telemetry ob d p =
     \<lparr>rpt_timestamp = obs_timestamp ob, rpt_native_size = native_size (vp_policy p),
      rpt_encode_size = dec_encode_size d, rpt_max_longest_edge = dec_max_longest_edge d,
      rpt_queue_age = obs_queue_age ob, rpt_encode_duration = obs_encode_duration ob,
      rpt_capture_to_encode = obs_capture_to_encode ob, rpt_breaches = dec_breaches d,
      rpt_stable_duration = dec_stable_duration d, rpt_transport_blocked = obs_transport_blocked ob,
      rpt_budget_breached = dec_budget_breached d, rpt_action = dec_action d,
      rpt_stream_reset = dec_stream_reset d\<rparr>"

definition ReportPolicy ::
  "ResolutionPolicyObservation \<Rightarrow> ResolutionPolicyDecision \<Rightarrow> Pipeline \<Rightarrow> Pipeline" where
  "ReportPolicy ob d p =
     (let p = notify (OnResolutionPolicy (policy_telemetry ob d p)) p in
      if dec_stream_reset d then notify OnStreamResetRequested (p\<lparr>vp_policy_reset_pending := True\<rparr>) else p)"

definition ObservePolicy :: "ResolutionPolicyObservation \<Rightarrow> Pipeline \<Rightarrow> ResolutionPolicyDecision \<times> Pipeline" where
  "ObservePolicy ob p =
     (case Observe ob (vp_policy p) of (d, c) \<Rightarrow> (d, ReportPolicy ob d (p\<lparr>vp_policy := c\<rparr>)))"

text \<open>\<open>completed_at\<close> and \<open>observed_at\<close> are the two readings of the clock.\<close>

definition CompleteEncodedFrame ::
  "int \<Rightarrow> int \<Rightarrow> EncodedAccessUnit \<Rightarrow> Pipeline \<Rightarrow> HRESULT \<times> EncodedAccessUnit \<times> Pipeline" where
  "CompleteEncodedFrame completed_at observed_at output p =
     (case Complete output completed_at (vp_pending p) of ((completion, sample), output, pending) \<Rightarrow>
        let p = p\<lparr>vp_pending := pending\<rparr> in
        if completion = kNoPending then (E_UNEXPECTED, output, p)
        else if completion = kSequenceMismatch then (E_UNEXPECTED, output, p)
        else case the sample of (sample, queue_age) \<Rightarrow>
          let p = (if au_is_idr output then p\<lparr>vp_backpressure := OnFreshIdrProduced (vp_backpressure p)\<rparr> else p);
              p = notify (OnEncode sample) p;
              ob = \<lparr>obs_timestamp = observed_at, obs_queue_age = queue_age,
                    obs_encode_duration = enc_encode_duration sample,
                    obs_capture_to_encode = enc_capture_to_encode sample, obs_transport_blocked = False\<rparr>
          in (S_OK, output, snd (ObservePolicy ob p)))"

section \<open>Capturing\<close>

record CaptureOnceAnswers =
  cx_started :: int
  cx_acquire :: AcquireAnswers
  cx_finished :: int

definition CaptureOnce :: "CaptureOnceAnswers \<Rightarrow> Pipeline \<Rightarrow> HRESULT \<times> Pipeline" where
  "CaptureOnce ans p =
     (let p = p\<lparr>vp_stage := ''capture''\<rparr> in
      if \<not> ShouldAttemptDesktopCapture (HasInFlightEncode p) then (S_FALSE, p)
      else case AcquireLatest (cx_acquire ans) (vp_capture p) of ((result, failure), frame, c) \<Rightarrow>
        let p = p\<lparr>vp_capture := c\<rparr> in
        if result = kTimeout \<or> result = kRecovered then (S_FALSE, p)
        else if result \<noteq> kFrameAvailable then (failure, p)
        else
          let p = p\<lparr>vp_frames := Push (the frame) (vp_frames p)\<rparr>
          in (S_OK, notify (OnCapture \<lparr>cap_sequence = cf_sequence (the frame),
                 cap_acquire_duration = to_us (cx_finished ans - cx_started ans), cap_gpu_copy_duration = 0,
                 cap_queue_age = 0, cap_replaced_frames = replaced_count (vp_frames p)\<rparr>) p))"

section \<open>Encoding\<close>

record EncodeLatestAnswers =
  ela_poll :: PollAnswers
  ela_completed_at :: int
  ela_observed_at :: int
  ela_shutdown :: ShutdownAnswers
  ela_video_device :: HRESULT
  ela_video_context :: HRESULT
  ela_initialize :: InitAnswers
  ela_policy_reset :: FullReset
  ela_conversion_started :: int
  ela_convert :: ConvertAnswers
  ela_encode_started :: int
  ela_encode :: EncodeAnswers
  ela_reset :: FullReset

type_synonym encode_result = "HRESULT \<times> EncodedAccessUnit \<times> Pipeline"

text \<open>A failure that resets the encoder first.\<close>

definition reset_and_fail :: "FullReset \<Rightarrow> HRESULT \<Rightarrow> EncodedAccessUnit \<Rightarrow> Pipeline \<Rightarrow> encode_result" where
  "reset_and_fail ans hr output p =
     (case ResetEncoder ans True p of (reset, p) \<Rightarrow> (if FAILED reset then reset else hr, output, p))"

text \<open>A failed poll or encode resets the encoder when the encoder asks for it.\<close>

definition encoder_failed :: "FullReset \<Rightarrow> HRESULT \<Rightarrow> EncodedAccessUnit \<Rightarrow> Pipeline \<Rightarrow> encode_result" where
  "encoder_failed ans hr output p =
     (case TakeFatalRestartRequest (vp_encoder p) of (restart, e) \<Rightarrow>
        let p = p\<lparr>vp_encoder := e, vp_pending := None\<rparr> in
        if restart then reset_and_fail ans hr output p else (hr, output, p))"

definition deliver :: "EncodeLatestAnswers \<Rightarrow> EncodedAccessUnit \<Rightarrow> Pipeline \<Rightarrow> encode_result" where
  "deliver ans output p =
     (case CompleteEncodedFrame (ela_completed_at ans) (ela_observed_at ans) output p of (completion, output, p) \<Rightarrow>
        if SUCCEEDED completion then (S_OK, output, p) else reset_and_fail (ela_reset ans) completion output p)"

text \<open>\<open>Inl\<close> is a return, \<open>Inr\<close> the state with which the call goes on.\<close>

definition poll_first ::
  "EncodeLatestAnswers \<Rightarrow> EncodedAccessUnit \<Rightarrow> Pipeline \<Rightarrow> encode_result + EncodedAccessUnit \<times> Pipeline" where
  "poll_first ans output p =
     (if \<not> initialized (vp_encoder p) then Inr (output, p)
      else case Poll (ela_poll ans) output (vp_encoder p) of (poll, output, e) \<Rightarrow>
        let p = p\<lparr>vp_stage := ''encoder_poll'', vp_encoder := e\<rparr> in
        if poll = S_OK then Inl (deliver ans output p)
        else if FAILED poll then Inl (encoder_failed (ela_reset ans) poll output p)
        else if \<not> CanAcceptFrame (vp_encoder p) then Inl (S_FALSE, output, p)
        else Inr (output, p))"

definition requeue :: "CapturedFrame \<Rightarrow> Pipeline \<Rightarrow> Pipeline" where
  "requeue frame p = p\<lparr>vp_frames := snd (PushIfEmpty frame (vp_frames p))\<rparr>"

definition reconfigure :: "EncodeLatestAnswers \<Rightarrow> Size \<Rightarrow> CapturedFrame \<Rightarrow> Pipeline \<Rightarrow> HRESULT \<times> Pipeline" where
  "reconfigure ans requested_size frame p =
     (let p = p\<lparr>vp_pending := None, vp_encoder := Shutdown (ela_shutdown ans) (vp_encoder p),
                vp_converter := ResetConverter (vp_converter p), vp_stage := ''capture_device''\<rparr>;
          device = dc_device (vp_capture p)
      in if device = None then (E_HANDLE, p)
      else case InitializeConverter (ela_video_device ans) (ela_video_context ans) device (vp_converter p) of (hr, n) \<Rightarrow>
        let p = p\<lparr>vp_stage := ''converter_initialize'', vp_converter := n\<rparr> in
        if FAILED hr then (hr, p)
        else case Initialize (ela_initialize ans) True (config_for requested_size) (vp_encoder p) of (hr, e) \<Rightarrow>
          let p = p\<lparr>vp_stage := ''encoder_initialize'', vp_encoder := e\<rparr> in
          if FAILED hr then (hr, requeue frame (p\<lparr>vp_stage := vp_stage p @ ''/'' @ he_stage e\<rparr>))
          else
            let p = notify (OnEncoderSelected (he_name e) (he_asynchronous e)) (p\<lparr>vp_encode_size := requested_size\<rparr>)
            in (S_OK, p\<lparr>vp_policy_reset_pending := False\<rparr>))"

definition prepare_encoder :: "EncodeLatestAnswers \<Rightarrow> Size \<Rightarrow> CapturedFrame \<Rightarrow> Pipeline \<Rightarrow> HRESULT \<times> Pipeline" where
  "prepare_encoder ans requested_size frame p =
     (if \<not> initialized (vp_encoder p) \<or> requested_size \<noteq> vp_encode_size p then reconfigure ans requested_size frame p
      else if vp_policy_reset_pending p then
        case ResetEncoder (ela_policy_reset ans) False p of (reset, p) \<Rightarrow>
          if FAILED reset then (reset, p) else (S_OK, p\<lparr>vp_policy_reset_pending := False\<rparr>)
      else (S_OK, p))"

definition frame_pending :: "EncodeLatestAnswers \<Rightarrow> CapturedFrame \<Rightarrow> PendingEncodeTelemetry" where
  "frame_pending ans frame = \<lparr>pend_sequence = cf_sequence frame, pend_acquired_at = cf_acquired_at frame,
     pend_conversion_duration = to_us (ela_encode_started ans - ela_conversion_started ans),
     pend_encode_started = ela_encode_started ans\<rparr>"

text \<open>The texture has the format and the size the encoder is configured for.\<close>

definition matches_encoder :: "Texture \<Rightarrow> Encoder \<Rightarrow> bool" where
  "matches_encoder t e \<longleftrightarrow> td_format (tex_desc t) = DXGI_FORMAT_NV12 \<and>
     td_width (tex_desc t) = sizeWidth (cfg_size (he_config e)) \<and>
     td_height (tex_desc t) = sizeHeight (cfg_size (he_config e))"

definition after_encode ::
  "EncodeLatestAnswers \<Rightarrow> CapturedFrame \<Rightarrow> HRESULT \<Rightarrow> EncodedAccessUnit \<Rightarrow> Pipeline \<Rightarrow> encode_result" where
  "after_encode ans frame hr output p =
     (let pending = frame_pending ans frame in
      if hr = S_FALSE then
        (if encoder_has_pending (vp_encoder p) then
           case BeginPending pending (vp_pending p) of (begun, s) \<Rightarrow>
             if pending_input_sequence (vp_encoder p) \<noteq> Some (pend_sequence pending) \<or> \<not> begun
             then reset_and_fail (ela_reset ans) E_UNEXPECTED output (p\<lparr>vp_pending := None\<rparr>)
             else (S_FALSE, output, p\<lparr>vp_pending := s\<rparr>)
         else (S_FALSE, output, p))
      else if hr = MF_E_NOTACCEPTING then (S_FALSE, output, requeue frame p)
      else if FAILED hr then encoder_failed (ela_reset ans) hr output p
      else case BeginPending pending (vp_pending p) of (begun, s) \<Rightarrow>
        if \<not> begun then reset_and_fail (ela_reset ans) E_UNEXPECTED output (p\<lparr>vp_pending := None\<rparr>)
        else deliver ans output (p\<lparr>vp_pending := s\<rparr>))"

definition encode_frame ::
  "EncodeLatestAnswers \<Rightarrow> CapturedFrame \<Rightarrow> EncodedAccessUnit \<Rightarrow> Pipeline \<Rightarrow> encode_result" where
  "encode_frame ans frame output p =
     (if \<not> CanAcceptFrame (vp_encoder p) then (S_FALSE, output, requeue frame p)
      else case ConvertFrame (ela_convert ans) (cf_texture frame) (vp_encode_size p)
                  (can_reuse_input_texture (vp_encoder p)) (vp_converter p) of (hr, nv12, n) \<Rightarrow>
        let p = p\<lparr>vp_stage := ''convert_bgra_to_nv12'', vp_converter := n\<rparr> in
        if FAILED hr then (hr, output, p\<lparr>vp_stage := vp_stage p @ ''/'' @ nc_stage n\<rparr>)
        else case Encode ((ela_encode ans)\<lparr>enc_frame_matches := matches_encoder (the nv12) (vp_encoder p)\<rparr>)
                    (cf_sequence frame) output (vp_encoder p) of (hr, output, e) \<Rightarrow>
          after_encode ans frame hr output (p\<lparr>vp_stage := ''encoder_encode'', vp_encoder := e\<rparr>))"

definition EncodeLatest :: "EncodeLatestAnswers \<Rightarrow> EncodedAccessUnit \<Rightarrow> Pipeline \<Rightarrow> encode_result" where
  "EncodeLatest ans output p =
     (case poll_first ans (ResetEncodedAccessUnit output) (p\<lparr>vp_stage := ''encode_argument''\<rparr>) of
        Inl result \<Rightarrow> result
      | Inr (output, p) \<Rightarrow>
          (case TryPop (vp_frames p) of
             (None, q) \<Rightarrow> (S_FALSE, output, p\<lparr>vp_frames := q\<rparr>)
           | (Some frame, q) \<Rightarrow>
               let p = p\<lparr>vp_frames := q, vp_policy := SetNativeSize (cf_size frame) (vp_policy p)\<rparr>;
                   requested_size = current_encode_size (vp_policy p)
               in if \<not> size_valid requested_size then (E_INVALIDARG, output, p)
                  else case prepare_encoder ans requested_size frame p of (hr, p) \<Rightarrow>
                    if FAILED hr then (hr, output, p) else encode_frame ans frame output p))"

section \<open>Congestion\<close>

record WouldBlockAnswers =
  wb_reset :: FullReset
  wb_now :: int
  wb_policy_reset :: FullReset

definition blocked_observation :: "int \<Rightarrow> ResolutionPolicyObservation" where
  "blocked_observation now = \<lparr>obs_timestamp = now, obs_queue_age = 0, obs_encode_duration = 0,
     obs_capture_to_encode = 0, obs_transport_blocked = True\<rparr>"

definition NotifyTransportWouldBlock :: "WouldBlockAnswers \<Rightarrow> Pipeline \<Rightarrow> TransportAction \<times> Pipeline" where
  "NotifyTransportWouldBlock ans p =
     (case OnTransportWouldBlock (vp_backpressure p) of (action, b) \<Rightarrow>
        let p = p\<lparr>vp_backpressure := b\<rparr>; already_reset = (action = kRequestStreamReset) in
        case (if already_reset then ResetEncoder (wb_reset ans) True p else (S_OK, p)) of (hr, p) \<Rightarrow>
          if FAILED hr then (kRequestStreamReset, p)
          else case ObservePolicy (blocked_observation (wb_now ans)) p of (d, p) \<Rightarrow>
            if dec_stream_reset d \<and> \<not> already_reset \<and> initialized (vp_encoder p) then
              case ResetEncoder (wb_policy_reset ans) False p of (hr, p) \<Rightarrow>
                (if FAILED hr then kRequestStreamReset else action, p)
            else (action, p))"

end
