(* ===== verification/PipelineTrace.thy ===== *)
theory PipelineTrace
  imports VideoPipeline
begin

text \<open>
  What every call of \<open>VideoPipeline\<close> keeps, whatever the hardware answers: the timing record and the encoder's
  input in flight are the same frame, frames are delivered in capture order with their own capture time,
  and no output of the encoder is lost.
\<close>

section \<open>The encoder after a failure\<close>

lemma MarkAsyncFatal_faulted: "MarkAsyncFatal hr e = (hr', e') \<Longrightarrow> mft_faulted (he_async e')"
  by (auto simp: MarkAsyncFatal_def)

lemma pump_loop_faulted: "pump_loop answers e = (hr, e') \<Longrightarrow> FAILED hr \<Longrightarrow> mft_faulted (he_async e')"
  by (induction answers arbitrary: e) (auto split: if_splits dest: MarkAsyncFatal_faulted)

lemma pump_faulted:
  "PumpAsyncEvents answers e = (hr, e') \<Longrightarrow> FAILED hr \<Longrightarrow> mft_faulted (he_async e')"
  by (auto simp: PumpAsyncEvents_def split: if_splits dest: MarkAsyncFatal_faulted pump_loop_faulted)

lemma async_output_faulted:
  assumes "ProcessAsyncOutput ans u e = (hr, u', e')" and "FAILED hr"
  shows "mft_faulted (he_async e')"
  using assms
  by (auto simp: ProcessAsyncOutput_def Let_def split: if_splits prod.splits option.splits
      dest: MarkAsyncFatal_faulted)

lemma Poll_faulted:
  assumes "Poll ans u e = (hr, u', e')" and "FAILED hr" and "initialized e"
  shows "mft_faulted (he_async e')"
  using assms
  by (auto simp: Poll_def initialized_def Let_def split: if_splits prod.splits
      dest: pump_faulted async_output_faulted)

lemma Poll_ok_sound:
  assumes "core_ok (core e)" and "Poll ans u e = (hr, u', e')" and "\<not> FAILED hr"
  shows "\<not> mft_faulted (he_async e) \<or> \<not> he_asynchronous e"
  using assms by (auto simp: Poll_def core_ok_def Let_def split: if_splits prod.splits)

text \<open>Until a sample is accepted the one in transit does not change.\<close>

lemma EnsureInputSample_transit:
  assumes "EnsureInputSample ans e = (hr, e')"
  shows "in_transit (core e') = in_transit (core e)"
proof -
  have "core e' = core e \<or> core e' = (core e)\<lparr>core_in_flight := False\<rparr>"
    using EnsureInputSample_core(1) [OF assms] by blast
  then show ?thesis by (elim disjE) simp_all
qed

lemma Encode_faulted:
  assumes ok: "core_ok (core e)" and enc: "Encode ans n u e = (hr, u', e')" and failed: "FAILED hr" and init: "initialized e"
  shows "in_transit (core e') = in_transit (core e) \<or> mft_faulted (he_async e')"
proof (cases "he_asynchronous e \<and> he_device e \<and> enc_frame_matches ans")
  case True
  obtain hr1 e1 where pump: "PumpAsyncEvents (enc_events ans) e = (hr1, e1)" by fastforce
  then have p: "pumped (core e) (core e1)" using PumpAsyncEvents_core by blast
  then have t1: "in_transit (core e1) = in_transit (core e)" "initialized e1" using init by (simp_all add: pumped_def)
  obtain hr2 e2 where ens: "EnsureInputSample (enc_input ans) e1 = (hr2, e2)" by fastforce
  have t2: "in_transit (core e2) = in_transit (core e)" using EnsureInputSample_transit [OF ens] t1 by simp
  have "core e2 = core e1 \<or> core e2 = (core e1)\<lparr>core_in_flight := False\<rparr>"
    using EnsureInputSample_core(1) [OF ens] by blast
  then have "core_transform (core e2) = core_transform (core e1)" by (elim disjE) simp_all
  then have i2: "initialized e2" using t1 by simp
  have async: "encode_async ans n empty_access_unit e = (hr, u', e')"
    using enc True init by (auto simp: Encode_def initialized_def)
  show ?thesis
  proof (cases "FAILED hr1 \<or> \<not> CanAcceptInput (he_async e1) \<or> FAILED hr2 \<or> FAILED (enc_process_input ans)")
    case True
    with async pump ens t1 t2 show ?thesis
      by (auto simp: encode_async_def Let_def split: if_splits prod.splits
          dest: pump_faulted MarkAsyncFatal_faulted)
  next
    case False
    obtain ok a where acc: "OnInputAccepted n (he_async e2) = (ok, a)" by fastforce
    show ?thesis
    proof (cases ok)
      case True
      let ?e4 = "e2\<lparr>he_stage := ''async_process_input'', he_async := a, he_in_flight := True\<rparr>"
      let ?e5 = "if \<not> he_sample_reuse e2 then ReleaseInputSampleObjects ?e4 else ?e4"
      have "Poll (enc_poll ans) empty_access_unit ?e5 = (hr, u', e')"
        using async pump ens False acc True by (simp add: encode_async_def Let_def)
      moreover have "initialized ?e5" using i2 by (simp add: initialized_def ReleaseInputSampleObjects_def)
      ultimately show ?thesis using Poll_faulted failed by blast
    next
      case bad: False
      with async pump ens False acc show ?thesis
        by (auto simp: encode_async_def Let_def split: prod.splits dest: MarkAsyncFatal_faulted)
    qed
  qed
next
  case False
  show ?thesis
  proof (cases "he_asynchronous e")
    case True
    with False enc show ?thesis by (auto simp: Encode_def initialized_def split: if_splits)
  next
    case sync: False
    then have "in_transit (core e) = []" by (simp add: in_transit_def)
    moreover have "he_asynchronous e' = he_asynchronous e"
      using Encode_encoded [OF ok enc] by (simp add: encoded_def)
    ultimately show ?thesis using sync by (simp add: in_transit_def)
  qed
qed

lemma Take_faulted:
  "TakeFatalRestartRequest e = (b, e') \<Longrightarrow> mft_faulted (he_async e') = mft_faulted (he_async e)"
  by (cases "he_asynchronous e") (auto simp: TakeFatalRestartRequest_def Let_def TakeRestartRequest_def)

definition enc_ok :: "Core \<Rightarrow> bool" where
  "enc_ok c \<longleftrightarrow> core_ok c \<and> (core_transform c \<or> in_transit c = [])"

lemma quiet_enc_ok: "quiet c \<Longrightarrow> enc_ok c"
  by (simp add: quiet_def enc_ok_def)

lemma Reset_quiet:
  assumes "enc_ok (core e)" and "ResetAndRequestIdr ans e = (hr, e')"
  shows "quiet (core e')"
proof (cases "initialized e \<and> he_asynchronous e")
  case True
  then have "Initialize (fr_initialize ans) (he_device e) (he_config e) (Shutdown (fr_shutdown ans) e) = (hr, e')"
    using assms(2) by (auto simp: ResetAndRequestIdr_def initialized_def)
  from Initialize_quiet [OF this] show ?thesis by auto
next
  case False
  then have "quiet (core e)" using assms(1) by (auto simp: enc_ok_def quiet_def in_transit_def)
  with ResetAndRequestIdr_quiet [OF _ assms(2)] assms(1) show ?thesis by (auto simp: enc_ok_def)
qed

lemma Initialize_idle:
  assumes "Initialize ans device config e = (hr, e')" and "quiet (core e)"
  shows "quiet (core e')"
  using Initialize_quiet [OF assms(1)] assms(2) by auto

section \<open>The timing record and the encoder agree\<close>

definition agrees :: "Core \<Rightarrow> PendingState \<Rightarrow> bool" where
  "agrees c s \<longleftrightarrow> (case s of None \<Rightarrow> in_transit c = [] \<or> mft_faulted (core_async c)
                   | Some q \<Rightarrow> in_transit c = [pend_sequence q])"

definition pipe_ok :: "Pipeline \<Rightarrow> bool" where
  "pipe_ok p \<longleftrightarrow> enc_ok (core (vp_encoder p)) \<and> agrees (core (vp_encoder p)) (vp_pending p)"

type_synonym stamp = "u64 \<times> int"

definition frame_stamp :: "CapturedFrame \<Rightarrow> stamp" where
  "frame_stamp f = (cf_sequence f, cf_acquired_at f)"

definition pend_stamp :: "PendingEncodeTelemetry \<Rightarrow> stamp" where
  "pend_stamp q = (pend_sequence q, pend_acquired_at q)"

definition au_stamp :: "EncodedAccessUnit \<Rightarrow> stamp" where
  "au_stamp u = (au_sequence u, au_acquired_at u)"

definition opt_list :: "'a option \<Rightarrow> 'a list" where
  "opt_list a = (case a of None \<Rightarrow> [] | Some x \<Rightarrow> [x])"

lemma opt_list_simps [simp]: "opt_list None = []" "opt_list (Some x) = [x]"
  by (simp_all add: opt_list_def)

text \<open>The frames the pipeline holds, the oldest first.\<close>

definition held :: "Pipeline \<Rightarrow> stamp list" where
  "held p = map pend_stamp (opt_list (vp_pending p)) @ map frame_stamp (opt_list (item (vp_frames p)))"

lemma notify_fields [simp]:
  "vp_encoder (notify c p) = vp_encoder p" "vp_pending (notify c p) = vp_pending p"
  "vp_frames (notify c p) = vp_frames p"
  by (simp_all add: notify_def)

lemma report_fields [simp]:
  "vp_encoder (ReportPolicy ob d p) = vp_encoder p" "vp_pending (ReportPolicy ob d p) = vp_pending p"
  "vp_frames (ReportPolicy ob d p) = vp_frames p"
  by (simp_all add: ReportPolicy_def Let_def)

lemma observe_fields [simp]:
  "vp_encoder (snd (ObservePolicy ob p)) = vp_encoder p" "vp_pending (snd (ObservePolicy ob p)) = vp_pending p"
  "vp_frames (snd (ObservePolicy ob p)) = vp_frames p"
  by (simp_all add: ObservePolicy_def case_prod_unfold)

lemma CompleteEncodedFrame_result:
  assumes "CompleteEncodedFrame t1 t2 u p = (hr, u', p')"
  shows "vp_encoder p' = vp_encoder p" "vp_frames p' = vp_frames p" "vp_pending p' = None"
    "au_bytes u' = au_bytes u" "au_sequence u' = au_sequence u"
    "if map pend_sequence (opt_list (vp_pending p)) = [au_sequence u]
     then hr = S_OK \<and> au_stamp u' = pend_stamp (the (vp_pending p)) else hr = E_UNEXPECTED"
  using assms
  by (auto simp: CompleteEncodedFrame_def Complete_def Let_def au_stamp_def pend_stamp_def
      split: option.splits if_splits prod.splits)

text \<open>What a call may do to the frames \<open>stamps\<close> that were held.\<close>

definition effect :: "stamp list \<Rightarrow> encode_result \<Rightarrow> bool" where
  "effect stamps r \<longleftrightarrow> (case r of (hr, u, p') \<Rightarrow>
     pipe_ok p' \<and> (hr = S_OK \<or> hr = S_FALSE \<or> FAILED hr) \<and>
     subseq ((if hr = S_OK then [au_stamp u] else []) @ held p') stamps)"

lemma ResetEncoder_ok:
  assumes "enc_ok (core (vp_encoder p))" and "ResetEncoder ans b p = (hr, p')"
  shows "pipe_ok p'" "vp_pending p' = None" "vp_frames p' = vp_frames p" "quiet (core (vp_encoder p'))"
proof -
  obtain h e where r: "ResetAndRequestIdr ans (vp_encoder p) = (h, e)" by fastforce
  have "quiet (core e)" using Reset_quiet [OF assms(1) r] .
  moreover have "vp_encoder p' = e" "vp_pending p' = None" "vp_frames p' = vp_frames p"
    using assms(2) r by (auto simp: ResetEncoder_def Let_def)
  ultimately show "pipe_ok p'" "vp_pending p' = None" "vp_frames p' = vp_frames p" "quiet (core (vp_encoder p'))"
    by (simp_all add: pipe_ok_def agrees_def quiet_enc_ok) (simp_all add: quiet_def)
qed

lemma held_without_pending:
  "vp_pending p' = None \<Longrightarrow> vp_frames p' = vp_frames p \<Longrightarrow> subseq (held p') (held p)"
  by (simp add: held_def subseq_order.dual_order.refl list_emb_append2)

lemma reset_and_fail_effect:
  assumes "enc_ok (core (vp_encoder p))" and "FAILED hr"
    and "subseq (map frame_stamp (opt_list (item (vp_frames p)))) stamps"
  shows "effect stamps (reset_and_fail ans hr u p)"
proof -
  obtain h p' where r: "ResetEncoder ans True p = (h, p')" by fastforce
  show ?thesis
    using ResetEncoder_ok [OF assms(1) r] assms(2,3)
    by (auto simp: reset_and_fail_def r effect_def held_def)
qed

lemma encoder_failed_effect:
  assumes "enc_ok (core (vp_encoder p))" and "FAILED hr"
    and "in_transit (core (vp_encoder p)) = [] \<or> mft_faulted (he_async (vp_encoder p))"
    and "subseq (map frame_stamp (opt_list (item (vp_frames p)))) stamps"
  shows "effect stamps (encoder_failed ans hr u p)"
proof -
  obtain b e where t: "TakeFatalRestartRequest (vp_encoder p) = (b, e)" by fastforce
  have c: "pumped (core (vp_encoder p)) (core e)" "mft_faulted (he_async e) = mft_faulted (he_async (vp_encoder p))"
    using TakeFatalRestartRequest_core [OF t] Take_faulted [OF t] assms(1) by (simp_all add: enc_ok_def)
  then have ok: "enc_ok (core e)" "in_transit (core e) = in_transit (core (vp_encoder p))"
    using assms(1) by (simp_all add: enc_ok_def pumped_def)
  show ?thesis
  proof (cases b)
    case True
    then show ?thesis using ok assms(2,4) t
      by (auto simp: encoder_failed_def Let_def intro!: reset_and_fail_effect)
  next
    case False
    then show ?thesis using ok assms(2-4) c t
      by (auto simp: encoder_failed_def Let_def effect_def pipe_ok_def agrees_def held_def)
  qed
qed


section \<open>Encoding\<close>

lemma deliver_effect:
  assumes "quiet (core (vp_encoder p))"
  shows "effect (held p) (deliver ans u p)"
    and "map pend_sequence (opt_list (vp_pending p)) = [au_sequence u] \<Longrightarrow>
         fst (deliver ans u p) = S_OK \<and> au_sequence (fst (snd (deliver ans u p))) = au_sequence u \<and>
         au_bytes (fst (snd (deliver ans u p))) = au_bytes u"
proof -
  obtain hr u' p' where c: "CompleteEncodedFrame (ela_completed_at ans) (ela_observed_at ans) u p = (hr, u', p')"
    by (metis prod_cases3)
  note r = CompleteEncodedFrame_result [OF c]
  have enc: "enc_ok (core (vp_encoder p'))" "in_transit (core (vp_encoder p')) = []"
    using assms r(1) by (simp_all add: quiet_enc_ok) (simp add: quiet_def)
  show "effect (held p) (deliver ans u p)"
  proof (cases "map pend_sequence (opt_list (vp_pending p)) = [au_sequence u]")
    case True
    then obtain q where q: "vp_pending p = Some q" by (cases "vp_pending p") auto
    with True r enc show ?thesis
      by (auto simp: deliver_def c effect_def pipe_ok_def agrees_def held_def)
  next
    case False
    then have "hr = E_UNEXPECTED" using r(6) by simp
    then show ?thesis using enc r(2) by (auto simp: deliver_def c held_def intro!: reset_and_fail_effect list_emb_append2)
  qed
  show "map pend_sequence (opt_list (vp_pending p)) = [au_sequence u] \<Longrightarrow>
         fst (deliver ans u p) = S_OK \<and> au_sequence (fst (snd (deliver ans u p))) = au_sequence u \<and>
         au_bytes (fst (snd (deliver ans u p))) = au_bytes u"
    using r by (auto simp: deliver_def c)
qed

lemma poll_first_effect:
  assumes ok: "pipe_ok p"
  shows "case poll_first ans u p of
      Inl r \<Rightarrow> effect (held p) r
    | Inr (u', p') \<Rightarrow> pipe_ok p' \<and> vp_pending p' = vp_pending p \<and> vp_frames p' = vp_frames p \<and>
        (initialized (vp_encoder p') \<longrightarrow> CanAcceptFrame (vp_encoder p'))"
proof (cases "initialized (vp_encoder p)")
  case False
  with ok show ?thesis by (simp add: poll_first_def)
next
  case True
  obtain hr u' e where poll: "Poll (ela_poll ans) u (vp_encoder p) = (hr, u', e)" by (metis prod_cases3)
  have core: "enc_ok (core (vp_encoder p))" "agrees (core (vp_encoder p)) (vp_pending p)"
    using ok by (simp_all add: pipe_ok_def)
  then have P: "polled (core (vp_encoder p)) hr u' (core e)" using Poll_polled [OF _ poll] by (simp add: enc_ok_def)
  let ?p = "p\<lparr>vp_stage := ''encoder_poll'', vp_encoder := e\<rparr>"
  have e: "enc_ok (core e)" using P True by (simp add: polled_def enc_ok_def)
  have same: "held ?p = held p" by (simp add: held_def)
  show ?thesis
  proof (cases "hr = S_OK")
    case ok: True
    then have "quiet (core (vp_encoder ?p))" using P by (simp add: polled_def quiet_def)
    from deliver_effect(1) [OF this] have "effect (held ?p) (deliver ans u' ?p)" .
    then show ?thesis using ok True poll same by (simp add: poll_first_def effect_def Let_def)
  next
    case not_ok: False
    show ?thesis
    proof (cases "FAILED hr")
      case failed: True
      have "mft_faulted (he_async e)" by (rule Poll_faulted [OF poll failed True])
      then have "effect (held p) (encoder_failed (ela_reset ans) hr u' ?p)"
        using e failed by (intro encoder_failed_effect) (simp_all add: held_def list_emb_append2)
      then show ?thesis using failed not_ok True poll by (simp add: poll_first_def Let_def)
    next
      case False
      have "in_transit (core e) = in_transit (core (vp_encoder p))" using P not_ok by (simp add: polled_def)
      moreover have "vp_pending p = None \<Longrightarrow> in_transit (core (vp_encoder p)) = []"
        using core Poll_ok_sound [OF _ poll False] by (auto simp: agrees_def enc_ok_def in_transit_def)
      ultimately have "pipe_ok ?p" using core e by (auto simp: pipe_ok_def agrees_def split: option.splits)
      moreover have "hr = S_FALSE" using P not_ok False by (auto simp: polled_def)
      ultimately show ?thesis using True poll same by (auto simp: poll_first_def Let_def effect_def)
    qed
  qed
qed


text \<open>With no input in transit there is no timing record.\<close>

definition idle :: "Pipeline \<Rightarrow> bool" where
  "idle p \<longleftrightarrow> pipe_ok p \<and> vp_pending p = None \<and> in_transit (core (vp_encoder p)) = []"

lemma idle_before_encode:
  assumes "pipe_ok p" and "initialized (vp_encoder p) \<longrightarrow> CanAcceptFrame (vp_encoder p)"
  shows "idle p"
proof -
  have "in_transit (core (vp_encoder p)) = []"
    using assms by (auto simp: pipe_ok_def enc_ok_def CanAcceptFrame_def CanAcceptInput_def in_transit_def initialized_def)
  with assms(1) show ?thesis by (auto simp: idle_def pipe_ok_def agrees_def split: option.splits)
qed

lemma idle_held: "idle p \<Longrightarrow> held p = map frame_stamp (opt_list (item (vp_frames p)))"
  by (simp add: idle_def held_def)

lemma quiet_idle: "quiet (core (vp_encoder p)) \<Longrightarrow> vp_pending p = None \<Longrightarrow> idle p"
  by (simp add: idle_def pipe_ok_def agrees_def quiet_enc_ok) (simp add: quiet_def)

lemma idle_fields:
  "idle p \<Longrightarrow> vp_encoder p' = vp_encoder p \<Longrightarrow> vp_pending p' = vp_pending p \<Longrightarrow> idle p'"
  by (auto simp: idle_def pipe_ok_def)

lemma pipe_ok_simps [simp]:
  "pipe_ok (p\<lparr>vp_stage := s\<rparr>) = pipe_ok p" "pipe_ok (p\<lparr>vp_frames := q\<rparr>) = pipe_ok p"
  "pipe_ok (p\<lparr>vp_capture := c\<rparr>) = pipe_ok p" "pipe_ok (p\<lparr>vp_policy := c'\<rparr>) = pipe_ok p"
  "pipe_ok (p\<lparr>vp_converter := n\<rparr>) = pipe_ok p" "pipe_ok (p\<lparr>vp_policy_reset_pending := b\<rparr>) = pipe_ok p"
  "pipe_ok (p\<lparr>vp_telemetry := b\<rparr>) = pipe_ok p"
  by (simp_all add: pipe_ok_def)

lemma idle_simps [simp]:
  "idle (p\<lparr>vp_stage := s\<rparr>) = idle p" "idle (p\<lparr>vp_frames := q\<rparr>) = idle p"
  "idle (p\<lparr>vp_capture := c\<rparr>) = idle p" "idle (p\<lparr>vp_policy := c'\<rparr>) = idle p"
  "idle (p\<lparr>vp_converter := n\<rparr>) = idle p" "idle (p\<lparr>vp_policy_reset_pending := b\<rparr>) = idle p"
  "idle (p\<lparr>vp_telemetry := b\<rparr>) = idle p" "idle (requeue f p) = idle p"
  by (simp_all add: idle_def requeue_def)

lemma requeue_fields [simp]:
  "vp_encoder (requeue f p) = vp_encoder p" "vp_pending (requeue f p) = vp_pending p"
  "item (vp_frames p) = None \<Longrightarrow> item (vp_frames (requeue f p)) = Some f"
  by (simp_all add: requeue_def PushIfEmpty_def)

lemma reconfigure_result:
  assumes "item (vp_frames p) = None" and "reconfigure ans sz f p = (hr, p')"
  shows "idle p' \<and> (hr = S_OK \<or> FAILED hr) \<and> (if hr = S_OK then item (vp_frames p') = None else subseq (held p') [frame_stamp f])"
proof -
  let ?e = "Shutdown (ela_shutdown ans) (vp_encoder p)"
  obtain hr1 n where conv: "InitializeConverter (ela_video_device ans) (ela_video_context ans) (dc_device (vp_capture p))
      (ResetConverter (vp_converter p)) = (hr1, n)" by fastforce
  obtain hr2 e where init: "Initialize (ela_initialize ans) True (config_for sz) ?e = (hr2, e)" by fastforce
  have shut: "quiet (core ?e)" by simp
  have q: "quiet (core e)" by (rule Initialize_idle [OF init shut])
  have res: "quiet (core (vp_encoder p'))" "vp_pending p' = None" "hr = S_OK \<or> FAILED hr"
    "item (vp_frames p') = None \<or> FAILED hr \<and> item (vp_frames p') = Some f"
    using assms conv init q shut
    by (auto simp: reconfigure_def Let_def split: if_splits)
  then show ?thesis using idle_held [OF quiet_idle [OF res(1,2)]] quiet_idle [OF res(1,2)] by auto
qed

lemma prepare_encoder_result:
  assumes "idle p" and "item (vp_frames p) = None" and "prepare_encoder ans sz f p = (hr, p')"
  shows "idle p' \<and> (hr = S_OK \<or> FAILED hr) \<and> (if hr = S_OK then item (vp_frames p') = None else subseq (held p') [frame_stamp f])"
proof (cases "\<not> initialized (vp_encoder p) \<or> sz \<noteq> vp_encode_size p")
  case True
  with assms reconfigure_result show ?thesis by (simp add: prepare_encoder_def)
next
  case False
  obtain h p1 where r: "ResetEncoder (ela_policy_reset ans) False p = (h, p1)" by fastforce
  have "enc_ok (core (vp_encoder p))" using assms(1) by (simp add: idle_def pipe_ok_def)
  note reset = ResetEncoder_ok [OF this r]
  have i1: "idle p1" "idle (p1\<lparr>vp_policy_reset_pending := False\<rparr>)"
    using quiet_idle reset(2,4) by (simp_all add: idle_fields)
  from False assms i1 reset(3) idle_held show ?thesis
    by (auto simp: prepare_encoder_def r split: if_splits)
qed


lemma held_requeued:
  "vp_pending p = None \<Longrightarrow> item (vp_frames p) = None \<Longrightarrow> held (requeue f p) = [frame_stamp f]"
  by (simp add: held_def)

text \<open>What follows \<open>Encode\<close>: \<open>c\<close> is the encoder before it.\<close>

lemma after_encode_effect:
  assumes enc: "encoded c (cf_sequence f) hr u (core (vp_encoder p))" and c: "in_transit c = []" "core_transform c"
    and fault: "FAILED hr \<longrightarrow> in_transit (core (vp_encoder p)) = in_transit c \<or> mft_faulted (he_async (vp_encoder p))"
    and p: "vp_pending p = None" "item (vp_frames p) = None"
  shows "effect [frame_stamp f] (after_encode ans f hr u p)"
    and "hr = S_OK \<Longrightarrow> fst (after_encode ans f hr u p) = S_OK"
proof -
  have ok: "enc_ok (core (vp_encoder p))" and hr: "hr = S_OK \<or> hr = S_FALSE \<or> FAILED hr"
    using enc c(2) by (simp_all add: encoded_def enc_ok_def)
  let ?q = "frame_pending ans f"
  have begin_q: "BeginPending ?q (vp_pending p) = (True, Some ?q)" using p(1) by (simp add: BeginPending_def)
  have q: "pend_sequence ?q = cf_sequence f" "pend_stamp ?q = frame_stamp f"
    by (simp_all add: frame_pending_def pend_stamp_def frame_stamp_def)
  let ?p = "p\<lparr>vp_pending := Some ?q\<rparr>"
  have held: "held ?p = [frame_stamp f]" using p(2) q by (simp add: held_def)
  show "effect [frame_stamp f] (after_encode ans f hr u p)"
  proof -
    consider "hr = S_OK" | "hr = S_FALSE" "encoder_has_pending (vp_encoder p)"
      | "hr = S_FALSE" "\<not> encoder_has_pending (vp_encoder p)" | "hr = MF_E_NOTACCEPTING"
      | "FAILED hr" "hr \<noteq> MF_E_NOTACCEPTING" using hr by blast
    then show ?thesis
    proof cases
      case 1
      then have "quiet (core (vp_encoder ?p))" using enc by (simp add: encoded_def quiet_def)
      from deliver_effect(1) [OF this, of ans u] show ?thesis
        using 1 begin_q held by (simp add: after_encode_def hresults)
    next
      case 2
      then have "in_transit (core (vp_encoder p)) \<noteq> []"
        by (auto simp: encoder_has_pending_def HasPendingInput_def in_transit_def)
      then have t: "in_transit (core (vp_encoder p)) = [cf_sequence f]" using enc 2 c(1) by (auto simp: encoded_def)
      then have "pending_input_sequence (vp_encoder p) = Some (cf_sequence f)"
        by (auto simp: in_transit_def pending_input_sequence_def split: if_splits option.splits)
      then have "after_encode ans f hr u p = (S_FALSE, u, ?p)"
        using 2 begin_q q(1) by (simp add: after_encode_def)
      then show ?thesis using t ok held q by (simp add: effect_def pipe_ok_def agrees_def)
    next
      case 3
      then have "in_transit (core (vp_encoder p)) = []"
        by (auto simp: encoder_has_pending_def HasPendingInput_def in_transit_def)
      then show ?thesis using 3 ok p by (simp add: after_encode_def effect_def pipe_ok_def agrees_def held_def)
    next
      case 4
      have "in_transit (core (vp_encoder p)) = [] \<or> mft_faulted (he_async (vp_encoder p))"
        using fault 4 c(1) by simp
      then have "pipe_ok (requeue f p)" using ok p(1) by (simp add: pipe_ok_def agrees_def)
      then show ?thesis using 4 p by (simp add: after_encode_def effect_def held_requeued hresults)
    next
      case 5
      then have "hr \<noteq> S_FALSE" by auto
      moreover have "effect [frame_stamp f] (encoder_failed (ela_reset ans) hr u p)"
        using ok 5 fault c(1) p(2) by (intro encoder_failed_effect) auto
      ultimately show ?thesis using 5 by (simp add: after_encode_def)
    qed
  qed
  show "fst (after_encode ans f hr u p) = S_OK" if "hr = S_OK"
  proof -
    have "quiet (core (vp_encoder ?p))" "au_sequence u = cf_sequence f"
      using enc that by (simp_all add: encoded_def quiet_def)
    with deliver_effect(2) [of ?p u ans] show ?thesis using that begin_q q(1) by (simp add: after_encode_def hresults)
  qed
qed

lemma encode_frame_effect:
  assumes p: "idle p" "item (vp_frames p) = None"
  shows "effect [frame_stamp f] (encode_frame ans f u p)"
proof (cases "CanAcceptFrame (vp_encoder p)")
  case False
  from False p have "idle (requeue f p)" by simp
  with False p show ?thesis by (simp add: encode_frame_def effect_def idle_def held_requeued)
next
  case True
  then have init: "initialized (vp_encoder p)" by (simp add: CanAcceptFrame_def initialized_def)
  obtain hr nv12 n where conv: "ConvertFrame (ela_convert ans) (cf_texture f) (vp_encode_size p)
      (can_reuse_input_texture (vp_encoder p)) (vp_converter p) = (hr, nv12, n)" by (metis prod_cases3)
  let ?ans = "(ela_encode ans)\<lparr>enc_frame_matches := matches_encoder (the nv12) (vp_encoder p)\<rparr>"
  obtain hr2 u2 e where enc: "Encode ?ans (cf_sequence f) u (vp_encoder p) = (hr2, u2, e)" by (metis prod_cases3)
  show ?thesis
  proof (cases "FAILED hr")
    case failed: True
    show ?thesis using failed True conv p
      by (simp add: encode_frame_def effect_def Let_def idle_held) (auto simp: idle_def)
  next
    case False
    have ok: "core_ok (core (vp_encoder p))" using p(1) by (simp add: idle_def pipe_ok_def enc_ok_def)
    have "encoded (core (vp_encoder p)) (cf_sequence f) hr2 u2 (core e)" by (rule Encode_encoded [OF ok enc])
    then have "effect [frame_stamp f] (after_encode ans f hr2 u2
        (p\<lparr>vp_converter := n, vp_stage := ''encoder_encode'', vp_encoder := e\<rparr>))" 
      using p init Encode_faulted [OF ok enc] by (intro after_encode_effect) (auto simp: idle_def)
    then show ?thesis using False True conv enc by (simp add: encode_frame_def Let_def)
  qed
qed

lemma EncodeLatest_effect:
  assumes ok: "pipe_ok p"
  shows "effect (held p) (EncodeLatest ans u p)"
proof (cases "poll_first ans empty_access_unit (p\<lparr>vp_stage := ''encode_argument''\<rparr>)")
  case (Inl r)
  have "pipe_ok (p\<lparr>vp_stage := ''encode_argument''\<rparr>)" "held (p\<lparr>vp_stage := ''encode_argument''\<rparr>) = held p"
    using ok by (simp_all add: pipe_ok_def held_def)
  with poll_first_effect [of "p\<lparr>vp_stage := ''encode_argument''\<rparr>" ans empty_access_unit] Inl
  show ?thesis by (simp add: EncodeLatest_def)
next
  case (Inr r)
  obtain u1 p1 where r: "r = (u1, p1)" by fastforce
  have "pipe_ok (p\<lparr>vp_stage := ''encode_argument''\<rparr>)" using ok by (simp add: pipe_ok_def)
  from poll_first_effect [OF this, of ans empty_access_unit]
  have p1: "idle p1" "vp_frames p1 = vp_frames p" "vp_pending p1 = vp_pending p"
    using Inr r idle_before_encode by auto
  show ?thesis
  proof (cases "item (vp_frames p)")
    case None
    then have "held p = []" using p1 by (simp add: held_def idle_def)
    with None Inr r p1 show ?thesis
      by (simp add: EncodeLatest_def TryPop_def effect_def idle_held) (auto simp: idle_def pipe_ok_def)
  next
    case (Some f)
    let ?p2 = "p1\<lparr>vp_frames := snd (TryPop (vp_frames p1)), vp_policy := SetNativeSize (cf_size f) (vp_policy p1)\<rparr>"
    have p2: "idle ?p2" "item (vp_frames ?p2) = None" using p1 by (simp_all add: TryPop_def)
    have h: "held p = [frame_stamp f]" using p1 Some by (simp add: held_def idle_def)
    obtain hr p3 where prep: "prepare_encoder ans (current_encode_size (vp_policy ?p2)) f ?p2 = (hr, p3)" by fastforce
    note r3 = prepare_encoder_result [OF p2 prep]
    have step: "EncodeLatest ans u p =
        (if \<not> size_valid (current_encode_size (vp_policy ?p2)) then (E_INVALIDARG, u1, ?p2)
         else if FAILED hr then (hr, u1, p3) else encode_frame ans f u1 p3)"
      using Inr r Some p1 prep by (simp add: EncodeLatest_def TryPop_def Let_def)
    have invalid: "effect [frame_stamp f] (E_INVALIDARG, u1, ?p2)"
      using p2 by (simp add: effect_def idle_held hresults) (simp add: idle_def FAILED_def)
    have failed: "effect [frame_stamp f] (hr, u1, p3)" if "FAILED hr"
      using r3 that by (auto simp: effect_def idle_def)
    have "effect [frame_stamp f] (encode_frame ans f u1 p3)" if "\<not> FAILED hr"
      using r3 that by (intro encode_frame_effect) auto
    with invalid failed show ?thesis unfolding step h by simp
  qed
qed


section \<open>Runs\<close>

lemma released_facts: "enc_ok released" "in_transit released = []" "quiet released"
  using quiet_released by (simp_all add: quiet_enc_ok quiet_def)

lemma Stop_ok: "idle (Stop ans p)" "item (vp_frames (Stop ans p)) = None"
  by (auto simp: Stop_def TryPop_def intro!: quiet_idle)

lemma Start_ok:
  assumes "Start ans monitor m t p = (hr, p')"
  shows "idle p'" "item (vp_frames p') = None"
  using assms Stop_ok by (auto simp: Start_def Let_def split: prod.splits if_splits)

lemma CaptureOnce_ok:
  assumes "CaptureOnce ans p = (hr, p')"
  shows "vp_encoder p' = vp_encoder p" "vp_pending p' = vp_pending p"
    "vp_frames p' = vp_frames p \<or> hr = S_OK \<and> item (vp_frames p') \<noteq> None"
  using assms by (auto simp: CaptureOnce_def Let_def Push_def split: if_splits prod.splits)

lemma NotifyTransportWouldBlock_ok:
  assumes "pipe_ok p" and "NotifyTransportWouldBlock ans p = (a, p')"
  shows "pipe_ok p'" "vp_frames p' = vp_frames p" "vp_pending p' = vp_pending p \<or> vp_pending p' = None"
proof -
  obtain act b where b: "OnTransportWouldBlock (vp_backpressure p) = (act, b)" by fastforce
  let ?p0 = "p\<lparr>vp_backpressure := b\<rparr>"
  obtain h p1 where r: "(if act = kRequestStreamReset then ResetEncoder (wb_reset ans) True ?p0 else (S_OK, ?p0)) = (h, p1)"
    by fastforce
  have e0: "enc_ok (core (vp_encoder ?p0))" "pipe_ok ?p0" using assms(1) by (simp_all add: pipe_ok_def)
  have 1: "pipe_ok p1" "vp_frames p1 = vp_frames p" "vp_pending p1 = vp_pending p \<or> vp_pending p1 = None"
    using r e0 ResetEncoder_ok [OF e0(1), of "wb_reset ans" True h p1] by (auto split: if_splits)
  obtain d p2 where o: "ObservePolicy (blocked_observation (wb_now ans)) p1 = (d, p2)" by fastforce
  have 2: "vp_encoder p2 = vp_encoder p1" "vp_pending p2 = vp_pending p1" "vp_frames p2 = vp_frames p1"
    using observe_fields [of "blocked_observation (wb_now ans)" p1] o by simp_all
  obtain h3 p3 where r3: "ResetEncoder (wb_policy_reset ans) False p2 = (h3, p3)" by fastforce
  have e2: "enc_ok (core (vp_encoder p2))" "pipe_ok p2" using 1(1) 2 by (simp_all add: pipe_ok_def)
  note 3 = ResetEncoder_ok [OF e2(1) r3]
  have "p' = p1 \<or> p' = p2 \<or> p' = p3"
    using assms(2) b r o r3 by (auto simp: NotifyTransportWouldBlock_def Let_def split: if_splits)
  then show "pipe_ok p'" "vp_frames p' = vp_frames p" "vp_pending p' = vp_pending p \<or> vp_pending p' = None"
    using 1 2 3 e2 by auto
qed

datatype pipeline_op = PipeStart StartAnswers MonitorInfo u32 bool | PipeStop ShutdownAnswers
  | PipeCapture CaptureOnceAnswers | PipeEncode EncodeLatestAnswers EncodedAccessUnit
  | PipeBlocked WouldBlockAnswers

text \<open>The frames a call captures, the access units it delivers, and the pipeline after it.\<close>

fun pipeline_step :: "pipeline_op \<Rightarrow> Pipeline \<Rightarrow> stamp list \<times> stamp list \<times> Pipeline" where
  "pipeline_step (PipeStart ans monitor m t) p = ([], [], snd (Start ans monitor m t p))"
| "pipeline_step (PipeStop ans) p = ([], [], Stop ans p)"
| "pipeline_step (PipeCapture ans) p =
     (case CaptureOnce ans p of (hr, p) \<Rightarrow>
        (if hr = S_OK then map frame_stamp (opt_list (item (vp_frames p))) else [], [], p))"
| "pipeline_step (PipeEncode ans u) p =
     (case EncodeLatest ans u p of (hr, u, p) \<Rightarrow> ([], if hr = S_OK then [au_stamp u] else [], p))"
| "pipeline_step (PipeBlocked ans) p = ([], [], snd (NotifyTransportWouldBlock ans p))"

fun pipeline_run :: "pipeline_op list \<Rightarrow> Pipeline \<Rightarrow> stamp list \<times> stamp list \<times> Pipeline" where
  "pipeline_run [] p = ([], [], p)"
| "pipeline_run (x # xs) p =
     (case pipeline_step x p of (i, out, p) \<Rightarrow>
      case pipeline_run xs p of (is, outs, p) \<Rightarrow> (i @ is, out @ outs, p))"

lemma pipeline_step_order:
  assumes ok: "pipe_ok p" and step: "pipeline_step x p = (i, out, p')"
  shows "pipe_ok p' \<and> subseq (out @ held p') (held p @ i)"
proof (cases x)
  case (PipeStart ans monitor m t)
  then show ?thesis using step Start_ok [OF surjective_pairing, of ans monitor m t p] by (auto simp: idle_held idle_def)
next
  case (PipeStop ans)
  then show ?thesis using step Stop_ok [of ans p] by (auto simp: idle_held) (simp add: idle_def)
next
  case (PipeCapture ans)
  obtain hr p1 where c: "CaptureOnce ans p = (hr, p1)" by fastforce
  note r = CaptureOnce_ok [OF c]
  have "subseq (held p1) (held p @ i)" if "vp_frames p1 = vp_frames p"
    using that r(2) list_emb_prefix [OF subseq_order.order_refl, of "held p" i] by (simp add: held_def)
  moreover have "subseq (held p1) (held p @ i)" if "hr = S_OK"
  proof -
    have "i = map frame_stamp (opt_list (item (vp_frames p1)))" using step PipeCapture c that by auto
    moreover have "subseq (xs @ i) ((xs @ ys) @ i)" for xs ys :: "stamp list"
      by (intro list_emb_append_mono list_emb_prefix subseq_order.order_refl)
    ultimately show ?thesis using r(2) by (simp add: held_def)
  qed
  moreover have "p' = p1" "out = []" using step PipeCapture c by auto
  ultimately show ?thesis using r ok by (auto simp: pipe_ok_def)
next
  case (PipeEncode ans u)
  then show ?thesis using step EncodeLatest_effect [OF ok, of ans u] by (auto simp: effect_def split: prod.splits)
next
  case (PipeBlocked ans)
  then show ?thesis using step NotifyTransportWouldBlock_ok [OF ok surjective_pairing, of ans]
    by (auto simp: held_def list_emb_append2)
qed

lemma pipeline_run_order:
  "pipe_ok p \<Longrightarrow> pipeline_run xs p = (is, outs, p') \<Longrightarrow> pipe_ok p' \<and> subseq (outs @ held p') (held p @ is)"
proof (induction xs arbitrary: p "is" outs)
  case (Cons x xs)
  obtain i out p1 where step: "pipeline_step x p = (i, out, p1)" by (rule prod_cases3)
  obtain is1 outs1 where rest: "pipeline_run xs p1 = (is1, outs1, p')" and eq: "is = i @ is1" "outs = out @ outs1"
    using Cons.prems(2) step by (auto split: prod.splits)
  have 1: "pipe_ok p1" "subseq (out @ held p1) (held p @ i)"
    using pipeline_step_order [OF Cons.prems(1) step] by blast+
  then have 2: "pipe_ok p'" "subseq (outs1 @ held p') (held p1 @ is1)"
    using Cons.IH rest by blast+
  have "subseq (out @ outs1 @ held p') (out @ held p1 @ is1)"
    using 2(2) by (rule list_emb_append_mono [OF subseq_order.order_refl])
  also have "subseq \<dots> ((held p @ i) @ is1)"
    using list_emb_append_mono [OF 1(2) subseq_order.order_refl, of is1] by simp
  finally show ?case using 2(1) eq by simp
qed simp

lemma pipe_ok_init: "pipe_ok pipeline_init" "held pipeline_init = []"
  using released_facts
  by (simp_all add: pipe_ok_def pipeline_init_def core_init agrees_def held_def queue_init_def)


text \<open>C8: Whatever the hardware answers, over any sequence of starts, stops, captures, encodings and congestion
  reports the access units that \<open>EncodeLatest\<close> delivers, then the frame in flight, then the frame that waits,
  are a subsequence of the frames captured, each with the sequence and the capture time of its own frame;
  and the timing record always belongs to the input the encoder holds, unless the transform has faulted,
  in which case none is kept.\<close>

theorem frames_delivered_in_order:
  assumes "pipeline_run ops pipeline_init = (captured, delivered, p)"
  shows "subseq (delivered @ held p) captured \<and>
         (case vp_pending p of
            None \<Rightarrow> pending_input_sequence (vp_encoder p) = None \<or> mft_faulted (he_async (vp_encoder p))
          | Some q \<Rightarrow> pending_input_sequence (vp_encoder p) = Some (pend_sequence q))"
proof -
  have "pipe_ok p" "subseq (delivered @ held p) captured"
    using pipeline_run_order [OF pipe_ok_init(1) assms] pipe_ok_init(2) by simp_all
  moreover have "in_transit (core (vp_encoder p)) = opt_list (pending_input_sequence (vp_encoder p))"
    by (simp add: in_transit_def pending_input_sequence_def opt_list_def)
  ultimately show ?thesis
    by (auto simp: pipe_ok_def agrees_def split: option.splits)
      (metis list.distinct(1) list.inject opt_list_simps not_None_eq)+
qed


text \<open>A run with an asynchronous encoder: a frame is captured and accepted, then its output is polled.\<close>

definition fine_event :: "MediaEventType \<Rightarrow> EventAnswer" where
  "fine_event t = \<lparr>ev_get = 0, ev_present = True, ev_type_result = 0, ev_type = t, ev_status_result = 0,
     ev_status = 0\<rparr>"

definition async_init :: InitAnswers where
  "async_init = fine_init\<lparr>ia_candidates := [fine_candidate\<lparr>ca_async := True\<rparr>],
     ia_formal := (ia_formal fine_init)\<lparr>rs_events := [fine_event METransformNeedInput]\<rparr>\<rparr>"

definition fine_monitor :: MonitorInfo where
  "fine_monitor = no_monitor\<lparr>mon_device_name := [65], mon_attached := True\<rparr>"

definition fine_open :: OpenAnswers where
  "fine_open = \<lparr>op_factory = 0,
     op_adapters = [\<lparr>la_enum = 0, la_desc = 0, la_luid = \<lparr>luid_low = 0, luid_high = 0\<rparr>\<rparr>],
     op_create_device = 0, op_device = 9, op_multithread = 0,
     op_outputs = [\<lparr>na_enum = 0, na_desc = 0, na_name = [65]\<rparr>], op_output = 0, op_duplicate = 0\<rparr>"

definition fine_capture :: CaptureOnceAnswers where
  "fine_capture = \<lparr>cx_started = 0,
     cx_acquire = \<lparr>aq_acquire = 0,
       aq_recover = \<lparr>rc_find = \<lparr>en_factory = 0, en_targets = \<lparr>tg_sizes = 0, tg_query = 0, tg_paths = []\<rparr>,
                                en_adapters = []\<rparr>, rc_open = fine_open\<rparr>,
       aq_query = 0, aq_desc = no_desc\<lparr>td_width := 1920, td_height := 1080, td_format := 87\<rparr>, aq_create = 0,
       aq_address = 4, aq_now = 77, aq_release = 0\<rparr>,
     cx_finished = 5000\<rparr>"

definition fine_convert :: ConvertAnswers where
  "fine_convert = \<lparr>cv_enumerator = 0, cv_input_check = 0, cv_input_support = 1, cv_output_check = 0,
     cv_output_support = 2, cv_processor = 0, cv_texture = 0, cv_texture_address = 3, cv_input_view = 0,
     cv_output_view = 0, cv_blt = 0\<rparr>"

definition fine_reset :: FullReset where
  "fine_reset = \<lparr>fr_shutdown = fine_shutdown, fr_initialize = async_init, fr_formal = ia_formal async_init\<rparr>"

definition fine_latest :: EncodeLatestAnswers where
  "fine_latest = \<lparr>ela_poll = \<lparr>poll_events = [fine_event METransformHaveOutput], poll_outputs = (\<lambda>_. fine_output),
                              poll_types = []\<rparr>,
     ela_completed_at = 200, ela_observed_at = 201, ela_shutdown = fine_shutdown, ela_video_device = 0,
     ela_video_context = 0, ela_initialize = async_init, ela_policy_reset = fine_reset,
     ela_conversion_started = 100, ela_convert = fine_convert, ela_encode_started = 110,
     ela_encode = fine_encode, ela_reset = fine_reset\<rparr>"

definition accepted_run :: "pipeline_op list" where
  "accepted_run = [PipeStart \<lparr>st_shutdown = fine_shutdown, st_open = fine_open, st_rejected = fine_shutdown\<rparr>
                     fine_monitor 3200 True,
                   PipeCapture fine_capture, PipeEncode fine_latest empty_access_unit]"

lemmas pipeline_samples = fine_defs fine_event_def async_init_def fine_monitor_def no_monitor_def fine_open_def
  fine_capture_def fine_convert_def fine_reset_def fine_latest_def

lemmas capture_defs = accepted_run_def pipeline_samples Start_def Stop_def pipeline_init_def Open_def Close_def
  release_capture_def OpenLocked_def Let_def capture_init_def CaptureOnce_def HasInFlightEncode_def
  ShouldAttemptDesktopCapture_def HasInFlightEncodeState_def AcquireLatest_def copy_frame_def
  CreateCopyTextureLocked_def NormalizePrivateCopyTextureDesc_def no_desc_def notify_def Push_def TryPop_def
  queue_init_def frame_stamp_def dxgi_errors no_size_def policy_start_def DXGI_ERROR_NOT_FOUND_def
  encoder_has_pending_def initialized_def ResetConverter_def converter_init_def

lemmas latest_defs = EncodeLatest_def poll_first_def SetNativeSize_def current_encode_size_def
  SelectEncodeResolution_def ScaleToLongestEdge_def longest_edge_def kLongestEdgeLadder_def even_floor_def ClampRung_def controller_init_def
  prepare_encoder_def reconfigure_def InitializeConverter_def encode_frame_def ConvertFrame_def Configure_def
  CanAcceptFrame_def CanAcceptInput_def ShouldReuseNv12OutputTexture_def can_reuse_input_texture_def
  matches_encoder_def nv12_desc_def Encode_def encode_async_def after_encode_def frame_pending_def
  BeginPending_def pending_input_sequence_def HasPendingInput_def EnsureInputSample_def
  DecideH264InputSampleCacheAction_def PumpAsyncEvents_def OnInputAccepted_def deliver_event_def
  StartStream_def MFT_INPUT_STREAM_DOES_NOT_ADDREF_def MFT_INPUT_STREAM_HOLDS_BUFFERS_def
  FORMAT_SUPPORT_INPUT_def FORMAT_SUPPORT_OUTPUT_def DXGI_FORMAT_NV12_def DXGI_FORMAT_B8G8R8A8_UNORM_def
  DXGI_FORMAT_UNKNOWN_def DXGI_FORMAT_B8G8R8A8_UNORM_SRGB_def hresults Poll_def ProcessAsyncOutput_def empty_access_unit_def

lemmas output_defs = ProcessOutput_def process_output_loop.simps take_output_def prepare_caller_sample_def
  MFT_OUTPUT_STREAM_PROVIDES_SAMPLES_def ClassifyH264EncoderOutputStatus_def ClassifyH264OutputSample_def
  H264OutputContainsSample_def ShouldRetryEmptyH264EncoderOutput_def consume_sample_def OnOutputProduced_def

definition accepted_pipeline :: Pipeline where
  "accepted_pipeline = snd (snd (pipeline_run accepted_run pipeline_init))"

lemma accepted_result:
  "fst (pipeline_run accepted_run pipeline_init) = [(1, 77)]"
  "fst (snd (pipeline_run accepted_run pipeline_init)) = []"
  "fst (Poll (ela_poll fine_latest) empty_access_unit (vp_encoder (snd (snd (pipeline_run accepted_run pipeline_init))))) = S_OK"
  by (simp_all add: capture_defs initialize_defs latest_defs output_defs)

lemma accepted_run_eq: "pipeline_run accepted_run pipeline_init = ([(1, 77)], [], accepted_pipeline)"
  using accepted_result(1,2) by (simp add: accepted_pipeline_def prod_eq_iff)

lemma frames_delivered_in_order_witness:
  "fst (pipeline_run accepted_run pipeline_init) = [(1, 77)] \<and> subseq (held accepted_pipeline) [(1, 77)]"
  using frames_delivered_in_order [OF accepted_run_eq] accepted_result(1) by simp


end
