(* ===== verification/Telemetry.thy ===== *)
theory Telemetry
  imports Json FloatArith "HOL-Library.Sublist"
begin

text \<open>
  \<open>app/telemetry.h\<close> and the \<open>TelemetryWriter\<close> of \<open>app/desktop_server.cpp\<close>: the JSON lines of the telemetry
  log, the log file with its rotation, and the count of runs that did not end. The files are a map from
  paths to contents; which calls of the file system fail is an argument. Nothing but the writer, and the
  two files it keeps beside the log, touches them. \<open>DefaultPath\<close> only asks the environment.
\<close>

section \<open>Lines\<close>

text \<open>A JSON string as the program writes it, the quotes being \<open>CHR 0x22\<close>.\<close>

definition field :: "string \<Rightarrow> string \<Rightarrow> string" where
  "field name v = [quote_char] @ name @ [quote_char, CHR '':''] @ v"

definition object_line :: "string \<Rightarrow> (string \<times> string) list \<Rightarrow> string" where
  "object_line kind fields =
     CHR ''{'' # field ''kind'' ([quote_char] @ kind @ [quote_char]) @
     concat (map (\<lambda>(name, v). CHR '','' # field name v) fields) @ [CHR ''}'']"

definition number :: "u64 \<Rightarrow> string" where
  "number n = decimal (unat n)"

definition number32 :: "u32 \<Rightarrow> string" where
  "number32 n = decimal (unat n)"

definition boolean :: "bool \<Rightarrow> string" where
  "boolean b = (if b then ''true'' else ''false'')"

definition hex_lower :: "nat \<Rightarrow> char" where
  "hex_lower n = ''0123456789abcdef'' ! n"

definition escape_reason_char :: "char \<Rightarrow> string" where
  "escape_reason_char c =
     (if c = quote_char then [backslash, quote_char]
      else if c = backslash then [backslash, backslash]
      else if c = CHR 0x08 then [backslash, CHR ''b'']
      else if c = CHR 0x0C then [backslash, CHR ''f'']
      else if c = CHR 0x0A then [backslash, CHR ''n'']
      else if c = CHR 0x0D then [backslash, CHR ''r'']
      else if c = CHR 0x09 then [backslash, CHR ''t'']
      else if (of_char c :: nat) < 0x20 then
        [backslash, CHR ''u'', CHR ''0'', CHR ''0'', hex_lower (of_char c div 16), hex_lower (of_char c mod 16)]
      else [c])"

definition escape_reason :: "string \<Rightarrow> string" where
  "escape_reason reason = concat (map escape_reason_char reason)"

definition SessionEndLine :: "string \<Rightarrow> string" where
  "SessionEndLine reason = object_line ''session_end'' [(''reason'', [quote_char] @ escape_reason reason @ [quote_char])]"

definition ClockSyncLine :: "u64 \<Rightarrow> u64 \<Rightarrow> u64 \<Rightarrow> u64 option \<Rightarrow> string" where
  "ClockSyncLine device_send host_receive host_send device_receive =
     object_line ''clock_sync''
       ([(''device_send_ns'', number device_send), (''host_receive_ns'', number host_receive),
         (''host_send_ns'', number host_send)] @
        (case device_receive of None \<Rightarrow> [] | Some t \<Rightarrow> [(''device_receive_ns'', number t)]) @
        [(''complete'', boolean (device_receive \<noteq> None))])"

definition InputTransportLine :: "u64 \<Rightarrow> u64 \<Rightarrow> u64 \<Rightarrow> u32 \<Rightarrow> string" where
  "InputTransportLine send_ns receive_ns latency_us active_pointers =
     object_line ''input_transport''
       [(''input_send_ns'', number send_ns), (''input_receive_ns'', number receive_ns),
        (''latency_us'', number latency_us), (''active_pointers'', number32 active_pointers)]"

definition VideoSampleLine :: "u64 \<Rightarrow> u64 \<Rightarrow> u64 \<Rightarrow> u32 \<Rightarrow> u64 \<Rightarrow> u64 \<Rightarrow> string" where
  "VideoSampleLine capture presentation sequence queue_depth replaced_frames stream_resets =
     object_line ''video_sample''
       [(''capture_timestamp_ns'', number capture), (''presentation_timestamp_ns'', number presentation),
        (''sequence'', number sequence), (''queue_depth'', number32 queue_depth),
        (''replaced_frames'', number replaced_frames), (''stream_resets'', number stream_resets)]"

definition CaptureLine :: "u64 \<Rightarrow> u64 \<Rightarrow> u64 \<Rightarrow> u64 \<Rightarrow> u64 \<Rightarrow> u64 \<Rightarrow> string" where
  "CaptureLine timestamp sequence acquire_us gpu_copy_us queue_age_us replaced_frames =
     object_line ''capture''
       [(''timestamp_ns'', number timestamp), (''sequence'', number sequence),
        (''acquire_duration_us'', number acquire_us), (''gpu_copy_duration_us'', number gpu_copy_us),
        (''queue_age_us'', number queue_age_us), (''queue_depth'', ''0''),
        (''replaced_frames'', number replaced_frames)]"

definition EncodeLine :: "u64 \<Rightarrow> u64 \<Rightarrow> u64 \<Rightarrow> u64 \<Rightarrow> u64 \<Rightarrow> bool \<Rightarrow> string" where
  "EncodeLine timestamp sequence conversion_us encode_us capture_to_encode_us idr =
     object_line ''video_encode''
       [(''timestamp_ns'', number timestamp), (''sequence'', number sequence),
        (''conversion_duration_us'', number conversion_us), (''encode_duration_us'', number encode_us),
        (''capture_to_encode_us'', number capture_to_encode_us), (''idr'', boolean idr)]"

text \<open>\<open>std::to_string\<close> of a \<open>double\<close> that is not negative: six digits after the point, rounded to even.\<close>

definition double_string :: "rat \<Rightarrow> string" where
  "double_string r =
     (let n = nat (round_even (r * 1000000)); digits = decimal (n mod 1000000)
      in decimal (n div 1000000) @ ''.'' @ replicate (6 - length digits) (CHR ''0'') @ digits)"

definition SoakLine :: "u64 \<Rightarrow> u32 \<Rightarrow> u32 \<Rightarrow> u64 \<Rightarrow> u64 \<Rightarrow> rat option \<Rightarrow> string" where
  "SoakLine timestamp queue_depth active_pointers crashes stream_resets latency_ms =
     object_line ''soak''
       ([(''timestamp_ns'', number timestamp), (''queue_depth'', number32 queue_depth),
         (''active_pointers'', number32 active_pointers), (''crashes'', number crashes),
         (''stream_resets'', number stream_resets)] @
        (case latency_ms of None \<Rightarrow> [] | Some l \<Rightarrow> [(''latency_ms'', double_string l)]))"

section \<open>A reason can be read back\<close>

text \<open>The characters of a JSON string (RFC 8259), up to the quote that ends it; a \<open>\u\<close> escape of a character
  below 128 is one byte.\<close>

definition hex_value :: "char \<Rightarrow> nat option" where
  "hex_value c =
     (let n = of_char c in
      if 48 \<le> n \<and> n \<le> 57 then Some (n - 48) else if 97 \<le> n \<and> n \<le> 102 then Some (n - 87)
      else if 65 \<le> n \<and> n \<le> 70 then Some (n - 55) else None)"

definition unicode_byte :: "nat option \<Rightarrow> nat option \<Rightarrow> nat option \<Rightarrow> nat option \<Rightarrow> char option" where
  "unicode_byte a b h l =
     (case (h, l) of
        (Some x, Some y) \<Rightarrow> if a = Some 0 \<and> b = Some 0 \<and> x < 8 then Some (char_of (16 * x + y)) else None
      | _ \<Rightarrow> None)"

fun json_string_value :: "string \<Rightarrow> (string \<times> string) option" where
  "json_string_value [] = None"
| "json_string_value (c # r) =
     (if c = quote_char then Some ([], r)
      else if (of_char c :: nat) < 0x20 then None
      else if c \<noteq> backslash then map_option (\<lambda>(s, r). (c # s, r)) (json_string_value r)
      else (case r of
          [] \<Rightarrow> None
        | e # r1 \<Rightarrow>
            if e = CHR ''u'' then
              (case r1 of
                 a # b # h # l # r' \<Rightarrow>
                   (case unicode_byte (hex_value a) (hex_value b) (hex_value h) (hex_value l) of
                      None \<Rightarrow> None
                    | Some v \<Rightarrow> map_option (\<lambda>(s, r). (v # s, r)) (json_string_value r'))
               | _ \<Rightarrow> None)
            else
              (case escape_value e of
                 None \<Rightarrow> None
               | Some v \<Rightarrow> map_option (\<lambda>(s, r). (v # s, r)) (json_string_value r1))))"

declare json_string_value.simps(2) [simp del]

lemma hex_value_lower: "n < 16 \<Longrightarrow> hex_value (hex_lower n) = Some n"
proof -
  have "list_all (\<lambda>n. hex_value (hex_lower n) = Some n) [0..<16]"
    by (simp add: upt_rec hex_lower_def hex_value_def)
  then show "n < 16 \<Longrightarrow> ?thesis" by (simp add: list_all_iff)
qed

lemma reason_char_read:
  "json_string_value (escape_reason_char c @ r) = map_option (\<lambda>(s, r). (c # s, r)) (json_string_value r)"
proof -
  consider "c = quote_char" | "c = backslash" | "c = CHR 0x08" | "c = CHR 0x0C" | "c = CHR 0x0A" | "c = CHR 0x0D"
    | "c = CHR 0x09" | "\<not> (of_char c :: nat) < 32" "c \<noteq> quote_char" "c \<noteq> backslash"
    | "(of_char c :: nat) < 32" "c \<noteq> CHR 0x08" "c \<noteq> CHR 0x0C" "c \<noteq> CHR 0x0A" "c \<noteq> CHR 0x0D" "c \<noteq> CHR 0x09"
    by blast
  then show ?thesis
  proof cases
    case 8
    then have "escape_reason_char c = [c]" by (auto simp: escape_reason_char_def)
    with 8 show ?thesis by (simp add: json_string_value.simps(2))
  next
    case 9
    from 9(1) have c: "c \<noteq> quote_char" "c \<noteq> backslash" by auto
    let ?h = "hex_lower (of_char c div 16)" and ?l = "hex_lower (of_char c mod 16)"
    have hex: "hex_value ?h = Some (of_char c div 16)" "hex_value ?l = Some (of_char c mod 16)" "hex_value (CHR ''0'') = Some 0"
      using 9(1) by (simp_all add: hex_value_lower) (simp add: hex_value_def)
    have "16 * (of_char c div 16) + of_char c mod 16 = (of_char c :: nat)" by simp
    then have v: "unicode_byte (Some 0) (Some 0) (Some (of_char c div 16)) (Some (of_char c mod 16)) = Some c"
      using 9(1) by (simp add: unicode_byte_def)
    have "escape_reason_char c = [backslash, CHR ''u'', CHR ''0'', CHR ''0'', ?h, ?l]"
      using 9 c by (simp add: escape_reason_char_def)
    then show ?thesis by (simp add: json_string_value.simps(2) hex v)
  qed (simp_all add: escape_reason_char_def escape_value_def json_string_value.simps(2))
qed

lemma escape_reason_read: "json_string_value (escape_reason s @ quote_char # r) = Some (s, r)"
proof (induction s)
  case (Cons c s)
  then show ?case by (simp add: escape_reason_def reason_char_read)
qed (simp add: escape_reason_def json_string_value.simps(2))


text \<open>A line has no line break inside.\<close>

lemma decimal_printable: "list_all (\<lambda>c. 32 \<le> (of_char c :: nat)) (decimal n)"
  using decimal_digits [of n] by (auto simp: list_all_iff is_digit_def)

lemma escape_reason_printable: "list_all (\<lambda>c. 32 \<le> (of_char c :: nat)) (escape_reason s)"
proof -
  have "list_all (\<lambda>c. 32 \<le> (of_char c :: nat)) (map hex_lower [0..<16])" by (simp add: upt_rec hex_lower_def)
  then have hex: "32 \<le> (of_char (hex_lower n) :: nat)" if "n < 16" for n
    using that by (simp add: list_all_iff)
  have "list_all (\<lambda>c. 32 \<le> (of_char c :: nat)) (escape_reason_char c)" for c
    by (auto simp: escape_reason_char_def hex)
  then show ?thesis by (induction s) (simp_all add: escape_reason_def)
qed

lemma object_line_printable:
  assumes "list_all (\<lambda>c. 32 \<le> (of_char c :: nat)) kind"
    and "list_all (\<lambda>(name, v). list_all (\<lambda>c. 32 \<le> (of_char c :: nat)) (name @ v)) fields"
  shows "list_all (\<lambda>c. 32 \<le> (of_char c :: nat)) (object_line kind fields)"
proof -
  have "list_all (\<lambda>c. 32 \<le> (of_char c :: nat)) (concat (map (\<lambda>(name, v). CHR '','' # field name v) fields))"
    using assms(2) by (induction fields) (auto simp: field_def)
  with assms(1) show ?thesis by (simp add: object_line_def field_def)
qed


section \<open>The log file\<close>

type_synonym file_system = "string \<Rightarrow> string option"

definition kMaximumBytes :: nat where "kMaximumBytes = 4 * 1024 * 1024"
definition kRetainedRotations :: nat where "kRetainedRotations = 3"

text \<open>\<open>tw_open\<close>: the stream is open; \<open>tw_good\<close>: it has not failed. A write is flushed at once.\<close>

record Writer =
  tw_path :: string
  tw_open :: bool
  tw_good :: bool
  tw_bytes :: nat
  tw_marker :: bool

definition writer_for :: "string \<Rightarrow> Writer" where
  "writer_for path = \<lparr>tw_path = path, tw_open = False, tw_good = True, tw_bytes = 0, tw_marker = False\<rparr>"

definition CloseStream :: "Writer \<Rightarrow> Writer" where
  "CloseStream w = w\<lparr>tw_open := False, tw_good := True, tw_bytes := 0\<rparr>"

text \<open>What the calls of one opening answer: whether the directory is there, the size can be asked for, and the
  stream opens.\<close>

record OpenLogAnswers =
  ol_directory :: bool
  ol_exists :: bool
  ol_size :: bool
  ol_stream :: bool

definition OpenForAppend :: "OpenLogAnswers \<Rightarrow> Writer \<times> file_system \<Rightarrow> bool \<times> Writer \<times> file_system" where
  "OpenForAppend ans = (\<lambda>(w, fs).
     if tw_open w then (if tw_good w then (True, w, fs) else (False, CloseStream w, fs))
     else if \<not> ol_directory ans then (False, w, fs)
     else if \<not> ol_exists ans then (False, w, fs)
     else
       let existing = (case fs (tw_path w) of None \<Rightarrow> 0 | Some content \<Rightarrow> length content) in
       if fs (tw_path w) \<noteq> None \<and> \<not> ol_size ans then (False, w, fs)
       else if \<not> ol_stream ans then (False, w\<lparr>tw_good := True, tw_bytes := 0\<rparr>, fs)
       else (True, w\<lparr>tw_open := True, tw_good := True, tw_bytes := existing\<rparr>,
             if fs (tw_path w) = None then fs(tw_path w := Some []) else fs))"

text \<open>\<open>flushed\<close> is the state of the stream after its flush.\<close>

definition FlushStream :: "bool \<Rightarrow> Writer \<Rightarrow> bool \<times> Writer" where
  "FlushStream flushed w =
     (if \<not> tw_open w then (True, w)
      else if flushed \<and> tw_good w then (True, w) else (False, CloseStream w))"

definition rotated :: "string \<Rightarrow> nat \<Rightarrow> string" where
  "rotated path index = (if index = 0 then path else path @ ''.'' @ decimal index)"

record ShiftAnswers =
  sh_remove :: bool
  sh_exists :: bool
  sh_rename :: bool

text \<open>The loop from \<open>index\<close> down to one; \<open>False\<close> where it is left because a call failed.\<close>

fun shift_files :: "(nat \<Rightarrow> ShiftAnswers) \<Rightarrow> string \<Rightarrow> nat \<Rightarrow> file_system \<Rightarrow> bool \<times> file_system" where
  "shift_files answers path 0 fs = (True, fs)"
| "shift_files answers path (Suc n) fs =
     (let ans = answers (Suc n) in
      if \<not> sh_remove ans then (False, fs)
      else
        let fs = fs(rotated path (Suc n) := None) in
        if \<not> sh_exists ans then (False, fs)
        else case fs (rotated path n) of
          None \<Rightarrow> shift_files answers path n fs
        | Some content \<Rightarrow>
            if \<not> sh_rename ans then (False, fs)
            else shift_files answers path n (fs(rotated path n := None, rotated path (Suc n) := Some content)))"

record WriteAnswers =
  wl_open :: OpenLogAnswers
  wl_flush :: bool
  wl_shift :: "nat \<Rightarrow> ShiftAnswers"
  wl_reopen :: OpenLogAnswers
  wl_written :: "nat option"

definition RotateIfNeeded ::
  "WriteAnswers \<Rightarrow> nat \<Rightarrow> Writer \<times> file_system \<Rightarrow> bool \<times> Writer \<times> file_system" where
  "RotateIfNeeded ans incoming_bytes = (\<lambda>(w, fs).
     if tw_bytes w = 0 \<or> incoming_bytes \<le> kMaximumBytes - (if tw_bytes w < kMaximumBytes then tw_bytes w else kMaximumBytes)
     then (True, w, fs)
     else case FlushStream (wl_flush ans) w of (flushed, w) \<Rightarrow>
       if \<not> flushed then (False, w, fs)
       else OpenForAppend (wl_reopen ans)
              (CloseStream w, snd (shift_files (wl_shift ans) (tw_path w) kRetainedRotations fs)))"

definition append_file :: "string \<Rightarrow> string \<Rightarrow> file_system \<Rightarrow> file_system" where
  "append_file path content fs =
     fs(path := Some ((case fs path of None \<Rightarrow> [] | Some old \<Rightarrow> old) @ content))"

abbreviation newline_char :: char where "newline_char \<equiv> CHR 0x0A"

text \<open>\<open>wl_written\<close> is how much of the line reaches the file when the stream fails.\<close>

definition WriteLine :: "WriteAnswers \<Rightarrow> string \<Rightarrow> Writer \<times> file_system \<Rightarrow> Writer \<times> file_system" where
  "WriteLine ans line s =
     (if line = [] then s
      else case OpenForAppend (wl_open ans) s of (opened, s) \<Rightarrow>
        if \<not> opened then s
        else case RotateIfNeeded ans (length line + 1) s of (ready, w, fs) \<Rightarrow>
          if \<not> ready then (w, fs)
          else case wl_written ans of
            Some n \<Rightarrow> (CloseStream w, append_file (tw_path w) (take n (line @ [newline_char])) fs)
          | None \<Rightarrow> (w\<lparr>tw_bytes := tw_bytes w + (length line + 1)\<rparr>,
                     append_file (tw_path w) (line @ [newline_char]) fs))"

section \<open>What the log keeps\<close>

text \<open>The files of the log, the oldest first, as the lines they hold.\<close>

definition file_lines :: "string list \<Rightarrow> string" where
  "file_lines ls = concat (map (\<lambda>l. l @ [newline_char]) ls)"

definition holds :: "file_system \<Rightarrow> string \<Rightarrow> string list \<Rightarrow> bool" where
  "holds fs path ls \<longleftrightarrow> (case fs path of None \<Rightarrow> ls = [] | Some content \<Rightarrow> content = file_lines ls) \<and>
                        length (file_lines ls) \<le> kMaximumBytes"

text \<open>Every call succeeds.\<close>

definition log_works :: "WriteAnswers \<Rightarrow> bool" where
  "log_works ans \<longleftrightarrow> (\<forall>o' \<in> {wl_open ans, wl_reopen ans}. ol_directory o' \<and> ol_exists o' \<and> ol_size o' \<and> ol_stream o') \<and>
     wl_flush ans \<and> (\<forall>i. sh_remove (wl_shift ans i) \<and> sh_exists (wl_shift ans i) \<and> sh_rename (wl_shift ans i)) \<and>
     wl_written ans = None"

definition log_state :: "string \<Rightarrow> string list \<Rightarrow> Writer \<times> file_system \<Rightarrow> bool" where
  "log_state path kept = (\<lambda>(w, fs). tw_path w = path \<and> tw_good w \<and>
     (tw_open w \<longrightarrow> (\<exists>content. fs path = Some content \<and> tw_bytes w = length content)) \<and>
     (\<exists>l3 l2 l1 l0. kept = l3 @ l2 @ l1 @ l0 \<and> holds fs (rotated path 3) l3 \<and> holds fs (rotated path 2) l2 \<and>
        holds fs (rotated path 1) l1 \<and> holds fs path l0))"

lemma rotated_distinct [simp]:
  "rotated p 0 = p" "rotated p (Suc 0) \<noteq> p" "rotated p 2 \<noteq> p" "rotated p 3 \<noteq> p"
  "p \<noteq> rotated p (Suc 0)" "p \<noteq> rotated p 2" "p \<noteq> rotated p 3"
  "rotated p (Suc 0) \<noteq> rotated p 2" "rotated p (Suc 0) \<noteq> rotated p 3" "rotated p 2 \<noteq> rotated p 3"
  "rotated p 2 \<noteq> rotated p (Suc 0)" "rotated p 3 \<noteq> rotated p (Suc 0)" "rotated p 3 \<noteq> rotated p 2"
  by (simp_all add: rotated_def)

definition open_works :: "OpenLogAnswers \<Rightarrow> bool" where
  "open_works ans \<longleftrightarrow> ol_directory ans \<and> ol_exists ans \<and> ol_size ans \<and> ol_stream ans"

lemma shift_all:
  assumes "\<And>i. sh_remove (answers i) \<and> sh_exists (answers i) \<and> sh_rename (answers i)"
  shows "shift_files answers p kRetainedRotations fs =
    (True, fs(rotated p 3 := fs (rotated p 2), rotated p 2 := fs (rotated p 1), rotated p 1 := fs p, p := None))"
proof -
  have step: "shift_files answers p (Suc n) fs =
      shift_files answers p n (fs(rotated p (Suc n) := fs (rotated p n), rotated p n := None))"
    if "rotated p n \<noteq> rotated p (Suc n)" for n fs
    using assms that by (auto simp: Let_def fun_upd_twist fun_upd_idem split: option.splits)
  note [simp del] = shift_files.simps(2)
  have "shift_files answers p 3 fs = shift_files answers p 2 (fs(rotated p 3 := fs (rotated p 2), rotated p 2 := None))"
    using step [of 2 fs] by simp
  also have "\<dots> = shift_files answers p 1
      (fs(rotated p 3 := fs (rotated p 2), rotated p 2 := fs (rotated p 1), rotated p 1 := None))"
    using step [of 1] by (simp add: numeral_2_eq_2 [symmetric] fun_upd_twist)
  also have "\<dots> = (True, fs(rotated p 3 := fs (rotated p 2), rotated p 2 := fs (rotated p 1), rotated p 1 := fs p, p := None))"
    using step [of 0] by (simp add: shift_files.simps(1))
  finally show ?thesis by (simp add: kRetainedRotations_def)
qed

lemma open_log:
  assumes "open_works ans" and "tw_good w" and "tw_open w \<Longrightarrow> \<exists>c. fs (tw_path w) = Some c \<and> tw_bytes w = length c"
  shows "\<exists>w' c. OpenForAppend ans (w, fs) = (True, w', fs(tw_path w := Some c)) \<and> tw_path w' = tw_path w \<and>
    tw_good w' \<and> tw_open w' \<and> tw_bytes w' = length c \<and> c = (case fs (tw_path w) of None \<Rightarrow> [] | Some c \<Rightarrow> c)"
  using assms by (auto simp: OpenForAppend_def open_works_def Let_def split: option.splits)

lemma file_lines_simps [simp]:
  "file_lines [] = []" "file_lines (xs @ ys) = file_lines xs @ file_lines ys" "file_lines [l] = l @ [newline_char]"
  by (simp_all add: file_lines_def)

lemma log_stateI:
  assumes "tw_path w = path" "tw_good w" "tw_open w" "fs path = Some (file_lines l0)" "tw_bytes w = length (file_lines l0)"
    and "holds fs (rotated path 3) l3" "holds fs (rotated path 2) l2" "holds fs (rotated path 1) l1"
    and "length (file_lines l0) \<le> kMaximumBytes"
  shows "log_state path (l3 @ l2 @ l1 @ l0) (w, fs)"
proof -
  have "holds fs path l0" using assms by (simp add: holds_def)
  with assms show ?thesis unfolding log_state_def by blast
qed

text \<open>One line is written: nothing but the oldest file is ever dropped.\<close>

lemma write_keeps:
  assumes "log_state path kept s" and "log_works ans" and line: "line \<noteq> []" "length line < kMaximumBytes"
  shows "\<exists>k. log_state path (drop k (kept @ [line])) (WriteLine ans line s)"
proof -
  obtain w fs where s: "s = (w, fs)" by fastforce
  from assms(1) obtain l3 l2 l1 l0 where kept: "kept = l3 @ l2 @ l1 @ l0"
    and h: "holds fs (rotated path 3) l3" "holds fs (rotated path 2) l2" "holds fs (rotated path 1) l1" "holds fs path l0"
    and w: "tw_path w = path" "tw_good w" "tw_open w \<longrightarrow> (\<exists>c. fs path = Some c \<and> tw_bytes w = length c)"
    unfolding log_state_def s by auto
  have good: "open_works (wl_open ans)" "open_works (wl_reopen ans)" "wl_flush ans" "wl_written ans = None"
    "\<And>i. sh_remove (wl_shift ans i) \<and> sh_exists (wl_shift ans i) \<and> sh_rename (wl_shift ans i)"
    using assms(2) by (auto simp: log_works_def open_works_def)
  obtain w1 c where o1: "OpenForAppend (wl_open ans) (w, fs) = (True, w1, fs(path := Some c))"
    "tw_path w1 = path" "tw_good w1" "tw_open w1" "tw_bytes w1 = length c"
    and c: "c = (case fs path of None \<Rightarrow> [] | Some c \<Rightarrow> c)"
    using open_log [OF good(1) w(2), of fs] w(1,3) by auto
  have c0: "c = file_lines l0" using c h(4) by (auto simp: holds_def split: option.splits)
  let ?fs = "fs(path := Some c)" and ?room = "tw_bytes w1 = 0 \<or> length line + 1 \<le>
      kMaximumBytes - (if tw_bytes w1 < kMaximumBytes then tw_bytes w1 else kMaximumBytes)"
  show ?thesis
  proof (cases ?room)
    case True
    have "length (file_lines (l0 @ [line])) \<le> kMaximumBytes"
      using True line o1(5) c0 by (auto split: if_splits)
    moreover have "WriteLine ans line s = (w1\<lparr>tw_bytes := tw_bytes w1 + (length line + 1)\<rparr>,
        append_file path (line @ [newline_char]) ?fs)"
      using line o1 True good(4) by (simp add: WriteLine_def s RotateIfNeeded_def)
    ultimately have "log_state path (l3 @ l2 @ l1 @ l0 @ [line]) (WriteLine ans line s)"
      using o1 h c0 by (auto intro!: log_stateI simp: append_file_def holds_def)
    then have "log_state path (kept @ [line]) (WriteLine ans line s)" using kept by simp
    then show ?thesis by (metis drop0)
  next
    case False
    let ?fs2 = "?fs(rotated path 3 := ?fs (rotated path 2), rotated path 2 := ?fs (rotated path 1),
                   rotated path 1 := ?fs path, path := None)"
    obtain w2 where o2: "OpenForAppend (wl_reopen ans) (CloseStream w1, ?fs2) = (True, w2, ?fs2(path := Some []))"
      "tw_path w2 = path" "tw_good w2" "tw_open w2" "tw_bytes w2 = 0"
      using open_log [OF good(2), of "CloseStream w1" ?fs2] o1(2) by (auto simp: CloseStream_def)
    have shift: "snd (shift_files (wl_shift ans) path kRetainedRotations ?fs) = ?fs2"
      using shift_all [of "wl_shift ans" path ?fs] good(5) by simp
    have rot: "RotateIfNeeded ans (length line + 1) (w1, ?fs) = (True, w2, ?fs2(path := Some []))"
      using False o1 o2 shift good(3) by (simp add: RotateIfNeeded_def FlushStream_def)
    have "WriteLine ans line s = (w2\<lparr>tw_bytes := tw_bytes w2 + (length line + 1)\<rparr>,
        append_file path (line @ [newline_char]) (?fs2(path := Some [])))"
      using line o1 rot o2 good(4) by (simp add: WriteLine_def s)
    then have "log_state path (l2 @ l1 @ l0 @ [line]) (WriteLine ans line s)"
      using line o2 h c0 by (auto intro!: log_stateI simp: append_file_def holds_def)
    moreover have "l2 @ l1 @ l0 @ [line] = drop (length l3) (kept @ [line])" using kept by simp
    ultimately show ?thesis by metis
  qed
qed

fun write_lines :: "(WriteAnswers \<times> string) list \<Rightarrow> Writer \<times> file_system \<Rightarrow> Writer \<times> file_system" where
  "write_lines [] s = s"
| "write_lines ((ans, line) # xs) s = write_lines xs (WriteLine ans line s)"

text \<open>What is on disk, the oldest first.\<close>

definition retained :: "file_system \<Rightarrow> string \<Rightarrow> string" where
  "retained fs path = concat (map (\<lambda>i. case fs (rotated path i) of None \<Rightarrow> [] | Some content \<Rightarrow> content) [3, 2, 1, 0])"

lemma write_lines_keeps:
  "log_state path kept s \<Longrightarrow> list_all (\<lambda>(ans, l). log_works ans \<and> l \<noteq> [] \<and> length l < kMaximumBytes) xs \<Longrightarrow>
   \<exists>k. log_state path (drop k (kept @ map snd xs)) (write_lines xs s)"
proof (induction xs arbitrary: kept s)
  case Nil
  then show ?case by (metis append_Nil2 drop0 list.simps(8) write_lines.simps(1))
next
  case (Cons x xs)
  obtain ans line where x: "x = (ans, line)" by fastforce
  obtain k where "log_state path (drop k (kept @ [line])) (WriteLine ans line s)"
    using write_keeps [OF Cons.prems(1), of ans line] Cons.prems(2) x by auto
  then obtain k' where k': "log_state path (drop k' (drop k (kept @ [line]) @ map snd xs)) (write_lines (x # xs) s)"
    using Cons.IH Cons.prems(2) x by fastforce
  have "\<exists>n. drop k' (drop k ys @ zs) = drop n (ys @ zs)" for ys zs :: "string list"
  proof (cases "k \<le> length ys")
    case True
    then have "drop k' (drop k ys @ zs) = drop (k' + k) (ys @ zs)" by (simp add: add.commute flip: drop_drop)
    then show ?thesis by blast
  next
    case False
    then have "drop k' (drop k ys @ zs) = drop (length ys + k') (ys @ zs)" by simp
    then show ?thesis by blast
  qed
  from this [of "kept @ [line]" "map snd xs"] k' show ?case using x by (metis append.assoc append_Cons append_Nil list.simps(9) snd_conv)
qed



definition working :: WriteAnswers where
  "working = \<lparr>wl_open = \<lparr>ol_directory = True, ol_exists = True, ol_size = True, ol_stream = True\<rparr>, wl_flush = True,
     wl_shift = (\<lambda>_. \<lparr>sh_remove = True, sh_exists = True, sh_rename = True\<rparr>),
     wl_reopen = \<lparr>ol_directory = True, ol_exists = True, ol_size = True, ol_stream = True\<rparr>, wl_written = None\<rparr>"


section \<open>Runs and exports\<close>

definition marker_path :: "string \<Rightarrow> string" where "marker_path path = path @ ''.running''"
definition count_path :: "string \<Rightarrow> string" where "count_path path = path @ ''.crashes''"

text \<open>Reading an unsigned number from a stream: zero when there is none, the largest when it is too big.\<close>

definition read_u64 :: "string \<Rightarrow> u64" where
  "read_u64 content =
     (let s = dropWhile is_space content;
          negative = (s \<noteq> [] \<and> hd s = CHR ''-'');
          s = (if s \<noteq> [] \<and> (hd s = CHR ''-'' \<or> hd s = CHR ''+'') then tl s else s);
          v = decimal_value (takeWhile is_digit s)
      in if v \<ge> 2 ^ 64 then - 1 else if negative then - of_nat v else of_nat v)"

record BeginRunAnswers =
  br_directory :: bool
  br_count_opens :: bool
  br_exists :: bool
  br_count_writes :: bool
  br_marker_writes :: bool

definition BeginRun :: "BeginRunAnswers \<Rightarrow> Writer \<times> file_system \<Rightarrow> u64 \<times> Writer \<times> file_system" where
  "BeginRun ans = (\<lambda>(w, fs).
     if \<not> br_directory ans then (0, w, fs)
     else
       let marker = marker_path (tw_path w); counts = count_path (tw_path w);
           count = (case fs counts of Some content \<Rightarrow> if br_count_opens ans then read_u64 content else 0 | None \<Rightarrow> 0);
           count = (if fs marker \<noteq> None \<and> br_exists ans \<and> count \<noteq> - 1 then count + 1 else count);
           fs = (if br_count_writes ans then fs(counts := Some (decimal (unat count))) else fs)
       in (count,
           if br_marker_writes ans then (w\<lparr>tw_marker := True\<rparr>, fs(marker := Some (''running'' @ [newline_char])))
           else (w, fs)))"

definition EndRun :: "bool \<Rightarrow> bool \<Rightarrow> Writer \<times> file_system \<Rightarrow> Writer \<times> file_system" where
  "EndRun flushed removed = (\<lambda>(w, fs).
     let w = snd (FlushStream flushed w) in
     if \<not> tw_marker w then (w, fs)
     else (w\<lparr>tw_marker := False\<rparr>, if removed then fs(marker_path (tw_path w) := None) else fs))"

record CopyAnswers =
  cp_flush :: bool
  cp_exists :: bool
  cp_directory :: bool
  cp_source :: bool
  cp_target :: bool
  cp_copied :: "nat option"

text \<open>Inserting an empty stream buffer makes the target fail: an empty log is not exported.\<close>

definition CopyTo :: "CopyAnswers \<Rightarrow> string \<Rightarrow> Writer \<times> file_system \<Rightarrow> unit result \<times> Writer \<times> file_system" where
  "CopyTo ans destination = (\<lambda>(w, fs).
     if destination = tw_path w then (Inr (), w, fs)
     else case FlushStream (cp_flush ans) w of (flushed, w) \<Rightarrow>
       if \<not> flushed then (Inl ''cannot flush telemetry file'', w, fs)
       else case (if cp_exists ans then fs (tw_path w) else None) of
         None \<Rightarrow> (Inl ''telemetry file does not exist'', w, fs)
       | Some content \<Rightarrow>
           if \<not> cp_directory ans then (Inl ''cannot create telemetry export directory'', w, fs)
           else
             let fs = (if cp_target ans then fs(destination := Some []) else fs) in
             if \<not> cp_source ans \<or> \<not> cp_target ans then (Inl ''cannot open telemetry export'', w, fs)
             else if content = [] then (Inl ''cannot write telemetry export'', w, fs)
             else case cp_copied ans of
               Some n \<Rightarrow> (Inl ''cannot write telemetry export'', w, fs(destination := Some (take n content)))
             | None \<Rightarrow> (Inr (), w, fs(destination := Some content)))"

lemma copy_is_the_log:
  "CopyTo ans destination (w, fs) = (Inr (), w', fs') \<Longrightarrow> destination \<noteq> tw_path w \<Longrightarrow>
   fs' destination = fs (tw_path w) \<and> fs (tw_path w) \<noteq> None"
  by (auto simp: CopyTo_def Let_def FlushStream_def split: if_splits option.splits prod.splits)

text \<open>The crash count: runs that did not end leave the marker, and each later start counts it once.\<close>

lemma read_u64_decimal: "read_u64 (decimal (unat v)) = v"
proof -
  obtain c cs where c: "decimal (unat v) = c # cs" using decimal_not_Nil by (metis neq_Nil_conv)
  have digits: "list_all is_digit (c # cs)" using decimal_digits [of "unat v"] c by simp
  then have start: "\<not> is_space c" "c \<noteq> CHR ''-''" "c \<noteq> CHR ''+''"
    by (auto simp: is_digit_def is_space_def)
  have "takeWhile is_digit (c # cs) = c # cs" using digits by (metis list_all_iff takeWhile_eq_all_conv)
  moreover have "decimal_value (c # cs) = unat v" using decimal_value_decimal [of "unat v"] c by simp
  moreover have "\<not> 2 ^ 64 \<le> unat v" using unsigned_less [of v, where 'a = nat] by simp
  ultimately show ?thesis using start c by (simp add: read_u64_def Let_def)
qed

definition begin_works :: "BeginRunAnswers \<Rightarrow> bool" where
  "begin_works ans \<longleftrightarrow> br_directory ans \<and> br_count_opens ans \<and> br_exists ans \<and> br_count_writes ans \<and> br_marker_writes ans"

text \<open>One process: it begins a run, and ends it or crashes; \<open>fs\<close> is what is left on disk.\<close>

definition process_run :: "BeginRunAnswers \<Rightarrow> bool \<Rightarrow> string \<Rightarrow> file_system \<Rightarrow> u64 \<times> file_system" where
  "process_run ans ended path fs =
     (case BeginRun ans (writer_for path, fs) of (count, s) \<Rightarrow>
        (count, snd (if ended then EndRun True True s else s)))"

fun process_runs :: "(BeginRunAnswers \<times> bool) list \<Rightarrow> string \<Rightarrow> file_system \<Rightarrow> file_system" where
  "process_runs [] path fs = fs"
| "process_runs ((ans, ended) # xs) path fs = process_runs xs path (snd (process_run ans ended path fs))"

definition crashes :: "bool list \<Rightarrow> nat" where
  "crashes ends = length (filter Not ends)"

text \<open>\<open>counted\<close> is the count on disk, \<open>left\<close> whether the last run left its marker.\<close>

definition crash_state :: "string \<Rightarrow> nat \<Rightarrow> file_system \<Rightarrow> bool" where
  "crash_state path n fs \<longleftrightarrow>
     n = (case fs (count_path path) of Some content \<Rightarrow> unat (read_u64 content) | None \<Rightarrow> 0) +
         (if fs (marker_path path) \<noteq> None then 1 else 0)"

lemma crash_paths [simp]: "marker_path p \<noteq> count_path p" "count_path p \<noteq> marker_path p"
  by (simp_all add: marker_path_def count_path_def)

lemma process_run_count:
  assumes "crash_state path n fs" and "n + 1 < 2 ^ 64" and "begin_works ans"
  shows "unat (fst (process_run ans ended path fs)) = n"
    and "crash_state path (if ended then n else n + 1) (snd (process_run ans ended path fs))"
proof -
  obtain c0 where c0: "c0 = (case fs (count_path path) of Some content \<Rightarrow> read_u64 content | None \<Rightarrow> 0)" by blast
  let ?c = "if fs (marker_path path) \<noteq> None then c0 + 1 else c0"
  have n: "n = unat c0 + (if fs (marker_path path) \<noteq> None then 1 else 0)"
    using assms(1) c0 by (auto simp: crash_state_def split: option.splits)
  then have small: "Suc (unat c0) < 2 ^ 64" using assms(2) by simp
  then have no_max: "c0 \<noteq> - 1" by (auto simp: unsigned_minus_1_eq_mask mask_eq_exp_minus_1)
  have "unat (c0 + 1) = Suc (unat c0)" using small by (simp add: unat_word_ariths)
  then have count: "unat ?c = n" using n by simp
  have b: "BeginRun ans (writer_for path, fs) =
      (?c, (writer_for path)\<lparr>tw_marker := True\<rparr>,
       fs(count_path path := Some (decimal (unat ?c)), marker_path path := Some (''running'' @ [newline_char])))"
    using assms(3) no_max c0 by (auto simp: BeginRun_def begin_works_def Let_def writer_for_def split: option.splits)
  show "unat (fst (process_run ans ended path fs)) = n"
    unfolding process_run_def b using count by simp
  show "crash_state path (if ended then n else n + 1) (snd (process_run ans ended path fs))"
    unfolding process_run_def b using read_u64_decimal [of ?c] count
    by (simp add: EndRun_def FlushStream_def writer_for_def crash_state_def)
qed

lemma process_runs_count:
  "crash_state path n fs \<Longrightarrow> list_all (\<lambda>(ans, _). begin_works ans) xs \<Longrightarrow> n + length xs < 2 ^ 64 \<Longrightarrow>
   crash_state path (n + crashes (map snd xs)) (process_runs xs path fs)"
proof (induction xs arbitrary: n fs)
  case (Cons x xs)
  obtain ans ended where x: "x = (ans, ended)" by fastforce
  have "crash_state path (if ended then n else n + 1) (snd (process_run ans ended path fs))"
    using process_run_count(2) [OF Cons.prems(1)] Cons.prems(2,3) x by simp
  then have "crash_state path ((if ended then n else n + 1) + crashes (map snd xs))
      (process_runs xs path (snd (process_run ans ended path fs)))"
    using Cons.prems x by (intro Cons.IH) auto
  then show ?case using x by (auto simp: crashes_def)
qed (simp add: crashes_def)


definition fine_run :: BeginRunAnswers where
  "fine_run = \<lparr>br_directory = True, br_count_opens = True, br_exists = True, br_count_writes = True, br_marker_writes = True\<rparr>"


end
