(* ===== verification/ServerState.thy ===== *)
theory ServerState
  imports Telemetry InputProbe Resolution Monitors InputAdapter
begin

text \<open>
  The parts of \<open>app/desktop_server.cpp\<close> and \<open>app/desktop_server.h\<close> that need neither sockets nor threads:
  the status shown to the user and the release gate, the clock synchronisation that is pending, the pointers
  that touch, the two-second limit of a blocked video channel, the choice of the video size and the texts.
\<close>

section \<open>The status\<close>

datatype ServerPhase = kStopped | kStarting | kAwaitingAdb | kAwaitingClient | kActive | kDegraded

record ServerStatus =
  ss_phase :: ServerPhase
  ss_control_connected :: bool
  ss_video_connected :: bool
  ss_input_connected :: bool
  ss_injection_available :: bool
  ss_probe_completed :: bool
  ss_buttons_confirmed :: bool
  ss_release_ready :: bool
  ss_capture_started :: bool
  ss_session_id :: u64
  ss_frames_sent :: u64
  ss_stream_resets :: u64
  ss_rtt_us :: u32
  ss_video_latency_us :: u32
  ss_active_pointers :: u32
  ss_crash_count :: u64
  ss_probe_diagnostic :: string
  ss_diagnostic :: string

definition status_init :: ServerStatus where
  "status_init = \<lparr>ss_phase = kStopped, ss_control_connected = False, ss_video_connected = False,
     ss_input_connected = False, ss_injection_available = False, ss_probe_completed = False,
     ss_buttons_confirmed = False, ss_release_ready = False, ss_capture_started = False, ss_session_id = 0,
     ss_frames_sent = 0, ss_stream_resets = 0, ss_rtt_us = 0, ss_video_latency_us = 0, ss_active_pointers = 0,
     ss_crash_count = 0, ss_probe_diagnostic = [], ss_diagnostic = []\<rparr>"

section \<open>The release gate\<close>

definition IsAllButtonCapabilityPresent :: "u32 \<Rightarrow> bool" where
  "IsAllButtonCapabilityPresent caps =
     (let required = (push_bit 5 1 OR push_bit 6 1 OR push_bit 7 1 :: u32) in caps AND required = required)"

definition ComputeReleaseReady :: "bool \<Rightarrow> bool \<Rightarrow> bool \<Rightarrow> bool \<Rightarrow> bool \<Rightarrow> bool" where
  "ComputeReleaseReady probe_completed probe_buttons client_buttons injection capture \<longleftrightarrow>
     probe_completed \<and> probe_buttons \<and> client_buttons \<and> injection \<and> capture"

definition UpdateReleaseReadiness :: "u32 \<Rightarrow> ServerStatus \<Rightarrow> ServerStatus" where
  "UpdateReleaseReadiness caps st =
     (let client_buttons = IsAllButtonCapabilityPresent caps;
          st = st\<lparr>ss_release_ready := ComputeReleaseReady (ss_probe_completed st) (ss_buttons_confirmed st)
                 client_buttons (ss_injection_available st) (ss_capture_started st)\<rparr>
      in if \<not> ss_probe_completed st then st
         else st\<lparr>ss_diagnostic :=
           (if \<not> ss_buttons_confirmed st then
              ''authorized device probe did not confirm all three pen buttons; release readiness blocked''
            else if \<not> client_buttons then ''Android client reports unavailable pen buttons; release readiness blocked''
            else if \<not> ss_injection_available st then
              ''Windows synthetic pointer injection is unavailable; release readiness blocked''
            else if \<not> ss_capture_started st then ''display capture has not started; release readiness blocked''
            else if ss_release_ready st then ''all client and ADB input capabilities confirmed; release ready''
            else ''release readiness blocked'')\<rparr>)"

text \<open>The gate shows what its five conditions say.\<close>

definition gate_ok :: "u32 \<Rightarrow> ServerStatus \<Rightarrow> bool" where
  "gate_ok caps st \<longleftrightarrow> ss_release_ready st = ComputeReleaseReady (ss_probe_completed st)
     (ss_buttons_confirmed st) (IsAllButtonCapabilityPresent caps) (ss_injection_available st)
     (ss_capture_started st)"

lemma update_gate [simp]: "gate_ok c (UpdateReleaseReadiness c st)"
  by (simp add: gate_ok_def UpdateReleaseReadiness_def Let_def)

text \<open>The diagnostic never contradicts the gate: it reports readiness exactly when the gate is open, once the probe
  has completed.\<close>

lemma ready_diagnostic:
  "ss_probe_completed st \<Longrightarrow>
   ss_diagnostic (UpdateReleaseReadiness c st) = ''all client and ADB input capabilities confirmed; release ready'' \<longleftrightarrow>
   ss_release_ready (UpdateReleaseReadiness c st)"
  by (simp add: UpdateReleaseReadiness_def Let_def ComputeReleaseReady_def)

lemma update_keeps [simp]:
  "ss_phase (UpdateReleaseReadiness c st) = ss_phase st"
  "ss_control_connected (UpdateReleaseReadiness c st) = ss_control_connected st"
  "ss_video_connected (UpdateReleaseReadiness c st) = ss_video_connected st"
  "ss_input_connected (UpdateReleaseReadiness c st) = ss_input_connected st"
  "ss_injection_available (UpdateReleaseReadiness c st) = ss_injection_available st"
  "ss_probe_completed (UpdateReleaseReadiness c st) = ss_probe_completed st"
  "ss_buttons_confirmed (UpdateReleaseReadiness c st) = ss_buttons_confirmed st"
  "ss_capture_started (UpdateReleaseReadiness c st) = ss_capture_started st"
  "ss_session_id (UpdateReleaseReadiness c st) = ss_session_id st"
  "ss_frames_sent (UpdateReleaseReadiness c st) = ss_frames_sent st"
  "ss_stream_resets (UpdateReleaseReadiness c st) = ss_stream_resets st"
  "ss_active_pointers (UpdateReleaseReadiness c st) = ss_active_pointers st"
  "ss_crash_count (UpdateReleaseReadiness c st) = ss_crash_count st"
  by (simp_all add: UpdateReleaseReadiness_def Let_def)

section \<open>Clock synchronisation\<close>

record PendingClockSync =
  pcs_active :: bool
  pcs_consumed :: bool
  pcs_device_send :: u64
  pcs_host_receive :: u64
  pcs_host_send :: u64
  pcs_generation :: u64
  pcs_issued_at :: u64

definition ClearPendingClockSync :: PendingClockSync where
  "ClearPendingClockSync = \<lparr>pcs_active = False, pcs_consumed = False, pcs_device_send = 0, pcs_host_receive = 0,
     pcs_host_send = 0, pcs_generation = 0, pcs_issued_at = 0\<rparr>"

definition RecordPendingClockSync :: "u64 \<Rightarrow> u64 \<Rightarrow> u64 \<Rightarrow> u64 \<Rightarrow> u64 \<Rightarrow> PendingClockSync" where
  "RecordPendingClockSync device_send host_receive host_send generation issued_at =
     \<lparr>pcs_active = True, pcs_consumed = False, pcs_device_send = device_send, pcs_host_receive = host_receive,
      pcs_host_send = host_send, pcs_generation = generation, pcs_issued_at = issued_at\<rparr>"

text \<open>The completion carries the times at which the tablet sent the request, the host received it and answered,
  and the tablet received the answer; the empty text means that it was accepted.\<close>

definition ConsumeClockSyncComplete ::
  "u64 \<Rightarrow> u64 \<Rightarrow> u64 \<Rightarrow> u64 \<Rightarrow> u64 \<Rightarrow> u64 \<Rightarrow> PendingClockSync \<Rightarrow> string \<times> PendingClockSync" where
  "ConsumeClockSyncComplete device_send host_receive host_send device_receive generation now p =
     (if \<not> pcs_active p \<or> pcs_generation p \<noteq> generation then (''mismatched or no pending response'', p)
      else if now \<ge> pcs_issued_at p \<and> now - pcs_issued_at p > 10000000000 then
        (''stale response'', p\<lparr>pcs_active := False\<rparr>)
      else if \<not> (device_send = pcs_device_send p \<and> host_receive = pcs_host_receive p \<and> host_send = pcs_host_send p)
      then (''mismatched response'', p)
      else if pcs_consumed p then (''duplicate response'', p)
      else if device_receive < device_send \<or> host_send < host_receive \<or>
        device_receive - device_send < host_send - host_receive then (''invalid NTP timestamp ordering'', p)
      else ([], p\<lparr>pcs_consumed := True\<rparr>))"

section \<open>The pointers that touch\<close>

definition pointer_key :: "InputSample \<Rightarrow> u64" where
  "pointer_key s = push_bit 32 (ucast (tool s)) OR ucast (pointerId s)"

definition sample_touches :: "InputSample \<Rightarrow> bool" where
  "sample_touches s \<longleftrightarrow> contactFlags s AND FlagContact \<noteq> 0 \<and> contactFlags s AND FlagCancelled = 0"

definition UpdateActivePointers :: "InputBatch \<Rightarrow> u64 set \<Rightarrow> u64 set" where
  "UpdateActivePointers batch keys =
     fold (\<lambda>s keys. if sample_touches s then insert (pointer_key s) keys else keys - {pointer_key s})
       (samples batch) keys"

section \<open>A blocked video channel\<close>

datatype VideoBackpressureAction = kNone | kNotifyIdr | kEndSession

definition ObserveVideoBackpressure :: "int \<Rightarrow> bool \<times> int \<Rightarrow> VideoBackpressureAction \<times> bool \<times> int" where
  "ObserveVideoBackpressure now =
     (\<lambda>(idr_notified, first_blocked).
        let first_blocked = (if first_blocked = 0 then now else first_blocked) in
        if \<not> idr_notified then (kNotifyIdr, True, first_blocked)
        else (if now \<ge> first_blocked \<and> now - first_blocked \<ge> 2000000000 then kEndSession else kNone,
              idr_notified, first_blocked))"

definition ClearVideoBackpressure :: "bool \<times> int" where
  "ClearVideoBackpressure = (False, 0)"

section \<open>Texts and sizes\<close>

definition SteadyTimeNs :: "int \<Rightarrow> u64" where
  "SteadyTimeNs v = (if v = 0 then 0 else if v \<le> 0 then 0 else of_int v)"

fun hex_upper :: "nat \<Rightarrow> string" where
  "hex_upper n = (if n < 16 then [''0123456789ABCDEF'' ! n] else hex_upper (n div 16) @ [''0123456789ABCDEF'' ! (n mod 16)])"

declare hex_upper.simps [simp del]

definition HResultText :: "HRESULT \<Rightarrow> string" where
  "HResultText v = ''HRESULT 0x'' @ hex_upper (unat v)"

definition ToRotation :: "u16 \<Rightarrow> Rotation option" where
  "ToRotation degrees =
     (if degrees = 0 then Some Rot0 else if degrees = 90 then Some Rot90 else if degrees = 180 then Some Rot180
      else if degrees = 270 then Some Rot270 else None)"

definition MonitorSize :: "MonitorInfo \<Rightarrow> Size" where
  "MonitorSize monitor = \<lparr>sizeWidth = ucast (rect_right (mon_rect monitor) - rect_left (mon_rect monitor)),
     sizeHeight = ucast (rect_bottom (mon_rect monitor) - rect_top (mon_rect monitor))\<rparr>"

definition MonitorRect :: "MonitorInfo \<Rightarrow> PixelRect" where
  "MonitorRect monitor = \<lparr>pxLeft = sint (rect_left (mon_rect monitor)), pxTop = sint (rect_top (mon_rect monitor)),
     pxWidth = sint (rect_right (mon_rect monitor) - rect_left (mon_rect monitor)),
     pxHeight = sint (rect_bottom (mon_rect monitor) - rect_top (mon_rect monitor))\<rparr>"

definition fits_client :: "Size \<Rightarrow> ClientHello \<Rightarrow> u32 \<Rightarrow> bool" where
  "fits_client native hello edge =
     (let candidate = SelectEncodeResolution native edge
      in size_valid candidate \<and> sizeWidth candidate \<le> maxVideoWidth hello \<and> sizeHeight candidate \<le> maxVideoHeight hello)"

definition ChooseVideoSize :: "Size \<Rightarrow> ClientHello \<Rightarrow> (Size \<times> u32) option" where
  "ChooseVideoSize native hello =
     map_option (\<lambda>edge. (SelectEncodeResolution native edge, edge)) (List.find (fits_client native hello) kLongestEdgeLadder)"

definition ControlFrame :: "Control \<Rightarrow> u32 \<Rightarrow> Frame" where
  "ControlFrame control sequence =
     \<lparr>header = \<lparr>frameFlags = 0, frameSequence = sequence, frameType = TypeControl\<rparr>, payload = PControl control\<rparr>"

definition IsH264Supported :: "ClientHello \<Rightarrow> bool" where
  "IsH264Supported hello \<longleftrightarrow> videoCodecMask hello AND kCodecH264 \<noteq> 0"

fun CapabilityText :: "CapabilityAvailability \<Rightarrow> string" where
  "CapabilityText CapSupported = ''supported''"
| "CapabilityText CapUnsupported = ''unsupported''"
| "CapabilityText CapInaccessible = ''inaccessible''"
| "CapabilityText CapUnknown = ''unknown''"

definition ProbeSummary :: "InputProbeResult \<Rightarrow> string" where
  "ProbeSummary r =
     (let c = InputProbe.capabilities r in
      ''pressure='' @ CapabilityText (cap_pressure c) @ '', hover='' @ CapabilityText (cap_hover c) @
      '', tilt='' @ CapabilityText (cap_tilt c) @ '', distance='' @ CapabilityText (cap_distance c) @
      '', touch='' @ CapabilityText (cap_touch c) @ '', buttons='' @ CapabilityText (cap_buttons c ! 0) @ ''/'' @
      CapabilityText (cap_buttons c ! 1) @ ''/'' @ CapabilityText (cap_buttons c ! 2))"

end
