(* ===== verification/ClockSync.thy ===== *)
theory ClockSync
  imports ServerState
begin

text \<open>
  The clock synchronisation over a session: the host remembers the last request it answered, a completion is accepted
  when it answers that request, and the operations may come in any order.
\<close>

section \<open>The operations\<close>

record SyncRequest =
  rq_device_send :: u64
  rq_host_receive :: u64
  rq_host_send :: u64
  rq_generation :: u64
  rq_issued_at :: u64

record SyncCompletion =
  cm_device_send :: u64
  cm_host_receive :: u64
  cm_host_send :: u64
  cm_device_receive :: u64
  cm_generation :: u64
  cm_now :: u64

datatype ClockOp = Cleared | Recorded SyncRequest | Completed SyncCompletion

definition consume :: "SyncCompletion \<Rightarrow> PendingClockSync \<Rightarrow> string \<times> PendingClockSync" where
  "consume c = ConsumeClockSyncComplete (cm_device_send c) (cm_host_receive c) (cm_host_send c) (cm_device_receive c)
     (cm_generation c) (cm_now c)"

fun clock_step :: "ClockOp \<Rightarrow> PendingClockSync \<Rightarrow> PendingClockSync" where
  "clock_step Cleared p = ClearPendingClockSync"
| "clock_step (Recorded r) p =
     RecordPendingClockSync (rq_device_send r) (rq_host_receive r) (rq_host_send r) (rq_generation r) (rq_issued_at r)"
| "clock_step (Completed c) p = snd (consume c p)"

definition clock_after :: "ClockOp list \<Rightarrow> PendingClockSync" where
  "clock_after ops = fold clock_step ops ClearPendingClockSync"

definition clock_accepts :: "ClockOp list \<Rightarrow> SyncCompletion \<Rightarrow> bool" where
  "clock_accepts ops c \<longleftrightarrow> fst (consume c (clock_after ops)) = []"

section \<open>What a completion has to be\<close>

definition late :: "SyncRequest \<Rightarrow> SyncCompletion \<Rightarrow> bool" where
  "late r c \<longleftrightarrow> cm_generation c = rq_generation r \<and> rq_issued_at r \<le> cm_now c \<and> 10000000000 < cm_now c - rq_issued_at r"

text \<open>It repeats the three times of the request, comes in the same session and in time, and its round trip is not
  shorter than the time the host took.\<close>

definition answers :: "SyncRequest \<Rightarrow> SyncCompletion \<Rightarrow> bool" where
  "answers r c \<longleftrightarrow> cm_generation c = rq_generation r \<and> \<not> late r c \<and> cm_device_send c = rq_device_send r \<and>
     cm_host_receive c = rq_host_receive r \<and> cm_host_send c = rq_host_send r \<and>
     rq_device_send r \<le> cm_device_receive c \<and> rq_host_receive r \<le> rq_host_send r \<and>
     rq_host_send r - rq_host_receive r \<le> cm_device_receive c - rq_device_send r"

text \<open>Operations after which a request is still unanswered: completions that neither answer it nor come too late.\<close>

definition unanswered :: "SyncRequest \<Rightarrow> ClockOp list \<Rightarrow> bool" where
  "unanswered r = list_all (\<lambda>op. case op of Completed c \<Rightarrow> \<not> answers r c \<and> \<not> late r c | _ \<Rightarrow> False)"

section \<open>The request that is open\<close>

fun open_step :: "ClockOp \<Rightarrow> SyncRequest option \<Rightarrow> SyncRequest option" where
  "open_step Cleared q = None"
| "open_step (Recorded r) q = Some r"
| "open_step (Completed c) q = (case q of None \<Rightarrow> None | Some r \<Rightarrow> if answers r c \<or> late r c then None else Some r)"

definition open_request :: "ClockOp list \<Rightarrow> SyncRequest option" where
  "open_request ops = fold open_step ops None"

lemma open_request_snoc: "open_request (ops @ [op]) = open_step op (open_request ops)"
  by (simp add: open_request_def)

lemma open_request_iff:
  "open_request ops = Some r \<longleftrightarrow> (\<exists>pre mid. ops = pre @ Recorded r # mid \<and> unanswered r mid)"
proof (induction ops arbitrary: r rule: rev_induct)
  case Nil
  then show ?case by (simp add: open_request_def)
next
  case (snoc op ops)
  show ?case
  proof (cases op)
    case (Recorded r')
    have "ops @ [op] = pre @ Recorded r # mid \<and> unanswered r mid \<longleftrightarrow> mid = [] \<and> pre = ops \<and> r' = r" for pre mid
      by (cases mid rule: rev_cases) (auto simp: unanswered_def Recorded)
    then show ?thesis by (simp add: open_request_snoc Recorded)
  next
    case Cleared
    have "\<not> (ops @ [op] = pre @ Recorded r # mid \<and> unanswered r mid)" for pre mid
      by (cases mid rule: rev_cases) (auto simp: unanswered_def Cleared)
    then show ?thesis by (simp add: open_request_snoc Cleared)
  next
    case (Completed c)
    have "ops @ [op] = pre @ Recorded r # mid \<and> unanswered r mid \<longleftrightarrow>
        (\<exists>mid'. mid = mid' @ [op] \<and> ops = pre @ Recorded r # mid' \<and> unanswered r mid' \<and> \<not> answers r c \<and> \<not> late r c)" for pre mid
      by (cases mid rule: rev_cases) (auto simp: unanswered_def Completed)
    then have "(\<exists>pre mid. ops @ [op] = pre @ Recorded r # mid \<and> unanswered r mid) \<longleftrightarrow>
        open_request ops = Some r \<and> \<not> answers r c \<and> \<not> late r c"
      unfolding snoc by blast
    then show ?thesis by (auto simp: open_request_snoc Completed split: option.splits)
  qed
qed

text \<open>The state of the code and the open request.\<close>

definition represents :: "PendingClockSync \<Rightarrow> SyncRequest option \<Rightarrow> bool" where
  "represents p q = (case q of
     None \<Rightarrow> \<not> pcs_active p \<or> pcs_consumed p
   | Some r \<Rightarrow> p = clock_step (Recorded r) p)"

lemma consume_represents:
  assumes "represents p q"
  shows "represents (snd (consume c p)) (open_step (Completed c) q)"
    "fst (consume c p) = [] \<longleftrightarrow> (case q of None \<Rightarrow> False | Some r \<Rightarrow> answers r c)"
proof -
  have "represents (snd (consume c p)) (open_step (Completed c) q) \<and>
      (fst (consume c p) = [] \<longleftrightarrow> (case q of None \<Rightarrow> False | Some r \<Rightarrow> answers r c))"
  proof (cases q)
    case None
    with assms show ?thesis by (auto simp: represents_def consume_def ConsumeClockSyncComplete_def)
  next
    case (Some r)
    have "p = RecordPendingClockSync (rq_device_send r) (rq_host_receive r) (rq_host_send r) (rq_generation r) (rq_issued_at r)"
      using assms Some by (simp add: represents_def)
    then show ?thesis
      by (auto simp: Some represents_def consume_def ConsumeClockSyncComplete_def RecordPendingClockSync_def answers_def late_def
          not_le not_less)
  qed
  then show "represents (snd (consume c p)) (open_step (Completed c) q)"
    "fst (consume c p) = [] \<longleftrightarrow> (case q of None \<Rightarrow> False | Some r \<Rightarrow> answers r c)" by auto
qed

lemma represents_after: "represents (clock_after ops) (open_request ops)"
proof (induction ops rule: rev_induct)
  case Nil
  then show ?case by (simp add: clock_after_def open_request_def represents_def ClearPendingClockSync_def)
next
  case (snoc op ops)
  then have r: "represents (fold clock_step ops ClearPendingClockSync) (open_request ops)" by (simp add: clock_after_def)
  show ?case
    using consume_represents(1) [OF r]
    by (cases op) (simp_all add: clock_after_def open_request_snoc represents_def ClearPendingClockSync_def)
qed

text \<open>C39: A clock synchronisation is accepted exactly once and only when it is one: in any sequence of recorded requests,
  resets and completions, a completion is accepted if and only if the last request recorded before it, with no reset
  since, is one it answers (the same session, the same three times, within ten seconds, a round trip not shorter than
  the time the host took) and no earlier completion answered that request or came too late for it.\<close>

theorem clock_sync_accepted_once:
  "clock_accepts ops c \<longleftrightarrow> (\<exists>pre r mid. ops = pre @ Recorded r # mid \<and> unanswered r mid \<and> answers r c)"
proof -
  have "clock_accepts ops c \<longleftrightarrow> (\<exists>r. open_request ops = Some r \<and> answers r c)"
    using consume_represents(2) [OF represents_after] by (auto simp: clock_accepts_def split: option.splits)
  then show ?thesis unfolding open_request_iff by blast
qed

end
