(* ===== verification/Server.thy ===== *)
theory Server
  imports ServerState SessionAuth Loopback Config InputSystem VideoPipeline
begin

text \<open>
  \<open>app/desktop_server.cpp\<close>: the state of \<open>DesktopServer\<close>, how a session is established and ended, and starting,
  stopping and reconfiguring the server.

  A socket is its handle with the stream behind it; the stream of type \<open>'s\<close> and the functions that read and write
  it belong to the operating system and are collected in \<open>Net\<close>. What hardware, listeners and files answer
  during one operation is its argument. A section under the mutexes of the code is one step. \<open>sv_lines\<close> are the lines
  handed to the telemetry writer, \<open>sv_events\<close> the sockets opened and closed, and \<open>sv_closed\<close> the closed sockets
  as they were left.
\<close>

section \<open>The state\<close>

record 's Channel =
  ch_handle :: socket
  ch_stream :: 's

text \<open>\<open>nt_line_time k\<close> is what the clock reads when the \<open>k\<close>-th telemetry line is written.\<close>

record 's Net =
  nt_read :: "'s reader"
  nt_write :: "'s writer"
  nt_now :: "'s \<Rightarrow> int"
  nt_fuel :: nat
  nt_os :: os
  nt_line_time :: "nat \<Rightarrow> u64"
  nt_utf8 :: "wstring \<Rightarrow> string option"

text \<open>The locals of \<open>VideoLoop\<close>; \<open>vl_waited\<close> says that the loop stands behind the wait for the next frame.\<close>

record VideoLoop =
  vl_frame :: FrameWriter
  vl_sequence :: u32
  vl_capture_ns :: u64
  vl_presentation_ns :: u64
  vl_backpressure :: "bool \<times> int"
  vl_encoded :: EncodedAccessUnit
  vl_next_frame_at :: int
  vl_waited :: bool

definition video_loop_init :: VideoLoop where
  "video_loop_init = \<lparr>vl_frame = writer_init, vl_sequence = 0, vl_capture_ns = 0, vl_presentation_ns = 0,
     vl_backpressure = ClearVideoBackpressure, vl_encoded = empty_access_unit, vl_next_frame_at = 0, vl_waited = False\<rparr>"

text \<open>What \<open>EstablishSession\<close> holds in its locals once the three channels are there.\<close>

record 's Handshake =
  hs_hello :: ClientHello
  hs_monitor :: MonitorInfo
  hs_size :: Size
  hs_edge :: u32
  hs_config :: AppConfig
  hs_session_id :: u64
  hs_control :: "'s Channel"
  hs_video :: "'s Channel"
  hs_input :: "'s Channel"

record 's Server =
  sv_config :: AppConfig
  sv_files :: files
  sv_status :: ServerStatus
  sv_inputs :: InputSystem
  sv_adapter :: InputBatchAdapter
  sv_pipeline :: Pipeline
  sv_monitor :: MonitorInfo
  sv_size :: Size
  sv_edge :: u32
  sv_epoch :: u64
  sv_hello :: ClientHello
  sv_caps :: u32
  sv_control_listener :: Listener
  sv_video_listener :: Listener
  sv_input_listener :: Listener
  sv_control :: "'s Channel option"
  sv_video :: "'s Channel option"
  sv_input :: "'s Channel option"
  sv_adb :: "conf option"
  sv_adb_stopped :: "conf list"
  sv_threads :: bool
  sv_waiting :: "int option"
  sv_probe_attempted :: bool
  sv_clock_sync :: PendingClockSync
  sv_pointers :: "u64 set"
  sv_running :: bool
  sv_session_active :: bool
  sv_generation :: u64
  sv_control_sequence :: u32
  sv_video_sequence :: u32
  sv_accepting :: "'s Handshake option"
  sv_control_thread :: "u64 option"
  sv_input_thread :: "u64 option"
  sv_video_thread :: "(u64 \<times> VideoLoop) option"
  sv_lines :: "string list"
  sv_events :: "net_event list"
  sv_closed :: "'s Channel list"

abbreviation on_status :: "(ServerStatus \<Rightarrow> ServerStatus) \<Rightarrow> 's Server \<Rightarrow> 's Server" where
  "on_status f s \<equiv> s\<lparr>sv_status := f (sv_status s)\<rparr>"

definition write_line :: "string \<Rightarrow> 's Server \<Rightarrow> 's Server" where
  "write_line line s = s\<lparr>sv_lines := sv_lines s @ [line]\<rparr>"

definition line_time :: "'s Net \<Rightarrow> 's Server \<Rightarrow> u64" where
  "line_time n s = nt_line_time n (length (sv_lines s))"

definition UpdateDiagnostic :: "string \<Rightarrow> 's Server \<Rightarrow> 's Server" where
  "UpdateDiagnostic d s = on_status (\<lambda>st. st\<lparr>ss_diagnostic := d\<rparr>) s"

definition UpdateReleaseReadinessLocked :: "'s Server \<Rightarrow> 's Server" where
  "UpdateReleaseReadinessLocked s = on_status (UpdateReleaseReadiness (sv_caps s)) s"

definition IsGenerationActive :: "u64 \<Rightarrow> 's Server \<Rightarrow> bool" where
  "IsGenerationActive generation s \<longleftrightarrow> sv_running s \<and> sv_session_active s \<and> sv_generation s = generation"

section \<open>What the video pipeline reports\<close>

definition soak_line :: "'s Net \<Rightarrow> rat option \<Rightarrow> 's Server \<Rightarrow> 's Server" where
  "soak_line n latency_ms s =
     write_line (SoakLine (line_time n s) 0 (ss_active_pointers (sv_status s)) (ss_crash_count (sv_status s))
       (ss_stream_resets (sv_status s)) latency_ms) s"

definition server_on_capture :: "'s Net \<Rightarrow> CaptureTelemetry \<Rightarrow> 's Server \<Rightarrow> 's Server" where
  "server_on_capture n sample s =
     soak_line n None (write_line (CaptureLine (line_time n s) (cap_sequence sample)
       (of_int (cap_acquire_duration sample)) (of_int (cap_gpu_copy_duration sample))
       (of_int (cap_queue_age sample)) (cap_replaced_frames sample)) s)"

definition server_on_encode :: "EncodeTelemetry \<Rightarrow> 's Server \<Rightarrow> 's Server" where
  "server_on_encode sample s =
     write_line (EncodeLine (SteadyTimeNs (enc_encoded_at sample)) (enc_sequence sample)
       (of_int (enc_conversion_duration sample)) (of_int (enc_encode_duration sample))
       (of_int (enc_capture_to_encode sample)) (enc_idr sample)) s"

definition server_on_stream_reset :: "'s Net \<Rightarrow> 's Server \<Rightarrow> 's Server" where
  "server_on_stream_reset n s =
     soak_line n None (on_status (\<lambda>st. st\<lparr>ss_stream_resets := ss_stream_resets st + 1\<rparr>) s)"

definition ascii_name :: "u16 list \<Rightarrow> string" where
  "ascii_name name = concat (map (\<lambda>w.
     (if w = 34 \<or> w = 92 then [backslash] else []) @ [if w < 0x80 then char_of (unat w) else CHR ''?'']) name)"

definition server_on_encoder_selected :: "u16 list \<Rightarrow> bool \<Rightarrow> 's Server \<Rightarrow> 's Server" where
  "server_on_encoder_selected name asynchronous s =
     write_line (object_line ''encoder_selected''
       [(''name'', [quote_char] @ ascii_name name @ [quote_char]), (''asynchronous'', boolean asynchronous)]) s"

fun sink_call :: "'s Net \<Rightarrow> SinkCall \<Rightarrow> 's Server \<Rightarrow> 's Server" where
  "sink_call n (OnCapture sample) s = server_on_capture n sample s"
| "sink_call n (OnEncode sample) s = server_on_encode sample s"
| "sink_call n OnStreamResetRequested s = server_on_stream_reset n s"
| "sink_call n (OnEncoderSelected name asynchronous) s = server_on_encoder_selected name asynchronous s"
| "sink_call n (OnResolutionPolicy sample) s = s"

text \<open>The pipeline after a call, with what it told its sink meanwhile.\<close>

definition with_pipeline :: "'s Net \<Rightarrow> Pipeline \<Rightarrow> 's Server \<Rightarrow> 's Server" where
  "with_pipeline n p s = fold (sink_call n) (vp_calls p) (s\<lparr>sv_pipeline := p\<lparr>vp_calls := []\<rparr>\<rparr>)"

section \<open>Sockets\<close>

definition WriteDisconnect :: "'s Net \<Rightarrow> u32 \<Rightarrow> u16 \<Rightarrow> string \<Rightarrow> 's Channel \<Rightarrow> bool \<times> 's Channel" where
  "WriteDisconnect n sequence reason message c =
     (case writeFrame (nt_write n) (ch_stream c) (ControlFrame (Disconnect reason message) sequence) of
        (result, stream) \<Rightarrow> (ioStatus result = IoOk, c\<lparr>ch_stream := stream\<rparr>))"

definition ShutdownAndClose :: "'s Channel option \<Rightarrow> 's Server \<Rightarrow> 's Server" where
  "ShutdownAndClose socket s =
     (case socket of
        None \<Rightarrow> s
      | Some c \<Rightarrow> s\<lparr>sv_events := sv_events s @ [SocketClosed (ch_handle c)], sv_closed := sv_closed s @ [c]\<rparr>)"

section \<open>Ending a session\<close>

record EndAnswers =
  ea_adb_now :: int
  ea_shutdown :: ShutdownAnswers

text \<open>The sockets leave the state; the control channel gets a \<open>Disconnect\<close>.\<close>

definition release_sockets :: "'s Net \<Rightarrow> string \<Rightarrow> 's Server \<Rightarrow> 's Server" where
  "release_sockets n reason s =
     (let control = sv_control s; video = sv_video s; inputs = sv_input s;
          s = s\<lparr>sv_control := None, sv_video := None, sv_input := None\<rparr>
      in case control of
           None \<Rightarrow> ShutdownAndClose inputs (ShutdownAndClose video s)
         | Some c \<Rightarrow> (case WriteDisconnect n (sv_control_sequence s) 10 reason c of (_, c) \<Rightarrow>
             ShutdownAndClose inputs (ShutdownAndClose video (ShutdownAndClose (Some c)
               (s\<lparr>sv_control_sequence := sv_control_sequence s + 1\<rparr>)))))"

definition notify_adb :: "int \<Rightarrow> string \<Rightarrow> 's Server \<Rightarrow> 's Server" where
  "notify_adb now reason s = (if sv_running s then s\<lparr>sv_adb := map_option (lose_channel now reason) (sv_adb s)\<rparr> else s)"

definition ended_status :: "string \<Rightarrow> 's Server \<Rightarrow> 's Server" where
  "ended_status reason s =
     UpdateDiagnostic reason (UpdateReleaseReadinessLocked (on_status (\<lambda>st. st\<lparr>ss_active_pointers := 0,
       ss_phase := (if sv_running s then kAwaitingClient else kStopped), ss_control_connected := False,
       ss_video_connected := False, ss_input_connected := False, ss_capture_started := False\<rparr>)
       (s\<lparr>sv_pointers := {}\<rparr>)))"

definition EndSession :: "'s Net \<Rightarrow> EndAnswers \<Rightarrow> string \<Rightarrow> 's Server \<Rightarrow> 's Server" where
  "EndSession n ans reason s =
     (let s = s\<lparr>sv_clock_sync := ClearPendingClockSync\<rparr> in
      if \<not> sv_session_active s then write_line (SessionEndLine (''pre-active: '' @ reason)) s
      else
        let s = write_line (SessionEndLine reason) (s\<lparr>sv_session_active := False\<rparr>);
            s = release_sockets n reason (s\<lparr>sv_generation := sv_generation s + 1\<rparr>);
            s = s\<lparr>sv_inputs := on_disconnect (nt_os n) (sv_inputs s), sv_caps := 0\<rparr>;
            s = notify_adb (ea_adb_now ans) reason s;
            s = with_pipeline n (VideoPipeline.Stop (ea_shutdown ans) (sv_pipeline s)) s
        in soak_line n None (ended_status reason s))"

section \<open>Establishing a session\<close>

text \<open>One turn of the loop that waits for a channel: what the listener answers, and the stream and the result of
  setting its timeouts when a socket was accepted. The list ends at the deadline.\<close>

record 's AcceptAnswer =
  ac_calls :: accept_calls
  ac_stream :: 's
  ac_timeouts_set :: bool

type_synonym 's received = "unit result \<times> 's Channel option \<times> net_event list"

definition receive_accepted ::
  "'s Net \<Rightarrow> Session \<Rightarrow> AuthChannel \<Rightarrow> 's AcceptAnswer \<Rightarrow> socket \<Rightarrow> net_event list \<Rightarrow> 's received option" where
  "receive_accepted n session channel a h evs =
     (if \<not> ac_timeouts_set a then
        Some (Inl ''cannot configure channel socket timeouts'', Some \<lparr>ch_handle = h, ch_stream = ac_stream a\<rparr>, evs)
      else case readAuthPreface (nt_fuel n) (nt_read n) (nt_now n) session channel (ac_stream a) of
        None \<Rightarrow> None
      | Some (Inl e, stream) \<Rightarrow> Some (Inl e, None, evs @ [SocketClosed h])
      | Some (Inr _, stream) \<Rightarrow> Some (Inr (), Some \<lparr>ch_handle = h, ch_stream = stream\<rparr>, evs))"

fun ReceiveChannel ::
  "'s Net \<Rightarrow> bool \<Rightarrow> Session \<Rightarrow> AuthChannel \<Rightarrow> Listener \<Rightarrow> 's AcceptAnswer list \<Rightarrow> 's received option" where
  "ReceiveChannel n running session channel l [] = Some (Inl ''Android channel connection timed out'', None, [])"
| "ReceiveChannel n running session channel l (a # answers) =
     (if \<not> running then Some (Inl ''Android channel connection timed out'', None, [])
      else case listener_accept (ac_calls a) 100 l of
        (Accepted, h, _, evs) \<Rightarrow> receive_accepted n session channel a (the h) evs
      | (AcceptError, _, e, evs) \<Rightarrow> Some (Inl (the e), None, evs)
      | (AcceptTimeout, _, _, evs) \<Rightarrow>
          map_option (\<lambda>(r, c, evs'). (r, c, evs @ evs')) (ReceiveChannel n running session channel l answers))"

record 's EstablishAnswers =
  es_control_timeouts :: bool
  es_monitors :: EnumerateAnswers
  es_random :: u64
  es_session_timeouts :: bool
  es_video_accepts :: "'s AcceptAnswer list"
  es_input_accepts :: "'s AcceptAnswer list"

text \<open>A stage either rejects the peer (\<open>Inl\<close>: the control channel, which the caller closes, and the server) or goes on.\<close>

type_synonym 's rejection = "'s Channel \<times> 's Server"

definition reject :: "'s Net \<Rightarrow> u16 \<Rightarrow> string \<Rightarrow> string option \<Rightarrow> 's Channel \<Rightarrow> 's Server \<Rightarrow> 's rejection" where
  "reject n reason message shown control s =
     (case WriteDisconnect n (sv_control_sequence s) reason message control of (_, control) \<Rightarrow>
        let s = s\<lparr>sv_control_sequence := sv_control_sequence s + 1\<rparr> in
        (control, case shown of None \<Rightarrow> s | Some d \<Rightarrow> UpdateDiagnostic d s))"

definition read_hello ::
  "'s Net \<Rightarrow> 's Channel \<Rightarrow> 's Server \<Rightarrow> 's rejection + ClientHello \<times> 's Channel" where
  "read_hello n control s =
     (case readFrame (nt_read n) (ch_stream control) of (read, frame, stream) \<Rightarrow>
        let control = control\<lparr>ch_stream := stream\<rparr>;
            bad = reject n 1 ''expected a valid ClientHello on the control channel''
              (Some (if ioError read = [] then ''invalid ClientHello'' else ioError read)) control s
        in case frame of
             None \<Rightarrow> Inl bad
           | Some f \<Rightarrow>
               if ioStatus read \<noteq> IoOk \<or> frameType (header f) \<noteq> TypeClientHello then Inl bad
               else case (case payload f of PClientHello hello \<Rightarrow> if IsH264Supported hello then Some hello else None | _ \<Rightarrow> None) of
                 None \<Rightarrow> Inl (reject n 2 ''PadDrawBoard v1 requires H.264 decode support''
                           (Some ''Android client does not advertise H.264'') control s)
               | Some hello \<Rightarrow> Inr (hello, control))"

definition select_monitor :: "wstring \<Rightarrow> MonitorInfo list \<Rightarrow> MonitorInfo" where
  "select_monitor wanted monitors =
     (if wanted = [] then monitors ! 0
      else case MonitorIdTryParse wanted of
        None \<Rightarrow> monitors ! 0
      | Some requested \<Rightarrow>
          (case List.find (\<lambda>item. mon_id item = requested) monitors of None \<Rightarrow> monitors ! 0 | Some found \<Rightarrow> found))"

definition choose_display ::
  "'s Net \<Rightarrow> EnumerateAnswers \<Rightarrow> AppConfig \<Rightarrow> ClientHello \<Rightarrow> 's Channel \<Rightarrow> 's Server \<Rightarrow> 's rejection + MonitorInfo \<times> Size \<times> u32" where
  "choose_display n ans cfg hello control s =
     (case EnumerateMonitors ans of (enumerated, monitors) \<Rightarrow>
        if FAILED enumerated \<or> monitors = [] then
          Inl (reject n 4 ''no capturable Windows monitor is available''
            (Some (if FAILED enumerated then HResultText enumerated else ''no capturable monitor'')) control s)
        else let monitor = select_monitor (selected_monitor_id cfg) monitors in
          case ChooseVideoSize (MonitorSize monitor) hello of
            None \<Rightarrow> Inl (reject n 5 ''selected monitor cannot fit the client H.264 resolution limits''
                      (Some ''client video dimensions are below the 1920px v1 ladder'') control s)
          | Some (chosen, edge) \<Rightarrow>
              if ToRotation (rotationDegrees hello) = None
              then Inl (reject n 6 ''invalid Android orientation'' None control s)
              else Inr (monitor, chosen, edge))"

definition NewSessionId :: "u64 \<Rightarrow> u64" where
  "NewSessionId random = (if random = 0 then 1 else random)"

definition session_config :: "u64 \<Rightarrow> MonitorInfo \<Rightarrow> Size \<Rightarrow> AppConfig \<Rightarrow> ServerConfig" where
  "session_config session monitor chosen cfg =
     \<lparr>sessionId = session, displayId = target_id (mon_id monitor), videoWidth = ucast (sizeWidth chosen),
      videoHeight = ucast (sizeHeight chosen), videoFps = 60, videoBitrateMbps = ucast (bitrate_mbps cfg),
      contentLeft = 0, contentTop = 0, contentWidth = sizeWidth chosen, contentHeight = sizeHeight chosen,
      configFlags = (if palm_guard_enabled cfg then kConfigFlagSuppressTouchWhilePenInRange else 0)\<rparr>"

definition config_frame :: "u32 \<Rightarrow> ServerConfig \<Rightarrow> Frame" where
  "config_frame sequence c =
     \<lparr>header = \<lparr>frameFlags = 0, frameSequence = sequence, frameType = TypeServerConfig\<rparr>, payload = PServerConfig c\<rparr>"

text \<open>\<open>ServerConfig\<close> is sent; the second component is \<open>None\<close> when that succeeded.\<close>

definition send_config ::
  "'s Net \<Rightarrow> bool \<Rightarrow> ServerConfig \<Rightarrow> 's Channel \<Rightarrow> 's Server \<Rightarrow> 's rejection + 's rejection" where
  "send_config n timeouts_set c control s =
     (case writeFrame (nt_write n) (ch_stream control) (config_frame (sv_control_sequence s) c) of (written, stream) \<Rightarrow>
        let control = control\<lparr>ch_stream := stream\<rparr>; s = s\<lparr>sv_control_sequence := sv_control_sequence s + 1\<rparr> in
        if ioStatus written \<noteq> IoOk then Inl (control, UpdateDiagnostic ''failed to send ServerConfig'' s)
        else if \<not> timeouts_set then Inl (control, UpdateDiagnostic ''cannot configure control socket timeouts'' s)
        else Inr (control, s))"

definition add_events :: "net_event list \<Rightarrow> 's Server \<Rightarrow> 's Server" where
  "add_events evs s = s\<lparr>sv_events := sv_events s @ evs\<rparr>"

text \<open>The video and the input channel; when one is missing both are closed.\<close>

definition drop_channels ::
  "'s Net \<Rightarrow> string \<Rightarrow> 's Channel option \<Rightarrow> 's Channel option \<Rightarrow> 's Channel \<Rightarrow> 's Server \<Rightarrow> 's rejection" where
  "drop_channels n e video inputs control s =
     (case reject n 7 e None control s of (control, s) \<Rightarrow>
        (control, UpdateDiagnostic e (ShutdownAndClose inputs (ShutdownAndClose video s))))"

definition receive_channels ::
  "'s Net \<Rightarrow> 's EstablishAnswers \<Rightarrow> Session \<Rightarrow> 's Channel \<Rightarrow> 's Server \<Rightarrow>
   ('s rejection + 's Channel \<times> 's Channel \<times> 's Server) option" where
  "receive_channels n ans session control s =
     (case ReceiveChannel n (sv_running s) session AuthVideo (sv_video_listener s) (es_video_accepts ans) of
        None \<Rightarrow> None
      | Some (Inl e, video, evs) \<Rightarrow> Some (Inl (drop_channels n e video None control (add_events evs s)))
      | Some (Inr _, video, evs) \<Rightarrow>
          (case ReceiveChannel n (sv_running s) session AuthInput (sv_input_listener s) (es_input_accepts ans) of
             None \<Rightarrow> None
           | Some (Inl e, inputs, evs') \<Rightarrow> Some (Inl (drop_channels n e video inputs control (add_events (evs @ evs') s)))
           | Some (Inr _, inputs, evs') \<Rightarrow> Some (Inr (the video, the inputs, add_events (evs @ evs') s))))"

text \<open>The first half of \<open>EstablishSession\<close>: up to the three authenticated channels. \<open>None\<close> while the
  authentication of a channel still waits for bytes.\<close>

definition greet ::
  "'s Net \<Rightarrow> 's EstablishAnswers \<Rightarrow> 's Channel \<Rightarrow> 's Server \<Rightarrow> ('s rejection + 's Channel \<times> Session) option" where
  "greet n ans control s =
     (case sv_adb s of
        None \<Rightarrow> Some (Inl (control, UpdateDiagnostic ''rejected control peer without an ADB session'' s))
      | Some adb \<Rightarrow>
          if \<not> es_control_timeouts ans then
            Some (Inl (control, UpdateDiagnostic ''cannot configure control socket timeouts'' s))
          else case readAuthPreface (nt_fuel n) (nt_read n) (nt_now n) (sess adb) AuthControl (ch_stream control) of
            None \<Rightarrow> None
          | Some (Inl e, stream) \<Rightarrow> Some (Inl (control\<lparr>ch_stream := stream\<rparr>,
              UpdateDiagnostic (if e = [] then ''unauthenticated control channel'' else e) s))
          | Some (Inr _, stream) \<Rightarrow> Some (Inr (control\<lparr>ch_stream := stream\<rparr>, sess adb)))"

definition offer ::
  "'s Net \<Rightarrow> 's EstablishAnswers \<Rightarrow> 's Channel \<Rightarrow> 's Server \<Rightarrow>
   's rejection + ClientHello \<times> MonitorInfo \<times> Size \<times> u32 \<times> 's Channel \<times> 's Server" where
  "offer n ans control s =
     (case read_hello n control s of
        Inl r \<Rightarrow> Inl r
      | Inr (hello, control) \<Rightarrow>
          (case choose_display n (es_monitors ans) (sv_config s) hello control s of
             Inl r \<Rightarrow> Inl r
           | Inr (monitor, chosen, edge) \<Rightarrow>
               (case send_config n (es_session_timeouts ans)
                   (session_config (NewSessionId (es_random ans)) monitor chosen (sv_config s)) control s of
                  Inl r \<Rightarrow> Inl r
                | Inr (control, s) \<Rightarrow> Inr (hello, monitor, chosen, edge, control, s))))"

definition establish_channels ::
  "'s Net \<Rightarrow> 's EstablishAnswers \<Rightarrow> 's Channel \<Rightarrow> 's Server \<Rightarrow> ('s rejection + 's Server) option" where
  "establish_channels n ans control s =
     (case greet n ans control s of
        None \<Rightarrow> None
      | Some (Inl r) \<Rightarrow> Some (Inl r)
      | Some (Inr (control, session)) \<Rightarrow>
          (case offer n ans control s of
             Inl r \<Rightarrow> Some (Inl r)
           | Inr (hello, monitor, chosen, edge, control, t) \<Rightarrow>
               (case receive_channels n ans session control t of
                  None \<Rightarrow> None
                | Some (Inl r) \<Rightarrow> Some (Inl r)
                | Some (Inr (video, inputs, t)) \<Rightarrow> Some (Inr (t\<lparr>sv_accepting := Some
                    \<lparr>hs_hello = hello, hs_monitor = monitor, hs_size = chosen, hs_edge = edge, hs_config = sv_config s,
                     hs_session_id = NewSessionId (es_random ans), hs_control = control, hs_video = video,
                     hs_input = inputs\<rparr>\<rparr>)))))"

section \<open>Activating a session\<close>

record ActivateAnswers =
  av_start :: StartAnswers
  av_stop :: ShutdownAnswers
  av_save :: file_calls

text \<open>The ratio of two \<open>float\<close> conversions.\<close>

definition content_ratio :: "Size \<Rightarrow> rat" where
  "content_ratio v = f32 (f32 (of_nat (unat (sizeWidth v))) / f32 (of_nat (unat (sizeHeight v))))"

definition mapper_config :: "MonitorInfo \<Rightarrow> rat \<Rightarrow> u64 \<Rightarrow> MapperConfig" where
  "mapper_config monitor aspect epoch =
     \<lparr>tabletActiveRect = full_rect, monitorRect = MonitorRect monitor, contentAspectRatio = aspect,
      rotation = Rot0, orientationEpoch = epoch\<rparr>"

text \<open>Both channels are closed and the control channel is told; the caller closes it.\<close>

definition give_up ::
  "'s Net \<Rightarrow> u16 \<Rightarrow> string \<Rightarrow> string \<Rightarrow> 's Handshake \<Rightarrow> 's Server \<Rightarrow> 's rejection" where
  "give_up n reason message shown h s =
     (case reject n reason message None (hs_control h) s of (control, s) \<Rightarrow>
        (control, UpdateDiagnostic shown (ShutdownAndClose (Some (hs_input h)) (ShutdownAndClose (Some (hs_video h)) s))))"

definition configure_input :: "'s Net \<Rightarrow> 's Handshake \<Rightarrow> 's Server \<Rightarrow> bool \<times> 's Server" where
  "configure_input n h s =
     (let s = s\<lparr>sv_epoch := sv_epoch s + 1\<rparr> in
      case configure (nt_os n) (mapper_config (hs_monitor h) (content_ratio (hs_size h)) (sv_epoch s)) (sv_inputs s) of
        (ok, inputs) \<Rightarrow> (ok, s\<lparr>sv_inputs := inputs\<rparr>))"

definition use_config :: "'s Net \<Rightarrow> AppConfig \<Rightarrow> 's Server \<Rightarrow> 's Server" where
  "use_config n cfg s =
     s\<lparr>sv_inputs := set_system_profiles (nt_os n) (profiles cfg)
         (set_palm_rejection (palm_guard_enabled cfg) (sv_inputs s))\<rparr>"

definition persist_config :: "'s Net \<Rightarrow> file_calls \<Rightarrow> 's Handshake \<Rightarrow> 's Server \<Rightarrow> 's Server" where
  "persist_config n calls h s =
     (let persisted = (hs_config h)\<lparr>selected_monitor_id := MonitorIdToString (mon_id (hs_monitor h))\<rparr> in
      case save_config calls (nt_utf8 n) persisted (sv_files s) of
        (Inl e, fs) \<Rightarrow> UpdateDiagnostic (''session is active but config was not persisted: '' @ e) (s\<lparr>sv_files := fs\<rparr>)
      | (Inr _, fs) \<Rightarrow> s\<lparr>sv_files := fs, sv_config := persisted\<rparr>)"

definition active_status :: "'s Handshake \<Rightarrow> 's Server \<Rightarrow> 's Server" where
  "active_status h s =
     UpdateDiagnostic (if IsAllButtonCapabilityPresent (helloCapabilities (hs_hello h))
        then ''channels connected; validating hardware encoder''
        else ''channels connected; validating hardware encoder; one or more pen buttons are unavailable'')
       (UpdateReleaseReadinessLocked (on_status (\<lambda>st. st\<lparr>ss_phase := kDegraded, ss_control_connected := True,
          ss_video_connected := True, ss_input_connected := True,
          ss_injection_available := is_available (injector (sv_inputs s)), ss_capture_started := True,
          ss_session_id := hs_session_id h, ss_frames_sent := 0, ss_stream_resets := 0\<rparr>) s))"

definition activate_session :: "'s Handshake \<Rightarrow> 's Server \<Rightarrow> 's Server" where
  "activate_session h s =
     (let generation = sv_generation s + 1;
          s = s\<lparr>sv_generation := generation, sv_control := Some (hs_control h), sv_video := Some (hs_video h),
                sv_input := Some (hs_input h), sv_monitor := hs_monitor h, sv_size := hs_size h,
                sv_edge := hs_edge h, sv_hello := hs_hello h, sv_caps := helloCapabilities (hs_hello h),
                sv_session_active := True\<rparr>
      in (active_status h s)\<lparr>sv_control_thread := Some generation, sv_input_thread := Some generation,
           sv_video_thread := Some (generation, video_loop_init)\<rparr>)"

text \<open>The second half of \<open>EstablishSession\<close>; the old threads, whose generation is over, have been joined.\<close>

definition establish_rest ::
  "'s Net \<Rightarrow> ActivateAnswers \<Rightarrow> 's Handshake \<Rightarrow> 's Server \<Rightarrow> 's rejection + 's Server" where
  "establish_rest n ans h s =
     (case VideoPipeline.Start (av_start ans) (hs_monitor h) (hs_edge h) True (sv_pipeline s) of (video_start, p) \<Rightarrow>
        let s = with_pipeline n p s in
        if FAILED video_start then
          Inl (give_up n 8 ''Windows capture or hardware H.264 pipeline is unavailable''
                 (''video start failed: '' @ HResultText video_start) h s)
        else case configure_input n h s of (ok, s) \<Rightarrow>
          if \<not> ok then
            Inl (give_up n 9 ''cannot configure monitor-to-tablet coordinate mapping''
                   ''input coordinate mapper rejected selected monitor'' h
                   (with_pipeline n (VideoPipeline.Stop (av_stop ans) (sv_pipeline s)) s))
          else
            let s = use_config n (hs_config h) s;
                s = s\<lparr>sv_adapter := adapter_configure (hs_hello h) (sv_epoch s) (sv_adapter s)\<rparr>
            in Inr (activate_session h (persist_config n (av_save ans) h s)))"

text \<open>\<open>AcceptLoop\<close>: a rejected peer is closed. The first step is one turn of the loop up to the point where the
  channels are there, the second the rest of the turn.\<close>

definition close_rejected :: "'s rejection \<Rightarrow> 's Server" where
  "close_rejected r = (case r of (control, s) \<Rightarrow> ShutdownAndClose (Some control) s)"

definition accept_turn ::
  "'s Net \<Rightarrow> accept_calls \<Rightarrow> 's \<Rightarrow> 's EstablishAnswers \<Rightarrow> 's Server \<Rightarrow> 's Server option" where
  "accept_turn n calls stream ans s =
     (if \<not> sv_running s \<or> sv_accepting s \<noteq> None then None
      else if sv_session_active s then Some s
      else case listener_accept calls 100 (sv_control_listener s) of
        (AcceptTimeout, _, _, evs) \<Rightarrow> Some (add_events evs s)
      | (AcceptError, _, e, evs) \<Rightarrow> Some (UpdateDiagnostic (''control listener error: '' @ the e) (add_events evs s))
      | (Accepted, handle, _, evs) \<Rightarrow>
          (case establish_channels n ans \<lparr>ch_handle = the handle, ch_stream = stream\<rparr> (add_events evs s) of
             None \<Rightarrow> None
           | Some (Inl r) \<Rightarrow> Some (close_rejected r)
           | Some (Inr s) \<Rightarrow> Some s))"

definition accept_finish :: "'s Net \<Rightarrow> ActivateAnswers \<Rightarrow> 's Server \<Rightarrow> 's Server option" where
  "accept_finish n ans s =
     (case sv_accepting s of
        None \<Rightarrow> None
      | Some h \<Rightarrow> Some (case establish_rest n ans h (s\<lparr>sv_accepting := None\<rparr>) of
          Inl r \<Rightarrow> close_rejected r | Inr s \<Rightarrow> s))"

section \<open>Starting and stopping\<close>

record StartServerAnswers =
  sa_control :: open_calls
  sa_video :: open_calls
  sa_input :: open_calls
  sa_crash_count :: u64

definition close_listeners :: "'s Server \<Rightarrow> 's Server" where
  "close_listeners s =
     (let (c, c_evs) = listener_close (sv_control_listener s);
          (v, v_evs) = listener_close (sv_video_listener s);
          (i, i_evs) = listener_close (sv_input_listener s)
      in add_events (c_evs @ v_evs @ i_evs)
           (s\<lparr>sv_control_listener := c, sv_video_listener := v, sv_input_listener := i\<rparr>))"

definition open_listeners :: "StartServerAnswers \<Rightarrow> 's Server \<Rightarrow> unit result \<times> 's Server" where
  "open_listeners ans s =
     (case listener_open (sa_control ans) kControlPort (sv_control_listener s) of (r, l, evs) \<Rightarrow>
        let s = add_events evs (s\<lparr>sv_control_listener := l\<rparr>) in
        if r \<noteq> Inr () then (r, s)
        else case listener_open (sa_video ans) kVideoPort (sv_video_listener s) of (r, l, evs) \<Rightarrow>
          let s = add_events evs (s\<lparr>sv_video_listener := l\<rparr>) in
          if r \<noteq> Inr () then (r, s)
          else case listener_open (sa_input ans) kInputPort (sv_input_listener s) of (r, l, evs) \<Rightarrow>
            (r, add_events evs (s\<lparr>sv_input_listener := l\<rparr>)))"

text \<open>\<open>sa_crash_count\<close> is what \<open>TelemetryWriter::BeginRun\<close> returns.\<close>

definition StartServer :: "'s Net \<Rightarrow> StartServerAnswers \<Rightarrow> 's Server \<Rightarrow> bool \<times> 's Server" where
  "StartServer n ans s =
     (if sv_running s then (True, s)
      else let s = s\<lparr>sv_running := True, sv_clock_sync := ClearPendingClockSync\<rparr> in
        case validate_config (sv_config s) of
          Inl e \<Rightarrow> (False, UpdateDiagnostic (''invalid configuration: '' @ e) (s\<lparr>sv_running := False\<rparr>))
        | Inr _ \<Rightarrow>
            (case open_listeners ans (use_config n (sv_config s) s) of
               (Inl e, s) \<Rightarrow> (False, UpdateDiagnostic (''cannot bind 127.0.0.1: '' @ e)
                  ((close_listeners s)\<lparr>sv_running := False\<rparr>))
             | (Inr _, s) \<Rightarrow> (True, s\<lparr>sv_status := status_init\<lparr>ss_phase := kAwaitingAdb,
                    ss_injection_available := is_available (injector (sv_inputs s)),
                    ss_crash_count := sa_crash_count ans,
                    ss_diagnostic := ''loopback listeners ready; waiting for authorized ADB device''\<rparr>,
                  sv_caps := 0, sv_threads := True, sv_waiting := None, sv_probe_attempted := False\<rparr>)))"

text \<open>\<open>Stop\<close> up to the joining of the threads, and the rest of it when they have ended.\<close>

definition stop_request :: "'s Net \<Rightarrow> EndAnswers \<Rightarrow> 's Server \<Rightarrow> 's Server" where
  "stop_request n ans s =
     close_listeners (EndSession n ans ''desktop server shutting down'' (s\<lparr>sv_running := False\<rparr>))"

definition stopped_conf :: "conf \<Rightarrow> conf" where
  "stopped_conf c =
     (case session_step StopBegun c of None \<Rightarrow> c | Some c \<Rightarrow> (case session_step StopEnded c of None \<Rightarrow> c | Some c \<Rightarrow> c))"

definition stop_adb :: "'s Server \<Rightarrow> 's Server" where
  "stop_adb s =
     (case sv_adb s of
        None \<Rightarrow> s
      | Some c \<Rightarrow> s\<lparr>sv_adb := None, sv_adb_stopped := sv_adb_stopped s @ [stopped_conf c]\<rparr>)"

definition stop_finish :: "'s Server \<Rightarrow> 's Server" where
  "stop_finish s =
     (on_status (\<lambda>st. st\<lparr>ss_phase := kStopped, ss_control_connected := False, ss_video_connected := False,
         ss_input_connected := False, ss_probe_completed := False, ss_buttons_confirmed := False,
         ss_release_ready := False, ss_capture_started := False, ss_diagnostic := ''desktop server stopped''\<rparr>) (stop_adb s))
       \<lparr>sv_control_thread := None, sv_input_thread := None, sv_video_thread := None, sv_threads := False, sv_caps := 0\<rparr>"

definition StopServer :: "'s Net \<Rightarrow> EndAnswers \<Rightarrow> 's Server \<Rightarrow> 's Server" where
  "StopServer n ans s = (if \<not> sv_running s \<and> \<not> sv_threads s then s else stop_finish (stop_request n ans s))"

definition Reconfigure ::
  "'s Net \<Rightarrow> file_calls \<Rightarrow> EndAnswers \<Rightarrow> StartServerAnswers \<Rightarrow> AppConfig \<Rightarrow> 's Server \<Rightarrow> unit result \<times> 's Server" where
  "Reconfigure n calls stop_ans start_ans cfg s =
     (case validate_config cfg of
        Inl e \<Rightarrow> (Inl e, s)
      | Inr _ \<Rightarrow>
          (case save_config calls (nt_utf8 n) cfg (sv_files s) of
             (Inl e, fs) \<Rightarrow> (Inl e, s\<lparr>sv_files := fs\<rparr>)
           | (Inr _, fs) \<Rightarrow>
               let was_running = sv_running s; s = s\<lparr>sv_files := fs\<rparr>;
                   s = (if was_running then StopServer n stop_ans s else s)\<lparr>sv_config := cfg\<rparr>
               in if \<not> was_running then (Inr (), s)
                  else case StartServer n start_ans s of (ok, s) \<Rightarrow>
                    (if ok then Inr () else Inl (ss_diagnostic (sv_status s)), s)))"

end
