(* ===== verification/ServerLoops.thy ===== *)
theory ServerLoops
  imports Server
begin

text \<open>
  The loops of \<open>app/desktop_server.cpp\<close>, one turn at a time: the control, input and video channel of a session and
  the loop that keeps the connection to adb. A turn in which a loop returns takes its thread out of the state; a
  turn whose thread is not there is \<open>None\<close>.
\<close>

section \<open>The control channel\<close>

text \<open>The readings of the clock, and the answers to what a message sets off.\<close>

record ControlAnswers =
  co_received :: u64
  co_sent :: u64
  co_issued :: u64
  co_now :: u64
  co_block :: WouldBlockAnswers
  co_end :: EndAnswers

definition video_aspect :: "Size \<Rightarrow> rat" where
  "video_aspect v = (if sizeHeight v = 0 then 0 else content_ratio v)"

definition on_clock_request :: "'s Net \<Rightarrow> ControlAnswers \<Rightarrow> u64 \<Rightarrow> u64 \<Rightarrow> 's Channel \<Rightarrow> 's Server \<Rightarrow> bool \<times> 's Server" where
  "on_clock_request n ans generation device_send c s =
     (case writeFrame (nt_write n) (ch_stream c)
         (ControlFrame (ClockSyncResponse device_send (co_received ans) (co_sent ans)) (sv_control_sequence s)) of
        (written, stream) \<Rightarrow>
          let s = s\<lparr>sv_control := Some (c\<lparr>ch_stream := stream\<rparr>), sv_control_sequence := sv_control_sequence s + 1\<rparr> in
          if ioStatus written = IoOk
          then (True, s\<lparr>sv_clock_sync := RecordPendingClockSync device_send (co_received ans) (co_sent ans) generation (co_issued ans)\<rparr>)
          else (False, s))"

definition on_orientation :: "'s Net \<Rightarrow> u16 \<Rightarrow> 's Server \<Rightarrow> bool \<times> 's Server" where
  "on_orientation n degrees s =
     (if ToRotation degrees = None then (False, s)
      else let epoch = sv_epoch s + 1 in
        (True, s\<lparr>sv_epoch := epoch,
           sv_inputs := on_orientation_change (nt_os n) (mapper_config (sv_monitor s) (video_aspect (sv_size s)) epoch) (sv_inputs s),
           sv_adapter := adapter_set_orientation_epoch epoch (sv_adapter s)\<rparr>))"

definition on_capabilities :: "u32 \<Rightarrow> 's Server \<Rightarrow> 's Server" where
  "on_capabilities caps s =
     (let s = UpdateReleaseReadinessLocked
            (s\<lparr>sv_caps := caps, sv_adapter := adapter_set_capabilities caps (sv_adapter s)\<rparr>)
      in if \<not> IsAllButtonCapabilityPresent caps
         then UpdateDiagnostic ''Android client reports unavailable pen buttons'' s else s)"

definition on_client_telemetry :: "'s Net \<Rightarrow> u32 \<Rightarrow> u32 \<Rightarrow> u32 \<Rightarrow> 's Server \<Rightarrow> 's Server" where
  "on_client_telemetry n rtt latency dropped s =
     (let s = UpdateReleaseReadinessLocked (on_status (\<lambda>st. st\<lparr>ss_rtt_us := rtt, ss_video_latency_us := latency\<rparr>) s);
          s = write_line (object_line ''client_telemetry''
                [(''timestamp_ns'', number (line_time n s)), (''rtt_us'', number32 rtt),
                 (''video_latency_us'', number32 latency), (''dropped_video_frames'', number32 dropped)]) s
      in soak_line n (Some (f64 (of_nat (unat latency) / 1000))) s)"

definition on_clock_complete :: "ControlAnswers \<Rightarrow> u64 \<Rightarrow> u64 \<Rightarrow> u64 \<Rightarrow> u64 \<Rightarrow> u64 \<Rightarrow> 's Server \<Rightarrow> 's Server" where
  "on_clock_complete ans generation device_send host_receive host_send device_receive s =
     (case ConsumeClockSyncComplete device_send host_receive host_send device_receive generation (co_now ans) (sv_clock_sync s) of
        (e, p) \<Rightarrow>
          let s = s\<lparr>sv_clock_sync := p\<rparr> in
          if e = [] then write_line (ClockSyncLine device_send host_receive host_send (Some device_receive)) s
          else UpdateDiagnostic (''ignored ClockSyncComplete: '' @ e) s)"

text \<open>The first component is \<open>accepted\<close>.\<close>

fun control_message ::
  "'s Net \<Rightarrow> ControlAnswers \<Rightarrow> u64 \<Rightarrow> 's Channel \<Rightarrow> Control \<Rightarrow> 's Server \<Rightarrow> bool \<times> 's Server" where
  "control_message n ans generation c (ClockSyncRequest t) s = on_clock_request n ans generation t c s"
| "control_message n ans generation c RequestIdr s =
     (True, with_pipeline n (snd (NotifyTransportWouldBlock (co_block ans) (sv_pipeline s))) s)"
| "control_message n ans generation c (OrientationChanged degrees) s = on_orientation n degrees s"
| "control_message n ans generation c (CapabilityChanged caps) s = (True, on_capabilities caps s)"
| "control_message n ans generation c (Telemetry rtt latency dropped) s = (True, on_client_telemetry n rtt latency dropped s)"
| "control_message n ans generation c (Disconnect reason message) s = (False, s)"
| "control_message n ans generation c (ClockSyncResponse t1 t2 t3) s = (True, s)"
| "control_message n ans generation c (ClockSyncComplete t1 t2 t3 t4) s =
     (True, on_clock_complete ans generation t1 t2 t3 t4 s)"

definition end_control :: "'s Net \<Rightarrow> EndAnswers \<Rightarrow> string \<Rightarrow> 's Server \<Rightarrow> 's Server" where
  "end_control n ans reason s = (EndSession n ans reason s)\<lparr>sv_control_thread := None\<rparr>"

definition control_frame ::
  "'s Net \<Rightarrow> ControlAnswers \<Rightarrow> u64 \<Rightarrow> 's Channel \<Rightarrow> IoResult \<Rightarrow> Frame option \<Rightarrow> 's Server \<Rightarrow> 's Server" where
  "control_frame n ans generation c read frame s =
     (let bad = end_control n (co_end ans) (if ioError read = [] then ''control channel disconnected'' else ioError read) s in
      if ioStatus read = IoWouldBlock then s
      else case frame of
        None \<Rightarrow> bad
      | Some f \<Rightarrow>
          if ioStatus read \<noteq> IoOk \<or> frameType (header f) \<noteq> TypeControl then bad
          else case payload f of
            PControl m \<Rightarrow> (case control_message n ans generation c m s of (accepted, s) \<Rightarrow>
              if accepted then s
              else end_control n (co_end ans) ''control channel requested or failed session shutdown'' s)
          | _ \<Rightarrow> end_control n (co_end ans) ''invalid control payload'' s)"

definition control_turn :: "'s Net \<Rightarrow> ControlAnswers \<Rightarrow> 's Server \<Rightarrow> 's Server option" where
  "control_turn n ans s =
     (case sv_control_thread s of
        None \<Rightarrow> None
      | Some generation \<Rightarrow> Some (
          if \<not> IsGenerationActive generation s then s\<lparr>sv_control_thread := None\<rparr>
          else case sv_control s of
            None \<Rightarrow> end_control n (co_end ans) ''socket is closed'' s
          | Some c \<Rightarrow> (case readFrame (nt_read n) (ch_stream c) of (read, frame, stream) \<Rightarrow>
              let c = c\<lparr>ch_stream := stream\<rparr> in control_frame n ans generation c read frame (s\<lparr>sv_control := Some c\<rparr>))))"

section \<open>The input channel\<close>

record InputAnswers =
  ia_received_at :: int
  ia_received_ns :: u64
  ia_end :: EndAnswers

definition end_input :: "'s Net \<Rightarrow> EndAnswers \<Rightarrow> string \<Rightarrow> 's Server \<Rightarrow> 's Server" where
  "end_input n ans reason s = (EndSession n ans reason s)\<lparr>sv_input_thread := None\<rparr>"

definition update_pointers :: "InputBatch \<Rightarrow> 's Server \<Rightarrow> 's Server" where
  "update_pointers batch s =
     (let keys = UpdateActivePointers batch (sv_pointers s)
      in on_status (\<lambda>st. st\<lparr>ss_active_pointers := of_nat (card keys)\<rparr>) (s\<lparr>sv_pointers := keys\<rparr>))"

definition transport_line :: "InputAnswers \<Rightarrow> InputBatch \<Rightarrow> 's Server \<Rightarrow> 's Server" where
  "transport_line ans batch s =
     (let received = ia_received_ns ans; sent = batchTimestampNs batch
      in write_line (InputTransportLine sent received (if received \<ge> sent then (received - sent) div 1000 else 0)
           (ss_active_pointers (sv_status s))) s)"

definition process_input :: "'s Net \<Rightarrow> InputFrame \<Rightarrow> 's Server \<Rightarrow> 's Server" where
  "process_input n adapted s =
     (case process (nt_os n) adapted (sv_inputs s) of (ok, inputs) \<Rightarrow>
        let s = s\<lparr>sv_inputs := inputs\<rparr> in
        if ok then s
        else
          let s = UpdateReleaseReadinessLocked (on_status (\<lambda>st. st\<lparr>ss_phase := kDegraded,
                    ss_injection_available := is_available (injector inputs)\<rparr>) s)
          in UpdateDiagnostic (if ss_injection_available (sv_status s) then ''input injection rejected a frame''
               else ''Windows synthetic pointer injection is unavailable'') s)"

definition input_frame :: "'s Net \<Rightarrow> InputAnswers \<Rightarrow> IoResult \<Rightarrow> Frame option \<Rightarrow> 's Server \<Rightarrow> 's Server" where
  "input_frame n ans read frame s =
     (let bad = end_input n (ia_end ans) (if ioError read = [] then ''input channel disconnected'' else ioError read) s in
      if ioStatus read = IoWouldBlock then s
      else case frame of
        None \<Rightarrow> bad
      | Some f \<Rightarrow>
          if ioStatus read \<noteq> IoOk \<or> frameType (header f) \<noteq> TypeInputBatch then bad
          else case payload f of
            PInputBatch batch \<Rightarrow>
              (case adapt batch (ia_received_at ans) (sv_adapter s) of
                 (Inl e, a) \<Rightarrow> end_input n (ia_end ans) (if e = [] then ''invalid InputBatch payload'' else e) (s\<lparr>sv_adapter := a\<rparr>)
               | (Inr adapted, a) \<Rightarrow>
                   process_input n adapted (transport_line ans batch (update_pointers batch (s\<lparr>sv_adapter := a\<rparr>))))
          | _ \<Rightarrow> end_input n (ia_end ans) ''invalid InputBatch payload'' s)"

definition input_turn :: "'s Net \<Rightarrow> InputAnswers \<Rightarrow> 's Server \<Rightarrow> 's Server option" where
  "input_turn n ans s =
     (case sv_input_thread s of
        None \<Rightarrow> None
      | Some generation \<Rightarrow> Some (
          if \<not> IsGenerationActive generation s then s\<lparr>sv_input_thread := None\<rparr>
          else case sv_input s of
            None \<Rightarrow> end_input n (ia_end ans) ''socket is closed'' s
          | Some c \<Rightarrow> (case readFrame (nt_read n) (ch_stream c) of (read, frame, stream) \<Rightarrow>
              input_frame n ans read frame (s\<lparr>sv_input := Some (c\<lparr>ch_stream := stream\<rparr>)\<rparr>))))"

section \<open>The video channel\<close>

record VideoAnswers =
  va_blocked_ns :: int
  va_block :: WouldBlockAnswers
  va_now :: int
  va_first :: EncodeLatestAnswers
  va_capture :: CaptureOnceAnswers
  va_second :: EncodeLatestAnswers
  va_end :: EndAnswers

text \<open>A turn goes on with the locals of the loop or ends the session with a reason.\<close>

type_synonym 's video_result = "string + VideoLoop \<times> 's Server"

definition frame_sent_status :: "ServerStatus \<Rightarrow> ServerStatus" where
  "frame_sent_status st =
     (let st = (if ss_frames_sent st = 0 then
                  st\<lparr>ss_phase := (if ss_injection_available st then kActive else kDegraded),
                     ss_diagnostic := (if ss_release_ready st then ''session active''
                       else ''session active; release readiness blocked until all three pen buttons are confirmed'')\<rparr>
                else st)
      in st\<lparr>ss_frames_sent := ss_frames_sent st + 1\<rparr>)"

text \<open>A frame is pending: it is continued.\<close>

definition continue_frame ::
  "'s Net \<Rightarrow> VideoAnswers \<Rightarrow> 's Channel \<Rightarrow> VideoLoop \<Rightarrow> 's Server \<Rightarrow> (string \<times> 's Server) + VideoLoop \<times> 's Server" where
  "continue_frame n ans c vl s =
     (case writer_continue (nt_write n) (ch_stream c) (vl_frame vl) of (written, w, stream) \<Rightarrow>
        let vl = vl\<lparr>vl_frame := w\<rparr>; s = s\<lparr>sv_video := Some (c\<lparr>ch_stream := stream\<rparr>)\<rparr> in
        if ioStatus written = IoOk then
          Inr (vl\<lparr>vl_backpressure := ClearVideoBackpressure\<rparr>,
               on_status frame_sent_status
                 (write_line (VideoSampleLine (vl_capture_ns vl) (vl_presentation_ns vl) (ucast (vl_sequence vl)) 0 0
                    (ss_stream_resets (sv_status s))) s))
        else if ioStatus written = IoWouldBlock then
          (case ObserveVideoBackpressure (va_blocked_ns ans) (vl_backpressure vl) of (action, b) \<Rightarrow>
             let vl = vl\<lparr>vl_backpressure := b\<rparr> in
             if action = kNotifyIdr then
               Inr (vl, with_pipeline n (snd (NotifyTransportWouldBlock (va_block ans) (sv_pipeline s))) s)
             else if action = kEndSession then Inl (''video transport blocked for 2 seconds'', s)
             else Inr (vl, s))
        else Inl (if ioError written = [] then ''video transport disconnected'' else ioError written, s))"

text \<open>The section under the mutex of the pipeline: the results of capture and encoding, whether the capture was
  skipped for a pending encode, the stage of a failure and the access unit.\<close>

definition capture_and_encode ::
  "'s Net \<Rightarrow> VideoAnswers \<Rightarrow> EncodedAccessUnit \<Rightarrow> 's Server \<Rightarrow>
   (HRESULT \<times> HRESULT \<times> bool \<times> string \<times> EncodedAccessUnit) \<times> 's Server" where
  "capture_and_encode n ans au s =
     (case EncodeLatest (va_first ans) au (sv_pipeline s) of (hr, au, p) \<Rightarrow>
        let s = with_pipeline n p s in
        if DecideVideoLoopAfterInitialEncode hr \<noteq> kCapture then ((S_FALSE, hr, False, [], au), s)
        else
          let skipped = HasInFlightEncode (sv_pipeline s) in
          case CaptureOnce (va_capture ans) (sv_pipeline s) of (grab, p) \<Rightarrow>
            let s = with_pipeline n p s in
            case (if ShouldEncodeAfterCapture grab then
                    (case EncodeLatest (va_second ans) au (sv_pipeline s) of (hr, au, p) \<Rightarrow> (hr, au, with_pipeline n p s))
                  else (hr, au, s)) of (hr, au, s) \<Rightarrow>
              ((grab, hr, skipped, if FAILED grab \<or> FAILED hr then vp_stage (sv_pipeline s) else [], au), s))"

definition video_frame :: "u32 \<Rightarrow> EncodedAccessUnit \<Rightarrow> Frame" where
  "video_frame sequence au =
     \<lparr>header = \<lparr>frameFlags = (if au_is_idr au then kVideoFlagIdr else 0), frameSequence = sequence, frameType = TypeVideoFrame\<rparr>,
      payload = PVideoFrame \<lparr>captureTimestampNs = SteadyTimeNs (au_acquired_at au),
        presentationTimestampNs = SteadyTimeNs (au_encoded_at au), accessUnit = au_bytes au\<rparr>\<rparr>"

text \<open>An access unit becomes the pending frame.\<close>

definition start_frame ::
  "EncodedAccessUnit \<Rightarrow> VideoLoop \<Rightarrow> 's Server \<Rightarrow> (string \<times> 's Server) + VideoLoop \<times> 's Server" where
  "start_frame au vl s =
     (let vl = vl\<lparr>vl_next_frame_at := au_acquired_at au + 1000000000 div 60\<rparr> in
      if SteadyTimeNs (au_acquired_at au) = 0 \<or> SteadyTimeNs (au_encoded_at au) = 0
      then Inl (''video pipeline returned incomplete timestamps'', s)
      else
        let sequence = sv_video_sequence s; s = s\<lparr>sv_video_sequence := sequence + 1\<rparr> in
        case writer_start (vl_frame vl) (video_frame sequence au) of (begun, w) \<Rightarrow>
          if ioStatus begun \<noteq> IoOk
          then Inl (if ioError begun = [] then ''cannot serialize video frame'' else ioError begun, s)
          else Inr (vl\<lparr>vl_frame := w, vl_sequence := sequence, vl_capture_ns := SteadyTimeNs (au_acquired_at au),
                      vl_presentation_ns := SteadyTimeNs (au_encoded_at au)\<rparr>, s))"

definition next_frame ::
  "'s Net \<Rightarrow> VideoAnswers \<Rightarrow> VideoLoop \<Rightarrow> 's Server \<Rightarrow> (string \<times> 's Server) + VideoLoop \<times> 's Server" where
  "next_frame n ans vl s =
     (if va_now ans < vl_next_frame_at vl \<and> \<not> vl_waited vl then Inr (vl\<lparr>vl_waited := True\<rparr>, s)
      else case capture_and_encode n ans (vl_encoded vl) s of ((grab, hr, skipped, stage, au), s) \<Rightarrow>
        let vl = vl\<lparr>vl_waited := False, vl_encoded := au\<rparr> in
        if FAILED grab \<or> FAILED hr then
          Inl (''video pipeline unavailable at '' @ stage @ '': '' @ HResultText (if FAILED grab then grab else hr), s)
        else if ShouldYieldAfterPendingEncodeNoProgress hr grab skipped then Inr (vl, s)
        else if hr \<noteq> S_OK \<or> au_bytes au = [] then Inr (vl, s)
        else start_frame au vl s)"

definition video_turn :: "'s Net \<Rightarrow> VideoAnswers \<Rightarrow> 's Server \<Rightarrow> 's Server option" where
  "video_turn n ans s =
     (case sv_video_thread s of
        None \<Rightarrow> None
      | Some (generation, vl) \<Rightarrow> Some (
          if \<not> IsGenerationActive generation s then s\<lparr>sv_video_thread := None\<rparr>
          else case sv_video s of
            None \<Rightarrow> (EndSession n (va_end ans) ''video socket closed'' s)\<lparr>sv_video_thread := None\<rparr>
          | Some c \<Rightarrow>
              (case (if writer_pending (vl_frame vl) then continue_frame n ans c vl s else next_frame n ans vl s) of
                 Inr (vl, s) \<Rightarrow> s\<lparr>sv_video_thread := Some (generation, vl)\<rparr>
               | Inl (reason, s) \<Rightarrow> (EndSession n (va_end ans) reason s)\<lparr>sv_video_thread := None\<rparr>)))"

section \<open>The connection to adb\<close>

text \<open>What the file system and the candidates answer while adb is looked for.\<close>

record LocateAnswers =
  lo_slash :: "path \<Rightarrow> path \<Rightarrow> path"
  lo_regular :: "path \<Rightarrow> bool"
  lo_version :: "path \<Rightarrow> ProcessResult"
  lo_directory :: path
  lo_required :: string

text \<open>Adb is looked for, and the session with it is created and begun; the rest of \<open>Start\<close> and of \<open>Tick\<close> are
  the events of \<^verbatim>\<open>AdbSession\<close>.\<close>

definition adb_locate :: "LocateAnswers \<Rightarrow> 's Server \<Rightarrow> 's Server option" where
  "adb_locate ans s =
     (if \<not> sv_threads s \<or> \<not> sv_running s \<or> sv_adb s \<noteq> None then None
      else case locate (lo_slash ans) (lo_regular ans) (lo_version ans)
          \<lparr>executable_directory = lo_directory ans, bundled_candidates = [],
           fallback_path = lo_slash ans (lo_directory ans) ''adb.exe'', required_bundled_version = lo_required ans\<rparr> of
        None \<Rightarrow> Some (on_status (\<lambda>st. (if sv_session_active s then st else st\<lparr>ss_phase := kAwaitingAdb\<rparr>)
                   \<lparr>ss_diagnostic := ''ADB 36.0.2 not found beside PadDrawBoard''\<rparr>) s)
      | Some found \<Rightarrow> Some (s\<lparr>sv_adb := session_step StartCalled (conf_init default_policy)\<rparr>))"

definition adb_event :: "session_event \<Rightarrow> 's Server \<Rightarrow> 's Server option" where
  "adb_event e s =
     (if \<not> sv_threads s then None
      else case e of
        StartCalled \<Rightarrow> None | ChannelLoss _ _ \<Rightarrow> None | StopBegun \<Rightarrow> None | StopEnded \<Rightarrow> None
      | _ \<Rightarrow> (case sv_adb s of
          None \<Rightarrow> None
        | Some c \<Rightarrow> map_option (\<lambda>c. s\<lparr>sv_adb := Some c\<rparr>) (session_step e c)))"

record AdbAnswers =
  ab_now :: int
  ab_loss_now :: int
  ab_run :: "string list \<Rightarrow> ProcessResult"

definition kHandshakeTimeoutNs :: int where "kHandshakeTimeoutNs = 5 * 10 ^ 9"

definition probe_device :: "AdbAnswers \<Rightarrow> 's Server \<Rightarrow> 's Server" where
  "probe_device ans s =
     (let listing = selectSingleAuthorizedDevice (ab_run ans) in
      if status listing \<noteq> SelAuthorized \<or> selected listing = None then s
      else
        let result = probe (ab_run ans) (serial (the (selected listing)));
            buttons = (probe_succeeded result \<and> all_buttons_observable (InputProbe.capabilities result));
            s = UpdateReleaseReadinessLocked (on_status (\<lambda>st. st\<lparr>ss_probe_completed := True,
                  ss_buttons_confirmed := buttons, ss_probe_diagnostic := ProbeSummary result\<rparr>) s)
        in (write_line (object_line ''input_probe''
              [(''command_succeeded'', boolean (probe_succeeded result)),
               (''permission_denied'', boolean (permission_denied result)),
               (''all_buttons_confirmed'', boolean buttons)]) s)\<lparr>sv_probe_attempted := True\<rparr>)"

definition forget_probe :: "'s Server \<Rightarrow> 's Server" where
  "forget_probe s =
     UpdateReleaseReadinessLocked (on_status (\<lambda>st. st\<lparr>ss_probe_completed := False, ss_buttons_confirmed := False\<rparr>)
       (s\<lparr>sv_probe_attempted := False\<rparr>))"

definition waiting_status :: "bool \<Rightarrow> string \<Rightarrow> 's Server \<Rightarrow> 's Server" where
  "waiting_status adb_up e s =
     (if sv_session_active s then s
      else on_status (\<lambda>st. st\<lparr>ss_phase := (if adb_up then kAwaitingClient else kAwaitingAdb),
             ss_diagnostic := (if adb_up then ''ADB reverse active; waiting for Android ClientHello'' else e)\<rparr>) s)"

text \<open>One turn of the inner loop, after \<open>Tick\<close> has returned.\<close>

definition adb_turn :: "AdbAnswers \<Rightarrow> 's Server \<Rightarrow> 's Server option" where
  "adb_turn ans s =
     (case sv_adb s of
        None \<Rightarrow> None
      | Some c \<Rightarrow>
          if \<not> sv_threads s \<or> \<not> sv_running s \<or> pc c \<noteq> Idle then None
          else let adb_up = (sess_state (sess c) = Connected) in
            case watchdog_observe kHandshakeTimeoutNs adb_up (sv_session_active s) (ab_now ans) (sv_waiting s) of
              (fired, waiting) \<Rightarrow>
                let s = s\<lparr>sv_waiting := waiting\<rparr> in
                Some (if fired then s\<lparr>sv_adb := Some (lose_channel (ab_loss_now ans)
                          ''Android client authentication handshake timed out; relaunching with a fresh token'' c),
                        sv_probe_attempted := False\<rparr>
                  else waiting_status adb_up (last_error (sess c))
                    (if adb_up \<and> \<not> sv_probe_attempted s then probe_device ans s
                     else if \<not> adb_up \<and> sv_probe_attempted s then forget_probe s
                     else s)))"

end
