(* ===== verification/ServerInvariant.thy ===== *)
theory ServerInvariant
  imports ServerLoops
begin

text \<open>
  What holds in every state of the server, whatever the order of the turns of its threads, the calls of the user and
  the answers of Windows, the tablet and adb.
\<close>

section \<open>The server as a whole\<close>

definition server_init :: "os \<Rightarrow> AppConfig \<Rightarrow> files \<Rightarrow> bool \<Rightarrow> bool \<Rightarrow> bool \<Rightarrow> MonitorInfo \<Rightarrow> ClientHello \<Rightarrow> 's Server" where
  "server_init os cfg fs pen touch inject monitor hello =
     \<lparr>sv_config = cfg, sv_files = fs, sv_status = status_init,
      sv_inputs = input_system_init os (injector_init pen touch inject), sv_adapter = adapter_init,
      sv_pipeline = pipeline_init, sv_monitor = monitor, sv_size = no_size, sv_edge = 3200, sv_epoch = 1,
      sv_hello = hello, sv_caps = 0, sv_control_listener = listener_init, sv_video_listener = listener_init,
      sv_input_listener = listener_init, sv_control = None, sv_video = None, sv_input = None, sv_adb = None,
      sv_adb_stopped = [], sv_threads = False, sv_waiting = None, sv_probe_attempted = False,
      sv_clock_sync = ClearPendingClockSync, sv_pointers = {}, sv_running = False, sv_session_active = False,
      sv_generation = 0, sv_control_sequence = 1, sv_video_sequence = 1, sv_accepting = None,
      sv_control_thread = None, sv_input_thread = None, sv_video_thread = None, sv_lines = [], sv_events = [],
      sv_closed = []\<rparr>"

text \<open>The events: calls of the user, which come from one thread (\<open>EvStopRequest\<close> and \<open>EvStopFinish\<close> are the two halves
  of \<open>Stop\<close>, between which it waits for the other threads), and turns of the threads.\<close>

datatype 's server_event =
    EvStart StartServerAnswers
  | EvStopRequest EndAnswers
  | EvStopFinish
  | EvReconfigure file_calls EndAnswers StartServerAnswers AppConfig
  | EvAccept accept_calls 's "'s EstablishAnswers"
  | EvActivate ActivateAnswers
  | EvControl ControlAnswers
  | EvInput InputAnswers
  | EvVideo VideoAnswers
  | EvLocate LocateAnswers
  | EvAdb session_event
  | EvAdbTurn AdbAnswers

fun server_step :: "'s Net \<Rightarrow> 's server_event \<Rightarrow> 's Server \<Rightarrow> 's Server option" where
  "server_step n (EvStart ans) s = (if sv_running s \<or> \<not> sv_threads s then Some (snd (StartServer n ans s)) else None)"
| "server_step n (EvStopRequest ans) s = (if sv_running s \<or> sv_threads s then Some (stop_request n ans s) else None)"
| "server_step n EvStopFinish s =
     (if \<not> sv_running s \<and> sv_threads s \<and> sv_accepting s = None then Some (stop_finish s) else None)"
| "server_step n (EvReconfigure calls stop_ans start_ans cfg) s =
     (if sv_accepting s = None \<and> (sv_running s \<or> \<not> sv_threads s)
      then Some (snd (Reconfigure n calls stop_ans start_ans cfg s)) else None)"
| "server_step n (EvAccept calls stream ans) s = accept_turn n calls stream ans s"
| "server_step n (EvActivate ans) s = accept_finish n ans s"
| "server_step n (EvControl ans) s = control_turn n ans s"
| "server_step n (EvInput ans) s = input_turn n ans s"
| "server_step n (EvVideo ans) s = video_turn n ans s"
| "server_step n (EvLocate ans) s = adb_locate ans s"
| "server_step n (EvAdb e) s = adb_event e s"
| "server_step n (EvAdbTurn ans) s = adb_turn ans s"

fun server_run :: "'s Net \<Rightarrow> 's server_event list \<Rightarrow> 's Server \<Rightarrow> 's Server option" where
  "server_run n [] s = Some s"
| "server_run n (e # es) s = (case server_step n e s of None \<Rightarrow> None | Some s \<Rightarrow> server_run n es s)"

lemma server_run_invariant:
  assumes "\<And>e s s'. P s \<Longrightarrow> server_step n e s = Some s' \<Longrightarrow> P s'"
  shows "P s \<Longrightarrow> server_run n es s = Some s' \<Longrightarrow> P s'"
proof (induction es arbitrary: s)
  case (Cons e es)
  then show ?case using assms by (auto split: option.splits)
qed simp

section \<open>The shape of the operations\<close>

lemma sink_call_shape:
  "\<exists>r L. sink_call n c s = s\<lparr>sv_status := (sv_status s)\<lparr>ss_stream_resets := r\<rparr>, sv_lines := L\<rparr>"
proof (cases c)
  case (OnCapture sample)
  then show ?thesis
    by (intro exI [of _ "ss_stream_resets (sv_status s)"])
      (auto simp: server_on_capture_def soak_line_def write_line_def)
next
  case (OnEncode sample)
  then show ?thesis
    by (intro exI [of _ "ss_stream_resets (sv_status s)"]) (auto simp: server_on_encode_def write_line_def)
next
  case OnStreamResetRequested
  then show ?thesis
    by (intro exI [of _ "ss_stream_resets (sv_status s) + 1"])
      (auto simp: server_on_stream_reset_def soak_line_def write_line_def)
next
  case (OnEncoderSelected name asynchronous)
  then show ?thesis
    by (intro exI [of _ "ss_stream_resets (sv_status s)"]) (auto simp: server_on_encoder_selected_def write_line_def)
next
  case (OnResolutionPolicy sample)
  then show ?thesis by (intro exI [of _ "ss_stream_resets (sv_status s)"] exI [of _ "sv_lines s"]) simp
qed

lemma fold_sink_shape:
  "\<exists>r L. fold (sink_call n) cs s = s\<lparr>sv_status := (sv_status s)\<lparr>ss_stream_resets := r\<rparr>, sv_lines := L\<rparr>"
proof (induction cs arbitrary: s)
  case Nil
  show ?case by (intro exI [of _ "ss_stream_resets (sv_status s)"] exI [of _ "sv_lines s"]) simp
next
  case (Cons c cs)
  obtain r L where c: "sink_call n c s = s\<lparr>sv_status := (sv_status s)\<lparr>ss_stream_resets := r\<rparr>, sv_lines := L\<rparr>"
    using sink_call_shape by blast
  obtain r' L' where "fold (sink_call n) cs (sink_call n c s) =
      (sink_call n c s)\<lparr>sv_status := (sv_status (sink_call n c s))\<lparr>ss_stream_resets := r'\<rparr>, sv_lines := L'\<rparr>"
    using Cons.IH by blast
  then show ?case by (auto simp: c)
qed

lemma with_pipeline_shape:
  obtains r L where "with_pipeline n p s =
    s\<lparr>sv_pipeline := p\<lparr>vp_calls := []\<rparr>, sv_status := (sv_status s)\<lparr>ss_stream_resets := r\<rparr>, sv_lines := L\<rparr>"
  using fold_sink_shape [of n "vp_calls p" "s\<lparr>sv_pipeline := p\<lparr>vp_calls := []\<rparr>\<rparr>"]
  by (auto simp: with_pipeline_def)

definition channel_list :: "'s Channel option \<Rightarrow> 's Channel list" where
  "channel_list c = (case c of None \<Rightarrow> [] | Some c \<Rightarrow> [c])"

lemma channel_list_simps [simp]: "channel_list None = []" "channel_list (Some c) = [c]"
  by (simp_all add: channel_list_def)

definition channel_handles :: "'s Channel option \<Rightarrow> socket list" where
  "channel_handles c = map ch_handle (channel_list c)"

lemma channel_handles_simps [simp]: "channel_handles None = []" "channel_handles (Some c) = [ch_handle c]"
  by (simp_all add: channel_handles_def)

lemma close_eq:
  "ShutdownAndClose c s =
     s\<lparr>sv_events := sv_events s @ map SocketClosed (channel_handles c), sv_closed := sv_closed s @ channel_list c\<rparr>"
  by (cases c; cases s) (simp_all add: ShutdownAndClose_def)

lemma disconnect_handle: "WriteDisconnect n q reason message c = (b, c') \<Longrightarrow> ch_handle c' = ch_handle c"
  by (auto simp: WriteDisconnect_def split: prod.splits)

lemma release_sockets_shape:
  obtains q C where "release_sockets n reason s =
    s\<lparr>sv_control := None, sv_video := None, sv_input := None, sv_control_sequence := q,
      sv_events := sv_events s @ map SocketClosed (channel_handles (sv_control s) @ channel_handles (sv_video s) @
        channel_handles (sv_input s)), sv_closed := C\<rparr>"
proof (cases "sv_control s")
  case None
  show ?thesis
    by (rule that [of "sv_closed s @ channel_list (sv_video s) @ channel_list (sv_input s)" "sv_control_sequence s"])
      (use None in \<open>cases s, simp add: release_sockets_def close_eq\<close>)
next
  case (Some c)
  obtain b c' where w: "WriteDisconnect n (sv_control_sequence s) 10 reason c = (b, c')" by fastforce
  then show ?thesis
    by (intro that [of "sv_closed s @ c' # channel_list (sv_video s) @ channel_list (sv_input s)" "sv_control_sequence s + 1"])
      (simp add: Some release_sockets_def close_eq disconnect_handle [OF w] Let_def)
qed

lemma notify_adb_shape: obtains adb where "notify_adb now reason s = s\<lparr>sv_adb := adb\<rparr>"
proof (cases "sv_running s")
  case True
  then show ?thesis by (intro that) (simp add: notify_adb_def)
next
  case False
  then show ?thesis by (intro that [of "sv_adb s"]) (simp add: notify_adb_def)
qed

definition ended :: "string \<Rightarrow> bool \<Rightarrow> ServerStatus \<Rightarrow> ServerStatus" where
  "ended reason running st =
     (UpdateReleaseReadiness 0 (st\<lparr>ss_active_pointers := 0, ss_phase := (if running then kAwaitingClient else kStopped),
        ss_control_connected := False, ss_video_connected := False, ss_input_connected := False,
        ss_capture_started := False\<rparr>))\<lparr>ss_diagnostic := reason\<rparr>"

lemma EndSession_shape:
  assumes "sv_session_active s"
  obtains r L q C adb p where "EndSession n ans reason s =
    s\<lparr>sv_clock_sync := ClearPendingClockSync, sv_session_active := False, sv_generation := sv_generation s + 1,
      sv_control := None, sv_video := None, sv_input := None, sv_control_sequence := q,
      sv_events := sv_events s @ map SocketClosed (channel_handles (sv_control s) @ channel_handles (sv_video s) @
        channel_handles (sv_input s)), sv_closed := C, sv_inputs := on_disconnect (nt_os n) (sv_inputs s), sv_caps := 0,
      sv_adb := adb, sv_pipeline := p, sv_pointers := {},
      sv_status := ended reason (sv_running s) ((sv_status s)\<lparr>ss_stream_resets := r\<rparr>), sv_lines := L\<rparr>"
proof -
  define s1 where "s1 = (write_line (SessionEndLine reason) (s\<lparr>sv_clock_sync := ClearPendingClockSync,
    sv_session_active := False\<rparr>))\<lparr>sv_generation := sv_generation s + 1\<rparr>"
  obtain q C where s2: "release_sockets n reason s1 =
    s1\<lparr>sv_control := None, sv_video := None, sv_input := None, sv_control_sequence := q,
      sv_events := sv_events s1 @ map SocketClosed (channel_handles (sv_control s1) @ channel_handles (sv_video s1) @
        channel_handles (sv_input s1)), sv_closed := C\<rparr>" by (rule release_sockets_shape)
  define s3 where "s3 = (release_sockets n reason s1)\<lparr>sv_inputs := on_disconnect (nt_os n) (sv_inputs (release_sockets n reason s1)), sv_caps := 0\<rparr>"
  obtain adb where s4: "notify_adb (ea_adb_now ans) reason s3 = s3\<lparr>sv_adb := adb\<rparr>" by (rule notify_adb_shape)
  define s4' where "s4' = notify_adb (ea_adb_now ans) reason s3"
  define p where "p = VideoPipeline.Stop (ea_shutdown ans) (sv_pipeline s4')"
  obtain r L where s5: "with_pipeline n p s4' = s4'\<lparr>sv_pipeline := p\<lparr>vp_calls := []\<rparr>,
    sv_status := (sv_status s4')\<lparr>ss_stream_resets := r\<rparr>, sv_lines := L\<rparr>" by (rule with_pipeline_shape)
  have e: "EndSession n ans reason s = soak_line n None (ended_status reason (with_pipeline n p s4'))"
    using assms by (simp add: EndSession_def Let_def p_def s4'_def s3_def s1_def write_line_def)
  show ?thesis
    by (rule that, unfold e s5, unfold s4'_def s4, unfold s3_def s2) (simp add: s1_def write_line_def soak_line_def ended_status_def UpdateDiagnostic_def
        UpdateReleaseReadinessLocked_def ended_def)
qed

section \<open>Input that has been released\<close>

definition input_released :: "InputSystem \<Rightarrow> bool" where
  "input_released i \<longleftrightarrow> (\<forall>k. held_key k (input_events (osLog i)) = 0) \<and> (\<forall>b. held_button b (input_events (osLog i)) = 0) \<and>
     touchActiveMask (injector i) = 0 \<and> \<not> penActive (injector i)"

lemma reachable_balanced_both:
  assumes "reachable os i"
  shows "held_measure.balanced (held_key k) i" "held_measure.balanced (held_button b) i"
  using keys.reachable_balanced [OF _ assms] buttons.reachable_balanced [OF _ assms] by simp_all

lemma released_release_everything:
  assumes "reachable os i"
  shows "input_released (release_everything os i)"
proof -
  obtain i' effs where r: "release_all os (injector (release_profile_actions i), osLog (release_profile_actions i)) = (i', effs)"
    by fastforce
  have "touchActiveMask (injector (release_everything os i)) = 0 \<and> \<not> penActive (injector (release_everything os i))"
    using release_all_state [OF r] by (simp add: release_everything_def with_injector_def r reset_guard_def)
  then show ?thesis
    using keys.balanced_release_everything(2) [OF reachable_balanced_both(1) [OF assms]]
      buttons.balanced_release_everything(2) [OF reachable_balanced_both(2) [OF assms]]
    by (simp add: input_released_def)
qed

lemma released_on_disconnect: "reachable os i \<Longrightarrow> input_released (on_disconnect os i)"
  by (simp add: on_disconnect_def released_release_everything)

lemma released_configure: "reachable os i \<Longrightarrow> configure os cfg i = (ok, i') \<Longrightarrow> input_released i'"
  using released_release_everything [of os i] by (auto simp: configure_def input_released_def split: prod.splits)

lemma released_palm [simp]: "input_released (set_palm_rejection enabled i) = input_released i"
  by (simp add: set_palm_rejection_def input_released_def)

lemma release_profile_injector: "injector (release_profile_actions i) = injector i"
proof -
  have one: "injector (release_button k x) = injector x" for k x
    by (simp add: release_button_def send_input_def Let_def)
  have "injector (fold release_button ks x) = injector x" for ks x
    by (induction ks arbitrary: x) (simp_all add: one)
  then show ?thesis by (simp add: release_profile_actions_def)
qed

lemma released_profiles:
  assumes "reachable os i" and "input_released i"
  shows "input_released (set_system_profiles os ps i)"
  using keys.balanced_release_profile(2) [OF reachable_balanced_both(1) [OF assms(1)]]
    buttons.balanced_release_profile(2) [OF reachable_balanced_both(2) [OF assms(1)]] assms(2)
  by (simp add: set_system_profiles_def Let_def input_released_def release_profile_injector)

lemma released_init: "input_released (input_system_init os (injector_init pen touch inject))"
  by (simp add: input_released_def input_system_init_def injector_init_def)

section \<open>The invariant\<close>

definition idle_server :: "'s Server \<Rightarrow> bool" where
  "idle_server s \<longleftrightarrow> sv_control s = None \<and> sv_video s = None \<and> sv_input s = None \<and> sv_caps s = 0 \<and> sv_pointers s = {} \<and>
     \<not> ss_capture_started (sv_status s) \<and> \<not> ss_control_connected (sv_status s) \<and>
     \<not> ss_video_connected (sv_status s) \<and> \<not> ss_input_connected (sv_status s) \<and>
     \<not> pcs_active (sv_clock_sync s) \<and> input_released (sv_inputs s)"

definition in_session :: "'s Server \<Rightarrow> bool" where
  "in_session s \<longleftrightarrow> sv_control s \<noteq> None \<and> sv_video s \<noteq> None \<and> sv_input s \<noteq> None \<and> sv_accepting s = None"

definition server_ok :: "'s Net \<Rightarrow> 's Server \<Rightarrow> bool" where
  "server_ok n s \<longleftrightarrow>
     gate_ok (sv_caps s) (sv_status s) \<and> reachable (nt_os n) (sv_inputs s) \<and>
     finite (sv_pointers s) \<and> ss_active_pointers (sv_status s) = of_nat (card (sv_pointers s)) \<and>
     (if sv_session_active s then in_session s else idle_server s) \<and>
     (sv_running s \<longrightarrow> sv_threads s) \<and> (\<not> sv_running s \<longrightarrow> sv_pointers s = {}) \<and>
     (sv_accepting s \<noteq> None \<longrightarrow> sv_threads s)"

lemma ended_keeps [simp]:
  "ss_active_pointers (ended reason b st) = 0" "\<not> ss_capture_started (ended reason b st)"
  "\<not> ss_control_connected (ended reason b st)" "\<not> ss_video_connected (ended reason b st)"
  "\<not> ss_input_connected (ended reason b st)"
  by (simp_all add: ended_def)

lemma gate_diagnostic [simp]: "gate_ok c (st\<lparr>ss_diagnostic := d\<rparr>) = gate_ok c st"
  "gate_ok c (st\<lparr>ss_phase := ph\<rparr>) = gate_ok c st" "gate_ok c (st\<lparr>ss_stream_resets := r\<rparr>) = gate_ok c st"
  "gate_ok c (st\<lparr>ss_frames_sent := f\<rparr>) = gate_ok c st" "gate_ok c (st\<lparr>ss_active_pointers := a\<rparr>) = gate_ok c st"
  by (simp_all add: gate_ok_def)

lemma gate_ended [simp]: "gate_ok 0 (ended reason b st)"
  by (simp add: ended_def)

lemma clear_inactive [simp]: "\<not> pcs_active ClearPendingClockSync"
  by (simp add: ClearPendingClockSync_def)

lemma EndSession_ok:
  assumes "server_ok n s \<or> \<not> sv_running s \<and> server_ok n (s\<lparr>sv_running := True\<rparr>)"
  shows "server_ok n (EndSession n ans reason s) \<and> \<not> sv_session_active (EndSession n ans reason s) \<and>
    sv_running (EndSession n ans reason s) = sv_running s \<and> sv_threads (EndSession n ans reason s) = sv_threads s \<and>
    sv_accepting (EndSession n ans reason s) = sv_accepting s"
proof (cases "sv_session_active s")
  case True
  have r: "reachable (nt_os n) (sv_inputs s)" using assms by (auto simp: server_ok_def)
  obtain r L q C adb p where "EndSession n ans reason s =
    s\<lparr>sv_clock_sync := ClearPendingClockSync, sv_session_active := False, sv_generation := sv_generation s + 1,
      sv_control := None, sv_video := None, sv_input := None, sv_control_sequence := q,
      sv_events := sv_events s @ map SocketClosed (channel_handles (sv_control s) @ channel_handles (sv_video s) @
        channel_handles (sv_input s)), sv_closed := C, sv_inputs := on_disconnect (nt_os n) (sv_inputs s), sv_caps := 0,
      sv_adb := adb, sv_pipeline := p, sv_pointers := {},
      sv_status := ended reason (sv_running s) ((sv_status s)\<lparr>ss_stream_resets := r\<rparr>), sv_lines := L\<rparr>"
    by (rule EndSession_shape [OF True])
  with assms True released_on_disconnect [OF r] reachable.disconnect [OF r] show ?thesis
    by (auto simp: server_ok_def idle_server_def in_session_def)
next
  case False
  with assms show ?thesis
    by (auto simp: EndSession_def Let_def write_line_def server_ok_def idle_server_def)
qed

section \<open>Accepting a peer\<close>

text \<open>What a rejected peer may change: the sequence of the control channel, sockets and the diagnostic.\<close>

definition peripheral :: "'s Server \<Rightarrow> 's Server \<Rightarrow> bool" where
  "peripheral s s' \<longleftrightarrow> s' = s\<lparr>sv_control_sequence := sv_control_sequence s', sv_events := sv_events s',
     sv_closed := sv_closed s', sv_status := (sv_status s)\<lparr>ss_diagnostic := ss_diagnostic (sv_status s')\<rparr>\<rparr>"

lemma peripheralE:
  assumes "peripheral s s'"
  obtains q E C d where "s' = s\<lparr>sv_control_sequence := q, sv_events := E, sv_closed := C,
    sv_status := (sv_status s)\<lparr>ss_diagnostic := d\<rparr>\<rparr>"
  using assms by (auto simp: peripheral_def)

lemma peripheral_refl [simp, intro]: "peripheral s s"
  by (simp add: peripheral_def)

lemma peripheral_trans: "peripheral s t \<Longrightarrow> peripheral t u \<Longrightarrow> peripheral s u"
  by (elim peripheralE, simp add: peripheral_def)

lemma peripheral_updates:
  "peripheral s t \<Longrightarrow> peripheral s (t\<lparr>sv_control_sequence := q\<rparr>)"
  "peripheral s t \<Longrightarrow> peripheral s (UpdateDiagnostic d t)"
  "peripheral s t \<Longrightarrow> peripheral s (add_events evs t)"
  "peripheral s t \<Longrightarrow> peripheral s (ShutdownAndClose c t)"
  by (elim peripheralE, simp add: peripheral_def UpdateDiagnostic_def add_events_def close_eq)+

lemma peripheral_reject: "peripheral s t \<Longrightarrow> reject n reason message shown c t = (c', u) \<Longrightarrow> peripheral s u"
  by (auto simp: reject_def Let_def peripheral_updates split: prod.splits option.splits)

lemma peripheral_drop: "peripheral s t \<Longrightarrow> drop_channels n e video inputs c t = (c', u) \<Longrightarrow> peripheral s u"
  by (auto simp: drop_channels_def intro!: peripheral_updates dest: peripheral_reject split: prod.splits)

lemma peripheral_give_up: "peripheral s t \<Longrightarrow> give_up n reason message shown h t = (c', u) \<Longrightarrow> peripheral s u"
  by (auto simp: give_up_def intro!: peripheral_updates dest: peripheral_reject split: prod.splits)

lemma greet_peripheral: "greet n ans c s = Some (Inl (c', s')) \<Longrightarrow> peripheral s s'"
  by (auto simp: greet_def intro!: peripheral_updates split: option.splits if_splits prod.splits sum.splits)

lemma read_hello_peripheral: "read_hello n c s = Inl (c', s') \<Longrightarrow> peripheral s s'"
  by (auto simp: read_hello_def Let_def intro: peripheral_reject [OF peripheral_refl]
      split: option.splits if_splits prod.splits)

lemma choose_display_peripheral: "choose_display n ans cfg hello c s = Inl (c', s') \<Longrightarrow> peripheral s s'"
  by (auto simp: choose_display_def Let_def intro: peripheral_reject [OF peripheral_refl]
      split: option.splits if_splits prod.splits)

lemma send_config_peripheral:
  "send_config n ok cfg c s = Inl (c', s') \<or> send_config n ok cfg c s = Inr (c', s') \<Longrightarrow> peripheral s s'"
  by (auto simp: send_config_def Let_def intro!: peripheral_updates split: if_splits prod.splits)

lemma offer_peripheral:
  "offer n ans c s = Inl (c', s') \<or> offer n ans c s = Inr (hello, monitor, chosen, edge, c', s') \<Longrightarrow> peripheral s s'"
  by (auto simp: offer_def intro: read_hello_peripheral choose_display_peripheral send_config_peripheral
      split: sum.splits prod.splits)

lemma receive_peripheral:
  "receive_channels n ans session c s = Some (Inl (c', s')) \<or>
   receive_channels n ans session c s = Some (Inr (video, inputs, s')) \<Longrightarrow> peripheral s s'"
  by (auto simp: receive_channels_def intro: peripheral_drop [OF peripheral_updates(3) [OF peripheral_refl]]
      peripheral_updates(3) split: option.splits sum.splits prod.splits)

lemma establish_channels_peripheral:
  assumes "establish_channels n ans c s = Some r"
  shows "case r of Inl (c', s') \<Rightarrow> peripheral s s' | Inr s' \<Rightarrow> \<exists>t h. peripheral s t \<and> s' = t\<lparr>sv_accepting := Some h\<rparr>"
proof -
  show ?thesis
    using assms
    by (auto simp: establish_channels_def split: option.splits sum.splits prod.splits
        dest!: greet_peripheral offer_peripheral [OF disjI1] offer_peripheral [OF disjI2]
          receive_peripheral [OF disjI1] receive_peripheral [OF disjI2] intro: peripheral_trans)
qed

lemma peripheral_ok: "peripheral s s' \<Longrightarrow> server_ok n s \<Longrightarrow> server_ok n s'"
  by (elim peripheralE) (auto simp: server_ok_def idle_server_def in_session_def)

lemma accept_turn_ok:
  assumes "server_ok n s" and "accept_turn n calls stream ans s = Some s'"
  shows "server_ok n s'"
proof (cases "sv_session_active s")
  case True
  with assms show ?thesis by (auto simp: accept_turn_def split: if_splits)
next
  case False
  have ready: "sv_running s" "sv_accepting s = None" using assms(2) by (auto simp: accept_turn_def split: if_splits)
  obtain st handle e evs where a: "listener_accept calls 100 (sv_control_listener s) = (st, handle, e, evs)"
    by (rule prod_cases4)
  have p: "peripheral s (add_events evs s)" by (intro peripheral_updates) simp
  show ?thesis
  proof (cases st)
    case Accepted
    define c where "c = \<lparr>ch_handle = the handle, ch_stream = stream\<rparr>"
    obtain r where e: "establish_channels n ans c (add_events evs s) = Some r"
      and s': "s' = (case r of Inl x \<Rightarrow> close_rejected x | Inr t \<Rightarrow> t)"
      using assms(2) False ready a Accepted by (auto simp: accept_turn_def c_def split: option.splits sum.splits)
    note q = establish_channels_peripheral [OF e]
    show ?thesis
    proof (cases r)
      case (Inl x)
      obtain c' t where x: "x = (c', t)" by fastforce
      have "peripheral s (ShutdownAndClose (Some c') t)"
        using q Inl x p by (auto intro: peripheral_trans peripheral_updates)
      then show ?thesis using s' Inl x assms(1) by (simp add: close_rejected_def peripheral_ok)
    next
      case (Inr t)
      then obtain u h where u: "peripheral (add_events evs s) u" "s' = u\<lparr>sv_accepting := Some h\<rparr>" using q s' by auto
      have "peripheral s u" using p u(1) by (rule peripheral_trans)
      then have "server_ok n u" "\<not> sv_session_active u" "sv_threads u"
        using assms(1) False ready by (auto simp: peripheral_ok) (auto elim!: peripheralE simp: server_ok_def)
      then show ?thesis using u(2) by (auto simp: server_ok_def idle_server_def)
    qed
  qed (use assms False ready a p in \<open>auto simp: accept_turn_def intro!: peripheral_ok [OF _ assms(1)] peripheral_updates\<close>)
qed

section \<open>Activating\<close>

lemma with_pipeline_ok:
  assumes "server_ok n s"
  shows "server_ok n (with_pipeline n p s)"
proof -
  obtain r L where "with_pipeline n p s =
    s\<lparr>sv_pipeline := p\<lparr>vp_calls := []\<rparr>, sv_status := (sv_status s)\<lparr>ss_stream_resets := r\<rparr>, sv_lines := L\<rparr>"
    by (rule with_pipeline_shape)
  with assms show ?thesis by (auto simp: server_ok_def idle_server_def in_session_def)
qed

lemma with_pipeline_keeps [simp]:
  "sv_session_active (with_pipeline n p s) = sv_session_active s" "sv_running (with_pipeline n p s) = sv_running s"
  "sv_threads (with_pipeline n p s) = sv_threads s" "sv_accepting (with_pipeline n p s) = sv_accepting s"
  "sv_inputs (with_pipeline n p s) = sv_inputs s" "sv_events (with_pipeline n p s) = sv_events s"
  "sv_control (with_pipeline n p s) = sv_control s" "sv_video (with_pipeline n p s) = sv_video s"
  "sv_input (with_pipeline n p s) = sv_input s" "sv_generation (with_pipeline n p s) = sv_generation s"
  "sv_control_listener (with_pipeline n p s) = sv_control_listener s"
  "sv_video_listener (with_pipeline n p s) = sv_video_listener s"
  "sv_input_listener (with_pipeline n p s) = sv_input_listener s"
  "sv_video_thread (with_pipeline n p s) = sv_video_thread s"
  "sv_video_sequence (with_pipeline n p s) = sv_video_sequence s"
  "ss_frames_sent (sv_status (with_pipeline n p s)) = ss_frames_sent (sv_status s)"
  by (rule with_pipeline_shape [of n p s], simp)+

lemma configure_input_ok:
  assumes "server_ok n s" and "\<not> sv_session_active s" and "configure_input n h s = (ok, s')"
  shows "server_ok n s' \<and> \<not> sv_session_active s' \<and> sv_accepting s' = sv_accepting s"
proof -
  let ?cfg = "mapper_config (hs_monitor h) (content_ratio (hs_size h)) (sv_epoch s + 1)"
  obtain i where c: "configure (nt_os n) ?cfg (sv_inputs s) = (ok, i)"
    using assms(3) by (auto simp: configure_input_def Let_def split: prod.splits)
  have r: "reachable (nt_os n) (sv_inputs s)" using assms(1) by (simp add: server_ok_def)
  have "reachable (nt_os n) i" using reachable.configure [OF r, of ?cfg] c by simp
  moreover have "input_released i" using released_configure [OF r c] .
  moreover have "s' = s\<lparr>sv_epoch := sv_epoch s + 1, sv_inputs := i\<rparr>"
    using assms(3) c by (simp add: configure_input_def)
  ultimately show ?thesis using assms(1,2) by (auto simp: server_ok_def idle_server_def)
qed

lemma use_config_ok:
  assumes "server_ok n s" and "\<not> sv_session_active s"
  shows "server_ok n (use_config n cfg s)"
proof -
  have r: "reachable (nt_os n) (set_palm_rejection (palm_guard_enabled cfg) (sv_inputs s))"
    using assms(1) by (intro reachable.palm) (simp add: server_ok_def)
  have "input_released (sv_inputs s)" using assms by (simp add: server_ok_def idle_server_def)
  with released_profiles [OF r] reachable.profiles [OF r] assms show ?thesis
    by (auto simp: use_config_def server_ok_def idle_server_def)
qed

lemma persist_config_shape:
  obtains fs cfg d where "persist_config n calls h s =
    s\<lparr>sv_files := fs, sv_config := cfg, sv_status := (sv_status s)\<lparr>ss_diagnostic := d\<rparr>\<rparr>"
proof -
  obtain r fs where r: "save_config calls (nt_utf8 n)
      ((hs_config h)\<lparr>selected_monitor_id := MonitorIdToString (mon_id (hs_monitor h))\<rparr>) (sv_files s) = (r, fs)" by fastforce
  let ?t = "persist_config n calls h s"
  have "?t = s\<lparr>sv_files := sv_files ?t, sv_config := sv_config ?t,
      sv_status := (sv_status s)\<lparr>ss_diagnostic := ss_diagnostic (sv_status ?t)\<rparr>\<rparr>"
    using r by (cases r) (simp_all add: persist_config_def UpdateDiagnostic_def Let_def)
  with that show ?thesis by blast
qed

lemma activate_session_ok:
  assumes "server_ok n s" and "\<not> sv_session_active s" and "sv_accepting s = None"
  shows "server_ok n (activate_session h s)"
proof -
  define st where "st = (sv_status s)\<lparr>ss_phase := kDegraded, ss_control_connected := True, ss_video_connected := True,
    ss_input_connected := True, ss_injection_available := is_available (injector (sv_inputs s)),
    ss_capture_started := True, ss_session_id := hs_session_id h, ss_frames_sent := 0, ss_stream_resets := 0\<rparr>"
  obtain d where "sv_status (activate_session h s) =
      (UpdateReleaseReadiness (helloCapabilities (hs_hello h)) st)\<lparr>ss_diagnostic := d\<rparr>"
    by (simp add: activate_session_def active_status_def UpdateDiagnostic_def UpdateReleaseReadinessLocked_def st_def Let_def)
  moreover have "ss_active_pointers st = 0" "sv_pointers s = {}"
    using assms(1,2) by (simp_all add: server_ok_def idle_server_def st_def)
  ultimately show ?thesis
    using assms
    by (simp add: activate_session_def active_status_def UpdateDiagnostic_def UpdateReleaseReadinessLocked_def Let_def
        server_ok_def in_session_def)
qed

lemma establish_rest_ok:
  assumes "server_ok n s" and "\<not> sv_session_active s" and "sv_accepting s = None"
  shows "case establish_rest n ans h s of Inl (c, s') \<Rightarrow> server_ok n s' | Inr s' \<Rightarrow> server_ok n s'"
proof -
  obtain hr p where v: "VideoPipeline.Start (av_start ans) (hs_monitor h) (hs_edge h) True (sv_pipeline s) = (hr, p)"
    by fastforce
  define s1 where "s1 = with_pipeline n p s"
  have s1: "server_ok n s1" "\<not> sv_session_active s1" "sv_accepting s1 = None"
    using assms by (simp_all add: s1_def with_pipeline_ok)
  obtain ok s2 where c: "configure_input n h s1 = (ok, s2)" by fastforce
  from configure_input_ok [OF s1(1,2) c] s1(3) have s2: "server_ok n s2" "\<not> sv_session_active s2" "sv_accepting s2 = None"
    by simp_all
  have give: "server_ok n t \<Longrightarrow> give_up n reason message shown h t = (c', u) \<Longrightarrow> server_ok n u" for reason message shown t c' u
    using peripheral_give_up [OF peripheral_refl] peripheral_ok by blast
  show ?thesis
  proof (cases "FAILED hr \<or> \<not> ok")
    case True
    then show ?thesis
      using give [OF s1(1)] give [OF with_pipeline_ok [OF s2(1)]]
      by (auto simp: establish_rest_def v c s1_def [symmetric] Let_def split: prod.splits)
  next
    case False
    define s3 where "s3 = (use_config n (hs_config h) s2)\<lparr>sv_adapter := adapter_configure (hs_hello h)
      (sv_epoch (use_config n (hs_config h) s2)) (sv_adapter (use_config n (hs_config h) s2))\<rparr>"
    have s3: "server_ok n s3" "\<not> sv_session_active s3" "sv_accepting s3 = None"
      using use_config_ok [OF s2(1,2)] s2 by (simp_all add: s3_def use_config_def server_ok_def idle_server_def)
    obtain fs cfg d where s4: "persist_config n (av_save ans) h s3 =
      s3\<lparr>sv_files := fs, sv_config := cfg, sv_status := (sv_status s3)\<lparr>ss_diagnostic := d\<rparr>\<rparr>"
      by (rule persist_config_shape)
    have "server_ok n (activate_session h (persist_config n (av_save ans) h s3))"
      using s3 by (intro activate_session_ok) (auto simp: s4 server_ok_def idle_server_def)
    with False show ?thesis
      by (simp add: establish_rest_def v c s1_def [symmetric] Let_def s3_def)
  qed
qed

lemma accept_finish_ok:
  assumes "server_ok n s" and "accept_finish n ans s = Some s'"
  shows "server_ok n s'"
proof -
  obtain h where h: "sv_accepting s = Some h" using assms(2) by (auto simp: accept_finish_def split: option.splits)
  have "\<not> sv_session_active s" using assms(1) h by (auto simp: server_ok_def in_session_def)
  with assms(1) h have s: "server_ok n (s\<lparr>sv_accepting := None\<rparr>)" "\<not> sv_session_active (s\<lparr>sv_accepting := None\<rparr>)"
    by (auto simp: server_ok_def idle_server_def)
  show ?thesis
    using establish_rest_ok [OF s, of ans h] assms(2) h peripheral_ok [OF peripheral_updates(4) [OF peripheral_refl]]
    by (auto simp: accept_finish_def close_rejected_def split: sum.splits prod.splits)
qed

section \<open>Starting and stopping\<close>

definition control_only :: "'s Server \<Rightarrow> 's Server \<Rightarrow> bool" where
  "control_only s s' \<longleftrightarrow> s' = s\<lparr>sv_events := sv_events s', sv_control_listener := sv_control_listener s',
     sv_video_listener := sv_video_listener s', sv_input_listener := sv_input_listener s'\<rparr>"

lemma control_onlyE:
  assumes "control_only s s'"
  obtains E c v i where "s' = s\<lparr>sv_events := E, sv_control_listener := c, sv_video_listener := v, sv_input_listener := i\<rparr>"
  using assms by (auto simp: control_only_def)

lemma close_listeners_only: "control_only s (close_listeners s)"
  by (simp add: close_listeners_def add_events_def control_only_def split: prod.split)

lemma open_listeners_only: "open_listeners ans s = (r, s') \<Longrightarrow> control_only s s'"
  by (auto simp: open_listeners_def add_events_def control_only_def Let_def split: prod.splits if_splits)

lemma control_only_ok: "control_only s s' \<Longrightarrow> server_ok n s \<Longrightarrow> server_ok n s'"
  by (elim control_onlyE) (auto simp: server_ok_def idle_server_def in_session_def)

lemma UpdateDiagnostic_ok [simp]: "server_ok n (UpdateDiagnostic d s) = server_ok n s"
  by (simp add: UpdateDiagnostic_def server_ok_def idle_server_def in_session_def)

lemma settings_ok [simp]:
  "server_ok n (s\<lparr>sv_config := cfg\<rparr>) = server_ok n s" "server_ok n (s\<lparr>sv_files := fs\<rparr>) = server_ok n s"
  by (simp_all add: server_ok_def idle_server_def in_session_def)

text \<open>\<open>use_config\<close> in a session that a race has left behind (see below) only touches what the input system holds.\<close>

lemma use_config_any:
  assumes "server_ok n s"
  shows "server_ok n (use_config n cfg s)"
proof (cases "sv_session_active s")
  case True
  have "reachable (nt_os n) (sv_inputs s)" using assms by (simp add: server_ok_def)
  from reachable.profiles [OF reachable.palm [OF this]] show ?thesis
    using assms True by (simp add: use_config_def server_ok_def in_session_def)
qed (use assms use_config_ok in blast)

lemma StartServer_ok:
  assumes "server_ok n s" and "sv_running s \<or> \<not> sv_threads s" and "StartServer n ans s = (ok, s')"
  shows "server_ok n s'"
proof (cases "sv_running s")
  case True
  with assms show ?thesis by (simp add: StartServer_def)
next
  case False
  then have idle: "sv_pointers s = {}" "sv_accepting s = None" "\<not> sv_threads s"
    using assms(1,2) by (auto simp: server_ok_def)
  define s1 where "s1 = s\<lparr>sv_running := True, sv_threads := True, sv_clock_sync := ClearPendingClockSync\<rparr>"
  have s1: "server_ok n s1" using assms(1) False by (auto simp: s1_def server_ok_def idle_server_def in_session_def)
  show ?thesis
  proof (cases "validate_config (sv_config s)")
    case (Inl e)
    with assms False show ?thesis
      by (auto simp: StartServer_def Let_def UpdateDiagnostic_def server_ok_def idle_server_def in_session_def)
  next
    case (Inr u)
    define s2 where "s2 = s\<lparr>sv_running := True, sv_clock_sync := ClearPendingClockSync\<rparr>"
    have s2t: "server_ok n ((use_config n (sv_config s2) s2)\<lparr>sv_threads := True\<rparr>)"
    proof -
      have "(use_config n (sv_config s2) s2)\<lparr>sv_threads := True\<rparr> = use_config n (sv_config s2) s1"
        by (simp add: use_config_def s1_def s2_def)
      then show ?thesis using use_config_any [OF s1, of "sv_config s2"] by simp
    qed
    obtain r t where o: "open_listeners ans (use_config n (sv_config s2) s2) = (r, t)" by fastforce
    obtain E c v i where t: "t = (use_config n (sv_config s2) s2)\<lparr>sv_events := E, sv_control_listener := c,
      sv_video_listener := v, sv_input_listener := i\<rparr>" using open_listeners_only [OF o] by (rule control_onlyE)
    obtain E' c' v' i' where cl: "close_listeners t = t\<lparr>sv_events := E', sv_control_listener := c',
      sv_video_listener := v', sv_input_listener := i'\<rparr>" using close_listeners_only [of t] by (rule control_onlyE)
    show ?thesis
    proof (cases r)
      case (Inl e)
      then have "s' = UpdateDiagnostic (''cannot bind 127.0.0.1: '' @ e) ((close_listeners t)\<lparr>sv_running := False\<rparr>)"
        using assms(3) False \<open>validate_config (sv_config s) = Inr u\<close> o by (simp add: StartServer_def s2_def)
      moreover have "server_ok n ((close_listeners t)\<lparr>sv_running := False\<rparr>)"
        using s2t idle unfolding cl unfolding t by (auto simp: server_ok_def idle_server_def in_session_def use_config_def s2_def)
      ultimately show ?thesis by simp
    next
      case inr: (Inr u')
      then have s': "s' = t\<lparr>sv_status := status_init\<lparr>ss_phase := kAwaitingAdb,
            ss_injection_available := is_available (injector (sv_inputs t)), ss_crash_count := sa_crash_count ans,
            ss_diagnostic := ''loopback listeners ready; waiting for authorized ADB device''\<rparr>,
          sv_caps := 0, sv_threads := True, sv_waiting := None, sv_probe_attempted := False\<rparr>"
        using assms(3) False \<open>validate_config (sv_config s) = Inr u\<close> o by (simp add: StartServer_def s2_def)
      show ?thesis
        using s2t idle unfolding s' t
        by (auto simp: server_ok_def idle_server_def in_session_def use_config_def s2_def status_init_def gate_ok_def
            ComputeReleaseReady_def)
    qed
  qed
qed

lemma stop_request_ok:
  assumes "server_ok n s"
  shows "server_ok n (stop_request n ans s) \<and> \<not> sv_session_active (stop_request n ans s) \<and>
    \<not> sv_running (stop_request n ans s) \<and> sv_accepting (stop_request n ans s) = sv_accepting s \<and>
    sv_threads (stop_request n ans s) = sv_threads s"
proof -
  let ?s = "s\<lparr>sv_running := False\<rparr>"
  have e: "server_ok n ?s \<or> \<not> sv_running ?s \<and> server_ok n (?s\<lparr>sv_running := True\<rparr>)"
    using assms by (cases "sv_running s") (auto simp: server_ok_def idle_server_def in_session_def)
  define t where "t = EndSession n ans ''desktop server shutting down'' ?s"
  have t: "server_ok n t" "\<not> sv_session_active t" "\<not> sv_running t" "sv_accepting t = sv_accepting s" "sv_threads t = sv_threads s"
    using EndSession_ok [OF e, of ans "''desktop server shutting down''"] by (simp_all add: t_def)
  have c: "control_only t (stop_request n ans s)" by (simp add: stop_request_def t_def close_listeners_only)
  from control_only_ok [OF c t(1)] c t(2-5) show ?thesis by (auto elim!: control_onlyE)
qed

lemma stop_adb_shape: obtains a x where "stop_adb s = s\<lparr>sv_adb := a, sv_adb_stopped := x\<rparr>"
proof -
  have "stop_adb s = s\<lparr>sv_adb := sv_adb (stop_adb s), sv_adb_stopped := sv_adb_stopped (stop_adb s)\<rparr>"
    by (simp add: stop_adb_def split: option.split)
  with that show ?thesis by blast
qed

lemma stop_finish_ok:
  assumes "server_ok n s" and "\<not> sv_running s" and "sv_accepting s = None"
  shows "server_ok n (stop_finish s) \<and> sv_session_active (stop_finish s) = sv_session_active s \<and>
    \<not> sv_running (stop_finish s) \<and> \<not> sv_threads (stop_finish s) \<and> sv_accepting (stop_finish s) = None"
proof -
  obtain a x where "stop_adb s = s\<lparr>sv_adb := a, sv_adb_stopped := x\<rparr>" by (rule stop_adb_shape)
  with assms show ?thesis
    by (auto simp: stop_finish_def server_ok_def idle_server_def in_session_def gate_ok_def ComputeReleaseReady_def)
qed

lemma StopServer_ok:
  assumes "server_ok n s" and "sv_accepting s = None"
  shows "server_ok n (StopServer n ans s) \<and> \<not> sv_running (StopServer n ans s) \<and> \<not> sv_threads (StopServer n ans s) \<and>
    sv_accepting (StopServer n ans s) = None"
  using stop_finish_ok [of n "stop_request n ans s"] stop_request_ok [OF assms(1), of ans] assms
  by (auto simp: StopServer_def)

lemma Reconfigure_ok:
  assumes "server_ok n s" and "sv_accepting s = None" and "Reconfigure n calls stop_ans start_ans cfg s = (r, s')"
  shows "server_ok n s'"
proof (cases "validate_config cfg")
  case (Inl e)
  with assms show ?thesis by (simp add: Reconfigure_def)
next
  case (Inr u)
  obtain q fs where q: "save_config calls (nt_utf8 n) cfg (sv_files s) = (q, fs)" by fastforce
  have s1: "server_ok n (s\<lparr>sv_files := fs\<rparr>)" using assms(1) by simp
  show ?thesis
  proof (cases q)
    case (Inl e)
    with assms q Inr s1 show ?thesis by (simp add: Reconfigure_def)
  next
    case inr: (Inr u')
    define t where "t = (StopServer n stop_ans (s\<lparr>sv_files := fs\<rparr>))\<lparr>sv_config := cfg\<rparr>"
    have t: "server_ok n t" "\<not> sv_threads t"
      using StopServer_ok [OF s1] assms(2) by (simp_all add: t_def)
    obtain ok u'' where st: "StartServer n start_ans t = (ok, u'')" by fastforce
    from StartServer_ok [OF t(1) _ st] t(2) have "server_ok n u''" by simp
    moreover have "server_ok n (s\<lparr>sv_files := fs, sv_config := cfg\<rparr>)" using assms(1) by simp
    ultimately show ?thesis
      using assms(3) q Inr inr st by (cases "sv_running s") (auto simp: Reconfigure_def Let_def t_def)
  qed
qed

end
