(* ===== verification/ServerSafety.thy ===== *)
theory ServerSafety
  imports ServerInvariant
begin

text \<open>
  The turns of the loops keep the invariant of the server, and what follows from it: the release gate is open only with
  all its evidence, and a server without a session holds no key, no button, no pointer and no socket of a session.
\<close>

section \<open>The turns of the channels\<close>

lemma EndSession_ok':
  assumes "server_ok n s"
  shows "server_ok n (EndSession n ans reason s)" "\<not> sv_session_active (EndSession n ans reason s)"
  using EndSession_ok assms by blast+

lemma thread_updates_ok [simp]:
  "server_ok n (s\<lparr>sv_control_thread := a\<rparr>) = server_ok n s" "server_ok n (s\<lparr>sv_input_thread := b\<rparr>) = server_ok n s"
  "server_ok n (s\<lparr>sv_video_thread := c\<rparr>) = server_ok n s" "server_ok n (s\<lparr>sv_lines := L\<rparr>) = server_ok n s"
  "server_ok n (s\<lparr>sv_video_sequence := q\<rparr>) = server_ok n s" "server_ok n (s\<lparr>sv_adapter := ad\<rparr>) = server_ok n s"
  "server_ok n (s\<lparr>sv_control_sequence := cq\<rparr>) = server_ok n s" "server_ok n (s\<lparr>sv_adb := adb\<rparr>) = server_ok n s"
  "server_ok n (s\<lparr>sv_waiting := w\<rparr>) = server_ok n s" "server_ok n (s\<lparr>sv_probe_attempted := p\<rparr>) = server_ok n s"
  by (simp_all add: server_ok_def idle_server_def in_session_def)

lemma write_line_ok [simp]: "server_ok n (write_line line s) = server_ok n s"
  by (simp add: write_line_def)

lemma soak_line_ok [simp]: "server_ok n (soak_line n l s) = server_ok n s"
  by (simp add: soak_line_def)

lemma write_line_keeps [simp]:
  "sv_session_active (write_line line s) = sv_session_active s" "sv_session_active (soak_line n l s) = sv_session_active s"
  "sv_status (write_line line s) = sv_status s" "sv_caps (write_line line s) = sv_caps s"
  by (simp_all add: write_line_def soak_line_def)

lemma on_clock_request_ok:
  assumes "server_ok n s" "sv_session_active s" "on_clock_request n ans g t c s = (ok, s')"
  shows "server_ok n s' \<and> sv_session_active s'"
  using assms by (auto simp: on_clock_request_def Let_def server_ok_def in_session_def split: prod.splits if_splits)

lemma on_orientation_ok:
  assumes "server_ok n s" "sv_session_active s" "on_orientation n degrees s = (ok, s')"
  shows "server_ok n s' \<and> sv_session_active s'"
  using assms by (auto simp: on_orientation_def Let_def server_ok_def in_session_def reachable.orientation split: if_splits)

lemma on_capabilities_ok:
  assumes "server_ok n s" "sv_session_active s"
  shows "server_ok n (on_capabilities caps s) \<and> sv_session_active (on_capabilities caps s)"
proof -
  have "server_ok n (UpdateReleaseReadinessLocked (s\<lparr>sv_caps := caps, sv_adapter := adapter_set_capabilities caps (sv_adapter s)\<rparr>))"
    using assms by (auto simp: UpdateReleaseReadinessLocked_def server_ok_def in_session_def)
  with assms(2) show ?thesis
    by (simp add: on_capabilities_def Let_def) (simp add: UpdateDiagnostic_def UpdateReleaseReadinessLocked_def)
qed

lemma on_client_telemetry_ok:
  assumes "server_ok n s" "sv_session_active s"
  shows "server_ok n (on_client_telemetry n r l d s) \<and> sv_session_active (on_client_telemetry n r l d s)"
proof -
  have "server_ok n (UpdateReleaseReadinessLocked (on_status (\<lambda>st. st\<lparr>ss_rtt_us := r, ss_video_latency_us := l\<rparr>) s))"
    using assms by (auto simp: UpdateReleaseReadinessLocked_def server_ok_def in_session_def)
  with assms(2) show ?thesis
    by (simp add: on_client_telemetry_def Let_def) (simp add: UpdateReleaseReadinessLocked_def)
qed

lemma on_clock_complete_ok:
  assumes "server_ok n s" "sv_session_active s"
  shows "server_ok n (on_clock_complete ans g a b c d s) \<and> sv_session_active (on_clock_complete ans g a b c d s)"
proof -
  obtain e p where "ConsumeClockSyncComplete a b c d g (co_now ans) (sv_clock_sync s) = (e, p)" by fastforce
  moreover have "server_ok n (s\<lparr>sv_clock_sync := p\<rparr>)" using assms by (simp add: server_ok_def in_session_def)
  ultimately show ?thesis
    using assms(2) by (simp add: on_clock_complete_def Let_def) (simp add: UpdateDiagnostic_def)
qed

lemma control_message_ok:
  assumes "server_ok n s" "sv_session_active s" "control_message n ans g c m s = (ok, s')"
  shows "server_ok n s' \<and> sv_session_active s'"
  using assms on_clock_request_ok [OF assms(1,2)] on_orientation_ok [OF assms(1,2)] on_capabilities_ok [OF assms(1,2)]
    on_client_telemetry_ok [OF assms(1,2)] on_clock_complete_ok [OF assms(1,2)] with_pipeline_ok [OF assms(1)]
  by (cases m) auto

lemma end_loops_ok:
  assumes "server_ok n s"
  shows "server_ok n (end_control n ans reason s)" "server_ok n (end_input n ans reason s)"
  using EndSession_ok' [OF assms] by (simp_all add: end_control_def end_input_def)

lemma control_frame_ok:
  assumes "server_ok n s" "sv_session_active s"
  shows "server_ok n (control_frame n ans g c read frame s)"
  using assms control_message_ok [OF assms] end_loops_ok [OF assms(1)]
  by (auto simp: control_frame_def Let_def split: option.split Payload.split prod.split
      intro!: end_loops_ok)

lemma channel_update_ok:
  assumes "server_ok n s" "sv_session_active s"
  shows "server_ok n (s\<lparr>sv_control := Some c\<rparr>)" "server_ok n (s\<lparr>sv_video := Some c\<rparr>)" "server_ok n (s\<lparr>sv_input := Some c\<rparr>)"
  using assms by (simp_all add: server_ok_def in_session_def)

lemma control_turn_ok:
  assumes "server_ok n s" and "control_turn n ans s = Some s'"
  shows "server_ok n s'"
  using assms channel_update_ok(1) [OF assms(1)] end_loops_ok(1) [OF assms(1)]
  by (auto simp: control_turn_def IsGenerationActive_def Let_def intro!: control_frame_ok
      split: option.splits if_splits prod.splits)

subsection \<open>Input\<close>

lemma finite_pointers: "finite keys \<Longrightarrow> finite (UpdateActivePointers batch keys)"
proof -
  have "finite (fold (\<lambda>s keys. if sample_touches s then insert (pointer_key s) keys else keys - {pointer_key s}) xs ks)"
    if "finite ks" for xs ks
    using that by (induction xs arbitrary: ks) auto
  then show "finite keys \<Longrightarrow> finite (UpdateActivePointers batch keys)" by (simp add: UpdateActivePointers_def)
qed

lemma update_pointers_ok:
  assumes "server_ok n s" "sv_session_active s" "sv_running s"
  shows "server_ok n (update_pointers batch s) \<and> sv_session_active (update_pointers batch s) \<and> sv_running (update_pointers batch s)"
  using assms by (auto simp: update_pointers_def Let_def server_ok_def in_session_def finite_pointers)

lemma process_input_ok:
  assumes "server_ok n s" "sv_session_active s"
  shows "server_ok n (process_input n adapted s)"
proof -
  obtain ok i where p: "process (nt_os n) adapted (sv_inputs s) = (ok, i)" by fastforce
  have "reachable (nt_os n) (sv_inputs s)" using assms(1) by (simp add: server_ok_def)
  from reachable.process [OF this, of adapted] p have "reachable (nt_os n) i" by simp
  with assms have s1: "server_ok n (s\<lparr>sv_inputs := i\<rparr>)" by (simp add: server_ok_def in_session_def)
  have "server_ok n (UpdateReleaseReadinessLocked (on_status (\<lambda>st. st\<lparr>ss_phase := kDegraded,
      ss_injection_available := is_available (injector i)\<rparr>) (s\<lparr>sv_inputs := i\<rparr>)))"
    using s1 assms(2) by (auto simp: UpdateReleaseReadinessLocked_def server_ok_def in_session_def)
  with s1 show ?thesis by (simp add: process_input_def p Let_def)
qed

lemma input_frame_ok:
  assumes "server_ok n s" "sv_session_active s" "sv_running s"
  shows "server_ok n (input_frame n ans read frame s)"
proof -
  have "server_ok n (process_input n adapted (transport_line ans batch (update_pointers batch (s\<lparr>sv_adapter := a\<rparr>))))" for adapted batch a
    using update_pointers_ok [of n "s\<lparr>sv_adapter := a\<rparr>" batch] assms
    by (intro process_input_ok) (simp_all add: transport_line_def Let_def)
  with assms show ?thesis
    by (auto simp: input_frame_def Let_def intro!: end_loops_ok split: option.split Payload.split prod.split sum.split)
qed

lemma input_turn_ok:
  assumes "server_ok n s" and "input_turn n ans s = Some s'"
  shows "server_ok n s'"
  using assms channel_update_ok(3) [OF assms(1)] end_loops_ok(2) [OF assms(1)]
  by (auto simp: input_turn_def IsGenerationActive_def Let_def intro!: input_frame_ok
      split: option.splits if_splits prod.splits)

subsection \<open>Video\<close>

lemma frame_sent_ok:
  assumes "server_ok n s" "sv_session_active s"
  shows "server_ok n (on_status frame_sent_status s)"
  using assms by (simp add: frame_sent_status_def Let_def server_ok_def in_session_def)

lemma continue_frame_ok:
  assumes "server_ok n s" "sv_session_active s" "continue_frame n ans c vl s = r"
  shows "case r of Inl (reason, s') \<Rightarrow> server_ok n s' | Inr (vl', s') \<Rightarrow> server_ok n s'"
proof -
  have s1: "server_ok n (s\<lparr>sv_video := Some x\<rparr>)" "sv_session_active (s\<lparr>sv_video := Some x\<rparr>)" for x
    using assms channel_update_ok(2) by auto
  have "server_ok n (on_status frame_sent_status (write_line line (s\<lparr>sv_video := Some x\<rparr>)))" for line x
    using s1 by (intro frame_sent_ok) simp_all
  with s1 assms(3) show ?thesis
    by (auto simp: continue_frame_def Let_def with_pipeline_ok split: prod.splits if_splits)
qed

lemma capture_and_encode_ok:
  assumes "server_ok n s" "capture_and_encode n ans au s = (r, s')"
  shows "server_ok n s' \<and> sv_session_active s' = sv_session_active s"
  using assms with_pipeline_ok
  by (auto simp: capture_and_encode_def Let_def split: prod.splits if_splits)

lemma start_frame_ok:
  assumes "server_ok n s" "start_frame au vl s = r"
  shows "case r of Inl (reason, s') \<Rightarrow> server_ok n s' | Inr (vl', s') \<Rightarrow> server_ok n s'"
  using assms by (auto simp: start_frame_def Let_def split: prod.splits if_splits)

lemma next_frame_ok:
  assumes "server_ok n s" "next_frame n ans vl s = r"
  shows "case r of Inl (reason, s') \<Rightarrow> server_ok n s' | Inr (vl', s') \<Rightarrow> server_ok n s'"
proof -
  obtain grab hr skipped stage au s1 where c: "capture_and_encode n ans (vl_encoded vl) s = ((grab, hr, skipped, stage, au), s1)"
    by (metis prod.exhaust)
  have "server_ok n s1" using capture_and_encode_ok [OF assms(1) c] by simp
  with assms(1) assms(2) [symmetric] c show ?thesis
    using start_frame_ok [OF \<open>server_ok n s1\<close> refl]
    by (simp add: next_frame_def Let_def)
qed

lemma video_turn_ok:
  assumes "server_ok n s" and "video_turn n ans s = Some s'"
  shows "server_ok n s'"
proof -
  obtain g vl where t: "sv_video_thread s = Some (g, vl)" using assms(2) by (auto simp: video_turn_def split: option.splits)
  show ?thesis
  proof (cases "IsGenerationActive g s \<and> sv_video s \<noteq> None")
    case False
    with assms t show ?thesis by (auto simp: video_turn_def EndSession_ok' split: if_splits)
  next
    case True
    then obtain c where c: "sv_video s = Some c" and active: "sv_session_active s" by (auto simp: IsGenerationActive_def)
    define r where "r = (if writer_pending (vl_frame vl) then continue_frame n ans c vl s else next_frame n ans vl s)"
    have "case r of Inl (reason, s') \<Rightarrow> server_ok n s' | Inr (vl', s') \<Rightarrow> server_ok n s'"
      using continue_frame_ok [OF assms(1) active refl] next_frame_ok [OF assms(1) refl] by (simp add: r_def)
    moreover have "s' = (case r of Inr (vl, s) \<Rightarrow> s\<lparr>sv_video_thread := Some (g, vl)\<rparr>
        | Inl (reason, s) \<Rightarrow> (EndSession n (va_end ans) reason s)\<lparr>sv_video_thread := None\<rparr>)"
      using assms(2) t True c by (simp add: video_turn_def r_def)
    ultimately show ?thesis by (auto simp: EndSession_ok' split: sum.splits prod.splits)
  qed
qed

subsection \<open>Adb\<close>

lemma probe_ok:
  assumes "server_ok n s"
  shows "server_ok n (UpdateReleaseReadinessLocked (on_status (\<lambda>st. st\<lparr>ss_probe_completed := c, ss_buttons_confirmed := b,
    ss_probe_diagnostic := d\<rparr>) s))"
    "server_ok n (UpdateReleaseReadinessLocked (on_status (\<lambda>st. st\<lparr>ss_probe_completed := c, ss_buttons_confirmed := b\<rparr>) s))"
  using assms by (auto simp: UpdateReleaseReadinessLocked_def server_ok_def in_session_def idle_server_def)

lemma waiting_status_ok: "server_ok n s \<Longrightarrow> server_ok n (waiting_status up e s)"
  by (auto simp: waiting_status_def server_ok_def idle_server_def)

lemma probe_device_ok: "server_ok n s \<Longrightarrow> server_ok n (probe_device ans s)"
  by (simp add: probe_device_def Let_def probe_ok)

lemma forget_probe_ok: "server_ok n s \<Longrightarrow> server_ok n (forget_probe s)"
  using probe_ok(2) [of n "s\<lparr>sv_probe_attempted := False\<rparr>"] by (simp add: forget_probe_def)

lemma adb_turn_ok: "server_ok n s \<Longrightarrow> adb_turn ans s = Some s' \<Longrightarrow> server_ok n s'"
  by (auto simp: adb_turn_def Let_def waiting_status_ok probe_device_ok forget_probe_ok
      split: option.splits if_splits prod.splits)

lemma adb_locate_ok: "server_ok n s \<Longrightarrow> adb_locate ans s = Some s' \<Longrightarrow> server_ok n s'"
  by (auto simp: adb_locate_def server_ok_def in_session_def idle_server_def split: option.splits if_splits)

lemma adb_event_ok: "server_ok n s \<Longrightarrow> adb_event e s = Some s' \<Longrightarrow> server_ok n s'"
  by (auto simp: adb_event_def split: session_event.splits option.splits if_splits)

section \<open>Every step\<close>

lemma server_step_ok:
  assumes "server_ok n s" and "server_step n e s = Some s'"
  shows "server_ok n s'"
proof (cases e)
  case (EvStart ans)
  obtain ok t where "StartServer n ans s = (ok, t)" by fastforce
  with StartServer_ok [OF assms(1) _ this] assms(2) EvStart show ?thesis by (auto split: if_splits)
next
  case (EvReconfigure calls stop_ans start_ans cfg)
  obtain r t where "Reconfigure n calls stop_ans start_ans cfg s = (r, t)" by fastforce
  with Reconfigure_ok [OF assms(1) _ this] assms(2) EvReconfigure show ?thesis by (auto split: if_splits)
next
  case (EvStopRequest ans)
  with assms stop_request_ok [OF assms(1), of ans] show ?thesis by (auto split: if_splits)
next
  case EvStopFinish
  with assms stop_finish_ok [OF assms(1)] show ?thesis by (auto split: if_splits)
qed (use assms(2) accept_turn_ok [OF assms(1)] accept_finish_ok [OF assms(1)] control_turn_ok [OF assms(1)]
    input_turn_ok [OF assms(1)] video_turn_ok [OF assms(1)] adb_locate_ok [OF assms(1)] adb_event_ok [OF assms(1)]
    adb_turn_ok [OF assms(1)] in simp_all)

lemma server_init_ok:
  "server_ok n (server_init (nt_os n) cfg fs pen touch inject monitor hello)"
  using released_init [of "nt_os n" pen touch inject]
  by (simp add: server_ok_def server_init_def idle_server_def gate_ok_def status_init_def ComputeReleaseReady_def
      reachable.init injector_init_def)

lemma server_run_ok:
  assumes "server_run n evs (server_init (nt_os n) cfg fs pen touch inject monitor hello) = Some s"
  shows "server_ok n s"
  using server_run_invariant [of "server_ok n", OF _ server_init_ok assms] server_step_ok by blast



end
