(* ===== verification/ServerSockets.thy ===== *)
theory ServerSockets
  imports ServerSafety "HOL-Library.Multiset"
begin

text \<open>
  The sockets of the process: every socket that is accepted or opened is held in one place, a listener, a channel of
  the session or a handshake under way, until it is closed, on every path of establishing and ending sessions and of
  starting and stopping.
\<close>

section \<open>What is held\<close>

text \<open>Windows hands out no handle that is open.\<close>

fun os_fresh :: "socket set \<Rightarrow> net_event list \<Rightarrow> bool" where
  "os_fresh H [] = True"
| "os_fresh H (SocketOpened h # evs) = (h \<notin> H \<and> os_fresh (insert h H) evs)"
| "os_fresh H (SocketClosed h # evs) = os_fresh (H - {h}) evs"
| "os_fresh H (Startup # evs) = os_fresh H evs"
| "os_fresh H (Cleanup # evs) = os_fresh H evs"

lemma os_fresh_append:
  "resources n H E = Some (m, G) \<Longrightarrow> os_fresh H (E @ F) \<longleftrightarrow> os_fresh H E \<and> os_fresh G F"
  by (induction n H E rule: resources.induct) (auto split: if_splits)

lemma os_fresh_prefix: "os_fresh H (E @ F) \<Longrightarrow> os_fresh H E"
  by (induction H E rule: os_fresh.induct) auto

text \<open>What a part of the process does with its own sockets is undisturbed by the others.\<close>

lemma resources_frame:
  "resources n H evs = Some (n', H') \<Longrightarrow> H \<inter> G = {} \<Longrightarrow> os_fresh (H \<union> G) evs \<Longrightarrow>
   resources (n + m) (H \<union> G) evs = Some (n' + m, H' \<union> G) \<and> H' \<inter> G = {}"
proof (induction n H evs rule: resources.induct)
  case (4 n H h evs)
  then show ?case by (auto simp: insert_commute Un_commute split: if_splits)
next
  case (5 n H h evs)
  then have h: "h \<in> H" "resources n (H - {h}) evs = Some (n', H')" by (auto split: if_splits)
  then have e: "(H \<union> G) - {h} = H - {h} \<union> G" using 5(3) by auto
  have "(H - {h}) \<inter> G = {}" "os_fresh (H - {h} \<union> G) evs" using 5(3,4) by (auto simp: e)
  with 5(1) [OF h] show ?case using h(1) by (simp add: e)
qed (auto split: if_splits)

definition holds :: "net_event list \<Rightarrow> socket multiset \<Rightarrow> nat \<Rightarrow> bool" where
  "holds E M k \<longleftrightarrow> resources 0 {} E = Some (k, set_mset M) \<and> (\<forall>h. count M h \<le> 1)"

lemma holds_open: "holds E M k \<Longrightarrow> os_fresh {} (E @ [SocketOpened h]) \<Longrightarrow> holds (E @ [SocketOpened h]) (add_mset h M) k"
proof -
  assume a: "holds E M k" "os_fresh {} (E @ [SocketOpened h])"
  have r: "resources 0 {} E = Some (k, set_mset M)" using a(1) by (simp add: holds_def)
  have "h \<notin># M" using a(2) os_fresh_append [OF r] by simp
  with a(1) r show ?thesis by (simp add: holds_def resources_append not_in_iff)
qed

lemma one_each: "\<forall>h. count (A + B) h \<le> 1 \<Longrightarrow> set_mset A \<inter> set_mset B = {}"
proof (rule ccontr)
  assume a: "\<forall>h. count (A + B) h \<le> 1" and "set_mset A \<inter> set_mset B \<noteq> {}"
  then obtain x where "x \<in># A" "x \<in># B" by auto
  then have "0 < count A x" "0 < count B x" by simp_all
  with a [THEN spec, of x] show False by simp
qed

lemma holds_close: "holds E (add_mset h M) k \<Longrightarrow> holds (E @ [SocketClosed h]) M k"
proof -
  assume a: "holds E (add_mset h M) k"
  then have c: "count (add_mset h M) x \<le> 1" for x by (simp add: holds_def)
  have "h \<notin># M" using c [of h] by (simp add: not_in_iff)
  moreover have "count M x \<le> 1" for x using c [of x] by (simp split: if_splits)
  ultimately show ?thesis using a by (auto simp: holds_def resources_append)
qed

lemma holds_close_all: "holds E (mset hs + M) k \<Longrightarrow> holds (E @ map SocketClosed hs) M k"
proof (induction hs arbitrary: E)
  case (Cons h hs)
  then have "holds (E @ [SocketClosed h]) (mset hs + M) k" by (intro holds_close) simp
  from Cons.IH [OF this] show ?case by simp
qed simp

definition listener_handles :: "Listener \<Rightarrow> socket multiset" where
  "listener_handles l = (case listen_socket l of None \<Rightarrow> {#} | Some h \<Rightarrow> {#h#})"

definition listener_starts :: "Listener \<Rightarrow> nat" where
  "listener_starts l = (if winsock_started l then 1 else 0)"

lemma owned_eq: "owned l = (listener_starts l, set_mset (listener_handles l))"
  by (simp add: owned_def listener_starts_def listener_handles_def split: option.split)

lemma listener_init_empty [simp]: "listener_handles listener_init = {#}" "listener_starts listener_init = 0"
  by (simp_all add: listener_handles_def listener_starts_def listener_init_def)

text \<open>A listener changes what it owns; the rest stays.\<close>

lemma holds_listener:
  assumes "case owned l of (n, H) \<Rightarrow> resources n H evs = Some (owned l')"
    and "holds E (listener_handles l + M) (listener_starts l + k)" and "os_fresh {} (E @ evs)"
  shows "holds (E @ evs) (listener_handles l' + M) (listener_starts l' + k)"
proof -
  let ?L = "set_mset (listener_handles l)"
  have E: "resources 0 {} E = Some (listener_starts l + k, ?L \<union> set_mset M)" and one: "count (listener_handles l + M) h \<le> 1" for h
    using assms(2) by (simp_all add: holds_def)
  have "?L \<inter> set_mset M = {}" using one by (intro one_each) simp
  moreover have "os_fresh (?L \<union> set_mset M) evs" using assms(3) os_fresh_append [OF E] by simp
  ultimately have r: "resources (listener_starts l + k) (?L \<union> set_mset M) evs =
      Some (listener_starts l' + k, set_mset (listener_handles l') \<union> set_mset M) \<and> set_mset (listener_handles l') \<inter> set_mset M = {}"
    using assms(1) by (intro resources_frame) (simp_all add: owned_eq)
  have "count (listener_handles l' + M) h \<le> 1" for h
    using r one [of h] by (auto simp: listener_handles_def not_in_iff split: option.splits)
  with r E show ?thesis by (simp add: holds_def resources_append)
qed

section \<open>The sockets of the server\<close>

definition handshake_handles :: "'s Handshake option \<Rightarrow> socket multiset" where
  "handshake_handles h = (case h of None \<Rightarrow> {#}
     | Some h \<Rightarrow> {#ch_handle (hs_control h), ch_handle (hs_video h), ch_handle (hs_input h)#})"

definition session_handles :: "'s Server \<Rightarrow> socket multiset" where
  "session_handles s = mset (channel_handles (sv_control s) @ channel_handles (sv_video s) @ channel_handles (sv_input s))"

definition server_handles :: "'s Server \<Rightarrow> socket multiset" where
  "server_handles s = listener_handles (sv_control_listener s) + listener_handles (sv_video_listener s) +
     listener_handles (sv_input_listener s) + session_handles s + handshake_handles (sv_accepting s)"

definition server_starts :: "'s Server \<Rightarrow> nat" where
  "server_starts s = listener_starts (sv_control_listener s) + listener_starts (sv_video_listener s) +
     listener_starts (sv_input_listener s)"

text \<open>\<open>X\<close> are handles that an operation under way holds in its locals.\<close>

definition owns :: "socket multiset \<Rightarrow> 's Server \<Rightarrow> bool" where
  "owns X s \<longleftrightarrow> holds (sv_events s) (X + server_handles s) (server_starts s)"

definition keeps_sockets :: "'s Server \<Rightarrow> 's Server \<Rightarrow> bool" where
  "keeps_sockets s s' \<longleftrightarrow> sv_events s' = sv_events s \<and> server_handles s' = server_handles s \<and> server_starts s' = server_starts s"

lemma owns_keeps: "keeps_sockets s s' \<Longrightarrow> owns X s' = owns X s"
  by (simp add: owns_def keeps_sockets_def)

lemma handles_cong:
  "sv_control_listener s' = sv_control_listener s \<Longrightarrow> sv_video_listener s' = sv_video_listener s \<Longrightarrow>
   sv_input_listener s' = sv_input_listener s \<Longrightarrow> session_handles s' = session_handles s \<Longrightarrow> sv_accepting s' = sv_accepting s \<Longrightarrow>
   server_handles s' = server_handles s \<and> server_starts s' = server_starts s"
  by (simp add: server_handles_def server_starts_def)

lemma owns_close: "owns (mset (channel_handles c) + X) s \<Longrightarrow> owns X (ShutdownAndClose c s)"
proof -
  have "server_handles (ShutdownAndClose c s) = server_handles s \<and> server_starts (ShutdownAndClose c s) = server_starts s"
    by (rule handles_cong) (simp_all add: close_eq session_handles_def)
  then show "owns (mset (channel_handles c) + X) s \<Longrightarrow> owns X (ShutdownAndClose c s)"
    by (simp add: owns_def close_eq holds_close_all add.assoc)
qed

section \<open>Establishing\<close>

lemma accept_events:
  assumes "listener_accept calls t l = (st, h, e, evs)"
  shows "case st of Accepted \<Rightarrow> (\<exists>x. h = Some x \<and> evs = [SocketOpened x]) | AcceptTimeout \<Rightarrow> evs = []
    | AcceptError \<Rightarrow> (\<exists>m. e = Some m) \<and> (evs = [] \<or> (\<exists>x. evs = [SocketOpened x, SocketClosed x]))"
  using assms by (auto simp: listener_accept_def split: if_splits sum.splits)

text \<open>\<open>evs\<close> open the socket of \<open>c\<close> and leave everything else as it is.\<close>

definition opens :: "net_event list \<Rightarrow> 's Channel option \<Rightarrow> bool" where
  "opens evs c \<longleftrightarrow> (\<forall>E M k. holds E M k \<longrightarrow> os_fresh {} (E @ evs) \<longrightarrow> holds (E @ evs) (mset (channel_handles c) + M) k)"

lemma opens_nothing: "opens [] None" "opens [SocketOpened x, SocketClosed x] None"
proof -
  have "holds (E @ [SocketOpened x, SocketClosed x]) M k" if "holds E M k" "os_fresh {} (E @ [SocketOpened x, SocketClosed x])" for E M k
  proof -
    have "os_fresh {} (E @ [SocketOpened x])" using that(2) os_fresh_prefix [of _ "E @ [SocketOpened x]" "[SocketClosed x]"] by simp
    from holds_close [OF holds_open [OF that(1) this]] show ?thesis by simp
  qed
  then show "opens [] None" "opens [SocketOpened x, SocketClosed x] None" by (auto simp: opens_def)
qed

lemma opens_one: "ch_handle c = x \<Longrightarrow> opens [SocketOpened x] (Some c)"
  by (auto simp: opens_def holds_open)

lemma receive_accepted_opens:
  assumes "receive_accepted n session channel a h [SocketOpened h] = Some (r, c, evs)"
  shows "opens evs c \<and> (r = Inr () \<longrightarrow> c \<noteq> None)"
  using assms opens_nothing(2)
  by (auto simp: receive_accepted_def opens_one split: if_splits option.splits sum.splits prod.splits)

lemma ReceiveChannel_opens:
  "ReceiveChannel n running session channel l answers = Some (r, c, evs) \<Longrightarrow> opens evs c \<and> (r = Inr () \<longrightarrow> c \<noteq> None)"
proof (induction answers arbitrary: r c evs)
  case Nil
  then show ?case by (auto simp: opens_nothing(1))
next
  case (Cons a answers)
  show ?case
  proof (cases running)
    case False
    with Cons.prems show ?thesis by (auto simp: opens_nothing(1))
  next
    case True
    obtain st h e evs0 where a: "listener_accept (ac_calls a) 100 l = (st, h, e, evs0)" by (rule prod_cases4)
    note ev = accept_events [OF a]
    show ?thesis
    proof (cases st)
      case Accepted
      with Cons.prems True a ev show ?thesis by (auto dest: receive_accepted_opens)
    next
      case AcceptError
      with Cons.prems True a ev show ?thesis by (auto intro: opens_nothing)
    next
      case AcceptTimeout
      with Cons.prems True a ev Cons.IH show ?thesis by auto
    qed
  qed
qed

lemma add_events_simps [simp]:
  "sv_events (add_events evs s) = sv_events s @ evs" "server_handles (add_events evs s) = server_handles s"
  "server_starts (add_events evs s) = server_starts s"
  by (simp_all add: add_events_def server_handles_def server_starts_def session_handles_def)

lemma owns_opens:
  "opens evs c \<Longrightarrow> owns X s \<Longrightarrow> os_fresh {} (sv_events s @ evs) \<Longrightarrow> owns (mset (channel_handles c) + X) (add_events evs s)"
  by (simp add: opens_def owns_def add.assoc)

lemma keeps_sockets_simps [simp]:
  "keeps_sockets s (t\<lparr>sv_control_sequence := q\<rparr>) = keeps_sockets s t"
  "keeps_sockets s (UpdateDiagnostic d t) = keeps_sockets s t" "keeps_sockets s s"
  by (simp_all add: keeps_sockets_def UpdateDiagnostic_def server_handles_def server_starts_def session_handles_def)

lemma reject_keeps: "reject n reason message shown c s = (c', s') \<Longrightarrow> ch_handle c' = ch_handle c \<and> keeps_sockets s s'"
  by (auto simp: reject_def Let_def dest: disconnect_handle split: prod.splits option.splits)

lemma greet_keeps:
  "greet n ans c s = Some (Inl (c', s')) \<Longrightarrow> ch_handle c' = ch_handle c \<and> keeps_sockets s s'"
  "greet n ans c s = Some (Inr (c', session)) \<Longrightarrow> ch_handle c' = ch_handle c"
  by (auto simp: greet_def split: option.splits if_splits prod.splits sum.splits)

lemma read_hello_keeps:
  "read_hello n c s = Inl (c', s') \<Longrightarrow> ch_handle c' = ch_handle c \<and> keeps_sockets s s'"
  "read_hello n c s = Inr (hello, c') \<Longrightarrow> ch_handle c' = ch_handle c"
  by (auto simp: read_hello_def Let_def dest!: reject_keeps split: option.splits if_splits prod.splits)

lemma choose_display_keeps:
  "choose_display n ans cfg hello c s = Inl (c', s') \<Longrightarrow> ch_handle c' = ch_handle c \<and> keeps_sockets s s'"
  by (auto simp: choose_display_def Let_def dest!: reject_keeps split: option.splits if_splits prod.splits)

lemma send_config_keeps:
  "send_config n ok cfg c s = Inl (c', s') \<or> send_config n ok cfg c s = Inr (c', s') \<Longrightarrow>
   ch_handle c' = ch_handle c \<and> keeps_sockets s s' \<and> sv_accepting s' = sv_accepting s"
  by (auto simp: send_config_def Let_def UpdateDiagnostic_def keeps_sockets_def server_handles_def server_starts_def
      session_handles_def split: if_splits prod.splits)

lemma offer_keeps:
  "offer n ans c s = Inl (c', s') \<Longrightarrow> ch_handle c' = ch_handle c \<and> keeps_sockets s s'"
  "offer n ans c s = Inr (hello, monitor, chosen, edge, c', s') \<Longrightarrow>
     ch_handle c' = ch_handle c \<and> keeps_sockets s s' \<and> sv_accepting s' = sv_accepting s"
  by (auto simp: offer_def dest!: read_hello_keeps choose_display_keeps send_config_keeps [OF disjI1]
      send_config_keeps [OF disjI2] split: sum.splits prod.splits)

lemma close_events [simp]: "sv_events (ShutdownAndClose c s) = sv_events s @ map SocketClosed (channel_handles c)"
  by (simp add: close_eq)

lemma drop_channels_owns:
  assumes "drop_channels n e video inputs c s = (c', s')"
    and "owns (mset (channel_handles video) + (mset (channel_handles inputs) + X)) s"
  shows "ch_handle c' = ch_handle c \<and> owns X s' \<and> (\<exists>evs. sv_events s' = sv_events s @ evs)"
proof -
  obtain t where t: "reject n 7 e None c s = (c', t)"
      "s' = UpdateDiagnostic e (ShutdownAndClose inputs (ShutdownAndClose video t))"
    using assms(1) by (auto simp: drop_channels_def split: prod.splits)
  note k = reject_keeps [OF t(1)]
  have "owns X (ShutdownAndClose inputs (ShutdownAndClose video t))"
    using assms(2) k owns_keeps by (intro owns_close) blast
  then have "owns X s'" unfolding t(2) by (subst owns_keeps) auto
  moreover have "sv_events s' = sv_events s @ map SocketClosed (channel_handles video) @ map SocketClosed (channel_handles inputs)"
    using k by (simp add: t(2) UpdateDiagnostic_def keeps_sockets_def)
  ultimately show ?thesis using k by blast
qed

lemma receive_channels_owns:
  assumes "owns X s"
  shows "receive_channels n ans session c s = Some (Inl (c', s')) \<Longrightarrow> os_fresh {} (sv_events s') \<Longrightarrow>
      ch_handle c' = ch_handle c \<and> owns X s'"
    and "receive_channels n ans session c s = Some (Inr (v, i, s')) \<Longrightarrow> os_fresh {} (sv_events s') \<Longrightarrow>
      owns ({#ch_handle v, ch_handle i#} + X) s' \<and> sv_accepting s' = sv_accepting s"
proof -
  show "ch_handle c' = ch_handle c \<and> owns X s'"
    if r: "receive_channels n ans session c s = Some (Inl (c', s'))" and f: "os_fresh {} (sv_events s')"
  proof -
    obtain rv video ev where v: "ReceiveChannel n (sv_running s) session AuthVideo (sv_video_listener s) (es_video_accepts ans) = Some (rv, video, ev)"
      using r by (auto simp: receive_channels_def split: option.splits)
    note ov = ReceiveChannel_opens [OF v, THEN conjunct1]
    show ?thesis
    proof (cases rv)
      case (Inl e)
      then have d: "drop_channels n e video None c (add_events ev s) = (c', s')" using r v by (simp add: receive_channels_def)
      have e: "sv_events s' = sv_events s @ ev @ map SocketClosed (channel_handles video)"
        using d by (auto simp: drop_channels_def UpdateDiagnostic_def keeps_sockets_def split: prod.splits dest!: reject_keeps)
      have "os_fresh {} (sv_events s @ ev)" using f e os_fresh_prefix by (metis append.assoc)
      from drop_channels_owns [OF d, of X] owns_opens [OF ov assms this] show ?thesis by simp
    next
      case (Inr u)
      obtain ri inputs ei where i: "ReceiveChannel n (sv_running s) session AuthInput (sv_input_listener s) (es_input_accepts ans) = Some (ri, inputs, ei)"
        and d: "drop_channels n (projl ri) video inputs c (add_events (ev @ ei) s) = (c', s')"
        using r v Inr by (auto simp: receive_channels_def split: option.splits sum.splits)
      note oi = ReceiveChannel_opens [OF i, THEN conjunct1]
      have "\<exists>evs. sv_events s' = (sv_events s @ ev @ ei) @ evs"
        using d by (auto simp: drop_channels_def UpdateDiagnostic_def keeps_sockets_def split: prod.splits dest!: reject_keeps)
      then have f2: "os_fresh {} (sv_events s @ ev @ ei)" using f os_fresh_prefix by metis
      then have f1: "os_fresh {} (sv_events s @ ev)" using os_fresh_prefix by (metis append.assoc)
      have "owns (mset (channel_handles inputs) + (mset (channel_handles video) + X)) (add_events ei (add_events ev s))"
        using owns_opens [OF oi owns_opens [OF ov assms f1]] f2 by simp
      then have "owns (mset (channel_handles video) + (mset (channel_handles inputs) + X)) (add_events (ev @ ei) s)"
        by (simp add: add_events_def add.left_commute)
      from drop_channels_owns [OF d this] show ?thesis by simp
    qed
  qed
  show "owns ({#ch_handle v, ch_handle i#} + X) s' \<and> sv_accepting s' = sv_accepting s"
    if r: "receive_channels n ans session c s = Some (Inr (v, i, s'))" and f: "os_fresh {} (sv_events s')"
  proof -
    obtain video ev inputs ei where x: "ReceiveChannel n (sv_running s) session AuthVideo (sv_video_listener s) (es_video_accepts ans) = Some (Inr (), video, ev)"
        "ReceiveChannel n (sv_running s) session AuthInput (sv_input_listener s) (es_input_accepts ans) = Some (Inr (), inputs, ei)"
        "v = the video" "i = the inputs" "s' = add_events (ev @ ei) s"
      using r by (auto simp: receive_channels_def split: option.splits sum.splits)
    note ov = ReceiveChannel_opens [OF x(1)] and oi = ReceiveChannel_opens [OF x(2)]
    have f2: "os_fresh {} (sv_events s @ ev @ ei)" using f x(5) by simp
    then have f1: "os_fresh {} (sv_events s @ ev)" using os_fresh_prefix by (metis append.assoc)
    have "owns (mset (channel_handles inputs) + (mset (channel_handles video) + X)) (add_events ei (add_events ev s))"
      using owns_opens [OF oi [THEN conjunct1] owns_opens [OF ov [THEN conjunct1] assms f1]] f2 by simp
    moreover obtain a b where "video = Some a" "inputs = Some b" using ov oi by auto
    ultimately show ?thesis using x(3-5) by (simp add: add_events_def)
  qed
qed

section \<open>Every step\<close>

lemma server_handles_accepting:
  "sv_accepting s = None \<Longrightarrow> server_handles (s\<lparr>sv_accepting := Some h\<rparr>) =
     {#ch_handle (hs_control h), ch_handle (hs_video h), ch_handle (hs_input h)#} + server_handles s"
  by (simp add: server_handles_def handshake_handles_def session_handles_def)

lemma establish_channels_owns:
  assumes "owns {#ch_handle c#} s" and "sv_accepting s = None"
  shows "establish_channels n ans c s = Some (Inl (c', s')) \<Longrightarrow> os_fresh {} (sv_events s') \<Longrightarrow>
      ch_handle c' = ch_handle c \<and> owns {#ch_handle c#} s'"
    and "establish_channels n ans c s = Some (Inr s') \<Longrightarrow> os_fresh {} (sv_events s') \<Longrightarrow> owns {#} s'"
proof -
  have after_offer: "owns {#ch_handle c#} t" if "keeps_sockets s t" for t
    using assms(1) owns_keeps [OF that] by simp
  show "ch_handle c' = ch_handle c \<and> owns {#ch_handle c#} s'"
    if e: "establish_channels n ans c s = Some (Inl (c', s'))" and f: "os_fresh {} (sv_events s')"
    using e f after_offer receive_channels_owns(1) [OF after_offer, of _ n ans]
    by (auto simp: establish_channels_def split: option.splits sum.splits prod.splits
        dest!: greet_keeps(1) greet_keeps(2) offer_keeps)
  show "owns {#} s'" if e: "establish_channels n ans c s = Some (Inr s')" and f: "os_fresh {} (sv_events s')"
  proof -
    obtain c1 session hello monitor chosen edge c2 t v i u where x:
        "greet n ans c s = Some (Inr (c1, session))" "offer n ans c1 s = Inr (hello, monitor, chosen, edge, c2, t)"
        "receive_channels n ans session c2 t = Some (Inr (v, i, u))"
        "s' = u\<lparr>sv_accepting := Some (the (sv_accepting s'))\<rparr>" "hs_control (the (sv_accepting s')) = c2"
        "hs_video (the (sv_accepting s')) = v" "hs_input (the (sv_accepting s')) = i"
      using e by (auto simp: establish_channels_def split: option.splits sum.splits prod.splits)
    have c: "ch_handle c2 = ch_handle c" "keeps_sockets s t" "sv_accepting t = None"
      using greet_keeps(2) [OF x(1)] offer_keeps(2) [OF x(2)] assms(2) by auto
    have "os_fresh {} (sv_events u)" using f by (subst (asm) x(4)) simp
    from receive_channels_owns(2) [OF after_offer [OF c(2)] x(3) this] c(3)
    have u: "owns {#ch_handle v, ch_handle i, ch_handle c#} u" "sv_accepting u = None" by (simp_all add: add_mset_commute)
    obtain h where h: "s' = u\<lparr>sv_accepting := Some h\<rparr>" "hs_control h = c2" "hs_video h = v" "hs_input h = i"
      using x(4-7) by blast
    have "server_starts s' = server_starts u" "sv_events s' = sv_events u" by (simp_all add: h(1) server_starts_def)
    with u(1) server_handles_accepting [OF u(2), of h] show ?thesis
      by (simp add: owns_def h c(1) add_mset_commute)
  qed
qed

lemma receive_channels_extends:
  "receive_channels n ans session c s = Some (Inl (c', s')) \<Longrightarrow> \<exists>F. sv_events s' = sv_events s @ F"
  "receive_channels n ans session c s = Some (Inr (v, i, s')) \<Longrightarrow> \<exists>F. sv_events s' = sv_events s @ F"
  by (auto simp: receive_channels_def drop_channels_def UpdateDiagnostic_def keeps_sockets_def dest!: reject_keeps
      split: option.splits sum.splits prod.splits)

lemma establish_channels_extends:
  assumes "establish_channels n ans c s = Some r"
  shows "\<exists>F. sv_events (case r of Inl (c', s') \<Rightarrow> s' | Inr s' \<Rightarrow> s') = sv_events s @ F"
  using assms
  by (auto simp: establish_channels_def keeps_sockets_def split: option.splits sum.splits prod.splits
      dest!: greet_keeps(1) offer_keeps receive_channels_extends)

lemma accept_turn_owns:
  assumes "owns {#} s" and "accept_turn n calls stream ans s = Some s'" and "os_fresh {} (sv_events s')"
  shows "owns {#} s'"
proof (cases "sv_session_active s")
  case True
  with assms show ?thesis by (auto simp: accept_turn_def split: if_splits)
next
  case False
  have ready: "sv_running s" "sv_accepting s = None" using assms(2) by (auto simp: accept_turn_def split: if_splits)
  obtain st h e evs where a: "listener_accept calls 100 (sv_control_listener s) = (st, h, e, evs)" by (rule prod_cases4)
  note ev = accept_events [OF a]
  show ?thesis
  proof (cases st)
    case Accepted
    then obtain x where x: "h = Some x" "evs = [SocketOpened x]" using ev by auto
    let ?c = "\<lparr>ch_handle = x, ch_stream = stream\<rparr>"
    obtain r where r: "establish_channels n ans ?c (add_events evs s) = Some r"
        "s' = (case r of Inl y \<Rightarrow> close_rejected y | Inr t \<Rightarrow> t)"
      using assms(2) False ready a Accepted x by (auto simp: accept_turn_def split: option.splits sum.splits)
    have acc: "sv_accepting (add_events evs s) = None" using ready by (simp add: add_events_def)
    have more: "\<exists>F. sv_events s' = sv_events (add_events evs s) @ F"
      using establish_channels_extends [OF r(1)] r(2) by (auto simp: close_rejected_def split: sum.splits prod.splits)
    have own: "owns {#ch_handle ?c#} (add_events evs s)"
    proof -
      obtain F where "sv_events s' = (sv_events s @ evs) @ F" using more by auto
      then have "os_fresh {} (sv_events s @ evs)" using assms(3) os_fresh_prefix by metis
      then show ?thesis using owns_opens [OF opens_one [of ?c x] assms(1)] x by simp
    qed
    show ?thesis
    proof (cases r)
      case (Inl y)
      obtain c' t where y: "y = (c', t)" by fastforce
      then have s': "s' = ShutdownAndClose (Some c') t" using r(2) Inl by (simp add: close_rejected_def)
      have "os_fresh {} (sv_events t)" using assms(3) os_fresh_prefix by (simp add: s')
      from establish_channels_owns(1) [OF own acc _ this] r(1) Inl y
      have "owns (mset (channel_handles (Some c')) + {#}) t" by auto
      then show ?thesis unfolding s' by (rule owns_close)
    next
      case (Inr t)
      with establish_channels_owns(2) [OF own acc] r assms(3) show ?thesis by simp
    qed
  next
    case AcceptError
    then have s': "s' = UpdateDiagnostic (''control listener error: '' @ the e) (add_events evs s)"
      using assms(2) False ready a by (simp add: accept_turn_def)
    then have f: "os_fresh {} (sv_events s @ evs)" using assms(3) by (simp add: UpdateDiagnostic_def)
    have "opens evs None" using ev AcceptError by (auto simp: opens_nothing)
    from owns_opens [OF this assms(1) f] show ?thesis unfolding s' by (subst owns_keeps [OF keeps_sockets_simps(2) [THEN iffD2]]) auto
  next
    case AcceptTimeout
    with assms False ready a ev show ?thesis by (simp add: accept_turn_def add_events_def owns_def server_handles_def server_starts_def session_handles_def)
  qed
qed

lemma owns_updates [simp]:
  "owns X (s\<lparr>sv_status := st\<rparr>) = owns X s" "owns X (s\<lparr>sv_clock_sync := cs\<rparr>) = owns X s"
  "owns X (s\<lparr>sv_control_sequence := q\<rparr>) = owns X s" "owns X (s\<lparr>sv_caps := caps\<rparr>) = owns X s"
  "owns X (s\<lparr>sv_adapter := ad\<rparr>) = owns X s" "owns X (s\<lparr>sv_inputs := i\<rparr>) = owns X s"
  "owns X (s\<lparr>sv_epoch := e\<rparr>) = owns X s" "owns X (s\<lparr>sv_pointers := p\<rparr>) = owns X s"
  "owns X (s\<lparr>sv_video_sequence := vq\<rparr>) = owns X s" "owns X (s\<lparr>sv_lines := L\<rparr>) = owns X s"
  "owns X (s\<lparr>sv_adb := a\<rparr>) = owns X s" "owns X (s\<lparr>sv_waiting := w\<rparr>) = owns X s"
  "owns X (s\<lparr>sv_probe_attempted := b\<rparr>) = owns X s" "owns X (s\<lparr>sv_config := cfg\<rparr>) = owns X s"
  "owns X (s\<lparr>sv_files := fs\<rparr>) = owns X s" "owns X (s\<lparr>sv_running := r\<rparr>) = owns X s"
  "owns X (s\<lparr>sv_control_thread := ct\<rparr>) = owns X s" "owns X (s\<lparr>sv_input_thread := ct\<rparr>) = owns X s"
  "owns X (s\<lparr>sv_video_thread := vt\<rparr>) = owns X s" "owns X (s\<lparr>sv_threads := r\<rparr>) = owns X s"
  "owns X (s\<lparr>sv_adb_stopped := x\<rparr>) = owns X s" "owns X (UpdateDiagnostic d s) = owns X s"
  "owns X (UpdateReleaseReadinessLocked s) = owns X s" "owns X (write_line line s) = owns X s"
  "owns X (soak_line n l s) = owns X s"
  by (simp_all add: owns_def server_handles_def server_starts_def session_handles_def UpdateDiagnostic_def
      UpdateReleaseReadinessLocked_def write_line_def soak_line_def)

lemma owns_pipeline [simp]: "owns X (with_pipeline n p s) = owns X s"
  by (simp add: owns_def server_handles_def server_starts_def session_handles_def)

lemma owns_stream:
  "sv_control s = Some c \<Longrightarrow> owns X (s\<lparr>sv_control := Some (c\<lparr>ch_stream := st\<rparr>)\<rparr>) = owns X s"
  "sv_video s = Some c \<Longrightarrow> owns X (s\<lparr>sv_video := Some (c\<lparr>ch_stream := st\<rparr>)\<rparr>) = owns X s"
  "sv_input s = Some c \<Longrightarrow> owns X (s\<lparr>sv_input := Some (c\<lparr>ch_stream := st\<rparr>)\<rparr>) = owns X s"
  by (simp_all add: owns_def server_handles_def server_starts_def session_handles_def)

lemma EndSession_owns:
  assumes "owns {#} s"
  shows "owns {#} (EndSession n ans reason s)"
proof (cases "sv_session_active s")
  case True
  obtain r L q C adb p where e: "EndSession n ans reason s =
    s\<lparr>sv_clock_sync := ClearPendingClockSync, sv_session_active := False, sv_generation := sv_generation s + 1,
      sv_control := None, sv_video := None, sv_input := None, sv_control_sequence := q,
      sv_events := sv_events s @ map SocketClosed (channel_handles (sv_control s) @ channel_handles (sv_video s) @
        channel_handles (sv_input s)), sv_closed := C, sv_inputs := on_disconnect (nt_os n) (sv_inputs s), sv_caps := 0,
      sv_adb := adb, sv_pipeline := p, sv_pointers := {},
      sv_status := ended reason (sv_running s) ((sv_status s)\<lparr>ss_stream_resets := r\<rparr>), sv_lines := L\<rparr>"
    by (rule EndSession_shape [OF True])
  let ?s = "EndSession n ans reason s"
  let ?hs = "channel_handles (sv_control s) @ channel_handles (sv_video s) @ channel_handles (sv_input s)"
  have "server_handles s = mset ?hs + server_handles ?s" "server_starts ?s = server_starts s"
    by (simp_all add: e server_handles_def server_starts_def session_handles_def)
  moreover have "sv_events ?s = sv_events s @ map SocketClosed ?hs" by (simp add: e)
  ultimately show ?thesis using assms holds_close_all [of "sv_events s" ?hs] by (simp add: owns_def)
next
  case False
  with assms show ?thesis by (simp add: EndSession_def Let_def)
qed

lemma end_loops_own: "owns {#} s \<Longrightarrow> owns {#} (end_control n ans reason s)" "owns {#} s \<Longrightarrow> owns {#} (end_input n ans reason s)"
  by (simp_all add: end_control_def end_input_def EndSession_owns)

lemma control_message_owns:
  assumes "sv_control s = Some c" and "control_message n ans g c m s = (ok, s')"
  shows "owns X s' = owns X s"
  using assms
  by (cases m)
    (auto simp: on_clock_request_def on_orientation_def on_capabilities_def on_client_telemetry_def on_clock_complete_def
      owns_stream Let_def split: prod.splits if_splits)

lemma control_turn_owns:
  assumes "owns {#} s" and "control_turn n ans s = Some s'"
  shows "owns {#} s'"
proof -
  obtain g where t: "sv_control_thread s = Some g" using assms(2) by (auto simp: control_turn_def split: option.splits)
  show ?thesis
  proof (cases "IsGenerationActive g s \<and> sv_control s \<noteq> None")
    case False
    with assms t show ?thesis by (auto simp: control_turn_def end_loops_own split: if_splits)
  next
    case True
    then obtain c where c: "sv_control s = Some c" by auto
    obtain r f st where r: "readFrame (nt_read n) (ch_stream c) = (r, f, st)" by (rule prod_cases3)
    define c1 where "c1 = c\<lparr>ch_stream := st\<rparr>"
    define s1 where "s1 = s\<lparr>sv_control := Some c1\<rparr>"
    have o: "owns {#} s1" "sv_control s1 = Some c1" using assms(1) owns_stream(1) [OF c] by (simp_all add: s1_def c1_def)
    have "s' = control_frame n ans g c1 r f s1"
      using assms(2) t True c r by (simp add: control_turn_def s1_def c1_def Let_def)
    then show ?thesis
      using o control_message_owns [OF o(2)]
      by (auto simp: control_frame_def Let_def end_loops_own split: option.splits Payload.splits prod.splits if_splits)
  qed
qed

lemma input_turn_owns:
  assumes "owns {#} s" and "input_turn n ans s = Some s'"
  shows "owns {#} s'"
proof -
  obtain g where t: "sv_input_thread s = Some g" using assms(2) by (auto simp: input_turn_def split: option.splits)
  show ?thesis
  proof (cases "IsGenerationActive g s \<and> sv_input s \<noteq> None")
    case False
    with assms t show ?thesis by (auto simp: input_turn_def end_loops_own split: if_splits)
  next
    case True
    then obtain c where c: "sv_input s = Some c" by auto
    obtain r f st where r: "readFrame (nt_read n) (ch_stream c) = (r, f, st)" by (rule prod_cases3)
    define s1 where "s1 = s\<lparr>sv_input := Some (c\<lparr>ch_stream := st\<rparr>)\<rparr>"
    have o: "owns {#} s1" using assms(1) owns_stream(3) [OF c] by (simp add: s1_def)
    have p: "owns {#} (process_input n adapted u) = owns {#} u" for adapted u
      by (simp add: process_input_def Let_def split: prod.split)
    have "s' = input_frame n ans r f s1" using assms(2) t True c r by (simp add: input_turn_def s1_def)
    then show ?thesis
      using o
      by (auto simp: input_frame_def Let_def end_loops_own p transport_line_def update_pointers_def
          split: option.splits Payload.splits prod.splits if_splits sum.splits)
  qed
qed

lemma video_turn_owns:
  assumes "owns {#} s" and "video_turn n ans s = Some s'"
  shows "owns {#} s'"
proof -
  obtain g vl where t: "sv_video_thread s = Some (g, vl)" using assms(2) by (auto simp: video_turn_def split: option.splits)
  show ?thesis
  proof (cases "IsGenerationActive g s \<and> sv_video s \<noteq> None")
    case False
    with assms t show ?thesis by (auto simp: video_turn_def EndSession_owns split: if_splits)
  next
    case True
    then obtain c where c: "sv_video s = Some c" by auto
    define r where "r = (if writer_pending (vl_frame vl) then continue_frame n ans c vl s else next_frame n ans vl s)"
    have cont: "continue_frame n ans c vl s = Inl (x, u) \<or> continue_frame n ans c vl s = Inr (y, u) \<Longrightarrow> owns {#} u" for x y u
      using assms(1) owns_stream(2) [OF c] by (auto simp: continue_frame_def Let_def split: prod.splits if_splits)
    have cap: "capture_and_encode n ans au s = (z, u) \<Longrightarrow> owns {#} u" for au z u
      using assms(1) by (auto simp: capture_and_encode_def Let_def split: prod.splits if_splits)
    have start: "start_frame au vl u = Inl (x, w) \<or> start_frame au vl u = Inr (y, w) \<Longrightarrow> owns {#} u \<Longrightarrow> owns {#} w" for au vl u x y w
      by (auto simp: start_frame_def Let_def split: prod.splits if_splits)
    have "case r of Inl (reason, u) \<Rightarrow> owns {#} u | Inr (vl', u) \<Rightarrow> owns {#} u"
      using assms(1) cont start cap
      by (fastforce simp: r_def next_frame_def Let_def split: prod.splits sum.splits if_splits)
    moreover have "s' = (case r of Inr (vl, s) \<Rightarrow> s\<lparr>sv_video_thread := Some (g, vl)\<rparr>
        | Inl (reason, s) \<Rightarrow> (EndSession n (va_end ans) reason s)\<lparr>sv_video_thread := None\<rparr>)"
      using assms(2) t True c by (simp add: video_turn_def r_def)
    ultimately show ?thesis by (auto simp: EndSession_owns split: sum.splits prod.splits)
  qed
qed

lemma adb_owns:
  "adb_locate la s = Some s' \<Longrightarrow> owns X s' = owns X s" "adb_event e s = Some s' \<Longrightarrow> owns X s' = owns X s"
  "adb_turn ans s = Some s' \<Longrightarrow> owns X s' = owns X s"
  by (auto simp: adb_locate_def adb_event_def adb_turn_def waiting_status_def probe_device_def forget_probe_def Let_def
      split: option.splits session_event.splits if_splits prod.splits)

end
