(* ===== verification/SocketBalance.thy ===== *)
theory SocketBalance
  imports ServerSockets
begin

text \<open>
  The balance of sockets over whole runs of the server: activation, starting and stopping, and the theorem that the
  process holds exactly the sockets the state of the server names.
\<close>

section \<open>Activation\<close>

lemma give_up_owns:
  assumes "give_up n reason message shown h s = (c', s')" and "owns (handshake_handles (Some h)) s"
  shows "owns {#} (close_rejected (c', s'))"
proof -
  obtain t where t: "reject n reason message None (hs_control h) s = (c', t)"
      "s' = UpdateDiagnostic shown (ShutdownAndClose (Some (hs_input h)) (ShutdownAndClose (Some (hs_video h)) t))"
    using assms(1) by (auto simp: give_up_def split: prod.splits)
  note k = reject_keeps [OF t(1)]
  have "owns (mset (channel_handles (Some (hs_video h))) + (mset (channel_handles (Some (hs_input h))) +
      (mset (channel_handles (Some c')) + {#}))) t"
    using assms(2) k owns_keeps by (auto simp: handshake_handles_def add_mset_commute)
  then have "owns (mset (channel_handles (Some c')) + {#}) (ShutdownAndClose (Some (hs_input h)) (ShutdownAndClose (Some (hs_video h)) t))"
    by (intro owns_close)
  then show ?thesis unfolding close_rejected_def t(2) prod.case by (intro owns_close) simp
qed

lemma owns_accepted: "sv_accepting s = Some h \<Longrightarrow> owns {#} s \<Longrightarrow> owns (handshake_handles (Some h)) (s\<lparr>sv_accepting := None\<rparr>)"
  by (simp add: owns_def server_handles_def server_starts_def session_handles_def handshake_handles_def ac_simps)

lemma owns_use_config [simp]: "owns X (use_config n cfg s) = owns X s"
  by (simp add: use_config_def)

lemma activate_session_owns:
  assumes "owns (handshake_handles (Some h)) s" and "sv_control s = None" "sv_video s = None" "sv_input s = None" "sv_accepting s = None"
  shows "owns {#} (activate_session h s)"
proof -
  have "server_handles (activate_session h s) = handshake_handles (Some h) + server_handles s"
    "server_starts (activate_session h s) = server_starts s" "sv_events (activate_session h s) = sv_events s"
    using assms(2-)
    by (simp_all add: activate_session_def active_status_def UpdateDiagnostic_def UpdateReleaseReadinessLocked_def Let_def
        server_handles_def server_starts_def session_handles_def handshake_handles_def)
  with assms(1) show ?thesis by (simp add: owns_def)
qed

lemma establish_rest_owns:
  assumes "owns (handshake_handles (Some h)) s" and "sv_control s = None" "sv_video s = None" "sv_input s = None" "sv_accepting s = None"
  shows "case establish_rest n ans h s of Inl r \<Rightarrow> owns {#} (close_rejected r) | Inr s' \<Rightarrow> owns {#} s'"
proof -
  obtain hr p where st: "VideoPipeline.Start (av_start ans) (hs_monitor h) (hs_edge h) True (sv_pipeline s) = (hr, p)" by fastforce
  define t where "t = with_pipeline n p s"
  have t: "owns (handshake_handles (Some h)) t" "sv_control t = None" "sv_video t = None" "sv_input t = None" "sv_accepting t = None"
    using assms by (simp_all add: t_def)
  obtain ok u where c: "configure_input n h t = (ok, u)" by fastforce
  have u: "owns (handshake_handles (Some h)) u" "sv_control u = None" "sv_video u = None" "sv_input u = None" "sv_accepting u = None"
    using t c by (auto simp: configure_input_def Let_def split: prod.splits)
  have rejected: "owns {#} (close_rejected (give_up n reason message shown h x))"
    if "owns (handshake_handles (Some h)) x" for reason message shown x
    using give_up_owns [OF _ that] by (metis prod.collapse)
  define v where "v = (use_config n (hs_config h) u)\<lparr>sv_adapter := adapter_configure (hs_hello h) (sv_epoch u) (sv_adapter u)\<rparr>"
  obtain fs cfg d where q: "persist_config n (av_save ans) h v =
      v\<lparr>sv_files := fs, sv_config := cfg, sv_status := (sv_status v)\<lparr>ss_diagnostic := d\<rparr>\<rparr>"
    by (rule persist_config_shape)
  have active: "owns {#} (activate_session h (persist_config n (av_save ans) h v))"
    unfolding q using u by (intro activate_session_owns) (simp_all add: v_def use_config_def)
  have e: "sv_epoch (use_config n (hs_config h) u) = sv_epoch u" "sv_adapter (use_config n (hs_config h) u) = sv_adapter u"
    by (simp_all add: use_config_def)
  show ?thesis
    using rejected [OF t(1)] rejected [of "with_pipeline n (VideoPipeline.Stop (av_stop ans) (sv_pipeline u)) u"] u(1) active
    by (simp add: establish_rest_def st t_def [symmetric] c Let_def v_def e)
qed

lemma accept_finish_owns:
  assumes "owns {#} s" and "server_ok n s" and "accept_finish n ans s = Some s'"
  shows "owns {#} s'"
proof -
  obtain h where h: "sv_accepting s = Some h" using assms(3) by (auto simp: accept_finish_def split: option.splits)
  have "\<not> sv_session_active s" using assms(2) h by (auto simp: server_ok_def in_session_def)
  then have idle: "sv_control s = None" "sv_video s = None" "sv_input s = None"
    using assms(2) by (auto simp: server_ok_def idle_server_def)
  from establish_rest_owns [OF owns_accepted [OF h assms(1)], of n ans] idle assms(3) h show ?thesis
    by (auto simp: accept_finish_def split: sum.splits)
qed

section \<open>The listeners\<close>

lemma owns_control_listener:
  assumes "owns X s" and "case owned (sv_control_listener s) of (n, H) \<Rightarrow> resources n H evs = Some (owned l)"
    and "os_fresh {} (sv_events s @ evs)"
  shows "owns X (add_events evs (s\<lparr>sv_control_listener := l\<rparr>))"
  using holds_listener [OF assms(2) _ assms(3), of "X + listener_handles (sv_video_listener s) +
      listener_handles (sv_input_listener s) + session_handles s + handshake_handles (sv_accepting s)"
      "listener_starts (sv_video_listener s) + listener_starts (sv_input_listener s)"] assms(1)
  by (simp add: owns_def add_events_def server_handles_def server_starts_def session_handles_def ac_simps)

lemma owns_video_listener:
  assumes "owns X s" and "case owned (sv_video_listener s) of (n, H) \<Rightarrow> resources n H evs = Some (owned l)"
    and "os_fresh {} (sv_events s @ evs)"
  shows "owns X (add_events evs (s\<lparr>sv_video_listener := l\<rparr>))"
  using holds_listener [OF assms(2) _ assms(3), of "X + listener_handles (sv_control_listener s) +
      listener_handles (sv_input_listener s) + session_handles s + handshake_handles (sv_accepting s)"
      "listener_starts (sv_control_listener s) + listener_starts (sv_input_listener s)"] assms(1)
  by (simp add: owns_def add_events_def server_handles_def server_starts_def session_handles_def ac_simps)

lemma owns_input_listener:
  assumes "owns X s" and "case owned (sv_input_listener s) of (n, H) \<Rightarrow> resources n H evs = Some (owned l)"
    and "os_fresh {} (sv_events s @ evs)"
  shows "owns X (add_events evs (s\<lparr>sv_input_listener := l\<rparr>))"
  using holds_listener [OF assms(2) _ assms(3), of "X + listener_handles (sv_control_listener s) +
      listener_handles (sv_video_listener s) + session_handles s + handshake_handles (sv_accepting s)"
      "listener_starts (sv_control_listener s) + listener_starts (sv_video_listener s)"] assms(1)
  by (simp add: owns_def add_events_def server_handles_def server_starts_def session_handles_def ac_simps)

section \<open>What the operations leave alone\<close>

text \<open>An operation only adds to the log of sockets and keeps the listeners.\<close>

definition stable :: "'s Server \<Rightarrow> 's Server \<Rightarrow> bool" where
  "stable s s' \<longleftrightarrow> (\<exists>F. sv_events s' = sv_events s @ F) \<and> sv_control_listener s' = sv_control_listener s \<and>
     sv_video_listener s' = sv_video_listener s \<and> sv_input_listener s' = sv_input_listener s \<and> sv_running s' = sv_running s"

lemma stable_refl [simp]: "stable s s"
  by (simp add: stable_def)

lemma stable_trans: "stable s t \<Longrightarrow> stable t u \<Longrightarrow> stable s u"
  by (auto simp: stable_def)

lemma stable_updates [simp]:
  "stable s (t\<lparr>sv_status := st\<rparr>) = stable s t" "stable s (t\<lparr>sv_clock_sync := cs\<rparr>) = stable s t"
  "stable s (t\<lparr>sv_control_sequence := q\<rparr>) = stable s t" "stable s (t\<lparr>sv_caps := caps\<rparr>) = stable s t"
  "stable s (t\<lparr>sv_adapter := ad\<rparr>) = stable s t" "stable s (t\<lparr>sv_inputs := i\<rparr>) = stable s t"
  "stable s (t\<lparr>sv_epoch := e\<rparr>) = stable s t" "stable s (t\<lparr>sv_pointers := p\<rparr>) = stable s t"
  "stable s (t\<lparr>sv_video_sequence := vq\<rparr>) = stable s t" "stable s (t\<lparr>sv_lines := L\<rparr>) = stable s t"
  "stable s (t\<lparr>sv_adb := a\<rparr>) = stable s t" "stable s (t\<lparr>sv_waiting := w\<rparr>) = stable s t"
  "stable s (t\<lparr>sv_probe_attempted := b\<rparr>) = stable s t" "stable s (t\<lparr>sv_config := cfg\<rparr>) = stable s t"
  "stable s (t\<lparr>sv_files := fs\<rparr>) = stable s t" "stable s (t\<lparr>sv_accepting := h\<rparr>) = stable s t"
  "stable s (t\<lparr>sv_control_thread := ct\<rparr>) = stable s t" "stable s (t\<lparr>sv_input_thread := ct\<rparr>) = stable s t"
  "stable s (t\<lparr>sv_video_thread := vt\<rparr>) = stable s t" "stable s (t\<lparr>sv_control := c\<rparr>) = stable s t"
  "stable s (t\<lparr>sv_video := c\<rparr>) = stable s t" "stable s (t\<lparr>sv_input := c\<rparr>) = stable s t"
  "stable s (UpdateDiagnostic d t) = stable s t" "stable s (UpdateReleaseReadinessLocked t) = stable s t"
  "stable s (write_line line t) = stable s t" "stable s (soak_line n l t) = stable s t"
  "stable s (with_pipeline n pl t) = stable s t"
  by (simp_all add: stable_def UpdateDiagnostic_def UpdateReleaseReadinessLocked_def write_line_def soak_line_def)

lemma stable_close [simp]: "stable s t \<Longrightarrow> stable s (ShutdownAndClose c t)"
  by (auto simp: stable_def close_eq)

lemma stable_events [simp]: "stable s t \<Longrightarrow> stable s (add_events evs t)"
  by (auto simp: stable_def add_events_def)

lemma EndSession_stable: "stable s (EndSession n ans reason s)"
proof (cases "sv_session_active s")
  case True
  obtain r L q C adb p where "EndSession n ans reason s =
    s\<lparr>sv_clock_sync := ClearPendingClockSync, sv_session_active := False, sv_generation := sv_generation s + 1,
      sv_control := None, sv_video := None, sv_input := None, sv_control_sequence := q,
      sv_events := sv_events s @ map SocketClosed (channel_handles (sv_control s) @ channel_handles (sv_video s) @
        channel_handles (sv_input s)), sv_closed := C, sv_inputs := on_disconnect (nt_os n) (sv_inputs s), sv_caps := 0,
      sv_adb := adb, sv_pipeline := p, sv_pointers := {},
      sv_status := ended reason (sv_running s) ((sv_status s)\<lparr>ss_stream_resets := r\<rparr>), sv_lines := L\<rparr>"
    by (rule EndSession_shape [OF True])
  then show ?thesis by (simp add: stable_def)
qed (simp add: EndSession_def Let_def)

lemma stable_end [simp]: "stable s t \<Longrightarrow> stable s (EndSession n ans reason t)"
  "stable s t \<Longrightarrow> stable s (end_control n ans reason t)" "stable s t \<Longrightarrow> stable s (end_input n ans reason t)"
  using stable_trans [OF _ EndSession_stable] by (simp_all add: end_control_def end_input_def)

lemma control_turn_stable: "control_turn n ans s = Some s' \<Longrightarrow> stable s s'"
proof -
  have m: "control_message n ans g c m t = (ok, u) \<Longrightarrow> stable s t \<Longrightarrow> stable s u" for g c m t ok u
    by (cases m) (auto simp: on_clock_request_def on_orientation_def on_capabilities_def on_client_telemetry_def
        on_clock_complete_def Let_def split: prod.splits if_splits)
  have f: "stable s t \<Longrightarrow> stable s (control_frame n ans g c r f t)" for g c r f t
    by (auto simp: control_frame_def Let_def dest: m split: option.split Payload.split prod.split)
  show "control_turn n ans s = Some s' \<Longrightarrow> stable s s'"
    by (auto simp: control_turn_def f Let_def split: option.splits prod.splits if_splits)
qed

lemma stable_input [simp]:
  "stable s (process_input n adapted t) = stable s t" "stable s (transport_line ia batch t) = stable s t"
  "stable s (update_pointers batch t) = stable s t"
  by (simp_all add: process_input_def transport_line_def update_pointers_def Let_def split: prod.split)

lemma input_turn_stable: "input_turn n ans s = Some s' \<Longrightarrow> stable s s'"
proof -
  have f: "stable s t \<Longrightarrow> stable s (input_frame n ans r f t)" for r f t
    by (simp add: input_frame_def Let_def split: option.split Payload.split sum.split prod.split)
  show "input_turn n ans s = Some s' \<Longrightarrow> stable s s'"
    by (auto simp: input_turn_def f split: option.splits prod.splits if_splits)
qed

lemma video_turn_stable: "video_turn n ans s = Some s' \<Longrightarrow> stable s s'"
proof -
  have cap: "capture_and_encode n ans au s = (z, u) \<Longrightarrow> stable s u" for au z u
    by (auto simp: capture_and_encode_def Let_def split: prod.splits if_splits)
  have start: "start_frame au vl u = Inl (x, w) \<or> start_frame au vl u = Inr (y, w) \<Longrightarrow> stable s u \<Longrightarrow> stable s w" for au vl u x y w
    by (auto simp: start_frame_def Let_def split: prod.splits if_splits)
  have "stable s u" if "continue_frame n ans c vl s = Inl (x, u) \<or> continue_frame n ans c vl s = Inr (y, u)" for c vl x y u
    using that by (auto simp: continue_frame_def Let_def split: prod.splits if_splits)
  moreover have "stable s u" if "next_frame n ans vl s = Inl (x, u) \<or> next_frame n ans vl s = Inr (y, u)" for vl x y u
    using that cap start by (fastforce simp: next_frame_def Let_def split: prod.splits if_splits)
  ultimately show "video_turn n ans s = Some s' \<Longrightarrow> stable s s'"
    by (fastforce simp: video_turn_def split: option.splits prod.splits if_splits sum.splits)
qed

lemma adb_stable:
  "adb_locate la s = Some s' \<Longrightarrow> stable s s'" "adb_event e s = Some s' \<Longrightarrow> stable s s'" "adb_turn ans s = Some s' \<Longrightarrow> stable s s'"
  by (auto simp: adb_locate_def adb_event_def adb_turn_def waiting_status_def probe_device_def forget_probe_def Let_def
      split: option.splits session_event.splits if_splits prod.splits)

lemma peripheral_stable:
  assumes "peripheral s s'" and "\<exists>F. sv_events s' = sv_events s @ F"
  shows "stable s s'"
proof -
  obtain q E C d where "s' = s\<lparr>sv_control_sequence := q, sv_events := E, sv_closed := C,
      sv_status := (sv_status s)\<lparr>ss_diagnostic := d\<rparr>\<rparr>"
    using assms(1) by (rule peripheralE)
  with assms(2) show ?thesis by (simp add: stable_def)
qed

lemma establish_channels_stable:
  assumes "establish_channels n ans c s = Some r"
  shows "stable s (case r of Inl y \<Rightarrow> snd y | Inr s' \<Rightarrow> s')"
proof (cases r)
  case (Inl y)
  with establish_channels_peripheral [OF assms] establish_channels_extends [OF assms] show ?thesis
    by (auto intro: peripheral_stable split: prod.splits)
next
  case (Inr s')
  with establish_channels_peripheral [OF assms] obtain t h where t: "peripheral s t" "s' = t\<lparr>sv_accepting := Some h\<rparr>" by auto
  then have "stable s t" using establish_channels_extends [OF assms] Inr by (intro peripheral_stable) auto
  with Inr t show ?thesis by simp
qed

lemma accept_turn_stable:
  assumes "accept_turn n calls stream ans s = Some s'"
  shows "stable s s'"
proof (cases "sv_session_active s")
  case True
  with assms show ?thesis by (auto simp: accept_turn_def split: if_splits)
next
  case False
  have ready: "sv_running s" "sv_accepting s = None" using assms by (auto simp: accept_turn_def split: if_splits)
  obtain st handle e evs where a: "listener_accept calls 100 (sv_control_listener s) = (st, handle, e, evs)"
    by (rule prod_cases4)
  show ?thesis
  proof (cases st)
    case Accepted
    obtain r where r: "establish_channels n ans \<lparr>ch_handle = the handle, ch_stream = stream\<rparr> (add_events evs s) = Some r"
        "s' = (case r of Inl y \<Rightarrow> close_rejected y | Inr t \<Rightarrow> t)"
      using assms False ready a Accepted by (auto simp: accept_turn_def split: option.splits sum.splits)
    have "stable s (case r of Inl y \<Rightarrow> snd y | Inr s' \<Rightarrow> s')"
      by (rule stable_trans [OF stable_events [OF stable_refl] establish_channels_stable [OF r(1)]])
    with r(2) show ?thesis by (auto simp: close_rejected_def split: sum.splits prod.splits)
  qed (use assms False ready a in \<open>auto simp: accept_turn_def\<close>)
qed

lemma accept_finish_stable:
  assumes "accept_finish n ans s = Some s'"
  shows "stable s s'"
proof -
  have g: "stable s (close_rejected (give_up n reason message shown h t))" if "stable s t" for reason message shown h t
  proof -
    obtain c u where r: "reject n reason message None (hs_control h) t = (c, u)" by fastforce
    have "stable s u" using r that by (auto simp: reject_def Let_def split: prod.splits)
    then show ?thesis by (simp add: give_up_def r close_rejected_def)
  qed
  have c: "stable s u" if "configure_input n h t = (ok, u)" "stable s t" for h t ok u
    using that by (auto simp: configure_input_def Let_def split: prod.splits)
  have q: "stable s (persist_config n calls h t) = stable s t" for calls h t
  proof -
    obtain fs cfg d where "persist_config n calls h t =
        t\<lparr>sv_files := fs, sv_config := cfg, sv_status := (sv_status t)\<lparr>ss_diagnostic := d\<rparr>\<rparr>"
      by (rule persist_config_shape)
    then show ?thesis by simp
  qed
  have p: "stable s (activate_session h t) = stable s t" for h t
    by (simp add: stable_def activate_session_def active_status_def UpdateDiagnostic_def UpdateReleaseReadinessLocked_def Let_def)
  obtain h where h: "sv_accepting s = Some h" using assms by (auto simp: accept_finish_def split: option.splits)
  have "case establish_rest n ans h (s\<lparr>sv_accepting := None\<rparr>) of Inl r \<Rightarrow> stable s (close_rejected r) | Inr t \<Rightarrow> stable s t"
    by (simp add: establish_rest_def Let_def use_config_def p q split: prod.split)
      (auto intro!: g dest: c)
  with assms h show ?thesis by (auto simp: accept_finish_def split: sum.splits)
qed

section \<open>Starting and stopping\<close>

abbreviation fresh :: "'s Server \<Rightarrow> bool" where
  "fresh s \<equiv> os_fresh {} (sv_events s)"

lemma stable_fresh: "stable s s' \<Longrightarrow> fresh s' \<Longrightarrow> fresh s"
  using os_fresh_prefix by (auto simp: stable_def)

lemma os_fresh_closing: "os_fresh H (snd (listener_close l))"
  by (simp add: listener_close_def closeSocket_def split: option.split)

lemma fresh_closing: "owns X s \<Longrightarrow> fresh s \<Longrightarrow> os_fresh {} (sv_events s @ snd (listener_close l))"
  using os_fresh_append os_fresh_closing by (auto simp: owns_def holds_def)

lemma closed_listener: "fst (listener_close l) = listener_init"
  by (simp add: listener_close_def)

lemma closing_resources: "case owned l of (n, H) \<Rightarrow> resources n H (snd (listener_close l)) = Some (owned listener_init)"
  using close_resources [of l] by (simp add: owned_init split: prod.splits)

lemma close_listeners_owns:
  assumes "owns X s" and "fresh s"
  shows "owns X (close_listeners s) \<and> fresh (close_listeners s)"
proof -
  define s1 where "s1 = add_events (snd (listener_close (sv_control_listener s))) (s\<lparr>sv_control_listener := listener_init\<rparr>)"
  define s2 where "s2 = add_events (snd (listener_close (sv_video_listener s1))) (s1\<lparr>sv_video_listener := listener_init\<rparr>)"
  define s3 where "s3 = add_events (snd (listener_close (sv_input_listener s2))) (s2\<lparr>sv_input_listener := listener_init\<rparr>)"
  have f1: "fresh s1" using fresh_closing [OF assms] by (simp add: s1_def)
  have o1: "owns X s1" unfolding s1_def
    by (rule owns_control_listener [OF assms(1) closing_resources fresh_closing [OF assms]])
  have f2: "fresh s2" using fresh_closing [OF o1 f1] by (simp add: s2_def)
  have o2: "owns X s2" unfolding s2_def
    by (rule owns_video_listener [OF o1 closing_resources fresh_closing [OF o1 f1]])
  have f3: "fresh s3" using fresh_closing [OF o2 f2] by (simp add: s3_def)
  have o3: "owns X s3" unfolding s3_def
    by (rule owns_input_listener [OF o2 closing_resources fresh_closing [OF o2 f2]])
  have "close_listeners s = s3"
    by (simp add: close_listeners_def s3_def s2_def s1_def add_events_def closed_listener case_prod_unfold Let_def)
  with o3 f3 show ?thesis by simp
qed

lemma open_listeners_owns:
  assumes "open_listeners ans s = (r, s')" and "owns X s" and "fresh s'"
  shows "owns X s'"
proof -
  obtain r1 l1 e1 where c: "listener_open (sa_control ans) kControlPort (sv_control_listener s) = (r1, l1, e1)" by (rule prod_cases3)
  define s1 where "s1 = add_events e1 (s\<lparr>sv_control_listener := l1\<rparr>)"
  obtain r2 l2 e2 where v: "listener_open (sa_video ans) kVideoPort (sv_video_listener s1) = (r2, l2, e2)" by (rule prod_cases3)
  define s2 where "s2 = add_events e2 (s1\<lparr>sv_video_listener := l2\<rparr>)"
  obtain r3 l3 e3 where i: "listener_open (sa_input ans) kInputPort (sv_input_listener s2) = (r3, l3, e3)" by (rule prod_cases3)
  define s3 where "s3 = add_events e3 (s2\<lparr>sv_input_listener := l3\<rparr>)"
  have s': "s' = (if r1 \<noteq> Inr () then s1 else if r2 \<noteq> Inr () then s2 else s3)"
    using assms(1) by (simp add: open_listeners_def c s1_def [symmetric] v s2_def [symmetric] i s3_def [symmetric] split: if_splits)
  have ev: "sv_events s1 = sv_events s @ e1" "sv_events s2 = sv_events s1 @ e2" "sv_events s3 = sv_events s2 @ e3"
    by (simp_all add: s1_def s2_def s3_def)
  have "\<exists>F. sv_events s' = sv_events s1 @ F" by (simp add: s' ev)
  then have f1: "fresh s1" using assms(3) os_fresh_prefix by auto
  have o1: "owns X s1" unfolding s1_def
    using open_resources [OF c] f1 by (intro owns_control_listener assms(2)) (auto simp: ev split: prod.splits)
  have o2: "owns X s2" if "fresh s2" unfolding s2_def
    using open_resources [OF v] that by (intro owns_video_listener o1) (auto simp: ev split: prod.splits)
  have o3: "owns X s3" if "fresh s3" "fresh s2" unfolding s3_def
    using open_resources [OF i] that by (intro owns_input_listener o2) (auto simp: ev split: prod.splits)
  show ?thesis using s' o1 o2 o3 assms(3) os_fresh_prefix [of "{}" "sv_events s2" e3] ev(3) by (auto split: if_splits)
qed

text \<open>The process owns what the state names, and nothing but the sockets of a session under way when it is stopped.\<close>

definition listeners_closed :: "'s Server \<Rightarrow> bool" where
  "listeners_closed s \<longleftrightarrow> sv_control_listener s = listener_init \<and> sv_video_listener s = listener_init \<and>
     sv_input_listener s = listener_init"

definition balanced :: "'s Server \<Rightarrow> bool" where
  "balanced s \<longleftrightarrow> owns {#} s \<and> (sv_running s \<or> listeners_closed s)"

definition grows :: "'s Server \<Rightarrow> 's Server \<Rightarrow> bool" where
  "grows s s' \<longleftrightarrow> (\<exists>F. sv_events s' = sv_events s @ F)"

lemma grows_fresh: "grows s s' \<Longrightarrow> fresh s' \<Longrightarrow> fresh s"
  using os_fresh_prefix by (auto simp: grows_def)

lemma grows_trans: "grows s t \<Longrightarrow> grows t u \<Longrightarrow> grows s u"
  by (auto simp: grows_def)

lemma stable_grows: "stable s s' \<Longrightarrow> grows s s'"
  by (simp add: stable_def grows_def)

lemma balanced_stable: "stable s s' \<Longrightarrow> balanced s \<Longrightarrow> owns {#} s' \<Longrightarrow> balanced s'"
  by (auto simp: stable_def balanced_def listeners_closed_def)

lemma close_listeners_closed: "listeners_closed (close_listeners s)" "grows s (close_listeners s)"
  by (simp_all add: listeners_closed_def grows_def close_listeners_def listener_close_def add_events_def)

lemma open_listeners_grows: "open_listeners ans s = (r, s') \<Longrightarrow> grows s s'"
  by (auto simp: open_listeners_def grows_def add_events_def Let_def split: prod.splits if_splits)

lemma open_listeners_running: "open_listeners ans s = (r, s') \<Longrightarrow> sv_running s' = sv_running s"
  by (auto simp: open_listeners_def add_events_def Let_def split: prod.splits if_splits)

lemma StartServer_balanced:
  assumes "StartServer n ans s = (ok, s')" and "balanced s" and "fresh s'"
  shows "balanced s'"
proof (cases "sv_running s \<or> validate_config (sv_config s) \<noteq> Inr ()")
  case True
  show ?thesis
  proof (cases "sv_running s")
    case True
    with assms(1,2) show ?thesis by (simp add: StartServer_def)
  next
    case off: False
    with True obtain e where e: "validate_config (sv_config s) = Inl e"
      by (cases "validate_config (sv_config s)") auto
    have "s' = UpdateDiagnostic (''invalid configuration: '' @ e) (s\<lparr>sv_clock_sync := ClearPendingClockSync, sv_running := False\<rparr>)"
      using assms(1) off e by (simp add: StartServer_def)
    with assms(2) off show ?thesis by (simp add: balanced_def) (simp add: listeners_closed_def UpdateDiagnostic_def)
  qed
next
  case False
  define t where "t = use_config n (sv_config s) (s\<lparr>sv_running := True, sv_clock_sync := ClearPendingClockSync\<rparr>)"
  obtain r u where o: "open_listeners ans t = (r, u)" by fastforce
  have t: "owns {#} t" using assms(2) by (simp add: t_def balanced_def)
  have s': "s' = (case r of
      Inl e \<Rightarrow> UpdateDiagnostic (''cannot bind 127.0.0.1: '' @ e) ((close_listeners u)\<lparr>sv_running := False\<rparr>)
    | Inr _ \<Rightarrow> snd (StartServer n ans s))"
    using assms(1) False o by (auto simp: StartServer_def t_def use_config_def Let_def split: sum.splits)
  show ?thesis
  proof (cases r)
    case (Inl e)
    have "fresh (close_listeners u)" using assms(3) s' Inl by (simp add: UpdateDiagnostic_def)
    then have u: "fresh u" by (rule grows_fresh [OF close_listeners_closed(2)])
    have "owns {#} (close_listeners u)" using close_listeners_owns [OF open_listeners_owns [OF o t u] u] by simp
    with s' Inl close_listeners_closed(1) [of u] show ?thesis
      by (simp add: balanced_def listeners_closed_def UpdateDiagnostic_def)
  next
    case (Inr x)
    then have e: "sv_events s' = sv_events u" "server_handles s' = server_handles u" "server_starts s' = server_starts u" "sv_running s'"
      using assms(1) False o open_listeners_running [OF o]
      by (auto simp: StartServer_def t_def use_config_def Let_def server_handles_def server_starts_def session_handles_def split: sum.splits)
    then have "owns {#} u" using open_listeners_owns [OF o t] assms(3) by simp
    with e show ?thesis by (simp add: balanced_def owns_def)
  qed
qed

lemma StartServer_grows: "StartServer n ans s = (ok, s') \<Longrightarrow> grows s s'"
proof -
  have o: "grows s u" if "open_listeners ans (use_config n cfg (s\<lparr>sv_running := True, sv_clock_sync := cs\<rparr>)) = (r, u)" for cfg cs r u
    using open_listeners_grows [OF that] by (simp add: grows_def use_config_def)
  show "StartServer n ans s = (ok, s') \<Longrightarrow> grows s s'"
    using grows_trans [OF o close_listeners_closed(2)]
    by (auto simp: StartServer_def Let_def UpdateDiagnostic_def split: sum.splits prod.splits if_splits)
      (auto simp: grows_def dest!: o)
qed

lemma stop_request_balanced:
  assumes "owns {#} s" and "fresh (stop_request n ans s)"
  shows "balanced (stop_request n ans s)"
proof -
  define t where "t = EndSession n ans ''desktop server shutting down'' (s\<lparr>sv_running := False\<rparr>)"
  have s': "stop_request n ans s = close_listeners t" by (simp add: stop_request_def t_def)
  have "owns {#} t" unfolding t_def by (rule EndSession_owns) (simp add: assms(1))
  moreover have "fresh t" using grows_fresh [OF close_listeners_closed(2)] assms(2) by (simp add: s')
  ultimately show ?thesis
    using close_listeners_owns close_listeners_closed(1) by (auto simp: balanced_def s')
qed

lemma stop_request_grows: "grows s (stop_request n ans s)"
proof -
  have "grows s (EndSession n ans ''desktop server shutting down'' (s\<lparr>sv_running := False\<rparr>))"
    using stable_grows [OF EndSession_stable, of "s\<lparr>sv_running := False\<rparr>" n ans] by (simp add: grows_def)
  then show ?thesis unfolding stop_request_def by (rule grows_trans [OF _ close_listeners_closed(2)])
qed

lemma stop_finish_balanced: "balanced (stop_finish s) = balanced s" "grows s (stop_finish s)"
proof -
  obtain a x where "stop_adb s = s\<lparr>sv_adb := a, sv_adb_stopped := x\<rparr>" by (rule stop_adb_shape)
  then show "balanced (stop_finish s) = balanced s" "grows s (stop_finish s)"
    by (simp_all add: stop_finish_def balanced_def) (simp_all add: listeners_closed_def grows_def)
qed

lemma StopServer_balanced:
  assumes "balanced s" and "fresh (StopServer n ans s)"
  shows "balanced (StopServer n ans s)"
proof -
  have "fresh (stop_request n ans s)" if "sv_running s \<or> sv_threads s"
    using grows_fresh [OF stop_finish_balanced(2)] assms(2) that by (auto simp: StopServer_def)
  then show ?thesis
    using assms(1) stop_request_balanced by (auto simp: StopServer_def stop_finish_balanced(1) balanced_def [of s])
qed

lemma StopServer_grows: "grows s (StopServer n ans s)"
  using grows_trans [OF stop_request_grows stop_finish_balanced(2)] by (auto simp: StopServer_def grows_def)

lemma Reconfigure_cases:
  obtains (restart) fs t ok where "t = (StopServer n stop_ans (s\<lparr>sv_files := fs\<rparr>))\<lparr>sv_config := cfg\<rparr>"
      "StartServer n start_ans t = (ok, snd (Reconfigure n calls stop_ans start_ans cfg s))"
  | (other) fs c where "snd (Reconfigure n calls stop_ans start_ans cfg s) = s\<lparr>sv_files := fs, sv_config := c\<rparr>"
proof (cases "validate_config cfg")
  case (Inl e)
  then show ?thesis by (intro that(2) [of "sv_config s" "sv_files s"]) (simp add: Reconfigure_def)
next
  case (Inr x)
  obtain r fs where fs: "save_config calls (nt_utf8 n) cfg (sv_files s) = (r, fs)" by fastforce
  show ?thesis
  proof (cases "r = Inr () \<and> sv_running s")
    case True
    obtain ok u where "StartServer n start_ans ((StopServer n stop_ans (s\<lparr>sv_files := fs\<rparr>))\<lparr>sv_config := cfg\<rparr>) = (ok, u)" by fastforce
    with True Inr fs show ?thesis by (intro that(1) [OF refl]) (simp_all add: Reconfigure_def)
  next
    case False
    with Inr fs show ?thesis
      by (intro that(2) [of "if r = Inr () then cfg else sv_config s" fs])
        (auto simp: Reconfigure_def Let_def split: sum.splits)
  qed
qed

lemma settings_balanced:
  "balanced (s\<lparr>sv_files := fs\<rparr>) = balanced s" "balanced (s\<lparr>sv_config := c\<rparr>) = balanced s"
  "grows s (t\<lparr>sv_config := c\<rparr>) = grows s t" "grows (s\<lparr>sv_files := fs\<rparr>) t = grows s t" "grows s (t\<lparr>sv_files := fs\<rparr>) = grows s t"
  by (simp_all add: balanced_def listeners_closed_def grows_def)

lemma Reconfigure_grows: "grows s (snd (Reconfigure n calls stop_ans start_ans cfg s))"
proof (cases rule: Reconfigure_cases [where s = s and n = n and stop_ans = stop_ans and cfg = cfg and start_ans = start_ans and calls = calls])
  case (restart fs t ok)
  have "grows s t" using StopServer_grows [of "s\<lparr>sv_files := fs\<rparr>" n stop_ans] by (simp add: restart(1) settings_balanced)
  then show ?thesis by (rule grows_trans [OF _ StartServer_grows [OF restart(2)]])
next
  case (other fs c)
  then show ?thesis by (simp add: grows_def)
qed

lemma Reconfigure_balanced:
  assumes "balanced s" and "fresh (snd (Reconfigure n calls stop_ans start_ans cfg s))"
  shows "balanced (snd (Reconfigure n calls stop_ans start_ans cfg s))"
proof (cases rule: Reconfigure_cases [where s = s and n = n and stop_ans = stop_ans and cfg = cfg and start_ans = start_ans and calls = calls])
  case (restart fs t ok)
  have f: "fresh t" using grows_fresh [OF StartServer_grows [OF restart(2)] assms(2)] .
  then have "balanced t" using StopServer_balanced [of "s\<lparr>sv_files := fs\<rparr>"] assms(1) by (simp add: restart(1) settings_balanced)
  from StartServer_balanced [OF restart(2) this assms(2)] show ?thesis .
next
  case (other fs c)
  with assms(1) show ?thesis by (simp add: settings_balanced)
qed

section \<open>Runs\<close>

text \<open>The turns of the threads, as opposed to the calls of the user.\<close>

definition thread_turn :: "'s server_event \<Rightarrow> bool" where
  "thread_turn e = (case e of EvStart _ \<Rightarrow> False | EvStopRequest _ \<Rightarrow> False | EvStopFinish \<Rightarrow> False
     | EvReconfigure _ _ _ _ \<Rightarrow> False | _ \<Rightarrow> True)"

lemma turn_stable:
  assumes "server_step n e s = Some s'" and "thread_turn e"
  shows "stable s s'"
  using assms
  by (cases e) (auto simp: thread_turn_def dest: accept_turn_stable accept_finish_stable control_turn_stable input_turn_stable video_turn_stable adb_stable)

lemma turn_owns:
  assumes "server_step n e s = Some s'" and "thread_turn e"
    and "owns {#} s" "server_ok n s" "fresh s'"
  shows "owns {#} s'"
  using assms
  by (cases e) (auto simp: thread_turn_def dest: accept_turn_owns accept_finish_owns control_turn_owns input_turn_owns video_turn_owns adb_owns [of _ s s' "{#}"])

lemma server_step_grows:
  assumes "server_step n e s = Some s'"
  shows "grows s s'"
proof (cases "thread_turn e")
  case True
  from turn_stable [OF assms this] show ?thesis by (rule stable_grows)
next
  case False
  show ?thesis
  proof (cases e)
    case (EvStart ans)
    with assms StartServer_grows show ?thesis by (cases "StartServer n ans s") (auto split: if_splits)
  qed (use False assms in \<open>auto simp: thread_turn_def stop_request_grows stop_finish_balanced(2) Reconfigure_grows split: if_splits\<close>)
qed

lemma server_step_balanced:
  assumes "balanced s" "server_ok n s" "server_step n e s = Some s'" "fresh s'"
  shows "balanced s'"
proof (cases "thread_turn e")
  case True
  have "owns {#} s" using assms(1) by (simp add: balanced_def)
  from balanced_stable [OF turn_stable [OF assms(3) True] assms(1) turn_owns [OF assms(3) True this assms(2,4)]] show ?thesis .
next
  case False
  show ?thesis
  proof (cases e)
    case (EvStart ans)
    with assms StartServer_balanced show ?thesis by (cases "StartServer n ans s") (auto split: if_splits)
  next
    case (EvStopRequest ans)
    have "owns {#} s" using assms(1) by (simp add: balanced_def)
    from stop_request_balanced [OF this] EvStopRequest assms(3,4) show ?thesis by (auto split: if_splits)
  qed (use False assms Reconfigure_balanced [OF assms(1)] in \<open>auto simp: thread_turn_def stop_finish_balanced(1) split: if_splits\<close>)
qed

lemma server_run_grows: "server_run n es s = Some s' \<Longrightarrow> grows s s'"
proof (induction es arbitrary: s)
  case Nil
  then show ?case by (simp add: grows_def)
next
  case (Cons e es)
  then show ?case by (auto split: option.splits intro: grows_trans [OF server_step_grows])
qed

lemma server_run_balanced:
  "server_run n es s = Some s' \<Longrightarrow> balanced s \<Longrightarrow> server_ok n s \<Longrightarrow> fresh s' \<Longrightarrow> balanced s'"
proof (induction es arbitrary: s)
  case (Cons e es)
  then obtain t where t: "server_step n e s = Some t" "server_run n es t = Some s'" by (auto split: option.splits)
  have "fresh t" using grows_fresh [OF server_run_grows [OF t(2)] Cons.prems(4)] .
  from Cons.IH [OF t(2) server_step_balanced [OF Cons.prems(2,3) t(1) this] server_step_ok [OF Cons.prems(3) t(1)] Cons.prems(4)]
  show ?case .
qed simp

lemma server_init_balanced: "balanced (server_init os cfg fs pen touch inject monitor hello)"
  by (simp add: balanced_def server_init_def owns_def holds_def server_handles_def server_starts_def session_handles_def
      handshake_handles_def listeners_closed_def)

text \<open>C5: No socket is leaked and none is closed twice: after every run of the server, whatever the threads, the user, the peers
  and Windows do, the log of calls is legal, and the sockets that are open and the uses of Winsock that are not given
  back are exactly those named by the state of the server, each in one place: the listeners, the channels of the session
  and the handshake under way. When the server is not running and neither a session nor a handshake is left, none is.
  The hypothesis is that Windows hands out no handle that is still open.\<close>

theorem sockets_accounted:
  assumes "server_run n evs (server_init (nt_os n) cfg fs pen touch inject monitor hello) = Some s"
    and "os_fresh {} (sv_events s)"
  shows "resources 0 {} (sv_events s) = Some (server_starts s, set_mset (server_handles s)) \<and>
    count (server_handles s) h \<le> 1 \<and>
    (\<not> sv_running s \<and> \<not> sv_session_active s \<and> sv_accepting s = None \<longrightarrow>
       resources 0 {} (sv_events s) = Some (0, {}))"
proof -
  have b: "balanced s" by (rule server_run_balanced [OF assms(1) server_init_balanced server_init_ok assms(2)])
  then have r: "resources 0 {} (sv_events s) = Some (server_starts s, set_mset (server_handles s))" "count (server_handles s) h \<le> 1"
    by (simp_all add: balanced_def owns_def holds_def)
  have "server_starts s = 0 \<and> server_handles s = {#}" if "\<not> sv_running s" "\<not> sv_session_active s" "sv_accepting s = None"
    using b that server_run_ok [OF assms(1)]
    by (auto simp: balanced_def listeners_closed_def server_ok_def idle_server_def server_starts_def server_handles_def
        session_handles_def handshake_handles_def)
  with r show ?thesis by simp
qed

end
