(* ===== verification/ServerStop.thy ===== *)
theory ServerStop
  imports SocketBalance
begin

text \<open>
  \<open>DesktopServer::Stop\<close> as a whole: once it has returned, nothing of what the server acquired is left.
\<close>

text \<open>After the request every thread of a session ends with its next turn and touches nothing else, so that the joins
  return; the accept loop and the loop of adb have ended.\<close>

lemma stopped_loops_return:
  assumes "\<not> sv_running s"
  shows "control_turn n c s = map_option (\<lambda>g. s\<lparr>sv_control_thread := None\<rparr>) (sv_control_thread s)"
    "input_turn n i s = map_option (\<lambda>g. s\<lparr>sv_input_thread := None\<rparr>) (sv_input_thread s)"
    "video_turn n v s = map_option (\<lambda>g. s\<lparr>sv_video_thread := None\<rparr>) (sv_video_thread s)"
    "accept_turn n calls stream e s = None" "adb_locate l s = None" "adb_turn a s = None"
  using assms
  by (simp_all add: control_turn_def input_turn_def video_turn_def accept_turn_def adb_locate_def adb_turn_def
      IsGenerationActive_def split: option.split)

lemma stop_is_two_steps:
  assumes "sv_running s" and "sv_threads s" and "sv_accepting s = None" and "server_ok n s"
  shows "server_run n [EvStopRequest ans, EvStopFinish] s = Some (StopServer n ans s)"
  using stop_request_ok [OF assms(4), of ans] assms(1-3) by (simp add: StopServer_def)

text \<open>Stopping opens nothing, so the hypothesis that Windows hands out no handle twice speaks of the time before.\<close>

definition opens_nothing :: "net_event list \<Rightarrow> net_event list \<Rightarrow> bool" where
  "opens_nothing E E' \<longleftrightarrow> (\<exists>F. E' = E @ F \<and> (\<forall>h. SocketOpened h \<notin> set F))"

lemma opens_nothing_trans: "opens_nothing E F \<Longrightarrow> opens_nothing F G \<Longrightarrow> opens_nothing E G"
  by (auto simp: opens_nothing_def)

lemma os_fresh_none: "\<forall>h. SocketOpened h \<notin> set F \<Longrightarrow> os_fresh H F"
  by (induction H F rule: os_fresh.induct) auto

lemma nothing_opened_fresh: "opens_nothing E E' \<Longrightarrow> os_fresh H E \<Longrightarrow> os_fresh H E'"
proof -
  have "os_fresh H (E @ F)" if "os_fresh H E" "\<forall>h. SocketOpened h \<notin> set F" for F
    using that by (induction H E rule: os_fresh.induct) (auto simp: os_fresh_none)
  then show "opens_nothing E E' \<Longrightarrow> os_fresh H E \<Longrightarrow> os_fresh H E'" by (auto simp: opens_nothing_def)
qed

lemma EndSession_opens_nothing: "opens_nothing (sv_events s) (sv_events (EndSession n ans reason s))"
proof (cases "sv_session_active s")
  case True
  obtain r L q C adb p where "EndSession n ans reason s =
    s\<lparr>sv_clock_sync := ClearPendingClockSync, sv_session_active := False, sv_generation := sv_generation s + 1,
      sv_control := None, sv_video := None, sv_input := None, sv_control_sequence := q,
      sv_events := sv_events s @ map SocketClosed (channel_handles (sv_control s) @ channel_handles (sv_video s) @
        channel_handles (sv_input s)), sv_closed := C, sv_inputs := on_disconnect (nt_os n) (sv_inputs s), sv_caps := 0,
      sv_adb := adb, sv_pipeline := p, sv_pointers := {},
      sv_status := ended reason (sv_running s) ((sv_status s)\<lparr>ss_stream_resets := r\<rparr>), sv_lines := L\<rparr>"
    by (rule EndSession_shape [OF True])
  then show ?thesis by (auto simp: opens_nothing_def)
next
  case False
  then show ?thesis by (simp add: EndSession_def Let_def opens_nothing_def write_line_def)
qed

lemma close_listeners_opens_nothing: "opens_nothing (sv_events s) (sv_events (close_listeners s))"
proof -
  have "SocketOpened h \<notin> set (snd (listener_close l))" for h l
    by (auto simp: listener_close_def closeSocket_def split: option.splits)
  then show ?thesis
    by (auto simp: opens_nothing_def close_listeners_def add_events_def case_prod_unfold Let_def)
qed

lemma StopServer_fresh: "os_fresh {} (sv_events s) \<Longrightarrow> os_fresh {} (sv_events (StopServer n ans s))"
proof -
  have "sv_events (stop_finish t) = sv_events t" for t :: "'a Server"
    by (simp add: stop_finish_def stop_adb_def split: option.split)
  moreover have "opens_nothing (sv_events s) (sv_events (stop_request n ans s))"
    using opens_nothing_trans [OF EndSession_opens_nothing close_listeners_opens_nothing, of "s\<lparr>sv_running := False\<rparr>"]
    by (simp add: stop_request_def)
  ultimately show "os_fresh {} (sv_events s) \<Longrightarrow> os_fresh {} (sv_events (StopServer n ans s))"
    by (auto simp: StopServer_def intro: nothing_opened_fresh)
qed


end
