(* ===== verification/ServerTypes.thy ===== *)
theory ServerTypes
  imports ServerSafety
begin

text \<open>
  The state of the server is well formed: a running server works with a valid configuration, and the picture, the
  monitor and the client of a session, or of a handshake under way, belong together.
\<close>

section \<open>What belongs together\<close>

definition offer_ok :: "ClientHello \<Rightarrow> MonitorInfo \<Rightarrow> Size \<Rightarrow> u32 \<Rightarrow> bool" where
  "offer_ok hello monitor extent edge \<longleftrightarrow> IsH264Supported hello \<and> ToRotation (rotationDegrees hello) \<noteq> None \<and>
     ChooseVideoSize (MonitorSize monitor) hello = Some (extent, edge)"

definition handshake_ok :: "'s Handshake \<Rightarrow> bool" where
  "handshake_ok h \<longleftrightarrow> validate_config (hs_config h) = Inr () \<and> hs_session_id h \<noteq> 0 \<and>
     offer_ok (hs_hello h) (hs_monitor h) (hs_size h) (hs_edge h)"

definition well_formed :: "'s Server \<Rightarrow> bool" where
  "well_formed s \<longleftrightarrow> (sv_running s \<longrightarrow> validate_config (sv_config s) = Inr ()) \<and>
     (\<forall>h. sv_accepting s = Some h \<longrightarrow> handshake_ok h) \<and>
     (sv_session_active s \<longrightarrow> offer_ok (sv_hello s) (sv_monitor s) (sv_size s) (sv_edge s))"

text \<open>The part of the state it speaks of.\<close>

definition core :: "'s Server \<Rightarrow>
    bool \<times> AppConfig \<times> 's Handshake option \<times> bool \<times> ClientHello \<times> MonitorInfo \<times> Size \<times> u32" where
  "core s = (sv_running s, sv_config s, sv_accepting s, sv_session_active s, sv_hello s, sv_monitor s, sv_size s, sv_edge s)"

lemma well_formed_core: "core s = core t \<Longrightarrow> well_formed s = well_formed t"
  by (simp add: core_def well_formed_def)

lemma core_updates [simp]:
  "core (s\<lparr>sv_files := a1\<rparr>) = core s" "core (s\<lparr>sv_status := a2\<rparr>) = core s" "core (s\<lparr>sv_inputs := a3\<rparr>) = core s"
  "core (s\<lparr>sv_adapter := a4\<rparr>) = core s" "core (s\<lparr>sv_pipeline := a5\<rparr>) = core s" "core (s\<lparr>sv_epoch := a6\<rparr>) = core s"
  "core (s\<lparr>sv_caps := a7\<rparr>) = core s" "core (s\<lparr>sv_control_listener := a8\<rparr>) = core s"
  "core (s\<lparr>sv_video_listener := a9\<rparr>) = core s" "core (s\<lparr>sv_input_listener := b1\<rparr>) = core s"
  "core (s\<lparr>sv_control := b2\<rparr>) = core s" "core (s\<lparr>sv_video := b3\<rparr>) = core s" "core (s\<lparr>sv_input := b4\<rparr>) = core s"
  "core (s\<lparr>sv_adb := b5\<rparr>) = core s" "core (s\<lparr>sv_adb_stopped := b6\<rparr>) = core s" "core (s\<lparr>sv_threads := b7\<rparr>) = core s"
  "core (s\<lparr>sv_waiting := b8\<rparr>) = core s" "core (s\<lparr>sv_probe_attempted := b9\<rparr>) = core s"
  "core (s\<lparr>sv_clock_sync := c1\<rparr>) = core s" "core (s\<lparr>sv_pointers := c2\<rparr>) = core s" "core (s\<lparr>sv_generation := c3\<rparr>) = core s"
  "core (s\<lparr>sv_control_sequence := c4\<rparr>) = core s" "core (s\<lparr>sv_video_sequence := c5\<rparr>) = core s"
  "core (s\<lparr>sv_control_thread := c6\<rparr>) = core s" "core (s\<lparr>sv_input_thread := c7\<rparr>) = core s"
  "core (s\<lparr>sv_video_thread := c8\<rparr>) = core s" "core (s\<lparr>sv_lines := c9\<rparr>) = core s" "core (s\<lparr>sv_events := d1\<rparr>) = core s"
  "core (s\<lparr>sv_closed := d2\<rparr>) = core s"
  by (simp_all add: core_def)

lemma core_helpers [simp]:
  "core (write_line line s) = core s" "core (UpdateDiagnostic d s) = core s" "core (UpdateReleaseReadinessLocked s) = core s"
  "core (soak_line n l s) = core s" "core (ShutdownAndClose socket s) = core s" "core (add_events evs s) = core s"
  "core (use_config n cfg s) = core s" "core (notify_adb now reason s) = core s" "core (stop_adb s) = core s"
  by (simp_all add: write_line_def UpdateDiagnostic_def UpdateReleaseReadinessLocked_def soak_line_def ShutdownAndClose_def
      add_events_def use_config_def notify_adb_def stop_adb_def split: option.split)

lemma core_sink [simp]: "core (sink_call n call s) = core s"
  by (cases call) (simp_all add: server_on_capture_def server_on_encode_def server_on_stream_reset_def
      server_on_encoder_selected_def)

lemma core_pipeline [simp]: "core (with_pipeline n p s) = core s"
proof -
  have "core (fold (sink_call n) calls s) = core s" for calls s by (induction calls arbitrary: s) simp_all
  then show ?thesis by (simp add: with_pipeline_def)
qed

lemma core_release_sockets [simp]: "core (release_sockets n reason s) = core s"
  by (simp add: release_sockets_def Let_def split: option.split prod.split)

lemma core_ended_status [simp]: "core (ended_status reason s) = core s"
  by (simp add: ended_status_def)

lemma core_close_listeners [simp]: "core (close_listeners s) = core s"
  by (simp add: close_listeners_def Let_def split: prod.split)

lemma core_open_listeners: "open_listeners ans s = (r, t) \<Longrightarrow> core t = core s"
  by (auto simp: open_listeners_def Let_def split: prod.splits if_splits)

lemma core_EndSession:
  "core (EndSession n ans reason s) = core (s\<lparr>sv_session_active := False\<rparr>)"
  by (simp add: EndSession_def Let_def) (simp add: core_def)

lemma formedI: "core t = core s \<Longrightarrow> well_formed s \<Longrightarrow> well_formed t"
  using well_formed_core by blast

lemma formed_helpers [simp]:
  "well_formed (close_listeners s) = well_formed s" "well_formed (add_events evs s) = well_formed s"
  "well_formed (UpdateDiagnostic d s) = well_formed s" "well_formed (s\<lparr>sv_files := fs\<rparr>) = well_formed s"
  "well_formed (ShutdownAndClose socket s) = well_formed s" "well_formed (with_pipeline n p s) = well_formed s"
  by (rule well_formed_core, simp)+

section \<open>Ending, starting and stopping\<close>

lemma well_formed_inactive:
  "well_formed s \<Longrightarrow> well_formed (s\<lparr>sv_session_active := False\<rparr>)" "well_formed s \<Longrightarrow> well_formed (s\<lparr>sv_running := False\<rparr>)"
  by (simp_all add: well_formed_def)

lemma EndSession_formed: "well_formed s \<Longrightarrow> well_formed (EndSession n ans reason s)"
  using well_formed_core [OF core_EndSession] well_formed_inactive(1) by blast

lemma stop_request_formed: "well_formed s \<Longrightarrow> well_formed (stop_request n ans s)"
proof -
  assume "well_formed s"
  then have "well_formed (EndSession n ans ''desktop server shutting down'' (s\<lparr>sv_running := False\<rparr>))"
    by (intro EndSession_formed) (simp add: well_formed_def)
  then show ?thesis by (simp add: stop_request_def)
qed

lemma stop_finish_formed: "well_formed s \<Longrightarrow> well_formed (stop_finish s)"
  using well_formed_core [of "stop_finish s" s] by (simp add: stop_finish_def)

lemma StopServer_formed: "well_formed s \<Longrightarrow> well_formed (StopServer n ans s)"
  by (simp add: StopServer_def stop_request_formed stop_finish_formed)

lemma StartServer_formed:
  assumes "well_formed s" and "StartServer n ans s = (ok, t)"
  shows "well_formed t"
proof (cases "sv_running s \<or> validate_config (sv_config s) \<noteq> Inr ()")
  case True
  show ?thesis
  proof (cases "sv_running s")
    case True
    with assms show ?thesis by (simp add: StartServer_def)
  next
    case stopped: False
    then obtain e where "validate_config (sv_config s) = Inl e" using True by (cases "validate_config (sv_config s)") auto
    then have "core t = core s" using assms(2) stopped by (auto simp: StartServer_def Let_def core_def UpdateDiagnostic_def)
    with assms(1) show ?thesis by (rule formedI [rotated])
  qed
next
  case False
  define s1 where "s1 = s\<lparr>sv_running := True, sv_clock_sync := ClearPendingClockSync\<rparr>"
  obtain r u where o: "open_listeners ans (use_config n (sv_config s1) s1) = (r, u)" by fastforce
  then have u: "core u = core s1" using core_open_listeners by fastforce
  have s1: "well_formed s1" using assms(1) False by (simp add: s1_def well_formed_def)
  show ?thesis
  proof (cases r)
    case (Inl e)
    then have "t = UpdateDiagnostic (''cannot bind 127.0.0.1: '' @ e) ((close_listeners u)\<lparr>sv_running := False\<rparr>)"
      using False assms(2) o by (auto simp: StartServer_def Let_def s1_def)
    moreover have "well_formed (close_listeners u)" using formedI [OF u s1] by simp
    ultimately show ?thesis by (simp add: well_formed_inactive(2))
  next
    case (Inr x)
    then have "core t = core u" using False assms(2) o by (auto simp: StartServer_def Let_def s1_def)
    with u s1 well_formed_core show ?thesis by metis
  qed
qed

lemma Reconfigure_formed:
  assumes "well_formed s" and "Reconfigure n calls stop_ans start_ans cfg s = (r, t)"
  shows "well_formed t"
proof (cases "validate_config cfg")
  case (Inl e)
  with assms show ?thesis by (simp add: Reconfigure_def)
next
  case (Inr u)
  obtain q fs where q: "save_config calls (nt_utf8 n) cfg (sv_files s) = (q, fs)" by fastforce
  have s1: "well_formed (s\<lparr>sv_files := fs\<rparr>)" using assms(1) by simp
  show ?thesis
  proof (cases q)
    case (Inl e)
    with assms q Inr s1 show ?thesis by (simp add: Reconfigure_def)
  next
    case (Inr v)
    define s2 where "s2 = (if sv_running s then StopServer n stop_ans (s\<lparr>sv_files := fs\<rparr>) else s\<lparr>sv_files := fs\<rparr>)\<lparr>sv_config := cfg\<rparr>"
    have s2: "well_formed s2"
      using s1 StopServer_formed [OF s1, of n stop_ans] \<open>validate_config cfg = Inr u\<close> by (simp add: s2_def well_formed_def)
    obtain ok w where "StartServer n start_ans s2 = (ok, w)" by fastforce
    with s2 StartServer_formed [OF s2 this] assms(2) q Inr \<open>validate_config cfg = Inr u\<close> show ?thesis
      by (auto simp: Reconfigure_def Let_def s2_def split: if_splits)
  qed
qed

section \<open>Establishing a session\<close>

lemma core_reject: "reject n reason message shown c s = (c', t) \<Longrightarrow> core t = core s"
  by (auto simp: reject_def Let_def split: prod.splits option.splits)

lemma read_hello_h264:
  assumes "read_hello n c s = r"
  shows "case r of Inl (c', t) \<Rightarrow> core t = core s | Inr (hello, c') \<Rightarrow> IsH264Supported hello"
  using assms
  by (auto simp: read_hello_def Let_def split: prod.splits option.splits if_splits Payload.splits sum.splits
      dest!: core_reject)

lemma choose_display_offers:
  assumes "choose_display n ans cfg hello c s = r"
  shows "case r of Inl (c', t) \<Rightarrow> core t = core s
    | Inr (monitor, extent, edge) \<Rightarrow> IsH264Supported hello \<longrightarrow> offer_ok hello monitor extent edge"
  using assms
  by (auto simp: choose_display_def Let_def offer_ok_def split: prod.splits option.splits if_splits dest!: core_reject)

lemma core_send_config:
  assumes "send_config n timeouts cfg c s = r"
  shows "case r of Inl (c', t) \<Rightarrow> core t = core s | Inr (c', t) \<Rightarrow> core t = core s"
  using assms by (auto simp: send_config_def Let_def split: prod.splits if_splits)

lemma offer_result:
  assumes "offer n ans c s = r"
  shows "case r of Inl (c', t) \<Rightarrow> core t = core s
    | Inr (hello, monitor, extent, edge, c', t) \<Rightarrow> offer_ok hello monitor extent edge \<and> core t = core s"
proof (cases "read_hello n c s")
  case (Inl x)
  with assms read_hello_h264 [OF Inl] show ?thesis by (auto simp: offer_def)
next
  case (Inr x)
  then obtain hello c1 where h: "read_hello n c s = Inr (hello, c1)" by (cases x) auto
  show ?thesis
  proof (cases "choose_display n (es_monitors ans) (sv_config s) hello c1 s")
    case (Inl y)
    with assms h choose_display_offers [OF Inl] show ?thesis by (auto simp: offer_def)
  next
    case (Inr y)
    then obtain monitor extent edge where d: "choose_display n (es_monitors ans) (sv_config s) hello c1 s = Inr (monitor, extent, edge)"
      by (metis prod.exhaust)
    have "offer_ok hello monitor extent edge" using choose_display_offers [OF d] read_hello_h264 [OF h] by simp
    then show ?thesis
      using assms h d core_send_config [of n "es_session_timeouts ans" "session_config (NewSessionId (es_random ans)) monitor extent (sv_config s)" c1 s, OF refl]
      by (auto simp: offer_def split: sum.splits)
  qed
qed

lemma core_greet: "greet n ans c s = Some (Inl (c', t)) \<Longrightarrow> core t = core s"
  by (auto simp: greet_def Let_def split: option.splits if_splits sum.splits prod.splits)

lemma core_drop_channels: "drop_channels n e v i c s = (c', t) \<Longrightarrow> core t = core s"
  by (auto simp: drop_channels_def split: prod.splits dest!: core_reject)

lemma receive_channels_core:
  assumes "receive_channels n ans session c s = Some r"
  shows "case r of Inl (c', t) \<Rightarrow> core t = core s | Inr (v, i, t) \<Rightarrow> core t = core s"
  using assms
  by (auto simp: receive_channels_def split: option.splits sum.splits prod.splits dest!: core_drop_channels)

lemma establish_channels_formed:
  assumes "well_formed s" "sv_running s" "establish_channels n ans c s = Some r"
  shows "case r of Inl (c', t) \<Rightarrow> well_formed t | Inr t \<Rightarrow> well_formed t"
proof (cases "greet n ans c s")
  case None
  with assms(3) show ?thesis by (simp add: establish_channels_def)
next
  case (Some g)
  show ?thesis
  proof (cases g)
    case (Inl x)
    then obtain c' t where "x = (c', t)" by fastforce
    with Some Inl core_greet [of n ans c s c' t] well_formed_core [of t s] assms show ?thesis
      by (auto simp: establish_channels_def)
  next
    case (Inr x)
    then obtain c1 session where g: "greet n ans c s = Some (Inr (c1, session))" using Some by (metis prod.exhaust)
    show ?thesis
    proof (cases "offer n ans c1 s")
      case (Inl y)
      with offer_result [OF Inl] g assms(3) formedI [OF _ assms(1)] show ?thesis
        by (auto simp: establish_channels_def)
    next
      case (Inr y)
      then obtain hello monitor extent edge c2 t where o: "offer n ans c1 s = Inr (hello, monitor, extent, edge, c2, t)"
        by (metis prod.exhaust)
      have ok: "offer_ok hello monitor extent edge" "core t = core s" using offer_result [OF o] by simp_all
      obtain q where q: "receive_channels n ans session c2 t = Some q"
        using assms(3) g o by (auto simp: establish_channels_def split: option.splits)
      show ?thesis
      proof (cases q)
        case (Inl z)
        with receive_channels_core [OF q] ok(2) g o q assms(3) formedI [OF _ assms(1)] show ?thesis
          by (auto simp: establish_channels_def)
      next
        case (Inr z)
        then obtain v i u where z: "q = Inr (v, i, u)" by (metis prod.exhaust)
        have u: "core u = core s" using receive_channels_core [OF q] z ok(2) by simp
        have r: "r = Inr (u\<lparr>sv_accepting := Some \<lparr>hs_hello = hello, hs_monitor = monitor, hs_size = extent, hs_edge = edge,
            hs_config = sv_config s, hs_session_id = NewSessionId (es_random ans), hs_control = c2, hs_video = v, hs_input = i\<rparr>\<rparr>)"
          using assms(3) g o q z by (simp add: establish_channels_def)
        have "well_formed u" using u well_formed_core assms(1) by blast
        with ok(1) assms(1,2) u show ?thesis
          by (auto simp: r well_formed_def handshake_ok_def NewSessionId_def)
      qed
    qed
  qed
qed

lemma core_give_up: "give_up n reason message shown h s = (c, t) \<Longrightarrow> core t = core s"
  by (auto simp: give_up_def split: prod.splits dest!: core_reject)

lemma core_configure_input: "configure_input n h s = (ok, t) \<Longrightarrow> core t = core s"
  by (auto simp: configure_input_def Let_def split: prod.splits)

lemma saved_config_valid: "save_config calls w c fs = (Inr (), fs') \<Longrightarrow> validate_config c = Inr ()"
  by (auto simp: save_config_def split: sum.splits)

lemma persist_config_formed: "well_formed s \<Longrightarrow> well_formed (persist_config n calls h s)"
proof -
  assume s: "well_formed s"
  define c where "c = (hs_config h)\<lparr>selected_monitor_id := MonitorIdToString (mon_id (hs_monitor h))\<rparr>"
  obtain q fs where q: "save_config calls (nt_utf8 n) c (sv_files s) = (q, fs)" by fastforce
  show ?thesis
  proof (cases q)
    case (Inl e)
    then have "core (persist_config n calls h s) = core s" using q by (simp add: persist_config_def Let_def flip: c_def)
    with s well_formed_core show ?thesis by blast
  next
    case (Inr u)
    then have "validate_config c = Inr ()" using q saved_config_valid by simp
    with s q Inr show ?thesis by (simp add: persist_config_def Let_def well_formed_def flip: c_def)
  qed
qed

lemma activate_session_formed:
  assumes "well_formed s" and "handshake_ok h"
  shows "well_formed (activate_session h s)"
proof -
  have "core (activate_session h s) = core (s\<lparr>sv_monitor := hs_monitor h, sv_size := hs_size h, sv_edge := hs_edge h,
      sv_hello := hs_hello h, sv_session_active := True\<rparr>)"
    by (simp add: activate_session_def Let_def active_status_def) (simp add: core_def)
  from well_formed_core [OF this] assms show ?thesis by (simp add: well_formed_def handshake_ok_def)
qed

lemma establish_rest_formed:
  assumes "well_formed s" and "handshake_ok h" and "establish_rest n ans h s = r"
  shows "case r of Inl (c, t) \<Rightarrow> well_formed t | Inr t \<Rightarrow> well_formed t"
proof -
  obtain hr p where p: "VideoPipeline.Start (av_start ans) (hs_monitor h) (hs_edge h) True (sv_pipeline s) = (hr, p)" by fastforce
  define s1 where "s1 = with_pipeline n p s"
  have s1: "core s1 = core s" by (simp add: s1_def)
  obtain ok s2 where s2: "configure_input n h s1 = (ok, s2)" by fastforce
  have c2: "core s2 = core s" using core_configure_input [OF s2] s1 by simp
  consider "FAILED hr" | "\<not> FAILED hr" "\<not> ok" | "\<not> FAILED hr" "ok" by blast
  then show ?thesis
  proof cases
    case 1
    obtain c t where g: "give_up n 8 ''Windows capture or hardware H.264 pipeline is unavailable''
        (''video start failed: '' @ HResultText hr) h s1 = (c, t)" by fastforce
    then have "r = Inl (c, t)" using assms(3) p 1 by (simp add: establish_rest_def Let_def s1_def)
    moreover have "well_formed t" using core_give_up [OF g] s1 formedI [OF _ assms(1)] by simp
    ultimately show ?thesis by simp
  next
    case 2
    define s3 where "s3 = with_pipeline n (VideoPipeline.Stop (av_stop ans) (sv_pipeline s2)) s2"
    have "core s3 = core s" using c2 by (simp add: s3_def)
    moreover obtain c t where g: "give_up n 9 ''cannot configure monitor-to-tablet coordinate mapping''
       ''input coordinate mapper rejected selected monitor'' h s3 = (c, t)" by fastforce
    ultimately have "well_formed t" using core_give_up [OF g] formedI [OF _ assms(1)] by simp
    moreover have "r = Inl (c, t)" using assms(3) 2 p s2 g by (simp add: establish_rest_def Let_def s1_def s3_def)
    ultimately show ?thesis by simp
  next
    case 3
    define s3 where "s3 = (use_config n (hs_config h) s2)\<lparr>sv_adapter := adapter_configure (hs_hello h)
        (sv_epoch (use_config n (hs_config h) s2)) (sv_adapter (use_config n (hs_config h) s2))\<rparr>"
    have "core s3 = core s" using c2 by (simp add: s3_def)
    then have "well_formed s3" using assms(1) well_formed_core by blast
    then have "well_formed (activate_session h (persist_config n (av_save ans) h s3))"
      using assms(2) by (intro activate_session_formed persist_config_formed)
    moreover have "r = Inr (activate_session h (persist_config n (av_save ans) h s3))"
      using assms(3) 3 p s2 by (simp add: establish_rest_def Let_def s1_def s3_def)
    ultimately show ?thesis by simp
  qed
qed

lemma close_rejected_formed: "well_formed (snd r) \<Longrightarrow> well_formed (close_rejected r)"
  by (cases r) (simp add: close_rejected_def)

lemma accept_turn_formed:
  assumes "well_formed s" and "accept_turn n calls stream ans s = Some t"
  shows "well_formed t"
proof (cases "sv_session_active s")
  case True
  with assms show ?thesis by (simp add: accept_turn_def split: if_splits)
next
  case False
  obtain st h e evs where l: "listener_accept calls 100 (sv_control_listener s) = (st, h, e, evs)" by (metis prod.exhaust)
  have s1: "well_formed (add_events evs s)" using assms(1) by simp
  have run: "sv_running s" using assms(2) by (auto simp: accept_turn_def split: if_splits)
  show ?thesis
  proof (cases st)
    case Accepted
    then obtain r where r: "establish_channels n ans \<lparr>ch_handle = the h, ch_stream = stream\<rparr> (add_events evs s) = Some r"
        "t = (case r of Inl r \<Rightarrow> close_rejected r | Inr s \<Rightarrow> s)"
      using assms(2) False l by (auto simp: accept_turn_def split: option.splits sum.splits if_splits)
    have "sv_running (add_events evs s)" using run by (simp add: add_events_def)
    from establish_channels_formed [OF s1 this r(1)] r(2) show ?thesis
      by (auto simp: close_rejected_formed split: sum.splits)
  next
    case AcceptTimeout
    with assms(2) False l s1 show ?thesis by (auto simp: accept_turn_def split: if_splits)
  next
    case AcceptError
    with assms(2) False l s1 well_formed_core [of t "add_events evs s"] show ?thesis
      by (auto simp: accept_turn_def split: if_splits)
  qed
qed

lemma accept_finish_formed:
  assumes "well_formed s" and "accept_finish n ans s = Some t"
  shows "well_formed t"
proof -
  obtain h where h: "sv_accepting s = Some h" using assms(2) by (auto simp: accept_finish_def split: option.splits)
  then have "handshake_ok h" and s1: "well_formed (s\<lparr>sv_accepting := None\<rparr>)" using assms(1) by (auto simp: well_formed_def)
  from establish_rest_formed [OF s1 this(1) refl, of n ans] assms(2) h show ?thesis
    by (auto simp: accept_finish_def close_rejected_formed split: sum.splits)
qed

section \<open>The loops of a session\<close>

lemma core_control_message: "control_message n ans g c m s = (ok, t) \<Longrightarrow> core t = core s"
  by (cases m) (auto simp: on_clock_request_def on_orientation_def on_capabilities_def on_client_telemetry_def
      on_clock_complete_def Let_def split: prod.splits if_splits)

lemma end_loops_formed:
  assumes "well_formed s"
  shows "well_formed (end_control n ans reason s)" "well_formed (end_input n ans reason s)"
  using EndSession_formed [OF assms, of n ans reason] well_formed_core [of "end_control n ans reason s" "EndSession n ans reason s"]
    well_formed_core [of "end_input n ans reason s" "EndSession n ans reason s"]
  by (simp_all add: end_control_def end_input_def)

lemma control_frame_formed: "well_formed s \<Longrightarrow> well_formed (control_frame n ans g c read frame s)"
proof -
  assume s: "well_formed s"
  then have "well_formed t" if "control_message n ans g c m s = (ok, t)" for m ok t
    using core_control_message [OF that] well_formed_core by blast
  with s show ?thesis
    by (auto simp: control_frame_def Let_def intro!: end_loops_formed split: option.split Payload.split prod.split)
qed

lemma channels_formed:
  assumes "well_formed s"
  shows "well_formed (s\<lparr>sv_control := a\<rparr>)" "well_formed (s\<lparr>sv_video := b\<rparr>)" "well_formed (s\<lparr>sv_input := c\<rparr>)"
    "well_formed (s\<lparr>sv_control_thread := d\<rparr>)" "well_formed (s\<lparr>sv_input_thread := e\<rparr>)" "well_formed (s\<lparr>sv_video_thread := f\<rparr>)"
    "well_formed (s\<lparr>sv_adapter := g\<rparr>)"
  using assms by (simp_all add: well_formed_def)

lemma control_turn_formed: "well_formed s \<Longrightarrow> control_turn n ans s = Some t \<Longrightarrow> well_formed t"
  by (auto simp: control_turn_def Let_def intro!: control_frame_formed end_loops_formed channels_formed
      split: option.splits if_splits prod.splits)

lemma core_process_input: "core (process_input n adapted s) = core s"
  by (simp add: process_input_def Let_def split: prod.split)

lemma core_update_pointers: "core (transport_line ans batch (update_pointers batch' s)) = core s"
  by (simp add: transport_line_def update_pointers_def Let_def)

lemma input_frame_formed: "well_formed s \<Longrightarrow> well_formed (input_frame n ans read frame s)"
proof -
  assume s: "well_formed s"
  have "well_formed (process_input n adapted (transport_line ans batch (update_pointers batch (s\<lparr>sv_adapter := a\<rparr>))))" for adapted batch a
    using s well_formed_core [of "process_input n adapted (transport_line ans batch (update_pointers batch (s\<lparr>sv_adapter := a\<rparr>)))" s]
    by (simp add: core_process_input core_update_pointers)
  with s show ?thesis
    by (auto simp: input_frame_def Let_def intro!: end_loops_formed channels_formed
        split: option.split Payload.split prod.split sum.split)
qed

lemma input_turn_formed: "well_formed s \<Longrightarrow> input_turn n ans s = Some t \<Longrightarrow> well_formed t"
  by (auto simp: input_turn_def intro!: input_frame_formed end_loops_formed channels_formed
      split: option.splits if_splits prod.splits)

lemma core_continue_frame:
  "continue_frame n ans c vl s = r \<Longrightarrow> case r of Inl (reason, t) \<Rightarrow> core t = core s | Inr (vl', t) \<Rightarrow> core t = core s"
  by (auto simp: continue_frame_def Let_def split: prod.splits if_splits)

lemma core_capture_and_encode: "capture_and_encode n ans au s = (r, t) \<Longrightarrow> core t = core s"
  by (auto simp: capture_and_encode_def Let_def split: prod.splits if_splits)

lemma core_start_frame:
  "start_frame au vl s = r \<Longrightarrow> case r of Inl (reason, t) \<Rightarrow> core t = core s | Inr (vl', t) \<Rightarrow> core t = core s"
  by (auto simp: start_frame_def Let_def split: prod.splits if_splits)

lemma core_next_frame:
  "case next_frame n ans vl s of Inl (reason, t) \<Rightarrow> core t = core s | Inr (vl', t) \<Rightarrow> core t = core s"
proof -
  obtain grab hr skipped stage au s1 where c: "capture_and_encode n ans (vl_encoded vl) s = ((grab, hr, skipped, stage, au), s1)"
    by (metis prod.exhaust)
  then have "core s1 = core s" by (rule core_capture_and_encode)
  then show ?thesis using c core_start_frame [of au "vl\<lparr>vl_waited := False, vl_encoded := au\<rparr>" s1, OF refl]
    by (auto simp: next_frame_def Let_def split: sum.splits)
qed

lemma video_turn_formed:
  assumes "well_formed s" and "video_turn n ans s = Some t"
  shows "well_formed t"
proof -
  have "core u = core s \<Longrightarrow> well_formed u" for u using assms(1) well_formed_core by blast
  then show ?thesis
    using assms core_next_frame [where n = n and ans = ans and s = s] core_continue_frame [where n = n and ans = ans and s = s, OF refl]
    by (fastforce simp: video_turn_def intro!: EndSession_formed channels_formed
        split: option.splits if_splits prod.splits sum.splits)
qed

lemma core_adb_turn: "adb_turn ans s = Some t \<Longrightarrow> core t = core s"
  by (auto simp: adb_turn_def waiting_status_def probe_device_def forget_probe_def Let_def
      split: option.splits if_splits prod.splits)

lemma core_adb_locate: "adb_locate ans s = Some t \<Longrightarrow> core t = core s"
  by (auto simp: adb_locate_def split: option.splits if_splits)

lemma core_adb_event: "adb_event e s = Some t \<Longrightarrow> core t = core s"
  by (auto simp: adb_event_def split: session_event.splits option.splits if_splits)

section \<open>Every step\<close>

lemma server_step_formed:
  assumes "well_formed s" and "server_step n e s = Some t"
  shows "well_formed t"
proof (cases e)
  case (EvStart ans)
  obtain ok u where "StartServer n ans s = (ok, u)" by fastforce
  with StartServer_formed [OF assms(1) this] assms(2) EvStart show ?thesis by (auto split: if_splits)
next
  case (EvReconfigure calls stop_ans start_ans cfg)
  obtain r u where "Reconfigure n calls stop_ans start_ans cfg s = (r, u)" by fastforce
  with Reconfigure_formed [OF assms(1) this] assms(2) EvReconfigure show ?thesis by (auto split: if_splits)
qed (use assms well_formed_core accept_turn_formed [OF assms(1)] accept_finish_formed [OF assms(1)]
    control_turn_formed [OF assms(1)] input_turn_formed [OF assms(1)] video_turn_formed [OF assms(1)]
    stop_request_formed [OF assms(1)] stop_finish_formed [OF assms(1)] in
    \<open>auto split: if_splits dest!: core_adb_turn core_adb_locate core_adb_event\<close>)

text \<open>C10: The state of the server is well formed whatever happens: in every reachable state a running server holds a
  configuration within the limits of version 1; a handshake under way has a valid configuration, a session id that is
  not 0 and an H.264 client whose rotation is a quarter turn; and the picture that is encoded for a session is the one
  chosen for its monitor and its client, so that it keeps the limits of the client's decoder.\<close>

theorem server_well_formed:
  assumes "server_run n evs (server_init (nt_os n) cfg fs pen touch inject monitor hello) = Some s"
  shows "(sv_running s \<longrightarrow> validate_config (sv_config s) = Inr ()) \<and>
    (\<forall>h. sv_accepting s = Some h \<longrightarrow> validate_config (hs_config h) = Inr () \<and> hs_session_id h \<noteq> 0 \<and>
       IsH264Supported (hs_hello h) \<and> ToRotation (rotationDegrees (hs_hello h)) \<noteq> None \<and>
       ChooseVideoSize (MonitorSize (hs_monitor h)) (hs_hello h) = Some (hs_size h, hs_edge h)) \<and>
    (sv_session_active s \<longrightarrow> IsH264Supported (sv_hello s) \<and>
       ChooseVideoSize (MonitorSize (sv_monitor s)) (sv_hello s) = Some (sv_size s, sv_edge s) \<and>
       sizeWidth (sv_size s) \<le> maxVideoWidth (sv_hello s) \<and> sizeHeight (sv_size s) \<le> maxVideoHeight (sv_hello s))"
proof -
  have "well_formed (server_init (nt_os n) cfg fs pen touch inject monitor hello)"
    by (simp add: well_formed_def server_init_def)
  from server_run_invariant [of well_formed, OF _ this assms] server_step_formed have s: "well_formed s" by blast
  have "sizeWidth extent \<le> maxVideoWidth h \<and> sizeHeight extent \<le> maxVideoHeight h"
    if "ChooseVideoSize native h = Some (extent, edge)" for native h extent edge
    using that by (auto simp: ChooseVideoSize_def find_Some_iff fits_client_def Let_def)
  with s show ?thesis by (auto simp: well_formed_def handshake_ok_def offer_ok_def)
qed

end
