(* ===== verification/Tray.thy ===== *)
theory Tray
  imports ServerStop ServerTypes
begin

text \<open>
  \<open>app/tray_commands.h\<close> and \<open>app/tray_main.cpp\<close>: the tray icon, its menu, and what the choice of an entry does to
  the server. The handles, windows and dialogs of Windows are outside; what is shown or opened is an effect, and the
  answers of dialogs and menus are arguments. Texts are lists of UTF-16 code units.
\<close>

section \<open>Commands\<close>

datatype TrayCommandKind = NoCommand | ExitCommand | OpenConfigFolder | OpenTelemetry | ExportTelemetry | TogglePalmGuard
  | BitrateChoice | MonitorChoice

record TrayCommand =
  command_kind :: TrayCommandKind
  command_value :: u32

definition kTrayExitCommand :: int where "kTrayExitCommand = 1001"
definition kTrayOpenConfigCommand :: int where "kTrayOpenConfigCommand = 1002"
definition kTrayOpenTelemetryCommand :: int where "kTrayOpenTelemetryCommand = 1003"
definition kTrayExportTelemetryCommand :: int where "kTrayExportTelemetryCommand = 1004"
definition kTrayTogglePalmCommand :: int where "kTrayTogglePalmCommand = 1005"
definition kTrayBitrateBaseCommand :: int where "kTrayBitrateBaseCommand = 1100"
definition kTrayMonitorBaseCommand :: int where "kTrayMonitorBaseCommand = 1200"

lemmas tray_commands = kTrayExitCommand_def kTrayOpenConfigCommand_def kTrayOpenTelemetryCommand_def
  kTrayExportTelemetryCommand_def kTrayTogglePalmCommand_def kTrayBitrateBaseCommand_def kTrayMonitorBaseCommand_def

definition TrayBitrateCommand :: "u32 \<Rightarrow> int" where
  "TrayBitrateCommand bitrate = kTrayBitrateBaseCommand + int (unat (bitrate div 10))"

definition TrayMonitorCommand :: "nat \<Rightarrow> int" where
  "TrayMonitorCommand index = kTrayMonitorBaseCommand + int index"

definition IsTrayBitratePreset :: "u32 \<Rightarrow> bool" where
  "IsTrayBitratePreset bitrate \<longleftrightarrow> bitrate = 20 \<or> bitrate = 40 \<or> bitrate = 80 \<or> bitrate = 120"

definition DecodeTrayCommand :: "int \<Rightarrow> TrayCommand" where
  "DecodeTrayCommand command =
     (if command = kTrayExitCommand then \<lparr>command_kind = ExitCommand, command_value = 0\<rparr>
      else if command = kTrayOpenConfigCommand then \<lparr>command_kind = OpenConfigFolder, command_value = 0\<rparr>
      else if command = kTrayOpenTelemetryCommand then \<lparr>command_kind = OpenTelemetry, command_value = 0\<rparr>
      else if command = kTrayExportTelemetryCommand then \<lparr>command_kind = ExportTelemetry, command_value = 0\<rparr>
      else if command = kTrayTogglePalmCommand then \<lparr>command_kind = TogglePalmGuard, command_value = 0\<rparr>
      else if command \<ge> kTrayBitrateBaseCommand \<and> command < kTrayBitrateBaseCommand + 20 then
        \<lparr>command_kind = BitrateChoice, command_value = of_int (command - kTrayBitrateBaseCommand) * 10\<rparr>
      else if command \<ge> kTrayMonitorBaseCommand \<and> command < kTrayMonitorBaseCommand + 256 then
        \<lparr>command_kind = MonitorChoice, command_value = of_int (command - kTrayMonitorBaseCommand)\<rparr>
      else \<lparr>command_kind = NoCommand, command_value = 0\<rparr>)"

section \<open>Texts\<close>

fun ServerPhaseText :: "ServerPhase \<Rightarrow> wstring" where
  "ServerPhaseText kStopped = [0x5DF2, 0x505C, 0x6B62]"
| "ServerPhaseText kStarting = [0x6B63, 0x5728, 0x542F, 0x52A8]"
| "ServerPhaseText kAwaitingAdb = [0x7B49, 0x5F85, 0x5E73, 0x677F, 0x8FDE, 0x63A5]"
| "ServerPhaseText kAwaitingClient = [0x7B49, 0x5F85, 0x5E73, 0x677F, 0x5BA2, 0x6237, 0x7AEF]"
| "ServerPhaseText kActive = [0x8FD0, 0x884C, 0x6B63, 0x5E38]"
| "ServerPhaseText kDegraded = [0x90E8, 0x5206, 0x529F, 0x80FD, 0x4E0D, 0x53EF, 0x7528]"

definition TrimForMenu :: "nat \<Rightarrow> wstring \<Rightarrow> wstring" where
  "TrimForMenu maximum value =
     (if length value \<le> maximum then value else take (maximum - 1) value @ widen ''...'')"

definition wide_decimal :: "nat \<Rightarrow> wstring" where
  "wide_decimal n = widen (decimal n)"

section \<open>The icon\<close>

record 's Tray =
  tr_server :: "'s Server"
  tr_icon_added :: bool
  tr_tip :: wstring
  tr_monitors :: "MonitorInfo list"

text \<open>\<open>szTip\<close> holds 127 characters and the terminator; \<open>wcsncpy_s\<close> truncates.\<close>

definition UpdateTooltip :: "'s Tray \<Rightarrow> 's Tray" where
  "UpdateTooltip t =
     (let tip = [80, 97, 100, 68, 114, 97, 119, 66, 111, 97, 114, 100, 32, 0x2014, 32] @ ServerPhaseText (ss_phase (sv_status (tr_server t)))
      in t\<lparr>tr_tip := take 127 (TrimForMenu 127 tip)\<rparr>)"

section \<open>The menu\<close>

record MenuItem =
  mi_command :: int
  mi_checked :: bool
  mi_grayed :: bool
  mi_text :: wstring

datatype MenuEntry = Item MenuItem | Separator | Submenu wstring "MenuItem list"

text \<open>Which of the four menus Windows creates, and the outputs it enumerates.\<close>

record MenuAnswers =
  me_created :: bool
  me_monitor_menu :: bool
  me_bitrate_menu :: bool
  me_diagnostic_menu :: bool
  me_monitors :: EnumerateAnswers

definition info_item :: "wstring \<Rightarrow> MenuItem" where
  "info_item text = \<lparr>mi_command = 0, mi_checked = False, mi_grayed = True, mi_text = text\<rparr>"

definition status_items :: "ServerStatus \<Rightarrow> MenuItem list" where
  "status_items st =
     (let connected = (\<lambda>b. if b then [0x6B63, 0x5E38] else [0x65AD, 0x5F00]) in
      [info_item ([0x72B6, 0x6001, 0xFF1A] @ ServerPhaseText (ss_phase st)),
       info_item ([0x8FDE, 0x63A5, 0xFF1A, 0x63A7, 0x5236, 32] @ connected (ss_control_connected st) @
         [0xFF5C, 0x753B, 0x9762, 32] @ connected (ss_video_connected st) @ [0xFF5C, 0x8F93, 0x5165, 32] @ connected (ss_input_connected st)),
       info_item ([0x753B, 0x9762, 0xFF1A, 0x5DF2, 0x53D1, 0x9001, 32] @ wide_decimal (unat (ss_frames_sent st)) @
         [32, 0x5E27, 0xFF5C, 0x91CD, 0x7F6E, 32] @ wide_decimal (unat (ss_stream_resets st)) @ [32, 0x6B21]),
       info_item ([0x5EF6, 0x8FDF, 0xFF1A, 0x8FDE, 0x63A5, 32] @ wide_decimal (unat (ss_rtt_us st div 1000)) @
         [32, 0x6BEB, 0x79D2, 0xFF5C, 0x753B, 0x9762, 32] @ wide_decimal (unat (ss_video_latency_us st div 1000)) @ [32, 0x6BEB, 0x79D2]),
       info_item ([87, 105, 110, 100, 111, 119, 115, 32, 73, 110, 107, 32, 0x8F93, 0x5165, 0xFF1A] @ (if ss_injection_available st then [0x53EF, 0x7528] else [0x4E0D, 0x53EF, 0x7528]))])"

definition monitor_item :: "AppConfig \<Rightarrow> nat \<times> MonitorInfo \<Rightarrow> MenuItem" where
  "monitor_item cfg = (\<lambda>(index, monitor).
     \<lparr>mi_command = TrayMonitorCommand index, mi_checked = (selected_monitor_id cfg = MonitorIdToString (mon_id monitor)),
      mi_grayed = False,
      mi_text = mon_device_name monitor @ widen '' ('' @
        widen (to_string (sint (rect_right (mon_rect monitor) - rect_left (mon_rect monitor)))) @ widen ''x'' @
        widen (to_string (sint (rect_bottom (mon_rect monitor) - rect_top (mon_rect monitor)))) @ widen '')''\<rparr>)"

definition monitor_items :: "AppConfig \<Rightarrow> MonitorInfo list \<Rightarrow> MenuItem list" where
  "monitor_items cfg monitors =
     (if monitors = [] then [info_item [0x6CA1, 0x6709, 0x53EF, 0x6355, 0x83B7, 0x7684, 0x663E, 0x793A, 0x5668]]
      else map (monitor_item cfg) (enumerate 0 monitors))"

definition bitrate_items :: "AppConfig \<Rightarrow> MenuItem list" where
  "bitrate_items cfg = map (\<lambda>bitrate.
     \<lparr>mi_command = TrayBitrateCommand bitrate, mi_checked = (bitrate_mbps cfg = bitrate), mi_grayed = False,
      mi_text = wide_decimal (unat bitrate) @ widen '' Mbps''\<rparr>) [20, 40, 80, 120]"

definition plain_item :: "int \<Rightarrow> wstring \<Rightarrow> MenuItem" where
  "plain_item command text = \<lparr>mi_command = command, mi_checked = False, mi_grayed = False, mi_text = text\<rparr>"

definition ShowStatusMenu :: "MenuAnswers \<Rightarrow> 's Tray \<Rightarrow> MenuEntry list option \<times> 's Tray" where
  "ShowStatusMenu ans t =
     (if \<not> me_created ans then (None, t)
      else
        let cfg = sv_config (tr_server t); monitors = snd (EnumerateMonitors (me_monitors ans)) in
        (Some (map Item (status_items (sv_status (tr_server t))) @ [Separator] @
           (if me_monitor_menu ans then [Submenu [0x663E, 0x793A, 0x5668] (monitor_items cfg monitors)] else []) @
           (if me_bitrate_menu ans then [Submenu [0x753B, 0x8D28, 0xFF08, 0x7801, 0x7387, 0xFF09] (bitrate_items cfg)] else []) @
           [Item \<lparr>mi_command = kTrayTogglePalmCommand, mi_checked = palm_guard_enabled cfg, mi_grayed = False,
              mi_text = [0x7B14, 0x5C16, 0x63A5, 0x89E6, 0x65F6, 0x9632, 0x8BEF, 0x89E6]\<rparr>, Separator] @
           (if me_diagnostic_menu ans then [Submenu [0x8BCA, 0x65AD, 0x5DE5, 0x5177]
              [plain_item kTrayOpenConfigCommand [0x6253, 0x5F00, 0x914D, 0x7F6E, 0x6587, 0x4EF6, 0x5939],
               plain_item kTrayOpenTelemetryCommand [0x6253, 0x5F00, 0x8FD0, 0x884C, 0x65E5, 0x5FD7],
               plain_item kTrayExportTelemetryCommand [0x5BFC, 0x51FA, 0x8FD0, 0x884C, 0x65E5, 0x5FD7, 0x2026]]]
            else []) @
           [Separator, Item (plain_item kTrayExitCommand [0x9000, 0x51FA, 32, 80, 97, 100, 68, 114, 97, 119, 66, 111, 97, 114, 100])]),
         t\<lparr>tr_monitors := monitors\<rparr>))"

section \<open>Choosing an entry\<close>

datatype TrayEffect = DestroyWindow | OpenedConfigFolder | OpenedTelemetryLog | ShowedExportDialog | ErrorBox string
  | PostQuitMessage | DeletedIcon

text \<open>\<open>ta_export\<close> is the answer of the export when a file was chosen in the dialog.\<close>

record TrayAnswers =
  ta_save :: file_calls
  ta_stop :: EndAnswers
  ta_start :: StartServerAnswers
  ta_export :: "unit result option"

definition ShowExportDialog :: "TrayAnswers \<Rightarrow> TrayEffect list" where
  "ShowExportDialog ans = ShowedExportDialog # (case ta_export ans of Some (Inl e) \<Rightarrow> [ErrorBox e] | _ \<Rightarrow> [])"

definition ApplyTrayConfig :: "'s Net \<Rightarrow> TrayAnswers \<Rightarrow> AppConfig \<Rightarrow> 's Tray \<Rightarrow> TrayEffect list \<times> 's Tray" where
  "ApplyTrayConfig n ans cfg t =
     (case Reconfigure n (ta_save ans) (ta_stop ans) (ta_start ans) cfg (tr_server t) of
        (Inl e, s) \<Rightarrow> ([ErrorBox e], t\<lparr>tr_server := s\<rparr>)
      | (Inr _, s) \<Rightarrow> ([], t\<lparr>tr_server := s\<rparr>))"

definition HandleTrayCommand :: "'s Net \<Rightarrow> TrayAnswers \<Rightarrow> int \<Rightarrow> 's Tray \<Rightarrow> TrayEffect list \<times> 's Tray" where
  "HandleTrayCommand n ans command t =
     (let decoded = DecodeTrayCommand command; cfg = sv_config (tr_server t) in
      case command_kind decoded of
        ExitCommand \<Rightarrow> ([DestroyWindow], t)
      | OpenConfigFolder \<Rightarrow> ([OpenedConfigFolder], t)
      | OpenTelemetry \<Rightarrow> ([OpenedTelemetryLog], t)
      | ExportTelemetry \<Rightarrow> (ShowExportDialog ans, t)
      | TogglePalmGuard \<Rightarrow> ApplyTrayConfig n ans (cfg\<lparr>palm_guard_enabled := \<not> palm_guard_enabled cfg\<rparr>) t
      | BitrateChoice \<Rightarrow>
          if IsTrayBitratePreset (command_value decoded)
          then ApplyTrayConfig n ans (cfg\<lparr>bitrate_mbps := command_value decoded\<rparr>) t else ([], t)
      | MonitorChoice \<Rightarrow>
          if unat (command_value decoded) < length (tr_monitors t)
          then ApplyTrayConfig n ans (cfg\<lparr>selected_monitor_id :=
                 MonitorIdToString (mon_id (tr_monitors t ! unat (command_value decoded)))\<rparr>) t
          else ([], t)
      | NoCommand \<Rightarrow> ([], t))"

section \<open>Messages of the window\<close>

datatype TrayMessage = WmCreate bool | TrayCallback MenuAnswers | WmCommand int | WmDestroy

text \<open>A \<open>WM_CREATE\<close> carries whether the icon could be added; the menu, if it is shown, is the first component.\<close>

fun WindowProc ::
  "'s Net \<Rightarrow> TrayAnswers \<Rightarrow> TrayMessage \<Rightarrow> 's Tray \<Rightarrow> MenuEntry list option \<times> TrayEffect list \<times> 's Tray" where
  "WindowProc n ans (WmCreate added) t =
     (let t = t\<lparr>tr_tip := [80, 97, 100, 68, 114, 97, 119, 66, 111, 97, 114, 100, 32, 0x6B63, 0x5728, 0x542F, 0x52A8], tr_icon_added := added\<rparr>
      in (None, [], UpdateTooltip (t\<lparr>tr_server := snd (StartServer n (ta_start ans) (tr_server t))\<rparr>)))"
| "WindowProc n ans (TrayCallback menu) t =
     (case ShowStatusMenu menu (UpdateTooltip t) of (shown, t) \<Rightarrow> (shown, [], t))"
| "WindowProc n ans (WmCommand command) t =
     (case HandleTrayCommand n ans command t of (effects, t) \<Rightarrow> (None, effects, t))"
| "WindowProc n ans WmDestroy t =
     (None, (if tr_icon_added t then [DeletedIcon] else []) @ [PostQuitMessage],
      t\<lparr>tr_server := StopServer n (ta_stop ans) (tr_server t)\<rparr>)"

text \<open>\<open>wWinMain\<close> up to the window: a configuration that was not loaded is written back as the default.\<close>

definition initial_config ::
  "(string \<Rightarrow> wstring option) \<Rightarrow> (wstring \<Rightarrow> string option) \<Rightarrow> file_calls \<Rightarrow> files \<Rightarrow> AppConfig \<times> files" where
  "initial_config mb2w w2mb calls fs =
     (let loaded = load_config mb2w (target fs) in
      (Config.config loaded,
       if loaded_from_disk loaded then fs else snd (save_config calls w2mb (Config.config loaded) fs)))"

section \<open>A choice takes effect\<close>

lemma StartServer_config: "StartServer n ans s = (ok, t) \<Longrightarrow> sv_config t = sv_config s"
proof -
  assume a: "StartServer n ans s = (ok, t)"
  obtain r u where o: "open_listeners ans (use_config n (sv_config s) (s\<lparr>sv_running := True, sv_clock_sync := ClearPendingClockSync\<rparr>)) = (r, u)"
    by fastforce
  then have "sv_config u = sv_config s" using core_open_listeners [OF o] by (simp add: core_def use_config_def)
  moreover have "sv_config (close_listeners u) = sv_config u" using core_close_listeners [of u] by (simp add: core_def)
  ultimately show ?thesis
    using a o by (auto simp: StartServer_def Let_def UpdateDiagnostic_def split: if_splits sum.splits)
qed

lemma Reconfigure_config:
  assumes "Reconfigure n calls stop_ans start_ans cfg s = (Inr u, t)"
  shows "sv_config t = cfg"
proof -
  obtain q fs where q: "save_config calls (nt_utf8 n) cfg (sv_files s) = (q, fs)" by fastforce
  have v: "validate_config cfg = Inr ()" using assms by (cases "validate_config cfg") (simp_all add: Reconfigure_def)
  have q': "q = Inr ()" using assms q v by (cases q) (simp_all add: Reconfigure_def)
  obtain ok w where w: "StartServer n start_ans ((StopServer n stop_ans (s\<lparr>sv_files := fs\<rparr>))\<lparr>sv_config := cfg\<rparr>) = (ok, w)"
    by fastforce
  show ?thesis
    using assms q v q' w StartServer_config [OF w]
    by (cases "sv_running s") (auto simp: Reconfigure_def Let_def split: if_splits)
qed

lemma apply_config: "ApplyTrayConfig n ans cfg t = ([], t') \<Longrightarrow> sv_config (tr_server t') = cfg \<and> tr_monitors t' = tr_monitors t"
  by (auto simp: ApplyTrayConfig_def split: prod.splits sum.splits dest!: Reconfigure_config)

lemma bitrate_command: "IsTrayBitratePreset b \<Longrightarrow> DecodeTrayCommand (TrayBitrateCommand b) = \<lparr>command_kind = BitrateChoice, command_value = b\<rparr>"
  by (auto simp: IsTrayBitratePreset_def DecodeTrayCommand_def TrayBitrateCommand_def tray_commands)

lemma monitor_command:
  "i < 256 \<Longrightarrow> DecodeTrayCommand (TrayMonitorCommand i) = \<lparr>command_kind = MonitorChoice, command_value = of_nat i\<rparr>"
  by (auto simp: DecodeTrayCommand_def TrayMonitorCommand_def tray_commands)

text \<open>The entries of the menu for the bitrate set the bitrate they name.\<close>

lemma bitrate_choice:
  assumes "k < 4"
  shows "HandleTrayCommand n ans (mi_command (bitrate_items cfg ! k)) t =
    ApplyTrayConfig n ans ((sv_config (tr_server t))\<lparr>bitrate_mbps := [20, 40, 80, 120] ! k\<rparr>) t"
proof -
  have "IsTrayBitratePreset ([20, 40, 80, 120] ! k)"
    using assms by (auto simp: IsTrayBitratePreset_def less_Suc_eq numeral_eq_Suc)
  with assms show ?thesis
    by (simp add: HandleTrayCommand_def bitrate_items_def bitrate_command del: list.map)
qed

lemma monitor_item_at: "i < length monitors \<Longrightarrow> monitor_items cfg monitors ! i = monitor_item cfg (i, monitors ! i)"
  by (auto simp: monitor_items_def nth_enumerate_eq)

lemma monitor_text_not_empty: "MonitorIdToString i \<noteq> []"
  by (simp add: MonitorIdToString_def widen_def)

lemma monitor_text_inject: "MonitorIdToString i = MonitorIdToString j \<longleftrightarrow> i = j"
  using monitor_id_parses by (metis option.inject)

lemma select_chosen:
  assumes "i < length monitors" and "distinct (map mon_id monitors)"
  shows "select_monitor (MonitorIdToString (mon_id (monitors ! i))) monitors = monitors ! i"
proof -
  have "mon_id (monitors ! j) \<noteq> mon_id (monitors ! i)" if "j < i" for j
    using that assms nth_eq_iff_index_eq [OF assms(2), of j i] by simp
  with assms(1) have "List.find (\<lambda>item. mon_id item = mon_id (monitors ! i)) monitors = Some (monitors ! i)"
    unfolding find_Some_iff by (intro exI [of _ i]) simp
  then show ?thesis by (simp add: select_monitor_def monitor_text_not_empty monitor_id_parses)
qed

text \<open>C40: Choosing a monitor from the menu is choosing what will be captured: when the entry of the \<open>i\<close>-th monitor of
  the menu that was shown is chosen and no error is reported, the configuration of the server is the old one with that
  monitor, the next session selects exactly this monitor among those enumerated, and the next menu checks its entry and
  no other. It rests on the text of a monitor in the configuration being read back as the same monitor.\<close>

theorem chosen_monitor_is_captured:
  assumes "ShowStatusMenu answers t0 = (Some menu, t)" and "i < length (tr_monitors t)" and "i < 256"
    and "distinct (map mon_id (tr_monitors t))"
    and "HandleTrayCommand n ans (mi_command (monitor_items (sv_config (tr_server t)) (tr_monitors t) ! i)) t = ([], t')"
  shows "tr_monitors t = snd (EnumerateMonitors (me_monitors answers)) \<and>
    sv_config (tr_server t') = (sv_config (tr_server t))\<lparr>selected_monitor_id := MonitorIdToString (mon_id (tr_monitors t ! i))\<rparr> \<and>
    select_monitor (selected_monitor_id (sv_config (tr_server t'))) (tr_monitors t) = tr_monitors t ! i \<and>
    (\<forall>j < length (tr_monitors t). mi_checked (monitor_items (sv_config (tr_server t')) (tr_monitors t) ! j) \<longleftrightarrow> j = i)"
proof -
  have same: "unat (of_nat i :: u32) = i" using assms(3) by (simp add: unat_of_nat)
  have "HandleTrayCommand n ans (TrayMonitorCommand i) t = ([], t')"
    using assms(2,5) by (simp add: monitor_item_at monitor_item_def)
  then have c: "sv_config (tr_server t') = (sv_config (tr_server t))\<lparr>selected_monitor_id := MonitorIdToString (mon_id (tr_monitors t ! i))\<rparr>"
    using assms(2,3) apply_config by (fastforce simp: HandleTrayCommand_def monitor_command same)
  have "mon_id (tr_monitors t ! i) = mon_id (tr_monitors t ! j) \<longleftrightarrow> j = i" if "j < length (tr_monitors t)" for j
    using that assms(2) nth_eq_iff_index_eq [OF assms(4), of i j] by auto
  moreover have "tr_monitors t = snd (EnumerateMonitors (me_monitors answers))"
    using assms(1) by (auto simp: ShowStatusMenu_def Let_def split: if_splits)
  ultimately show ?thesis
    using c select_chosen [OF assms(2,4)]
    by (auto simp: monitor_item_at monitor_item_def monitor_text_inject)
qed

end
