(* ===== verification/VideoChannel.thy ===== *)
theory VideoChannel
  imports ServerSafety
begin

text \<open>
  What arrives on the video channel of a session: whole frames with consecutive numbers, one after the other, however
  the turns of the threads, the partial writes and the congestion of the socket interleave.
\<close>

section \<open>Other events leave the video channel alone\<close>

definition keeps_video :: "'s Server \<Rightarrow> 's Server \<Rightarrow> bool" where
  "keeps_video s s' \<longleftrightarrow> sv_video s' = sv_video s \<and> sv_video_thread s' = sv_video_thread s \<and>
     sv_video_sequence s' = sv_video_sequence s \<and> ss_frames_sent (sv_status s') = ss_frames_sent (sv_status s)"

lemma keeps_refl [simp]: "keeps_video s s"
  by (simp add: keeps_video_def)

lemma keeps_trans: "keeps_video s t \<Longrightarrow> keeps_video t u \<Longrightarrow> keeps_video s u"
  by (simp add: keeps_video_def)

lemma keeps_with_pipeline [simp]: "keeps_video s (with_pipeline n p t) = keeps_video s t"
  by (simp add: keeps_video_def)

lemma keeps_small [simp]:
  "keeps_video s (UpdateDiagnostic d t) = keeps_video s t" "keeps_video s (UpdateReleaseReadinessLocked t) = keeps_video s t"
  "keeps_video s (write_line line t) = keeps_video s t" "keeps_video s (soak_line n l t) = keeps_video s t"
  by (simp_all add: keeps_video_def UpdateDiagnostic_def UpdateReleaseReadinessLocked_def write_line_def soak_line_def)

lemma active_not_ended: "\<not> IsGenerationActive g (EndSession n ans reason s)" if "server_ok n s"
  using EndSession_ok' [OF that] by (simp add: IsGenerationActive_def)

lemma active_thread_updates [simp]:
  "IsGenerationActive g (s\<lparr>sv_control_thread := a\<rparr>) = IsGenerationActive g s"
  "IsGenerationActive g (s\<lparr>sv_input_thread := b\<rparr>) = IsGenerationActive g s"
  "IsGenerationActive g (s\<lparr>sv_video_thread := c\<rparr>) = IsGenerationActive g s"
  by (simp_all add: IsGenerationActive_def)

lemma control_message_keeps: "control_message n ans g c m s = (ok, s') \<Longrightarrow> keeps_video s s'"
  by (cases m)
    (auto simp: on_clock_request_def on_orientation_def on_capabilities_def on_client_telemetry_def
      on_clock_complete_def Let_def split: prod.splits if_splits, auto simp: keeps_video_def)

lemma control_frame_keeps:
  assumes "server_ok n s" "sv_session_active s" "IsGenerationActive g (control_frame n ans g' c read frame s)"
  shows "keeps_video s (control_frame n ans g' c read frame s)"
proof -
  have no: "\<not> IsGenerationActive g (end_control n a reason t)" if "server_ok n t" for t a reason
    using that by (simp add: end_control_def active_not_ended)
  have msg: "control_message n ans g' c m s = (ok, t) \<Longrightarrow> server_ok n t \<and> keeps_video s t" for m ok t
    using control_message_ok [OF assms(1,2)] control_message_keeps by blast
  show ?thesis
    using assms(3) no [OF assms(1)] msg no
    by (auto simp: control_frame_def Let_def split: option.splits Payload.splits prod.splits if_splits)
qed

lemma control_turn_keeps:
  assumes "server_ok n s" "IsGenerationActive g s'" "control_turn n ans s = Some s'"
  shows "keeps_video s s'"
proof -
  obtain g' where t: "sv_control_thread s = Some g'" using assms(3) by (auto simp: control_turn_def split: option.splits)
  show ?thesis
  proof (cases "IsGenerationActive g' s \<and> sv_control s \<noteq> None")
    case False
    then show ?thesis
      using assms active_not_ended [OF assms(1)] t
      by (auto simp: control_turn_def end_control_def keeps_video_def split: if_splits)
  next
    case True
    then obtain c where c: "sv_control s = Some c" by auto
    obtain r f st where r: "readFrame (nt_read n) (ch_stream c) = (r, f, st)" by (rule prod_cases3)
    define s1 where "s1 = s\<lparr>sv_control := Some (c\<lparr>ch_stream := st\<rparr>)\<rparr>"
    have "server_ok n s1" "sv_session_active s1" "keeps_video s s1"
      using True channel_update_ok(1) [OF assms(1)] by (auto simp: s1_def IsGenerationActive_def keeps_video_def)
    moreover have "s' = control_frame n ans g' (c\<lparr>ch_stream := st\<rparr>) r f s1"
      using assms(3) t True c r by (simp add: control_turn_def s1_def Let_def)
    ultimately show ?thesis using control_frame_keeps assms(2) keeps_trans by blast
  qed
qed

lemma process_input_keeps: "keeps_video s (process_input n adapted s)"
  by (auto simp: process_input_def Let_def split: prod.split) (simp_all add: keeps_video_def)

lemma input_frame_keeps:
  assumes "server_ok n s" "IsGenerationActive g (input_frame n ans read frame s)"
  shows "keeps_video s (input_frame n ans read frame s)"
proof -
  have no: "\<not> IsGenerationActive g (end_input n a reason t)" if "server_ok n t" for t a reason
    using that by (simp add: end_input_def active_not_ended)
  have "keeps_video s (transport_line ans batch (update_pointers batch (s\<lparr>sv_adapter := a\<rparr>)))" for batch a
    by (simp add: transport_line_def update_pointers_def Let_def) (simp add: keeps_video_def)
  then have step: "keeps_video s (process_input n adapted (transport_line ans batch (update_pointers batch (s\<lparr>sv_adapter := a\<rparr>))))" for batch a adapted
    using process_input_keeps keeps_trans by blast
  show ?thesis
    using assms(2) no [OF assms(1)] no [of "s\<lparr>sv_adapter := _\<rparr>"] assms(1) step
    by (auto simp: input_frame_def Let_def split: option.splits Payload.splits prod.splits if_splits sum.splits)
qed

lemma input_turn_keeps:
  assumes "server_ok n s" "IsGenerationActive g s'" "input_turn n ans s = Some s'"
  shows "keeps_video s s'"
proof -
  obtain g' where t: "sv_input_thread s = Some g'" using assms(3) by (auto simp: input_turn_def split: option.splits)
  show ?thesis
  proof (cases "IsGenerationActive g' s \<and> sv_input s \<noteq> None")
    case False
    then show ?thesis
      using assms active_not_ended [OF assms(1)] t
      by (auto simp: input_turn_def end_input_def keeps_video_def split: if_splits)
  next
    case True
    then obtain c where c: "sv_input s = Some c" by auto
    obtain r f st where r: "readFrame (nt_read n) (ch_stream c) = (r, f, st)" by (rule prod_cases3)
    define s1 where "s1 = s\<lparr>sv_input := Some (c\<lparr>ch_stream := st\<rparr>)\<rparr>"
    have "server_ok n s1" "keeps_video s s1"
      using True channel_update_ok(3) [OF assms(1)] by (auto simp: s1_def IsGenerationActive_def keeps_video_def)
    moreover have "s' = input_frame n ans r f s1"
      using assms(3) t True c r by (simp add: input_turn_def s1_def)
    ultimately show ?thesis using input_frame_keeps assms(2) keeps_trans by blast
  qed
qed

lemma adb_parts_keep [simp]:
  "keeps_video s (waiting_status up e t) = keeps_video s t" "keeps_video s (probe_device ans t) = keeps_video s t"
  "keeps_video s (forget_probe t) = keeps_video s t"
  by (simp_all add: waiting_status_def probe_device_def forget_probe_def keeps_video_def Let_def
      UpdateReleaseReadinessLocked_def write_line_def)

lemma adb_keeps:
  "adb_locate la s = Some s' \<Longrightarrow> keeps_video s s'" "adb_event e s = Some s' \<Longrightarrow> keeps_video s s'"
  "adb_turn ans s = Some s' \<Longrightarrow> keeps_video s s'"
proof -
  show "adb_locate la s = Some s' \<Longrightarrow> keeps_video s s'"
    by (auto simp: adb_locate_def keeps_video_def split: option.splits if_splits)
  show "adb_event e s = Some s' \<Longrightarrow> keeps_video s s'"
    by (auto simp: adb_event_def keeps_video_def split: session_event.splits option.splits if_splits)
  have "keeps_video s (t\<lparr>sv_waiting := w\<rparr>) = keeps_video s t" "keeps_video s (t\<lparr>sv_adb := x, sv_probe_attempted := y\<rparr>) = keeps_video s t" for t w x y
    by (simp_all add: keeps_video_def)
  then show "adb_turn ans s = Some s' \<Longrightarrow> keeps_video s s'"
    by (auto simp: adb_turn_def Let_def split: option.splits if_splits prod.splits)
qed

lemma StartServer_session: "sv_session_active (snd (StartServer n ans s)) = sv_session_active s"
proof -
  have "control_only t t' \<Longrightarrow> sv_session_active t' = sv_session_active t" for t t' :: "'a Server"
    by (auto elim: control_onlyE)
  note only = this [OF open_listeners_only] this [OF close_listeners_only]
  show ?thesis
    by (auto simp: StartServer_def Let_def UpdateDiagnostic_def use_config_def only dest!: only(1)
        split: sum.split prod.split)
qed

lemma Reconfigure_keeps:
  assumes "server_ok n s" "sv_running s" "Reconfigure n calls stop_ans start_ans cfg s = (r, s')" "sv_session_active s'"
  shows "keeps_video s s'"
proof -
  have "\<not> sv_session_active (StopServer n stop_ans (s\<lparr>sv_files := fs\<rparr>))" for fs
  proof -
    obtain a x where "stop_adb t = t\<lparr>sv_adb := a t, sv_adb_stopped := x t\<rparr>" for t :: "'a Server"
      using stop_adb_shape by metis
    then show ?thesis
      using stop_request_ok [of n "s\<lparr>sv_files := fs\<rparr>" stop_ans] assms(1,2) by (simp add: StopServer_def stop_finish_def)
  qed
  then have "StartServer n start_ans ((StopServer n stop_ans (s\<lparr>sv_files := fs\<rparr>))\<lparr>sv_config := cfg\<rparr>) = (ok, u) \<Longrightarrow>
      \<not> sv_session_active u" for fs ok u
    using StartServer_session [of n start_ans "(StopServer n stop_ans (s\<lparr>sv_files := fs\<rparr>))\<lparr>sv_config := cfg\<rparr>"] by simp
  with assms(2-4) show ?thesis
    by (fastforce simp: Reconfigure_def Let_def keeps_video_def split: sum.splits prod.splits)
qed

lemma step_keeps_video:
  assumes "server_ok n s" "IsGenerationActive g s" "IsGenerationActive g s'" "server_step n e s = Some s'"
    and "\<nexists>ans. e = EvVideo ans"
  shows "keeps_video s s'"
proof (cases e)
  case (EvStart ans)
  with assms show ?thesis by (simp add: StartServer_def IsGenerationActive_def)
next
  case (EvStopRequest ans)
  with assms stop_request_ok [OF assms(1), of ans] show ?thesis by (auto simp: IsGenerationActive_def split: if_splits)
next
  case EvStopFinish
  with assms show ?thesis by (auto simp: IsGenerationActive_def)
next
  case (EvAccept calls stream ans)
  with assms show ?thesis by (auto simp: accept_turn_def IsGenerationActive_def split: if_splits)
next
  case (EvActivate ans)
  with assms show ?thesis
    by (auto simp: accept_finish_def IsGenerationActive_def server_ok_def in_session_def split: option.splits)
next
  case (EvReconfigure calls stop_ans start_ans cfg)
  obtain r t where r: "Reconfigure n calls stop_ans start_ans cfg s = (r, t)" by fastforce
  with assms EvReconfigure show ?thesis
    using Reconfigure_keeps [OF assms(1) _ r] by (auto simp: IsGenerationActive_def split: if_splits)
qed (use assms control_turn_keeps [OF assms(1,3)] input_turn_keeps [OF assms(1,3)] adb_keeps in auto)

section \<open>Whole frames in order\<close>

definition frame_bytes :: "Frame \<Rightarrow> bytes" where
  "frame_bytes f = (case encodeFrame f of Inr bs \<Rightarrow> bs | Inl _ \<Rightarrow> [])"

definition video_frame_no :: "u32 \<Rightarrow> Frame \<Rightarrow> bool" where
  "video_frame_no q f \<longleftrightarrow> (case encodeFrame f of Inr _ \<Rightarrow> True | Inl _ \<Rightarrow> False) \<and>
     frameType (header f) = TypeVideoFrame \<and> frameSequence (header f) = q"

fun numbered :: "u32 \<Rightarrow> Frame list \<Rightarrow> bool" where
  "numbered q [] = True"
| "numbered q (f # fs) = (video_frame_no q f \<and> numbered (q + 1) fs)"

lemma numbered_snoc: "numbered q (fs @ [f]) \<longleftrightarrow> numbered q fs \<and> video_frame_no (q + of_nat (length fs)) f"
  by (induction fs arbitrary: q) (simp_all add: add.assoc)

text \<open>\<open>started_with\<close> describes the channel: frames that have been sent and the one that is being sent.\<close>

definition channel_state :: "bytes \<Rightarrow> u32 \<Rightarrow> Frame list \<Rightarrow> bytes \<Rightarrow> VideoLoop \<Rightarrow> u32 \<Rightarrow> bool" where
  "channel_state out0 q0 frames out vl q \<longleftrightarrow> numbered q0 frames \<and>
     (if writer_pending (vl_frame vl) then
        (\<exists>f. video_frame_no (q0 + of_nat (length frames)) f \<and> pendingBytes (vl_frame vl) = frame_bytes f \<and>
           writeOffset (vl_frame vl) \<le> length (frame_bytes f) \<and>
           out = out0 @ concat (map frame_bytes frames) @ take (writeOffset (vl_frame vl)) (frame_bytes f)) \<and>
        q = q0 + of_nat (length frames) + 1
      else out = out0 @ concat (map frame_bytes frames) \<and> q = q0 + of_nat (length frames))"

lemma encoded_not_empty: "encodeFrame f = Inr bs \<Longrightarrow> bs \<noteq> []"
  by (erule encodeFrame_parts) (auto simp: kFrameHeaderBytes_def dest: arg_cong [of _ _ length])

lemma frame_bytes_encoded: "encodeFrame f = Inr bs \<Longrightarrow> frame_bytes f = bs"
  by (simp add: frame_bytes_def)

context byte_stream
begin

lemma continue_frame_channel:
  assumes "continue_frame n ans c vl s = Inr (vl', s')" and "nt_write n = wr" and "writer_pending (vl_frame vl)"
    and "channel_state out0 q0 frames (outgoing (ch_stream c)) vl (sv_video_sequence s)"
    and "ss_frames_sent (sv_status s) = of_nat (length frames)"
  shows "\<exists>c' frames'. sv_video s' = Some c' \<and> ss_frames_sent (sv_status s') = of_nat (length frames') \<and>
    channel_state out0 q0 frames' (outgoing (ch_stream c')) vl' (sv_video_sequence s')"
proof -
  obtain f where f: "video_frame_no (q0 + of_nat (length frames)) f" "pendingBytes (vl_frame vl) = frame_bytes f"
      "writeOffset (vl_frame vl) \<le> length (frame_bytes f)" "numbered q0 frames"
      "outgoing (ch_stream c) = (out0 @ concat (map frame_bytes frames)) @ take (writeOffset (vl_frame vl)) (frame_bytes f)"
      "sv_video_sequence s = q0 + of_nat (length frames) + 1"
    using assms(3,4) by (auto simp: channel_state_def)
  obtain bs where bs: "encodeFrame f = Inr bs" using f(1) by (auto simp: video_frame_no_def split: sum.splits)
  have ne: "frame_bytes f \<noteq> []" using encoded_not_empty [OF bs] by (simp add: frame_bytes_encoded [OF bs])
  obtain r w stream where w: "writer_continue wr (ch_stream c) (vl_frame vl) = (r, w, stream)" by (rule prod_cases3)
  have inv: "writer_inv (out0 @ concat (map frame_bytes frames)) (frame_bytes f) (vl_frame vl) (ch_stream c)"
    using f by (simp add: writer_inv_def)
  note moved = writer_continue [OF w inv ne]
  show ?thesis
  proof (cases "ioStatus r = IoOk")
    case True
    have "vl' = vl\<lparr>vl_frame := w, vl_backpressure := ClearVideoBackpressure\<rparr>" "sv_video s' = Some (c\<lparr>ch_stream := stream\<rparr>)"
        "sv_video_sequence s' = sv_video_sequence s" "ss_frames_sent (sv_status s') = ss_frames_sent (sv_status s) + 1"
      using assms(1) w True by (auto simp: continue_frame_def assms(2) Let_def write_line_def frame_sent_status_def)
    then show ?thesis
      using moved True f assms(5)
      by (intro exI [of _ "c\<lparr>ch_stream := stream\<rparr>"] exI [of _ "frames @ [f]"])
        (simp add: channel_state_def numbered_snoc writer_pending_def writer_clear_def)
  next
    case False
    then have "ioStatus r = IoWouldBlock" using assms(1) w by (auto simp: continue_frame_def assms(2) Let_def split: if_splits)
    then have e: "vl_frame vl' = w" "sv_video s' = Some (c\<lparr>ch_stream := stream\<rparr>)"
        "sv_video_sequence s' = sv_video_sequence s" "ss_frames_sent (sv_status s') = ss_frames_sent (sv_status s)"
      using assms(1) w by (auto simp: continue_frame_def assms(2) Let_def split: if_splits prod.splits)
    then show ?thesis
      using moved False f assms(5) ne
      by (intro exI [of _ "c\<lparr>ch_stream := stream\<rparr>"] exI [of _ frames])
        (auto simp: channel_state_def writer_inv_def writer_pending_def)
  qed
qed

end

lemma capture_keeps:
  assumes "capture_and_encode n ans au s = (r, s')"
  shows "keeps_video s s'"
  using assms by (auto simp: capture_and_encode_def Let_def split: prod.splits if_splits)

lemma start_frame_channel:
  assumes "start_frame au vl s = Inr (vl', s')" and "\<not> writer_pending (vl_frame vl)"
    and "channel_state out0 q0 frames out vl (sv_video_sequence s)"
  shows "sv_video s' = sv_video s \<and> ss_frames_sent (sv_status s') = ss_frames_sent (sv_status s) \<and>
    channel_state out0 q0 frames out vl' (sv_video_sequence s')"
proof -
  define q where "q = q0 + of_nat (length frames)"
  have st: "numbered q0 frames" "out = out0 @ concat (map frame_bytes frames)" "sv_video_sequence s = q"
    using assms(2,3) by (simp_all add: channel_state_def q_def)
  let ?f = "video_frame q au"
  have "ioStatus (fst (writer_start (vl_frame vl) ?f)) = IoOk"
    using assms(1) st(3) by (auto simp: start_frame_def Let_def split: if_splits prod.splits)
  then obtain bs where bs: "encodeFrame ?f = Inr bs"
    using assms(2) by (cases "encodeFrame ?f") (auto simp: writer_start_def)
  have vl': "vl_frame vl' = (vl_frame vl)\<lparr>pendingBytes := bs, payloadScratch := drop kFrameHeaderBytes bs, writeOffset := 0\<rparr>"
    and s': "s' = s\<lparr>sv_video_sequence := q + 1\<rparr>"
    using assms(1,2) st(3) bs by (auto simp: start_frame_def Let_def writer_start_def split: if_splits)
  have "video_frame_no q ?f" using bs by (simp add: video_frame_no_def) (simp add: video_frame_def)
  then have "\<exists>f. video_frame_no q f \<and> bs = frame_bytes f" using frame_bytes_encoded [OF bs] by blast
  then show ?thesis
    using st encoded_not_empty [OF bs] by (auto simp: channel_state_def vl' s' writer_pending_def q_def)
qed

lemma next_frame_channel:
  assumes "next_frame n ans vl s = Inr (vl', s')" and "\<not> writer_pending (vl_frame vl)"
    and "channel_state out0 q0 frames out vl (sv_video_sequence s)"
  shows "sv_video s' = sv_video s \<and> ss_frames_sent (sv_status s') = ss_frames_sent (sv_status s) \<and>
    channel_state out0 q0 frames out vl' (sv_video_sequence s')"
proof -
  obtain grab hr skipped stage au s1 where c: "capture_and_encode n ans (vl_encoded vl) s = ((grab, hr, skipped, stage, au), s1)"
    by (metis prod.exhaust)
  have k: "keeps_video s s1" by (rule capture_keeps [OF c])
  have same: "channel_state out0 q0 frames out (vl\<lparr>vl_waited := b, vl_encoded := e\<rparr>) q = channel_state out0 q0 frames out vl q"
    "channel_state out0 q0 frames out (vl\<lparr>vl_waited := b\<rparr>) q = channel_state out0 q0 frames out vl q" for b e q
    by (simp_all add: channel_state_def)
  show ?thesis
    using assms c k start_frame_channel [of au "vl\<lparr>vl_waited := False, vl_encoded := au\<rparr>" s1 vl' s' out0 q0 frames out]
    by (auto simp: next_frame_def Let_def keeps_video_def same split: if_splits)
qed

section \<open>A session\<close>

text \<open>A run in which the session of generation \<open>g\<close> goes on.\<close>

fun within_session :: "'s Net \<Rightarrow> u64 \<Rightarrow> 's server_event list \<Rightarrow> 's Server \<Rightarrow> 's Server option" where
  "within_session n g [] s = Some s"
| "within_session n g (e # es) s =
     (case server_step n e s of
        None \<Rightarrow> None
      | Some t \<Rightarrow> if IsGenerationActive g t then within_session n g es t else None)"

context byte_stream
begin

definition video_inv :: "bytes \<Rightarrow> u32 \<Rightarrow> u64 \<Rightarrow> 's Server \<Rightarrow> bool" where
  "video_inv out0 q0 g s \<longleftrightarrow> (\<exists>vl c frames. sv_video_thread s = Some (g, vl) \<and> sv_video s = Some c \<and>
     ss_frames_sent (sv_status s) = of_nat (length frames) \<and>
     channel_state out0 q0 frames (outgoing (ch_stream c)) vl (sv_video_sequence s))"

lemma video_turn_inv:
  assumes "server_ok n s" "IsGenerationActive g s" "IsGenerationActive g s'" "video_turn n ans s = Some s'" "nt_write n = wr"
    and "video_inv out0 q0 g s"
  shows "video_inv out0 q0 g s'"
proof -
  obtain vl c frames where st: "sv_video_thread s = Some (g, vl)" "sv_video s = Some c"
      "ss_frames_sent (sv_status s) = of_nat (length frames)"
      "channel_state out0 q0 frames (outgoing (ch_stream c)) vl (sv_video_sequence s)"
    using assms(6) by (auto simp: video_inv_def)
  define r where "r = (if writer_pending (vl_frame vl) then continue_frame n ans c vl s else next_frame n ans vl s)"
  have s': "s' = (case r of Inr (vl, s) \<Rightarrow> s\<lparr>sv_video_thread := Some (g, vl)\<rparr>
      | Inl (reason, s) \<Rightarrow> (EndSession n (va_end ans) reason s)\<lparr>sv_video_thread := None\<rparr>)"
    using assms(2,4) st(1,2) by (simp add: video_turn_def r_def)
  have active: "sv_session_active s" using assms(2) by (simp add: IsGenerationActive_def)
  have "case r of Inl (reason, s') \<Rightarrow> server_ok n s' | Inr (vl', s') \<Rightarrow> server_ok n s'"
    using continue_frame_ok [OF assms(1) active refl] next_frame_ok [OF assms(1) refl] by (simp add: r_def)
  then obtain vl' t where r: "r = Inr (vl', t)"
    using s' assms(3) by (cases r) (auto dest!: active_not_ended)
  have "\<exists>c' frames'. sv_video t = Some c' \<and> ss_frames_sent (sv_status t) = of_nat (length frames') \<and>
      channel_state out0 q0 frames' (outgoing (ch_stream c')) vl' (sv_video_sequence t)"
  proof (cases "writer_pending (vl_frame vl)")
    case True
    with r have "continue_frame n ans c vl s = Inr (vl', t)" by (simp add: r_def)
    from continue_frame_channel [OF this assms(5) True st(4,3)] show ?thesis .
  next
    case False
    with r have "next_frame n ans vl s = Inr (vl', t)" by (simp add: r_def)
    from next_frame_channel [OF this False st(4)] st(2,3) show ?thesis by auto
  qed
  with s' r show ?thesis by (auto simp: video_inv_def)
qed

lemma video_inv_keeps: "video_inv out0 q0 g s \<Longrightarrow> keeps_video s s' \<Longrightarrow> video_inv out0 q0 g s'"
  by (simp add: video_inv_def keeps_video_def)

lemma within_session_inv:
  assumes "nt_write n = wr"
  shows "server_ok n s \<Longrightarrow> IsGenerationActive g s \<Longrightarrow> video_inv out0 q0 g s \<Longrightarrow> within_session n g es s = Some s' \<Longrightarrow>
    video_inv out0 q0 g s'"
proof (induction es arbitrary: s)
  case (Cons e es)
  obtain t where t: "server_step n e s = Some t" "IsGenerationActive g t" "within_session n g es t = Some s'"
    using Cons.prems(4) by (auto split: option.splits if_splits)
  have "video_inv out0 q0 g t"
  proof (cases "\<exists>ans. e = EvVideo ans")
    case True
    then show ?thesis using t(1) video_turn_inv [OF Cons.prems(1,2) t(2) _ assms Cons.prems(3)] by auto
  next
    case False
    from step_keeps_video [OF Cons.prems(1,2) t(2,1) False] Cons.prems(3) show ?thesis by (rule video_inv_keeps [rotated])
  qed
  with Cons.IH [OF server_step_ok [OF Cons.prems(1) t(1)] t(2) _ t(3)] show ?case .
qed simp

lemma session_channel:
  assumes "server_ok n s0" "nt_write n = wr"
    and "IsGenerationActive g s0" "sv_video_thread s0 = Some (g, video_loop_init)" "sv_video s0 = Some c0"
    and "ss_frames_sent (sv_status s0) = 0" and "within_session n g es s0 = Some s"
  shows "\<exists>frames rest c. sv_video s = Some c \<and> numbered (sv_video_sequence s0) frames \<and>
    ss_frames_sent (sv_status s) = of_nat (length frames) \<and>
    outgoing (ch_stream c) = outgoing (ch_stream c0) @ concat (map frame_bytes frames) @ rest \<and>
    (rest = [] \<or> (\<exists>f. video_frame_no (sv_video_sequence s0 + of_nat (length frames)) f \<and> prefix rest (frame_bytes f)))"
proof -
  have "video_inv (outgoing (ch_stream c0)) (sv_video_sequence s0) g s0"
    unfolding video_inv_def
    by (intro exI [of _ video_loop_init] exI [of _ c0] exI [of _ "[]"])
      (simp add: assms channel_state_def video_loop_init_def writer_pending_def writer_init_def)
  from within_session_inv [OF assms(2,1,3) this assms(7)]
  obtain vl c frames where st: "sv_video s = Some c" "ss_frames_sent (sv_status s) = of_nat (length frames)"
      "channel_state (outgoing (ch_stream c0)) (sv_video_sequence s0) frames (outgoing (ch_stream c)) vl (sv_video_sequence s)"
    by (auto simp: video_inv_def)
  show ?thesis
  proof (cases "writer_pending (vl_frame vl)")
    case True
    then obtain f where f: "video_frame_no (sv_video_sequence s0 + of_nat (length frames)) f"
        "outgoing (ch_stream c) = outgoing (ch_stream c0) @ concat (map frame_bytes frames) @
          take (writeOffset (vl_frame vl)) (frame_bytes f)" "numbered (sv_video_sequence s0) frames"
      using st(3) by (auto simp: channel_state_def)
    show ?thesis
      using st(1,2) f take_is_prefix by (intro exI [of _ frames] exI [of _ c]) blast
  next
    case False
    with st show ?thesis by (auto simp: channel_state_def)
  qed
qed

end

context winsock
begin

lemmas socket_session_channel = socket.session_channel

end

text \<open>C6: The video channel of a session carries whole frames in order, whatever happens meanwhile: from the start of
  its video thread on, through every interleaving with the other threads and every partial or blocked write, the
  peer has been sent complete video frames with consecutive sequence numbers and at most the beginning of the next one,
  and the status counts exactly the complete ones.\<close>

theorem video_channel_whole_frames:
  assumes "winsock recv send inbound outbound"
    and "nt_write n = socketWrite valid send lastError"
    and "server_run n before (server_init (nt_os n) cfg fs pen touch inject monitor hello) = Some s0"
    and "IsGenerationActive g s0" and "sv_video_thread s0 = Some (g, video_loop_init)" and "sv_video s0 = Some c0"
    and "ss_frames_sent (sv_status s0) = 0" and "within_session n g evs s0 = Some s"
  shows "\<exists>frames rest c. sv_video s = Some c \<and> numbered (sv_video_sequence s0) frames \<and>
    ss_frames_sent (sv_status s) = of_nat (length frames) \<and>
    outbound (ch_stream c) = outbound (ch_stream c0) @ concat (map frame_bytes frames) @ rest \<and>
    (rest = [] \<or> (\<exists>f. video_frame_no (sv_video_sequence s0 + of_nat (length frames)) f \<and> prefix rest (frame_bytes f)))"
  by (rule winsock.socket_session_channel [OF assms(1) server_run_ok [OF assms(3)] assms(2,4-8)])

end
