(* ===== verification/Negotiation.thy ===== *)
theory Negotiation
  imports Server
begin

text \<open>
  What the server offers a client: the video size chosen for its limits, and the \<open>ServerConfig\<close> made of it.
\<close>

lemma ladder_edges: "edge \<in> set kLongestEdgeLadder \<Longrightarrow> 1920 \<le> edge \<and> unat edge \<le> 3200"
  by (auto simp: kLongestEdgeLadder_def)

lemma chosen_size:
  assumes "ChooseVideoSize native hello = Some (chosen, edge)"
  shows "chosen = SelectEncodeResolution native edge" "edge \<in> set kLongestEdgeLadder" "fits_client native hello edge"
    "list_all (\<lambda>e. edge < e \<longrightarrow> \<not> fits_client native hello e) kLongestEdgeLadder"
    "size_valid native"
proof -
  have f: "List.find (fits_client native hello) kLongestEdgeLadder = Some edge"
    and c: "chosen = SelectEncodeResolution native edge"
    using assms by (auto simp: ChooseVideoSize_def)
  show "chosen = SelectEncodeResolution native edge" by (rule c)
  show m: "edge \<in> set kLongestEdgeLadder" and ok: "fits_client native hello edge"
    using f by (auto simp: find_Some_iff set_conv_nth)
  show "list_all (\<lambda>e. edge < e \<longrightarrow> \<not> fits_client native hello e) kLongestEdgeLadder"
    using f by (auto simp: kLongestEdgeLadder_def split: if_splits)
  show "size_valid native"
    using ok by (auto simp: fits_client_def SelectEncodeResolution_def size_valid_def no_size_def Let_def split: if_splits)
qed

lemma chosen_bounds:
  assumes "ChooseVideoSize native hello = Some (chosen, edge)"
  shows "2 \<le> unat (sizeWidth chosen)" "unat (sizeWidth chosen) \<le> unat edge" "even (unat (sizeWidth chosen))"
    "2 \<le> unat (sizeHeight chosen)" "unat (sizeHeight chosen) \<le> unat edge" "even (unat (sizeHeight chosen))"
  using selected_size_bounds [OF chosen_size(5) [OF assms], of edge] chosen_size(1,2) [OF assms] ladder_edges [of edge]
  by simp_all

lemma narrow_size: "unat v \<le> 3200 \<Longrightarrow> unat (ucast v :: u16) = unat v" for v :: u32
  by (simp add: unsigned_ucast_eq take_bit_nat_eq_self)

lemma session_config_valid:
  assumes "2 \<le> unat (sizeWidth chosen)" "unat (sizeWidth chosen) \<le> 3200"
    "2 \<le> unat (sizeHeight chosen)" "unat (sizeHeight chosen) \<le> 3200" and "validate_config cfg = Inr ()"
  shows "validateConfig (session_config (NewSessionId r) monitor chosen cfg) = Inr ()"
proof -
  have b: "20 \<le> unat (bitrate_mbps cfg)" "unat (bitrate_mbps cfg) \<le> 120"
    using assms(5) by (simp_all add: validate_config_iff word_le_nat_alt)
  then have "unat (ucast (bitrate_mbps cfg) :: u16) = unat (bitrate_mbps cfg)" by (intro narrow_size) simp
  then have "20 \<le> (ucast (bitrate_mbps cfg) :: u16)" "(ucast (bitrate_mbps cfg) :: u16) \<le> 120"
    using b by (simp_all add: word_le_nat_alt)
  moreover have "0 < (ucast (sizeWidth chosen) :: u16)" "0 < (ucast (sizeHeight chosen) :: u16)"
    using narrow_size [OF assms(2)] narrow_size [OF assms(4)] assms(1,3) by (simp_all add: word_less_nat_alt)
  moreover have "sizeWidth chosen \<noteq> 0" "sizeHeight chosen \<noteq> 0" using assms(1,3) by auto
  moreover have "NewSessionId r \<noteq> 0" by (simp add: NewSessionId_def)
  ultimately show ?thesis
    by (simp add: validateConfig_def session_config_def kConfigFlagSuppressTouchWhilePenInRange_def)
qed

lemma config_encodes:
  assumes "validateConfig c = Inr ()"
  shows "\<exists>bs. encodeFrame (config_frame q c) = Inr bs"
proof -
  have e: "encodePayload (PServerConfig c) = Inr (TypeServerConfig, put_config c)" using assms by simp
  have "length (put_config c) = 40" by (simp add: put_config_def)
  then show ?thesis using e by (simp add: config_frame_def encodeFrame_eq allowedFlags_def kMaxPayloadBytes_def)
qed

text \<open>C9: The negotiation always ends in an offer the client can use: when \<open>ChooseVideoSize\<close> finds a size, it is the picture of the
  highest rung of the ladder that fits the client, its sides are even, at least two and within the limits of the
  client's decoder, and for every valid configuration the \<open>ServerConfig\<close> made of it passes the protocol's checks,
  holds the size without truncation and can be encoded.\<close>

theorem negotiated_config_fits:
  assumes "ChooseVideoSize (MonitorSize monitor) hello = Some (chosen, edge)" and "validate_config cfg = Inr ()"
  shows "edge \<in> set kLongestEdgeLadder \<and> chosen = SelectEncodeResolution (MonitorSize monitor) edge \<and>
    list_all (\<lambda>e. edge < e \<longrightarrow> \<not> fits_client (MonitorSize monitor) hello e) kLongestEdgeLadder \<and>
    sizeWidth chosen \<le> maxVideoWidth hello \<and> sizeHeight chosen \<le> maxVideoHeight hello \<and>
    even (unat (sizeWidth chosen)) \<and> even (unat (sizeHeight chosen)) \<and>
    2 \<le> unat (sizeWidth chosen) \<and> 2 \<le> unat (sizeHeight chosen) \<and>
    unat (videoWidth (session_config (NewSessionId r) monitor chosen cfg)) = unat (sizeWidth chosen) \<and>
    unat (videoHeight (session_config (NewSessionId r) monitor chosen cfg)) = unat (sizeHeight chosen) \<and>
    (\<exists>bs. encodeFrame (config_frame q (session_config (NewSessionId r) monitor chosen cfg)) = Inr bs)"
proof -
  note c = chosen_size [OF assms(1)] and b = chosen_bounds [OF assms(1)]
  have le: "unat (sizeWidth chosen) \<le> 3200" "unat (sizeHeight chosen) \<le> 3200"
    using b(2,5) ladder_edges [OF c(2)] by simp_all
  have "sizeWidth chosen \<le> maxVideoWidth hello" "sizeHeight chosen \<le> maxVideoHeight hello"
    using c(1,3) by (simp_all add: fits_client_def Let_def)
  with c(1,2,4) b narrow_size [OF le(1)] narrow_size [OF le(2)]
    config_encodes [OF session_config_valid [OF b(1) le(1) b(4) le(2) assms(2)]]
  show ?thesis by (simp add: session_config_def)
qed

end
