(* ===== verification/ServerExample.thy ===== *)
theory ServerExample
  imports ClockSync Tray PipelineTrace VideoChannel Negotiation
begin

text \<open>
  A session in full: the server is started, adb is found and the tablet connected, the tablet authenticates its three
  channels, says hello and gets its configuration, and the session is activated. The properties of the server are applied
  to the states of this run.
\<close>

section \<open>The surroundings\<close>

definition plain_send :: "ScriptedSocket \<Rightarrow> bytes \<Rightarrow> int \<times> ScriptedSocket" where
  "plain_send s bs = (int (length bs), s\<lparr>outbox := outbox s @ bs\<rparr>)"

interpretation plain: winsock chunked_recv plain_send inbox outbox
  by unfold_locales (use chunked.recv_moves in blast, simp add: plain_send_def)

definition sample_net :: "ScriptedSocket Net" where
  "sample_net = \<lparr>nt_read = socketRead True chunked_recv lastCode, nt_write = socketWrite True plain_send lastCode,
     nt_now = (\<lambda>s. 0), nt_fuel = 2, nt_os = test_os, nt_line_time = (\<lambda>k. 0), nt_utf8 = (\<lambda>w. None)\<rparr>"

lemma sample_net_simps [simp]:
  "nt_read sample_net = socketRead True chunked_recv lastCode" "nt_write sample_net = socketWrite True plain_send lastCode"
  "nt_now sample_net = (\<lambda>s. 0)" "nt_fuel sample_net = 2" "nt_os sample_net = test_os" "nt_utf8 sample_net = (\<lambda>w. None)"
  by (simp_all add: sample_net_def)

definition peer_socket :: "AuthChannel \<Rightarrow> bytes \<Rightarrow> ScriptedSocket" where
  "peer_socket channel rest = \<lparr>inbox = buildAuthPreface sample_token channel @ rest, outbox = [], script = [], lastCode = 0\<rparr>"

definition authenticated :: "bytes \<Rightarrow> ScriptedSocket" where
  "authenticated rest = \<lparr>inbox = rest, outbox = [], script = [], lastCode = - 41\<rparr>"

lemma peer_authenticates:
  assumes "sess_ok session" and "session_token session = Some sample_token"
  shows "readAuthPreface 2 (socketRead True chunked_recv lastCode) (\<lambda>s. 0) session channel (peer_socket channel rest) =
    Some (Inr (), authenticated rest)"
proof -
  define p where "p = buildAuthPreface sample_token channel"
  have len: "length p = 41"
    by (simp add: p_def buildAuthPreface_def sample_token_length) (simp add: kSessionTokenBytes_def)
  have read: "socketRead True chunked_recv lastCode (peer_socket channel rest) 41 = (io IoOk 41 [], p, authenticated rest)"
    by (simp add: socketRead_def chunked_recv_def scripted_recv_def peer_socket_def authenticated_def len kIntMax_def flip: p_def)
  have "overlay 0 p (replicate 41 0) = p" by (simp add: overlay_def len)
  then have "preface_loop 2 (socketRead True chunked_recv lastCode) (\<lambda>s. 0) 5000 (peer_socket channel rest) 0 (replicate 41 0) =
      Some (Inr (41, p), authenticated rest)"
    by (simp add: numeral_2_eq_2 preface_bytes read)
  moreover have "take 8 p = kAuthMagic" "p ! 8 = channel_byte channel" "take kSessionTokenBytes (drop 9 p) = sample_token"
    using preface_split [of p channel sample_token] len sample_token_length by (auto simp: p_def preface_bytes)
  moreover have "validateSessionToken session sample_token" using validate_iff [OF assms(1)] assms by simp
  ultimately show ?thesis
    by (simp add: readAuthPreface_def preface_bytes kControlHandshakeTimeoutMs_def)
qed

lemma frame_goes_out:
  assumes "encodeFrame f = Inr bs" and "length bs \<le> kIntMax"
  shows "writeFrame (socketWrite True plain_send lastCode) s f = (io IoOk (length bs) [], s\<lparr>outbox := outbox s @ bs\<rparr>)"
proof -
  have ne: "bs \<noteq> []" by (rule encoded_not_empty [OF assms(1)])
  have w: "socketWrite True plain_send lastCode s bs = (io IoOk (length bs) [], s\<lparr>outbox := outbox s @ bs\<rparr>)"
    using ne assms by (simp add: socketWrite_def plain_send_def Let_def min_def)
  show ?thesis
    using ne assms(1) w
    by (simp add: writeFrame_def writer_start_def writer_continue_def writer_pending_def writer_init_def writer_loop.simps
        writer_clear_def Let_def)
qed

section \<open>The tablet and the monitor\<close>

definition sample_hello :: ClientHello where
  "sample_hello = \<lparr>helloCapabilities = 0, displayWidth = 2560, displayHeight = 1600, rotationDegrees = 0,
     maxTouchContacts = 10, maxPenPressure = 4095, videoCodecMask = 1, maxVideoWidth = 4096, maxVideoHeight = 4096,
     deviceName = ''tablet'', osName = ''15''\<rparr>"

definition hello_frame :: Frame where
  "hello_frame = \<lparr>header = \<lparr>frameFlags = 0, frameSequence = 1, frameType = TypeClientHello\<rparr>, payload = PClientHello sample_hello\<rparr>"

definition hello_bytes :: bytes where
  "hello_bytes = (case encodeFrame hello_frame of Inr bs \<Rightarrow> bs | Inl _ \<Rightarrow> [])"

lemma hello_encoded: "encodeFrame hello_frame = Inr hello_bytes"
proof -
  have "validateHello sample_hello = Inr ()" by code_simp
  moreover have "length (put_hello sample_hello) \<le> 100" by code_simp
  ultimately have "\<exists>bs. encodeFrame hello_frame = Inr bs"
    by (simp add: hello_frame_def encodeFrame_eq allowedFlags_def kMaxPayloadBytes_def)
  then show ?thesis by (auto simp: hello_bytes_def)
qed

definition sample_monitor :: MonitorInfo where
  "sample_monitor = fine_monitor\<lparr>mon_rect := \<lparr>rect_left = 0, rect_top = 0, rect_right = 1920, rect_bottom = 1080\<rparr>\<rparr>"

definition sample_displays :: EnumerateAnswers where
  "sample_displays = \<lparr>en_factory = 0,
     en_targets = \<lparr>tg_sizes = 0, tg_query = 0, tg_paths = [\<lparr>path_status = 0, path_luid = \<lparr>luid_low = 0, luid_high = 0\<rparr>,
       path_target = 0, path_name = [65]\<rparr>]\<rparr>,
     en_adapters = [\<lparr>aa_enum = 0, aa_desc = 0, aa_luid = \<lparr>luid_low = 0, luid_high = 0\<rparr>,
       aa_outputs = [\<lparr>oa_enum = 0, oa_desc = 0, oa_name = [65], oa_rect = mon_rect sample_monitor, oa_attached = True\<rparr>]\<rparr>]\<rparr>"

lemma sample_display_found: "EnumerateMonitors sample_displays = (S_OK, [sample_monitor])"
  by code_simp

definition sample_size :: Size where
  "sample_size = \<lparr>sizeWidth = 1920, sizeHeight = 1080\<rparr>"

lemma sample_size_chosen: "ChooseVideoSize (MonitorSize sample_monitor) sample_hello = Some (sample_size, 3200)"
  by code_simp

definition sample_config_frame :: Frame where
  "sample_config_frame = config_frame 1 (session_config 1 sample_monitor sample_size default_config)"

definition config_bytes :: bytes where
  "config_bytes = (case encodeFrame sample_config_frame of Inr bs \<Rightarrow> bs | Inl _ \<Rightarrow> [])"

lemma config_encoded: "encodeFrame sample_config_frame = Inr config_bytes" "length config_bytes \<le> kIntMax"
proof -
  have "\<exists>bs. encodeFrame sample_config_frame = Inr bs"
    using config_encodes [OF session_config_valid [OF _ _ _ _ default_config_valid,
        of sample_size 1 sample_monitor]]
    by (simp add: sample_config_frame_def NewSessionId_def sample_size_def)
  then show e: "encodeFrame sample_config_frame = Inr config_bytes" by (auto simp: config_bytes_def)
  from frame_size [OF e] show "length config_bytes \<le> kIntMax" by (simp add: kMaxPayloadBytes_def kIntMax_def)
qed

section \<open>Accepting the tablet\<close>

definition accepted_socket :: "socket \<Rightarrow> accept_calls" where
  "accepted_socket h = \<lparr>select_result = Inr 1, accept_result = Inr h, peer_name = (\<lambda>h. PeerIPv4 0x7F000001)\<rparr>"

lemma socket_accepted: "is_open l \<Longrightarrow> listener_accept (accepted_socket h) 100 l = (Accepted, Some h, None, [SocketOpened h])"
  by (simp add: listener_accept_def accepted_socket_def)

definition sample_accepts :: "ScriptedSocket EstablishAnswers" where
  "sample_accepts = \<lparr>es_control_timeouts = True, es_monitors = sample_displays, es_random = 1, es_session_timeouts = True,
     es_video_accepts = [\<lparr>ac_calls = accepted_socket 12, ac_stream = peer_socket AuthVideo [], ac_timeouts_set = True\<rparr>],
     es_input_accepts = [\<lparr>ac_calls = accepted_socket 13, ac_stream = peer_socket AuthInput [], ac_timeouts_set = True\<rparr>]\<rparr>"

definition ready_for_client :: "ScriptedSocket Server \<Rightarrow> bool" where
  "ready_for_client s \<longleftrightarrow> sv_running s \<and> sv_threads s \<and> \<not> sv_session_active s \<and> sv_accepting s = None \<and>
     is_open (sv_control_listener s) \<and> is_open (sv_video_listener s) \<and> is_open (sv_input_listener s) \<and>
     sv_config s = default_config \<and> sv_control_sequence s = 1 \<and>
     (case sv_adb s of None \<Rightarrow> False | Some c \<Rightarrow> sess_ok (sess c) \<and> session_token (sess c) = Some sample_token)"

lemma hello_read:
  obtains stream where "readFrame (socketRead True chunked_recv lastCode) (authenticated (hello_bytes @ clock_sync_bytes)) =
      (io IoOk (length hello_bytes) [], Some hello_frame, stream)" "outbox stream = []" "inbox stream = clock_sync_bytes"
proof -
  have "decodeFrame hello_bytes = Inr hello_frame" using hello_encoded by (simp add: decodeFrame_encodeFrame)
  then obtain stream where r: "readFrame (socketRead True chunked_recv lastCode) (authenticated (hello_bytes @ clock_sync_bytes)) =
      (io IoOk (length hello_bytes) [], Some hello_frame, stream)" "inbox stream = clock_sync_bytes"
    using chunked.live.read_frame_delivers [of "authenticated (hello_bytes @ clock_sync_bytes)" hello_bytes clock_sync_bytes hello_frame]
    by (auto simp: authenticated_def)
  then have "outbox stream = []" using chunked.socket.read_frame [OF r(1)] by (auto simp: authenticated_def)
  with r show ?thesis by (intro that)
qed

definition sample_handshake :: "ScriptedSocket \<Rightarrow> ScriptedSocket Handshake" where
  "sample_handshake control = \<lparr>hs_hello = sample_hello, hs_monitor = sample_monitor, hs_size = sample_size, hs_edge = 3200,
     hs_config = default_config, hs_session_id = 1, hs_control = \<lparr>ch_handle = 11, ch_stream = control\<rparr>,
     hs_video = \<lparr>ch_handle = 12, ch_stream = authenticated []\<rparr>, hs_input = \<lparr>ch_handle = 13, ch_stream = authenticated []\<rparr>\<rparr>"

lemma client_accepted:
  assumes "ready_for_client s"
  obtains control where "outbox control = config_bytes" "inbox control = clock_sync_bytes"
    and "accept_turn sample_net (accepted_socket 11) (peer_socket AuthControl (hello_bytes @ clock_sync_bytes)) sample_accepts s =
      Some (s\<lparr>sv_events := sv_events s @ [SocketOpened 11, SocketOpened 12, SocketOpened 13], sv_control_sequence := 2,
              sv_accepting := Some (sample_handshake control)\<rparr>)"
proof -
  obtain c where c: "sv_adb s = Some c" "sess_ok (sess c)" "session_token (sess c) = Some sample_token"
    using assms by (auto simp: ready_for_client_def split: option.splits)
  obtain stream where r: "readFrame (socketRead True chunked_recv lastCode) (authenticated (hello_bytes @ clock_sync_bytes)) =
      (io IoOk (length hello_bytes) [], Some hello_frame, stream)" "outbox stream = []" "inbox stream = clock_sync_bytes"
    by (rule hello_read)
  have w: "writeFrame (socketWrite True plain_send lastCode) stream sample_config_frame =
      (io IoOk (length config_bytes) [], stream\<lparr>outbox := config_bytes\<rparr>)"
    using frame_goes_out [OF config_encoded, of stream] r(2) by simp
  have monitor: "select_monitor (selected_monitor_id default_config) [sample_monitor] = sample_monitor"
    by (simp add: default_config_def select_monitor_def)
  have rotation: "ToRotation (rotationDegrees sample_hello) = Some Rot0" by code_simp
  have h264: "IsH264Supported sample_hello" by code_simp
  show ?thesis
    using assms c peer_authenticates [OF c(2,3)] r(1,3) w monitor rotation h264
    by (intro that [of "stream\<lparr>outbox := config_bytes\<rparr>"], simp_all add: accept_turn_def ready_for_client_def socket_accepted establish_channels_def greet_def offer_def
        read_hello_def hello_frame_def choose_display_def sample_display_found send_config_def sample_accepts_def sample_size_chosen
        sample_config_frame_def receive_channels_def receive_accepted_def add_events_def FAILED_def NewSessionId_def sample_handshake_def)
qed

section \<open>Until the tablet is connected\<close>

definition opened_socket :: "socket \<Rightarrow> open_calls" where
  "opened_socket h = \<lparr>wsa_startup = Inr (), new_socket = Inr h, set_exclusive = Inr (), bind_loopback = Inr (), listen_call = Inr ()\<rparr>"

definition sample_start :: StartServerAnswers where
  "sample_start = \<lparr>sa_control = opened_socket 1, sa_video = opened_socket 2, sa_input = opened_socket 3, sa_crash_count = 0\<rparr>"

definition sample_server :: "ScriptedSocket Server" where
  "sample_server = server_init (nt_os sample_net) default_config \<lparr>target = None, temporary = None\<rparr> True True True no_monitor sample_hello"

definition sample_locate :: LocateAnswers where
  "sample_locate = \<lparr>lo_slash = (\<lambda>d f. d @ f), lo_regular = (\<lambda>p. True),
     lo_version = (\<lambda>p. no_result\<lparr>started := True, stdout_text := ''Version 36.0.2-1''\<rparr>),
     lo_directory = ''c'', lo_required = ''36.0.2''\<rparr>"

lemma socket_opened: "listener_open (opened_socket h) p listener_init =
    (Inr (), \<lparr>listen_socket = Some h, port = p, winsock_started = True\<rparr>, [Startup, SocketOpened h])"
  by (simp add: listener_open_def open_closed_def opened_socket_def listener_close_def listener_init_def closeSocket_def)

lemma adb_located:
  "locate (lo_slash sample_locate) (lo_regular sample_locate) (lo_version sample_locate)
     \<lparr>executable_directory = lo_directory sample_locate, bundled_candidates = [],
      fallback_path = lo_slash sample_locate (lo_directory sample_locate) ''adb.exe'', required_bundled_version = lo_required sample_locate\<rparr> \<noteq> None"
  by code_simp

lemma server_started:
  obtains s where "server_step sample_net (EvStart sample_start) sample_server = Some s"
    and "sv_running s" "sv_threads s" "\<not> sv_session_active s" "sv_accepting s = None" "is_open (sv_control_listener s)"
      "is_open (sv_video_listener s)" "is_open (sv_input_listener s)" "sv_config s = default_config"
      "sv_control_sequence s = 1" "sv_adb s = None" "sv_generation s = 0" "sv_video_sequence s = 1" "sv_pipeline s = pipeline_init"
      "sv_events s = [Startup, SocketOpened 1, Startup, SocketOpened 2, Startup, SocketOpened 3]"
  by (rule that [of "snd (StartServer sample_net sample_start sample_server)"])
    (simp_all add: sample_server_def server_init_def StartServer_def default_config_valid open_listeners_def use_config_def
      sample_start_def socket_opened add_events_def is_open_def Let_def)

lemma adb_events:
  assumes "sv_threads s" and "sv_adb s = Some c"
    and "list_all (\<lambda>e. case e of Listed _ _ \<Rightarrow> True | Mapped _ _ \<Rightarrow> True | Generated _ _ \<Rightarrow> True | Launched _ _ \<Rightarrow> True | _ \<Rightarrow> False) es"
  shows "server_run n (map EvAdb es) s = map_option (\<lambda>c. s\<lparr>sv_adb := Some c\<rparr>) (session_run es c)"
  using assms
proof (induction es arbitrary: s c)
  case Nil
  then show ?case by simp
next
  case (Cons e es)
  then have e: "adb_event e s = map_option (\<lambda>c. s\<lparr>sv_adb := Some c\<rparr>) (session_step e c)"
    by (cases e) (simp_all add: adb_event_def)
  show ?case
  proof (cases "session_step e c")
    case None
    with e show ?thesis by simp
  next
    case (Some c')
    with e Cons.IH [of "s\<lparr>sv_adb := Some c'\<rparr>" c'] Cons.prems show ?thesis
      by (simp add: option.map_comp comp_def)
  qed
qed

lemma server_run_append: "server_run n (es @ fs) s = Option.bind (server_run n es s) (server_run n fs)"
  by (induction es arbitrary: s) (auto split: option.split)

definition connect_events :: "session_event list" where
  "connect_events = [Listed good_runner 10, Mapped good_runner 20, Generated (Some sample_token) 30, Launched good_runner 40]"

definition sample_connected :: "ScriptedSocket server_event list" where
  "sample_connected = [EvStart sample_start, EvLocate sample_locate] @ map EvAdb connect_events"

lemma tablet_connected:
  obtains s where "server_run sample_net sample_connected sample_server = Some s" "ready_for_client s"
    "sv_generation s = 0" "sv_video_sequence s = 1" "sv_pipeline s = pipeline_init"
    "sv_events s = [Startup, SocketOpened 1, Startup, SocketOpened 2, Startup, SocketOpened 3]"
proof -
  obtain s0 where s0: "server_step sample_net (EvStart sample_start) sample_server = Some s0"
    and p: "sv_running s0" "sv_threads s0" "\<not> sv_session_active s0" "sv_accepting s0 = None" "is_open (sv_control_listener s0)"
      "is_open (sv_video_listener s0)" "is_open (sv_input_listener s0)" "sv_config s0 = default_config"
      "sv_control_sequence s0 = 1" "sv_adb s0 = None" "sv_generation s0 = 0" "sv_video_sequence s0 = 1"
      "sv_pipeline s0 = pipeline_init" "sv_events s0 = [Startup, SocketOpened 1, Startup, SocketOpened 2, Startup, SocketOpened 3]"
    by (rule server_started)
  obtain c where c: "session_run (StartCalled # connect_events) (conf_init default_policy) = Some c"
      "session_token (sess c) = Some sample_token"
    using good_run_connects by (auto simp: connect_events_def)
  then obtain c0 where c0: "session_step StartCalled (conf_init default_policy) = Some c0" "session_run connect_events c0 = Some c"
    by (auto split: option.splits)
  have located: "server_step sample_net (EvLocate sample_locate) s0 = Some (s0\<lparr>sv_adb := Some c0\<rparr>)"
    using p adb_located c0(1) by (auto simp: adb_locate_def)
  have "server_run sample_net (map EvAdb connect_events) (s0\<lparr>sv_adb := Some c0\<rparr>) = Some (s0\<lparr>sv_adb := Some c\<rparr>)"
    using adb_events [of "s0\<lparr>sv_adb := Some c0\<rparr>" c0 connect_events sample_net] p c0(2) by (simp add: connect_events_def)
  with s0 located have "server_run sample_net sample_connected sample_server = Some (s0\<lparr>sv_adb := Some c\<rparr>)"
    by (simp add: sample_connected_def)
  then show ?thesis
    using p c(2) invariants [OF c(1)] by (intro that [of "s0\<lparr>sv_adb := Some c\<rparr>"]) (auto simp: ready_for_client_def)
qed

section \<open>The session\<close>

definition sample_activate :: ActivateAnswers where
  "sample_activate = \<lparr>av_start = \<lparr>st_shutdown = fine_shutdown, st_open = fine_open, st_rejected = fine_shutdown\<rparr>,
     av_stop = fine_shutdown, av_save = \<lparr>directory_error = Some ''disk'', opened = False, wrote = (\<lambda>_ _. None), flushed = False,
       moved = False, deleted = False\<rparr>\<rparr>"

lemma sample_pipeline_starts: "fst (VideoPipeline.Start (av_start sample_activate) sample_monitor 3200 True pipeline_init) = S_OK"
  by (simp add: sample_activate_def sample_monitor_def pipeline_samples capture_defs FAILED_def)

lemma sample_aspect: "kEpsilon < content_ratio sample_size"
proof -
  have "content_ratio sample_size = f32 (1920 / 1080)"
    using f32_of_nat [of 1920] f32_of_nat [of 1080] by (simp add: content_ratio_def sample_size_def)
  moreover have "1 \<le> f32 (1920 / 1080)" using f32_ge_int [of 1 "1920 / 1080"] by simp
  ultimately show ?thesis using kEpsilon_less_1 by simp
qed

lemma sample_mapper_configured:
  "fst (mapper_configure (mapper_config sample_monitor (content_ratio sample_size) epoch) m)"
proof -
  have r: "MonitorRect sample_monitor = \<lparr>pxLeft = 0, pxTop = 0, pxWidth = 1920, pxHeight = 1080\<rparr>"
    by (simp add: MonitorRect_def sample_monitor_def)
  have a: "monitor_aspect (MonitorRect sample_monitor) = content_ratio sample_size"
    by (simp add: r monitor_aspect_def content_ratio_def sample_size_def)
  have "0 \<le> kEpsilon" unfolding kEpsilon_def by (intro f32_nonneg) simp
  with sample_aspect a show ?thesis
    by (simp add: mapper_configure_def mapper_config_def content_aspect_def letterbox_def normalized_rect_valid_def
        pixel_rect_valid_def full_rect_def r [simplified] Let_def)
qed

definition in_sample_session :: "ScriptedSocket Server \<Rightarrow> bool" where
  "in_sample_session s \<longleftrightarrow> IsGenerationActive 1 s \<and> sv_video_thread s = Some (1, video_loop_init) \<and>
     sv_video s = Some \<lparr>ch_handle = 12, ch_stream = authenticated []\<rparr> \<and> ss_frames_sent (sv_status s) = 0 \<and> sv_video_sequence s = 1 \<and>
     sv_control_thread s = Some 1 \<and> ss_capture_started (sv_status s) \<and> sv_caps s = 0"

lemma client_activated:
  assumes "sv_accepting s = Some (sample_handshake control)" and "sv_pipeline s = pipeline_init" and "sv_running s"
    and "sv_generation s = 0" and "sv_video_sequence s = 1"
  obtains s' where "accept_finish sample_net sample_activate s = Some s'" "in_sample_session s'"
    "sv_control s' = Some \<lparr>ch_handle = 11, ch_stream = control\<rparr>" "sv_events s' = sv_events s"
proof -
  let ?h = "sample_handshake control"
  obtain p where p: "VideoPipeline.Start (av_start sample_activate) sample_monitor 3200 True pipeline_init = (S_OK, p)"
    using sample_pipeline_starts by (metis prod.collapse)
  obtain r L where w: "with_pipeline sample_net p (s\<lparr>sv_accepting := None\<rparr>) = (s\<lparr>sv_accepting := None\<rparr>)
      \<lparr>sv_pipeline := p\<lparr>vp_calls := []\<rparr>, sv_status := (sv_status s)\<lparr>ss_stream_resets := r\<rparr>, sv_lines := L\<rparr>"
    by (rule with_pipeline_shape [of sample_net p "s\<lparr>sv_accepting := None\<rparr>"]) simp
  define t where "t = with_pipeline sample_net p (s\<lparr>sv_accepting := None\<rparr>)"
  obtain mp where mp: "mapper_configure (mapper_config sample_monitor (content_ratio sample_size) (sv_epoch t + 1))
      (mapper (sv_inputs t)) = (True, mp)"
    using sample_mapper_configured by (metis prod.collapse)
  obtain i where c: "configure_input sample_net ?h t = (True, t\<lparr>sv_epoch := sv_epoch t + 1, sv_inputs := i\<rparr>)"
    by (simp add: configure_input_def configure_def sample_handshake_def Let_def mp)
  define v where "v = (use_config sample_net default_config (t\<lparr>sv_epoch := sv_epoch t + 1, sv_inputs := i\<rparr>))
    \<lparr>sv_adapter := adapter_configure sample_hello (sv_epoch t + 1) (sv_adapter t)\<rparr>"
  obtain fs cfg d where q: "persist_config sample_net (av_save sample_activate) ?h v =
      v\<lparr>sv_files := fs, sv_config := cfg, sv_status := (sv_status v)\<lparr>ss_diagnostic := d\<rparr>\<rparr>"
    by (rule persist_config_shape)
  have h: "hs_monitor ?h = sample_monitor" "hs_edge ?h = 3200" "hs_config ?h = default_config" "hs_hello ?h = sample_hello"
    by (simp_all add: sample_handshake_def)
  have e: "establish_rest sample_net sample_activate ?h (s\<lparr>sv_accepting := None\<rparr>) =
      Inr (activate_session ?h (persist_config sample_net (av_save sample_activate) ?h v))"
    using p c assms(2) unfolding establish_rest_def h v_def
    by (simp add: Let_def t_def [symmetric] FAILED_def use_config_def)
  define x where "x = v\<lparr>sv_files := fs, sv_config := cfg, sv_status := (sv_status v)\<lparr>ss_diagnostic := d\<rparr>\<rparr>"
  have x: "sv_running x" "sv_generation x = 0" "sv_video_sequence x = 1" "sv_events x = sv_events s"
    using assms by (simp_all add: x_def v_def t_def w use_config_def)
  have "in_sample_session (activate_session ?h x)" "sv_control (activate_session ?h x) = Some \<lparr>ch_handle = 11, ch_stream = control\<rparr>"
    "sv_events (activate_session ?h x) = sv_events s"
    using x by (simp_all add: activate_session_def active_status_def in_sample_session_def IsGenerationActive_def
        UpdateDiagnostic_def UpdateReleaseReadinessLocked_def sample_handshake_def sample_hello_def Let_def)
  with e assms(1) that show ?thesis by (simp add: accept_finish_def q x_def)
qed

definition sample_control :: ControlAnswers where
  "sample_control = \<lparr>co_received = 500, co_sent = 501, co_issued = 502, co_now = 503,
     co_block = \<lparr>wb_reset = fine_reset, wb_now = 0, wb_policy_reset = fine_reset\<rparr>,
     co_end = \<lparr>ea_adb_now = 600, ea_shutdown = fine_shutdown\<rparr>\<rparr>"

definition sample_session :: "ScriptedSocket server_event list" where
  "sample_session = sample_connected @ [EvAccept (accepted_socket 11) (peer_socket AuthControl (hello_bytes @ clock_sync_bytes)) sample_accepts,
     EvActivate sample_activate]"

lemma session_reached:
  obtains s control where "server_run sample_net sample_session sample_server = Some s" "in_sample_session s"
    "sv_control s = Some \<lparr>ch_handle = 11, ch_stream = control\<rparr>" "inbox control = clock_sync_bytes"
    "sv_events s = [Startup, SocketOpened 1, Startup, SocketOpened 2, Startup, SocketOpened 3] @ [SocketOpened 11, SocketOpened 12, SocketOpened 13]"
proof -
  obtain s where s: "server_run sample_net sample_connected sample_server = Some s" "ready_for_client s" "sv_generation s = 0"
      "sv_video_sequence s = 1" "sv_pipeline s = pipeline_init"
      "sv_events s = [Startup, SocketOpened 1, Startup, SocketOpened 2, Startup, SocketOpened 3]"
    by (rule tablet_connected)
  obtain control where a: "inbox control = clock_sync_bytes"
      "accept_turn sample_net (accepted_socket 11) (peer_socket AuthControl (hello_bytes @ clock_sync_bytes)) sample_accepts s =
      Some (s\<lparr>sv_events := sv_events s @ [SocketOpened 11, SocketOpened 12, SocketOpened 13], sv_control_sequence := 2,
              sv_accepting := Some (sample_handshake control)\<rparr>)" (is "_ = Some ?t")
    by (rule client_accepted [OF s(2)])
  obtain s' where "accept_finish sample_net sample_activate ?t = Some s'" "in_sample_session s'"
      "sv_control s' = Some \<lparr>ch_handle = 11, ch_stream = control\<rparr>" "sv_events s' = sv_events ?t"
    by (rule client_activated [of ?t control]) (use s in \<open>simp_all add: ready_for_client_def\<close>)
  with s(1,6) a show ?thesis by (intro that) (simp_all add: sample_session_def server_run_append)
qed

text \<open>The tablet completes a clock synchronisation that nobody asked for, which is ignored.\<close>

lemma completion_ignored:
  assumes "in_sample_session s" and "sv_control s = Some \<lparr>ch_handle = 11, ch_stream = control\<rparr>" "inbox control = clock_sync_bytes"
  obtains s' where "control_turn sample_net sample_control s = Some s'" "IsGenerationActive 1 s'" "ss_frames_sent (sv_status s') = 0"
proof -
  have "decodeFrame clock_sync_bytes = Inr clock_sync_frame" using encode_clock_sync by (simp add: decodeFrame_encodeFrame)
  then obtain stream where r: "readFrame (socketRead True chunked_recv lastCode) control =
      (io IoOk (length clock_sync_bytes) [], Some clock_sync_frame, stream)"
    using chunked.live.read_frame_delivers [of control clock_sync_bytes "[]" clock_sync_frame] assms(3) by auto
  have c: "sv_control_thread s = Some 1" "IsGenerationActive 1 s" "ss_frames_sent (sv_status s) = 0"
    using assms(1) by (simp_all add: in_sample_session_def)
  obtain p e where q: "ConsumeClockSyncComplete 1000000000 1000001000 1000002000 1000005000 1 503 (sv_clock_sync s) = (e, p)"
    by fastforce
  show ?thesis
    by (rule that, unfold control_turn_def c(1), simp add: c assms(2) r control_frame_def clock_sync_frame_def
        on_clock_complete_def sample_control_def q Let_def)
      (use c in \<open>auto simp: IsGenerationActive_def UpdateDiagnostic_def write_line_def\<close>)
qed

section \<open>The witnesses\<close>

theorem negotiated_config_fits_witness:
  "2 \<le> unat (sizeWidth sample_size) \<and> sizeWidth sample_size \<le> maxVideoWidth sample_hello \<and>
   (\<exists>bs. encodeFrame (config_frame 1 (session_config (NewSessionId 1) sample_monitor sample_size default_config)) = Inr bs)"
  using negotiated_config_fits [OF sample_size_chosen default_config_valid] by blast


theorem sockets_accounted_witness:
  "\<exists>s. server_run sample_net sample_session sample_server = Some s \<and>
     resources 0 {} (sv_events s) = Some (server_starts s, set_mset (server_handles s)) \<and> count (server_handles s) 12 \<le> 1"
proof -
  obtain s control where s: "server_run sample_net sample_session sample_server = Some s"
      "sv_events s = [Startup, SocketOpened 1, Startup, SocketOpened 2, Startup, SocketOpened 3] @ [SocketOpened 11, SocketOpened 12, SocketOpened 13]"
    by (rule session_reached)
  have "os_fresh {} (sv_events s)" by (simp add: s(2))
  from sockets_accounted [OF s(1) [unfolded sample_server_def] this] s(1) show ?thesis by blast
qed

theorem server_well_formed_witness:
  "\<exists>s. server_run sample_net sample_session sample_server = Some s \<and> sv_session_active s \<and>
     validate_config (sv_config s) = Inr () \<and> sizeWidth (sv_size s) \<le> maxVideoWidth (sv_hello s)"
proof -
  obtain s control where s: "server_run sample_net sample_session sample_server = Some s" "in_sample_session s"
    by (rule session_reached)
  with server_well_formed [OF s(1) [unfolded sample_server_def]] show ?thesis
    by (auto simp: in_sample_session_def IsGenerationActive_def)
qed


definition sample_tray :: "ScriptedSocket Tray" where
  "sample_tray = \<lparr>tr_server = sample_server, tr_icon_added = True, tr_tip = [], tr_monitors = []\<rparr>"

definition sample_menu :: MenuAnswers where
  "sample_menu = \<lparr>me_created = True, me_monitor_menu = True, me_bitrate_menu = True, me_diagnostic_menu = True,
     me_monitors = sample_displays\<rparr>"

definition sample_choice :: TrayAnswers where
  "sample_choice = \<lparr>ta_save = whole_writes, ta_stop = co_end sample_control, ta_start = sample_start, ta_export = None\<rparr>"

theorem chosen_monitor_is_captured_witness:
  "\<exists>t t'. tr_monitors t = [sample_monitor] \<and> HandleTrayCommand sample_net sample_choice 1200 t = ([], t') \<and>
     select_monitor (selected_monitor_id (sv_config (tr_server t'))) [sample_monitor] = sample_monitor"
proof -
  define chosen where "chosen = default_config\<lparr>selected_monitor_id := MonitorIdToString (mon_id sample_monitor)\<rparr>"
  obtain menu t where t: "ShowStatusMenu sample_menu sample_tray = (Some menu, t)" "t = sample_tray\<lparr>tr_monitors := [sample_monitor]\<rparr>"
    by (simp add: ShowStatusMenu_def sample_menu_def sample_display_found Let_def)
  have valid: "validate_config chosen = Inr ()" unfolding chosen_def by code_simp
  obtain fs where "save_config whole_writes (nt_utf8 sample_net) chosen \<lparr>target = None, temporary = None\<rparr> = (Inr (), fs)"
    using whole_write_saves [OF valid] by (metis prod.collapse)
  then have "\<exists>t'. ApplyTrayConfig sample_net sample_choice chosen t = ([], t')"
    using valid by (simp add: ApplyTrayConfig_def Reconfigure_def t(2) sample_choice_def sample_tray_def sample_server_def
        server_init_def Let_def)
  moreover have "sv_config (tr_server t) = default_config"
    by (simp add: t(2) sample_tray_def sample_server_def server_init_def)
  ultimately obtain t' where t': "HandleTrayCommand sample_net sample_choice (TrayMonitorCommand 0) t = ([], t')"
    by (auto simp: HandleTrayCommand_def monitor_command Let_def t(2) chosen_def)
  moreover have "mi_command (monitor_items (sv_config (tr_server t)) (tr_monitors t) ! 0) = TrayMonitorCommand 0"
    by (simp add: monitor_item_at monitor_item_def t(2))
  ultimately have "select_monitor (selected_monitor_id (sv_config (tr_server t'))) (tr_monitors t) = tr_monitors t ! 0"
    using chosen_monitor_is_captured [OF t(1), of 0 sample_net sample_choice t'] by (auto simp: t(2) sample_menu_def sample_display_found)
  with t' show ?thesis
    by (intro exI [of _ t] exI [of _ t']) (simp add: t(2) TrayMonitorCommand_def kTrayMonitorBaseCommand_def)
qed


theorem video_channel_whole_frames_witness:
  "\<exists>s0 s frames c. server_run sample_net sample_session sample_server = Some s0 \<and>
     within_session sample_net 1 [EvControl sample_control] s0 = Some s \<and> sv_video s = Some c \<and> numbered 1 frames \<and>
     ss_frames_sent (sv_status s) = of_nat (length frames)"
proof -
  obtain s0 control where s0: "server_run sample_net sample_session sample_server = Some s0" "in_sample_session s0"
      "sv_control s0 = Some \<lparr>ch_handle = 11, ch_stream = control\<rparr>" "inbox control = clock_sync_bytes"
    by (rule session_reached)
  obtain s where s: "control_turn sample_net sample_control s0 = Some s" "IsGenerationActive 1 s"
    by (rule completion_ignored [OF s0(2-4)])
  then have w: "within_session sample_net 1 [EvControl sample_control] s0 = Some s" by simp
  have i: "IsGenerationActive 1 s0" "sv_video_thread s0 = Some (1, video_loop_init)"
    "sv_video s0 = Some \<lparr>ch_handle = 12, ch_stream = authenticated []\<rparr>" "ss_frames_sent (sv_status s0) = 0" "sv_video_sequence s0 = 1"
    using s0(2) by (simp_all add: in_sample_session_def)
  note r = s0(1) [unfolded sample_server_def]
  from video_channel_whole_frames [OF plain.winsock_axioms, of sample_net True lastCode, OF _ r i(1-4) w] s0(1) w i(5)
  show ?thesis by auto
qed

end
