(* ===== verification/SystemEdge.thy ===== *)
theory SystemEdge
  imports Process InputProbe InputSystem FramedStream Telemetry "HOL-Library.Monad_Syntax"
begin

text \<open>
  The operations at the edge of the system that mostly hand on what Windows answers: the threads that read the pipes of
  a child process (\<open>adb/process.cpp\<close>), socket timeouts (\<open>app/framed_stream.cpp\<close>), the default paths (\<open>app/config.cpp\<close>,
  \<open>app/desktop_server.cpp\<close>), the life of the injector (\<open>input/synthetic_injector.cpp\<close>), the time a round trip to adb
  takes (\<open>adb/client.cpp\<close>), the waiting time of \<open>video/frame_pacer.h\<close>, and the reader of single event lines
  (\<open>adb/input_probe.cpp\<close>).
\<close>

section \<open>Reading a pipe\<close>

text \<open>One turn of the loop: what \<open>PeekNamedPipe\<close> and \<open>ReadFile\<close> answer, and whether the process has been seen to end.\<close>

record PipeTurn =
  pt_peek :: bool
  pt_available :: nat
  pt_read_ok :: bool
  pt_read :: string
  pt_finished :: bool

text \<open>\<open>None\<close> when the loop goes on after the last turn.\<close>

fun ReadPipe :: "PipeTurn list \<Rightarrow> string \<Rightarrow> string option" where
  "ReadPipe [] collected = None"
| "ReadPipe (t # turns) collected =
     (if \<not> pt_peek t then Some collected
      else if pt_available t \<noteq> 0 then
        let collected = collected @ pt_read t in
        if \<not> pt_read_ok t then Some collected else ReadPipe turns collected
      else if pt_finished t then Some collected
      else ReadPipe turns collected)"

definition turn_bytes :: "PipeTurn \<Rightarrow> string" where
  "turn_bytes t = (if pt_peek t \<and> pt_available t \<noteq> 0 then pt_read t else [])"

text \<open>The text is everything that was read up to the turn that ended the loop, and the loop ends only when the pipe is
  broken or the process is over and the pipe empty.\<close>

lemma read_pipe_collects:
  "ReadPipe turns collected = Some text \<Longrightarrow>
   \<exists>k < length turns. text = collected @ concat (map turn_bytes (take (Suc k) turns)) \<and>
     (\<not> pt_peek (turns ! k) \<or> \<not> pt_read_ok (turns ! k) \<or> pt_finished (turns ! k) \<and> pt_available (turns ! k) = 0)"
proof (induction turns collected rule: ReadPipe.induct)
  case (2 t turns collected)
  define again where "again = (pt_peek t \<and> (if pt_available t \<noteq> 0 then pt_read_ok t else \<not> pt_finished t))"
  have bytes: "turn_bytes t = (if pt_peek t \<and> pt_available t \<noteq> 0 then pt_read t else [])" by (simp add: turn_bytes_def)
  show ?case
  proof (cases again)
    case True
    then have "ReadPipe turns (collected @ turn_bytes t) = Some text"
      using 2(3) by (auto simp: again_def turn_bytes_def Let_def split: if_splits)
    moreover have "ReadPipe turns (collected @ turn_bytes t) = Some text \<Longrightarrow> \<exists>k < length turns.
        text = (collected @ turn_bytes t) @ concat (map turn_bytes (take (Suc k) turns)) \<and>
        (\<not> pt_peek (turns ! k) \<or> \<not> pt_read_ok (turns ! k) \<or> pt_finished (turns ! k) \<and> pt_available (turns ! k) = 0)"
      using 2(1,2) True bytes by (cases "pt_available t = 0") (simp_all add: again_def)
    ultimately obtain k where "k < length turns"
      "text = (collected @ turn_bytes t) @ concat (map turn_bytes (take (Suc k) turns))"
      "\<not> pt_peek (turns ! k) \<or> \<not> pt_read_ok (turns ! k) \<or> pt_finished (turns ! k) \<and> pt_available (turns ! k) = 0"
      by blast
    then show ?thesis by (intro exI [of _ "Suc k"]) simp
  next
    case False
    with 2(3) show ?thesis
      by (intro exI [of _ 0]) (auto simp: again_def turn_bytes_def Let_def split: if_splits)
  qed
qed simp

lemma read_pipe_returns:
  "t \<in> set turns \<Longrightarrow> pt_finished t \<and> pt_available t = 0 \<Longrightarrow> ReadPipe turns collected \<noteq> None"
  by (induction turns collected rule: ReadPipe.induct) (auto simp: Let_def)

section \<open>Sockets, paths and times\<close>

text \<open>The results of the two \<open>setsockopt\<close> calls are arguments.\<close>

definition SetTimeouts :: "bool \<Rightarrow> int \<Rightarrow> int \<Rightarrow> bool \<Rightarrow> bool \<Rightarrow> bool" where
  "SetTimeouts valid receive_ms send_ms receive_set send_set \<longleftrightarrow>
     valid \<and> \<not> (receive_ms < 0 \<or> send_ms < 0) \<and> receive_set \<and> send_set"

text \<open>\<open>needed\<close> is what the first lookup of \<open>APPDATA\<close> reports, \<open>got\<close> what the second does.\<close>

definition app_directory :: "nat \<Rightarrow> nat \<Rightarrow> 'p \<Rightarrow> 'p \<Rightarrow> 'p" where
  "app_directory needed got appdata current = (if needed > 1 \<and> got = needed - 1 then appdata else current)"

definition config_default_path :: "('p \<Rightarrow> string \<Rightarrow> 'p) \<Rightarrow> nat \<Rightarrow> nat \<Rightarrow> 'p \<Rightarrow> 'p \<Rightarrow> 'p" where
  "config_default_path slash needed got appdata current =
     slash (slash (app_directory needed got appdata current) ''PadDrawBoard'') ''config.json''"

definition telemetry_default_path :: "('p \<Rightarrow> string \<Rightarrow> 'p) \<Rightarrow> nat \<Rightarrow> nat \<Rightarrow> 'p \<Rightarrow> 'p \<Rightarrow> 'p" where
  "telemetry_default_path slash needed got appdata current =
     slash (slash (app_directory needed got appdata current) ''PadDrawBoard'') ''telemetry.jsonl''"

record RttResult =
  rtt_succeeded :: bool
  rtt_elapsed_us :: int
  rtt_response :: string

definition MeasureRtt :: "(string list \<Rightarrow> ProcessResult) \<Rightarrow> string \<Rightarrow> int \<Rightarrow> int \<Rightarrow> RttResult" where
  "MeasureRtt run dev started_ns ended_ns =
     (let ping = run (buildRttArguments dev) in
      \<lparr>rtt_succeeded = succeeded ping, rtt_elapsed_us = (ended_ns - started_ns) div 1000, rtt_response = stdout_text ping\<rparr>)"

text \<open>The due time handed to the timer, in units of 100 ns and negative because it is relative; \<open>None\<close> when the deadline
  has passed.\<close>

definition pacer_due :: "int \<Rightarrow> int \<Rightarrow> int option" where
  "pacer_due deadline_ns now_ns =
     (let remaining = deadline_ns - now_ns in if remaining \<le> 0 then None else Some (- max 1 (remaining div 100)))"

text \<open>The pacer never waits past the deadline but for less than one unit of its timer.\<close>

lemma pacer_on_time: "pacer_due deadline now = Some due \<Longrightarrow> due < 0 \<and> now + 100 * (- due) < deadline + 100"
  by (auto simp: pacer_due_def Let_def max_def split: if_splits)

section \<open>The life of the injector\<close>

text \<open>Whether \<^verbatim>\<open>user32\<close> is loaded, which of the three functions it has, and which devices can be created.\<close>

definition new_injector :: "bool \<Rightarrow> bool \<Rightarrow> bool \<Rightarrow> bool \<Rightarrow> bool \<Rightarrow> bool \<Rightarrow> Injector" where
  "new_injector loaded create inject destroy pen touch =
     (if \<not> loaded then injector_init False False False
      else if \<not> create \<or> \<not> inject \<or> \<not> destroy then injector_init False False inject
      else injector_init pen touch True)"

text \<open>The destructor: the log, and the devices it destroys.\<close>

definition destroy_injector :: "os \<Rightarrow> bool \<Rightarrow> Injector \<times> Effect list \<Rightarrow> Effect list \<times> bool \<times> bool" where
  "destroy_injector os destroy = (\<lambda>(i, effs).
     (case release_all os (i, effs) of (i, effs) \<Rightarrow> (effs, destroy \<and> penDevice i, destroy \<and> touchDevice i)))"

lemma new_injector_available:
  "is_available (new_injector loaded create inject destroy pen touch) \<longleftrightarrow>
   loaded \<and> create \<and> inject \<and> destroy \<and> pen \<and> touch"
  by (auto simp: new_injector_def injector_init_def is_available_def)

section \<open>A line of the event stream\<close>

record ParsedInputEvent =
  pe_timestamp_us :: "64 word"
  pe_device :: string
  pe_type :: string
  pe_code :: string
  pe_value :: int

definition blank_char :: "char \<Rightarrow> bool" where
  "blank_char c \<longleftrightarrow> c \<in> {CHR '' '', CHR 0x09, CHR 0x0A, CHR 0x0B, CHR 0x0C, CHR 0x0D}"

definition decimal_char :: "char \<Rightarrow> bool" where
  "decimal_char c \<longleftrightarrow> 48 \<le> (of_char c :: nat) \<and> (of_char c :: nat) \<le> 57"

definition char_value :: "char \<Rightarrow> nat" where
  "char_value c = (if decimal_char c then of_char c - 48 else if 97 \<le> (of_char c :: nat) then of_char c - 87 else of_char c - 55)"

definition hexadecimal_char :: "char \<Rightarrow> bool" where
  "hexadecimal_char c \<longleftrightarrow> decimal_char c \<or> 97 \<le> (of_char c :: nat) \<and> (of_char c :: nat) \<le> 102 \<or>
     65 \<le> (of_char c :: nat) \<and> (of_char c :: nat) \<le> 70"

definition digits_value :: "nat \<Rightarrow> string \<Rightarrow> nat" where
  "digits_value base = foldl (\<lambda>v c. v * base + char_value c) 0"

text \<open>The pieces of the regular expression. None of them can match in two ways that matter: what follows a run of digits
  or of non-blank characters is never one of them.\<close>

definition skip_char :: "char \<Rightarrow> string \<Rightarrow> string option" where
  "skip_char c s = (case s of [] \<Rightarrow> None | d # r \<Rightarrow> if d = c then Some r else None)"

definition skip_blanks :: "string \<Rightarrow> string" where
  "skip_blanks s = dropWhile blank_char s"

definition need_blanks :: "string \<Rightarrow> string option" where
  "need_blanks s = (if s \<noteq> [] \<and> blank_char (hd s) then Some (skip_blanks s) else None)"

definition need_run :: "(char \<Rightarrow> bool) \<Rightarrow> string \<Rightarrow> (string \<times> string) option" where
  "need_run p s = (if takeWhile p s = [] then None else Some (takeWhile p s, dropWhile p s))"

definition event_fields :: "string \<Rightarrow> (string \<times> string \<times> string \<times> string \<times> string \<times> string) option" where
  "event_fields line = do {
     s \<leftarrow> skip_char (CHR ''['') line;
     (seconds, s) \<leftarrow> need_run decimal_char (skip_blanks s);
     s \<leftarrow> skip_char (CHR ''.'') s;
     (fraction, s) \<leftarrow> need_run decimal_char s;
     s \<leftarrow> skip_char (CHR '']'') (skip_blanks s);
     s \<leftarrow> need_blanks s;
     (device, s) \<leftarrow> need_run (\<lambda>c. \<not> blank_char c) s;
     (if length device \<ge> 2 \<and> last device = CHR '':'' then Some () else None);
     s \<leftarrow> need_blanks s;
     (type, s) \<leftarrow> need_run (\<lambda>c. \<not> blank_char c) s;
     s \<leftarrow> need_blanks s;
     (code, s) \<leftarrow> need_run (\<lambda>c. \<not> blank_char c) s;
     s \<leftarrow> need_blanks s;
     (hex_text, s) \<leftarrow> need_run (\<lambda>c. \<not> blank_char c) s;
     (if skip_blanks s = [] then Some (seconds, fraction, butlast device, type, code, hex_text) else None)
   }"

definition kLongLongMax :: nat where "kLongLongMax = 2 ^ 63 - 1"

text \<open>The texts are cut at a zero character; \<open>stoll\<close> throws when a number is too large.\<close>

definition ParseEventLine :: "string \<Rightarrow> ParsedInputEvent option" where
  "ParseEventLine line =
     (case event_fields (takeWhile (\<lambda>c. c \<noteq> CHR 0x00) line) of
        None \<Rightarrow> None
      | Some (seconds, fraction, device, type, code, hex_text) \<Rightarrow>
          let negative = (hd hex_text = CHR ''-'');
              digits = (if negative then tl hex_text else hex_text);
              normalized = take 6 (take 6 fraction @ ''000000'') in
          if digits = [] \<or> \<not> list_all hexadecimal_char digits then None
          else if digits_value 10 seconds > kLongLongMax \<or> digits_value 16 digits > kLongLongMax then None
          else Some \<lparr>pe_timestamp_us = of_nat (digits_value 10 seconds) * 1000000 + of_nat (digits_value 10 normalized),
                     pe_device = device, pe_type = type, pe_code = code,
                     pe_value = (if negative then - int (digits_value 16 digits) else int (digits_value 16 digits))\<rparr>)"

lemmas event_line_defs = ParseEventLine_def event_fields_def skip_char_def skip_blanks_def need_blanks_def need_run_def
  blank_char_def decimal_char_def hexadecimal_char_def digits_value_def char_value_def kLongLongMax_def

lemma event_line_example:
  "ParseEventLine ''[  12.5 ] /dev/event4: EV_ABS  ABS_X 0fff'' =
     Some \<lparr>pe_timestamp_us = 12500000, pe_device = ''/dev/event4'', pe_type = ''EV_ABS'', pe_code = ''ABS_X'',
           pe_value = 4095\<rparr>"
  by (simp add: event_line_defs)

lemma event_line_needs_colon: "ParseEventLine ''[ 12.5 ] /dev/event4 EV_ABS ABS_X 0'' = None"
  by (simp add: event_line_defs)

end
