(* ===== verification/Spec2Isabelle.thy ===== *)
theory Spec2Isabelle
  imports FramedStream InputSystem InputAdapter Config Process SessionAuth Loopback InputProbe H264Benchmark
    PipelineTrace Telemetry ServerExample SystemEdge
begin

text \<open>
  A verification development of the desktop side of PadDrawBoard (the C++ code under \<^verbatim>\<open>src/desktop\<close> and
  \<^verbatim>\<open>src/protocol/cpp\<close>): a Windows program that shows one of its monitors on an Android tablet connected through
  adb and injects the pen and touch input of the tablet as Windows pointer input.

  \<^bold>\<open>The program and its parts.\<close> The tray application starts a server with three TCP listeners on the loopback
  interface. The server finds adb, and a session with adb forwards three ports of the single authorized tablet to them and
  launches the app on it with a fresh token. The tablet connects a control, a video and an input channel, each opened by
  a preface that holds the token. It says hello on the control channel; the server chooses a monitor and a size that fit
  the tablet, answers with its configuration, starts the video pipeline and one thread a channel. The pipeline captures
  the monitor, converts the picture and encodes it with a hardware encoder; the video thread sends the access units. The
  input thread turns batches of samples into injected input. Any thread can end the session, which releases everything
  that was injected and tells the session with adb to reconnect.

  \<^bold>\<open>Where what is modelled\<close> (paths below \<^verbatim>\<open>src/desktop/\<close> unless they name the protocol).
  \<^item> \<open>Prelude\<close>: names and facts all components share, among them integers at their width, byte strings and results.
  \<^item> \<open>Wire\<close>, \<open>Utf8\<close>, \<open>Protocol\<close>, \<open>Payloads\<close>, \<open>Framing\<close>: the protocol, \<^verbatim>\<open>src/protocol/cpp\<close>. Readers and
    writers are functions on byte lists; \<open>encodeFrame\<close> and \<open>decodeFrame\<close> answer an error text or a value. The
    locale \<open>wire_codec\<close> is the contract of one field with its instances; the payloads are composed from them.
  \<^item> \<open>FramedStream\<close>, \<open>SessionAuth\<close>, \<open>Loopback\<close>: \<^verbatim>\<open>app/framed_stream\<close>, \<^verbatim>\<open>app/session_auth.h\<close>, \<^verbatim>\<open>adb/loopback\<close>. The
    locales \<open>winsock\<close> and \<open>byte_stream\<close> say what the code expects of \<open>recv\<close>, \<open>send\<close> and of a stream; they
    are interpreted on the socket stream of the code over any such \<open>recv\<close> and \<open>send\<close> and on concrete ones.
  \<^item> \<open>FloatArith\<close>, \<open>InputDomain\<close>, \<open>Mapper\<close>, \<open>Profiles\<close>, \<open>InputSystem\<close>, \<open>InputAdapter\<close>: \<^verbatim>\<open>input/\<close> and
    \<^verbatim>\<open>app/input_adapter\<close>. A finite \<open>float\<close> is the rational it stands for and every operation rounds; what is injected is
    a log of calls, and the locale \<open>held_measure\<close> counts what is held in it, once for keys and once for buttons.
  \<^item> \<open>Json\<close>, \<open>Config\<close>: \<^verbatim>\<open>app/config\<close>, with the replacement of the file over a record of two files.
  \<^item> \<open>Process\<close>, \<open>AdbClient\<close>, \<open>InputProbe\<close>, \<open>Backoff\<close>, \<open>AdbSession\<close>: \<^verbatim>\<open>adb/\<close>. The session is a machine whose steps
    are its critical sections, so that every interleaving of its threads is a list of events.
  \<^item> \<open>Resolution\<close>, \<open>VideoState\<close>, \<open>H264Policy\<close>, \<open>H264Encoder\<close>, \<open>H264Trace\<close>, \<open>H264Select\<close>, \<open>H264Choice\<close>,
    \<open>H264Benchmark\<close>, \<open>Monitors\<close>, \<open>Capture\<close>, \<open>VideoPipeline\<close>, \<open>PipelineTrace\<close>: \<^verbatim>\<open>video/\<close>. Every answer of Media Foundation,
    DXGI and Direct3D is an argument of the operation that asks for it.
  \<^item> \<open>Telemetry\<close>: \<^verbatim>\<open>app/telemetry.h\<close> and the writer in \<^verbatim>\<open>app/desktop_server.cpp\<close>, over a map from paths to contents.
  \<^item> \<open>ServerState\<close>, \<open>Server\<close>, \<open>ServerLoops\<close>: \<^verbatim>\<open>app/desktop_server\<close>. The record \<open>Server\<close> holds the members of
    \<open>DesktopServer\<close> with the locals of its threads that live across turns; \<open>StartServer\<close>, \<open>stop_request\<close> and
    \<open>stop_finish\<close> (\<open>Stop\<close> before and after its joins), \<open>Reconfigure\<close>, \<open>accept_turn\<close> and \<open>accept_finish\<close>
    (\<open>EstablishSession\<close> before and after the session can be seen), \<open>control_turn\<close>, \<open>input_turn\<close>, \<open>video_turn\<close> and
    \<open>adb_turn\<close> (one turn of each loop) are its steps, collected in \<open>server_step\<close> of \<open>ServerInvariant\<close>.
  \<^item> \<open>Tray\<close>: \<^verbatim>\<open>app/tray_commands.h\<close> and \<^verbatim>\<open>app/tray_main.cpp\<close>, the menu and what choosing an entry does to the server.
  \<^item> \<open>SystemEdge\<close>: what is left of the parts above and mostly asks Windows: reading the pipes of a child process,
    socket timeouts, default paths, the life of the injector, the round trip to adb, the waiting time of the frame pacer
    and \<open>ParseEventLine\<close>.

  \<^bold>\<open>How they interact.\<close> The server's record contains the records of the parts (configuration, input system, adapter,
  pipeline, listeners, adb session), and its steps call their operations as the code does: \<open>accept_turn\<close> uses the
  listeners, \<open>readAuthPreface\<close>, \<open>readFrame\<close>, \<open>EnumerateMonitors\<close> and \<open>ChooseVideoSize\<close>; \<open>accept_finish\<close> starts
  the pipeline and configures mapper, profiles and adapter; \<open>input_turn\<close> runs \<open>adapt\<close> and \<open>process\<close>; \<open>video_turn\<close>
  runs \<open>CaptureOnce\<close>, \<open>EncodeLatest\<close> and the frame writer; \<open>EndSession\<close> runs \<open>on_disconnect\<close>, \<open>lose_channel\<close>
  and \<open>VideoPipeline.Stop\<close>. The calls a pipeline makes to its telemetry sink are applied to the server afterwards.

  \<^bold>\<open>What is shown.\<close>
  \<^item> Codecs: encoding and decoding are inverse to each other and only valid messages are accepted (\<open>Framing\<close>), the
    UTF-8 scanner accepts exactly the encodings of code points (\<open>Utf8\<close>), configuration files, monitor names, command
    lines and telemetry reasons are read back as written (\<open>Config\<close>, \<open>Tray\<close>, \<open>Process\<close>, \<open>Telemetry\<close>).
  \<^item> Streams: reading frames refines the concatenation of frames, failures account for the bytes consumed, and a frame
    is sent exactly once over any number of partial writes (\<open>FramedStream\<close>); over a whole session the video channel
    carries whole frames in order (\<open>VideoChannel\<close>).
  \<^item> Input: mapped points lie on the monitor, phases follow the pointer protocol, pen contact suppresses touch, and a
    disconnect releases keys, buttons and contacts (\<open>Mapper\<close>, \<open>InputAdapter\<close>, \<open>InputSystem\<close>).
  \<^item> Video: the labels of outputs follow the inputs, frames are delivered in order, an output that is there is fetched,
    a loop of outputs ends, encoded sizes fit, the best measured encoder is kept (\<open>H264Trace\<close>, \<open>PipelineTrace\<close>,
    \<open>Resolution\<close>, \<open>H264Choice\<close>).
  \<^item> Adb: only the current token is accepted, stopping is final, a retry connects (\<open>AdbSession\<close>, \<open>SessionAuth\<close>).
  \<^item> Server: every reachable state, for every order of steps and all answers, is well formed (\<open>ServerTypes\<close>), keeps
    the release gate sound and holds nothing without a session (\<open>ServerInvariant\<close>, \<open>ServerSafety\<close>), accounts for every
    socket and every use of Winsock (\<open>ServerSockets\<close>, \<open>SocketBalance\<close>) and gives all back when it stops
    (\<open>ServerStop\<close>); offers fit the client (\<open>Negotiation\<close>); a clock synchronisation is accepted at most once (\<open>ClockSync\<close>).
    \<open>ServerExample\<close> runs a session from the start to its activation and applies these theorems to its states.

  \<^bold>\<open>Bounds and fuel.\<close> Loops that the code bounds are structural or have a measure (at most five outputs a call, 41
  bytes of a preface, the rungs of the ladder, the retries of a write). A loop that waits for the outside runs over the
  list of answers it gets. Where a loop can wait for ever, the authentication preface, it has fuel for the reads it
  makes; the fuel only bounds how long a peer may stay silent: a run that needs more is the result \<open>None\<close>, a step that
  has not ended, and the witnesses show that two reads are enough for a preface that arrives at once. The clocks are
  arguments, with no assumption but where a theorem names one.

  \<^bold>\<open>Not modelled.\<close> Data races are not: a critical section is one step. Windows, Media Foundation, Direct3D, the
  file system and adb itself are arguments, as is what a child process writes. What a theorem assumes of them is a
  hypothesis of it: what \<open>recv\<close> and \<open>send\<close> do, that a write reports no more than it was given, that no handle is
  handed out while it is open. The random generator for tokens, COM plumbing, and the windows, dialogs and message
  pump of the tray are left out, because they only call the system. The Android client, the Kotlin codec, tests, build
  files and packaging are outside the C++ program.
\<close>

end
